(* ===== verification/Go_Prelude.thy ===== *)
theory Go_Prelude
  imports Complex_Main "HOL-Library.AList" "HOL-Library.Multiset"
    "HOL-Library.List_Lexorder" "HOL-Library.Char_ord"
begin

text \<open>
  What the components share: the Go values the gateway computes with (times, 64-bit integers,
  byte strings, maps, sorted slices) and the lemmas about them.

  \<^item> \<open>time\<close> and \<open>duration\<close> are nanoseconds as \<open>int\<close>. A product that the code computes in
    \<open>int64\<close> and that can overflow is written with \<open>wrap64\<close>.
  \<^item> A Go string is a byte string, \<open>string\<close>. The helpers are those of package \<open>strings\<close>.
    \<open>TrimSpace\<close> knows every white space of Unicode in its UTF-8 form; \<open>ToLower\<close> and
    \<open>EqualFold\<close> fold the ASCII letters and leave every other byte as it is.
  \<^item> A Go map is an association list with distinct keys (\<open>map_of\<close>, \<open>AList.update\<close>,
    \<open>AList.delete\<close>); the order of the list stands for the unspecified iteration order.
  \<^item> \<open>sort_slice\<close> is \<open>sort.Slice\<close> and \<open>sort.SliceStable\<close>. The locale \<open>go_less\<close> is the contract
    of a comparator; where a comparator separates the elements, every sorting algorithm gives
    the same slice (\<open>sort_slice_unique\<close>).
\<close>

named_theorems go_string \<open>unfolding of the string helpers\<close>
named_theorems wf_simps \<open>unfolding of well-formedness predicates\<close>

section \<open>Times and machine integers\<close>

type_synonym time = int
type_synonym duration = int
type_synonym ('k, 'v) gomap = "('k \<times> 'v) list"

abbreviation Second :: duration where
  "Second \<equiv> 1000000000"

abbreviation Minute :: duration where
  "Minute \<equiv> 60000000000"

abbreviation Hour :: duration where
  "Hour \<equiv> 3600000000000"

definition zero_time :: time where
  \<comment> \<open>the zero \<open>time.Time\<close>: year 1, before the Unix epoch\<close>
  "zero_time = - 62135596800 * 1000000000"

definition wrap64 :: "int \<Rightarrow> int" where
  "wrap64 x = (x + 2 ^ 63) mod 2 ^ 64 - 2 ^ 63"

lemma wrap64_id: "- (2 ^ 63) \<le> x \<Longrightarrow> x < 2 ^ 63 \<Longrightarrow> wrap64 x = x"
  by (simp add: wrap64_def)

lemma wrap64_range: "- (2 ^ 63) \<le> wrap64 x \<and> wrap64 x < 2 ^ 63"
  using pos_mod_bound [of "2 ^ 64" "x + 2 ^ 63"] pos_mod_sign [of "2 ^ 64" "x + 2 ^ 63"]
  by (simp add: wrap64_def)

section \<open>Byte strings\<close>

definition byte :: "char \<Rightarrow> nat" where
  "byte c = of_char c"

definition HasPrefix :: "string \<Rightarrow> string \<Rightarrow> bool" where
  "HasPrefix s p = (take (length p) s = p)"

fun split_on :: "char \<Rightarrow> string \<Rightarrow> string list" where
  \<comment> \<open>\<open>strings.Split\<close> with a separator of one byte\<close>
  "split_on c [] = [[]]"
| "split_on c (x # xs) =
     (if x = c then [] # split_on c xs else case split_on c xs of y # ys \<Rightarrow> (x # y) # ys | [] \<Rightarrow> [[x]])"

definition TrimPrefix :: "string \<Rightarrow> string \<Rightarrow> string" where
  "TrimPrefix s p = (if HasPrefix s p then drop (length p) s else s)"

definition TrimSuffix :: "string \<Rightarrow> string \<Rightarrow> string" where
  "TrimSuffix s p = rev (TrimPrefix (rev s) (rev p))"

definition TrimRightChar :: "string \<Rightarrow> char \<Rightarrow> string" where
  \<comment> \<open>\<open>strings.TrimRight\<close> with a cutset of one byte\<close>
  "TrimRightChar s c = rev (dropWhile (\<lambda>x. x = c) (rev s))"

fun Contains :: "string \<Rightarrow> string \<Rightarrow> bool" where
  "Contains [] p = (p = [])"
| "Contains (c # s) p = (HasPrefix (c # s) p \<or> Contains s p)"

definition lower_char :: "char \<Rightarrow> char" where
  "lower_char c = (if 65 \<le> byte c \<and> byte c \<le> 90 then char_of (byte c + 32) else c)"

definition ToLower :: "string \<Rightarrow> string" where
  "ToLower s = map lower_char s"

definition EqualFold :: "string \<Rightarrow> string \<Rightarrow> bool" where
  "EqualFold s t = (ToLower s = ToLower t)"

definition wide_space :: "nat \<Rightarrow> nat \<Rightarrow> nat \<Rightarrow> bool" where
  \<comment> \<open>the three-byte encodings of Unicode white space: U+1680, U+2000 to U+200A, U+2028,
     U+2029, U+202F, U+205F and U+3000\<close>
  "wide_space a b c =
     (a = 0xE1 \<and> b = 0x9A \<and> c = 0x80 \<or>
      a = 0xE2 \<and> b = 0x80 \<and> (0x80 \<le> c \<and> c \<le> 0x8A \<or> c = 0xA8 \<or> c = 0xA9 \<or> c = 0xAF) \<or>
      a = 0xE2 \<and> b = 0x81 \<and> c = 0x9F \<or>
      a = 0xE3 \<and> b = 0x80 \<and> c = 0x80)"

definition ascii_space :: "nat \<Rightarrow> bool" where
  "ascii_space a = (9 \<le> a \<and> a \<le> 13 \<or> a = 32)"

definition lead_space :: "(nat \<Rightarrow> nat \<Rightarrow> bool) \<Rightarrow> (nat \<Rightarrow> nat \<Rightarrow> nat \<Rightarrow> bool) \<Rightarrow> string \<Rightarrow> nat" where
  \<comment> \<open>the length of the white space rune a string starts with, 0 if none\<close>
  "lead_space two three s =
     (case map byte s of
        [] \<Rightarrow> 0
      | a # r \<Rightarrow> if ascii_space a then 1 else
        (case r of [] \<Rightarrow> 0
         | b # r2 \<Rightarrow> if two a b then 2 else
           (case r2 of [] \<Rightarrow> 0 | c # _ \<Rightarrow> if three a b c then 3 else 0)))"

lemma lead_space_le: "lead_space f g s \<le> length s"
  by (auto simp: lead_space_def split: list.splits)

function trim_lead :: "(nat \<Rightarrow> nat \<Rightarrow> bool) \<Rightarrow> (nat \<Rightarrow> nat \<Rightarrow> nat \<Rightarrow> bool) \<Rightarrow> string \<Rightarrow> string" where
  "trim_lead f g s =
     (if lead_space f g s = 0 then s else trim_lead f g (drop (lead_space f g s) s))"
  by pat_completeness auto
termination
proof (relation "measure (\<lambda>(f, g, s). length s)")
  fix f g s
  assume "lead_space f g s \<noteq> 0"
  moreover have "lead_space f g [] = 0" by (simp add: lead_space_def)
  ultimately have "s \<noteq> []" and "0 < lead_space f g s" by auto
  then show "((f, g, drop (lead_space f g s) s), (f, g, s)) \<in> measure (\<lambda>(f, g, s). length s)"
    by simp
qed simp

declare trim_lead.simps [simp del]

definition TrimSpace :: "string \<Rightarrow> string" where
  "TrimSpace s =
     (let l = trim_lead (\<lambda>a b. a = 0xC2 \<and> (b = 0x85 \<or> b = 0xA0)) wide_space s
      in rev (trim_lead (\<lambda>b a. a = 0xC2 \<and> (b = 0x85 \<or> b = 0xA0)) (\<lambda>c b a. wide_space a b c)
                (rev l)))"

lemma trim_lead_stops: "lead_space f g (trim_lead f g s) = 0"
proof (induction f g s rule: trim_lead.induct)
  case (1 f g s)
  then show ?case
    by (cases "lead_space f g s = 0")
      (simp_all add: trim_lead.simps [of f g s])
qed

lemma EqualFold_refl [simp]: "EqualFold s s"
  by (simp add: EqualFold_def)

lemma EqualFold_sym: "EqualFold s t \<longleftrightarrow> EqualFold t s"
  by (auto simp: EqualFold_def)

lemma EqualFold_trans: "EqualFold s t \<Longrightarrow> EqualFold t u \<Longrightarrow> EqualFold s u"
  by (simp add: EqualFold_def)

lemma split_on_whole: "c \<notin> set x \<Longrightarrow> split_on c x = [x]"
  by (induction x) auto

lemma split_on_joined:
  assumes "c \<notin> set x" "list_all (\<lambda>y. c \<notin> set y) ys"
  shows "split_on c (x @ concat (map (\<lambda>y. c # y) ys)) = x # ys"
  using assms
proof (induction ys arbitrary: x)
  case Nil
  then show ?case by (simp add: split_on_whole)
next
  case (Cons y ys)
  have "split_on c (y @ concat (map (\<lambda>y. c # y) ys)) = y # ys" using Cons by simp
  with Cons.prems(1) show ?case by (induction x) auto
qed

lemma HasPrefix_length: "HasPrefix s p \<Longrightarrow> length p \<le> length s"
  unfolding HasPrefix_def by (metis length_take min.cobounded1)

lemma HasPrefix_append [simp]: "HasPrefix (p @ s) p"
  by (simp add: HasPrefix_def)

lemma TrimPrefix_append [simp]: "TrimPrefix (p @ s) p = s"
  by (simp add: TrimPrefix_def)

lemma takeWhile_sep:
  assumes "c \<notin> set xs"
  shows "takeWhile (\<lambda>x. x \<noteq> c) (xs @ c # ys) = xs" "dropWhile (\<lambda>x. x \<noteq> c) (xs @ c # ys) = c # ys"
  using assms by (induction xs) auto

lemma append_sep_inject:
  assumes "c \<notin> set xs" "c \<notin> set xs'"
  shows "xs @ c # ys = xs' @ c # ys' \<longleftrightarrow> xs = xs' \<and> ys = ys'"
proof
  assume eq: "xs @ c # ys = xs' @ c # ys'"
  have "xs = xs'"
    using takeWhile_sep(1) [OF assms(1), of ys] takeWhile_sep(1) [OF assms(2), of ys'] eq by simp
  with eq show "xs = xs' \<and> ys = ys'" by simp
qed simp

section \<open>Decimal numbers\<close>

definition digit :: "nat \<Rightarrow> char" where
  "digit n = char_of (48 + n)"

fun show_nat :: "nat \<Rightarrow> string" where
  "show_nat n = (if n < 10 then [digit n] else show_nat (n div 10) @ [digit (n mod 10)])"

declare show_nat.simps [simp del]

definition Itoa :: "int \<Rightarrow> string" where
  "Itoa n = (if n < 0 then CHR ''-'' # show_nat (nat (- n)) else show_nat (nat n))"

definition byte_in :: "nat \<Rightarrow> nat \<Rightarrow> char \<Rightarrow> bool" where
  "byte_in lo hi c \<longleftrightarrow> lo \<le> byte c \<and> byte c \<le> hi"

definition hex_value :: "char \<Rightarrow> nat option" where
  "hex_value ch =
     (let b = byte ch in
      if 48 \<le> b \<and> b \<le> 57 then Some (b - 48) else if 97 \<le> b \<and> b \<le> 102 then Some (b - 87)
      else if 65 \<le> b \<and> b \<le> 70 then Some (b - 55) else None)"

fun digits_value :: "int \<Rightarrow> string \<Rightarrow> int option" where
  "digits_value acc [] = Some acc"
| "digits_value acc (c # cs) = (if byte_in 48 57 c then digits_value (acc * 10 + (int (byte c) - 48)) cs else None)"

definition Atoi :: "string \<Rightarrow> int option" where
  \<comment> \<open>\<open>strconv.Atoi\<close> on a 64-bit platform; an error, whether of syntax or of range, is \<open>None\<close>\<close>
  "Atoi s =
     (let (neg, ds) = (case s of c # cs \<Rightarrow> if c = CHR ''-'' then (True, cs)
                                         else if c = CHR ''+'' then (False, cs) else (False, s)
                               | [] \<Rightarrow> (False, []))
      in if ds = [] then None
         else case digits_value 0 ds of
                None \<Rightarrow> None
              | Some n \<Rightarrow> (let v = (if neg then - n else n)
                           in if - (2 ^ 63) \<le> v \<and> v < 2 ^ 63 then Some v else None))"

lemma byte_digit: "n < 10 \<Longrightarrow> byte (digit n) = 48 + n"
  by (simp add: byte_def digit_def)

lemma show_nat_digits: "c \<in> set (show_nat n) \<Longrightarrow> 48 \<le> byte c \<and> byte c \<le> 57"
proof (induction n rule: show_nat.induct)
  case (1 n)
  then show ?case
    by (subst (asm) show_nat.simps) (auto simp: byte_digit split: if_splits)
qed

lemma show_nat_nonempty: "show_nat n \<noteq> []"
  by (subst show_nat.simps) simp

lemma digits_value_snoc:
  "digits_value acc (cs @ [c]) =
     (case digits_value acc cs of
        None \<Rightarrow> None
      | Some v \<Rightarrow> if byte_in 48 57 c then Some (v * 10 + (int (byte c) - 48)) else None)"
  by (induction cs arbitrary: acc) auto

lemma digits_value_show: "digits_value 0 (show_nat n) = Some (int n)"
proof (induction n rule: show_nat.induct)
  case (1 n)
  show ?case
  proof (cases "n < 10")
    case True
    then show ?thesis by (simp add: show_nat.simps [of n] byte_digit byte_in_def)
  next
    case False
    with 1 show ?thesis
      by (simp add: show_nat.simps [of n] digits_value_snoc byte_digit byte_in_def zdiv_int zmod_int)
  qed
qed

lemma Atoi_Itoa:
  assumes "0 \<le> n" "n < 2 ^ 63"
  shows "Atoi (Itoa n) = Some n"
proof -
  obtain c cs where s: "show_nat (nat n) = c # cs" using show_nat_nonempty by (cases "show_nat (nat n)") auto
  then have "48 \<le> byte c" using show_nat_digits [of c "nat n"] by simp
  then have "c \<noteq> CHR ''-''" "c \<noteq> CHR ''+''" by (auto simp: byte_def)
  then show ?thesis using assms s digits_value_show [of "nat n"] by (simp add: Atoi_def Itoa_def Let_def)
qed

lemma lead_space_ascii:
  assumes "\<forall>c \<in> set s. 33 \<le> byte c \<and> byte c < 128"
    and "\<And>a b. a < 128 \<Longrightarrow> \<not> f a b" "\<And>a b c. a < 128 \<Longrightarrow> \<not> g a b c"
  shows "lead_space f g s = 0"
  using assms by (cases s) (auto simp: lead_space_def ascii_space_def split: list.splits)

lemma TrimSpace_visible:
  assumes "\<forall>c \<in> set s. 33 \<le> byte c \<and> byte c < 128"
  shows "TrimSpace s = s"
proof -
  have "trim_lead (\<lambda>a b. a = 0xC2 \<and> (b = 0x85 \<or> b = 0xA0)) wide_space s = s"
    by (subst trim_lead.simps) (simp add: lead_space_ascii [OF assms] wide_space_def)
  moreover have "trim_lead (\<lambda>b a. a = 0xC2 \<and> (b = 0x85 \<or> b = 0xA0)) (\<lambda>c b a. wide_space a b c) (rev s) = rev s"
    by (subst trim_lead.simps) (simp add: lead_space_ascii [of "rev s"] assms wide_space_def)
  ultimately show ?thesis by (simp add: TrimSpace_def)
qed

lemma TrimSpace_Itoa: "0 \<le> n \<Longrightarrow> TrimSpace (Itoa n) = Itoa n"
  by (rule TrimSpace_visible) (auto simp: Itoa_def dest!: show_nat_digits)

lemma TrimSpace_Nil [simp]: "TrimSpace [] = []"
  by (rule TrimSpace_visible) simp

section \<open>Go maps\<close>

text \<open>
  The map operations are those of \<open>HOL-Library.AList\<close>; these are the facts the components
  use about them.
\<close>

lemma map_of_update [simp]:
  "map_of (AList.update k v m) k' = (if k' = k then Some v else map_of m k')"
  by (simp add: update_conv')

lemma map_of_delete [simp]:
  "map_of (AList.delete k m) k' = (if k' = k then None else map_of m k')"
  by (simp add: delete_conv')

lemma distinct_update_keys [intro]:
  "distinct (map fst m) \<Longrightarrow> distinct (map fst (AList.update k v m))"
  by (rule distinct_update)

lemma distinct_delete_keys [intro]:
  "distinct (map fst m) \<Longrightarrow> distinct (map fst (AList.delete k m))"
  by (rule distinct_delete)

lemma update_values: "x \<in> set (map snd (AList.update k v m)) \<Longrightarrow> x = v \<or> x \<in> set (map snd m)"
  by (induction m) (auto split: if_splits)

lemma delete_values: "x \<in> set (map snd (AList.delete k m)) \<Longrightarrow> x \<in> set (map snd m)"
  by (induction m) (auto split: if_splits)

lemma map_of_value: "map_of m k = Some v \<Longrightarrow> v \<in> set (map snd m)"
  by (induction m) (auto split: if_splits)

lemma map_of_filter_value:
  "distinct (map fst m) \<Longrightarrow>
   map_of (filter (\<lambda>kv. P (fst kv) (snd kv)) m) k =
     (case map_of m k of None \<Rightarrow> None | Some v \<Rightarrow> if P k v then Some v else None)"
proof (induction m)
  case (Cons a m)
  have "map_of m (fst a) = None"
    using Cons.prems by (simp add: map_of_eq_None_iff)
  then show ?case using Cons by (cases a) (auto split: option.splits)
qed simp

lemma distinct_filter_keys [intro]:
  "distinct (map fst m) \<Longrightarrow> distinct (map fst (filter P m))"
  by (induction m) auto

section \<open>Slices: keeping the newest entries, cutting at an index\<close>

definition last_n :: "nat \<Rightarrow> 'a list \<Rightarrow> 'a list" where
  \<comment> \<open>\<open>list[len(list)-n:]\<close> guarded by \<open>len(list) > n\<close>\<close>
  "last_n n xs = (if length xs > n then drop (length xs - n) xs else xs)"

lemma length_last_n: "length (last_n n xs) = min n (length xs)"
  by (simp add: last_n_def)

lemma last_n_append1: "0 < n \<Longrightarrow> last (last_n n (xs @ [x])) = x"
  by (auto simp: last_n_def)

lemma rev_last_n: "rev (last_n n xs) = take n (rev xs)"
  by (simp add: last_n_def take_rev)

lemma last_n_last_n: "last_n n (last_n n xs @ [x]) = last_n n (xs @ [x])"
proof -
  have "rev (last_n n (last_n n xs @ [x])) = rev (last_n n (xs @ [x]))"
    by (cases n) (simp_all add: rev_last_n)
  then show ?thesis by simp
qed

fun remove_first :: "('a \<Rightarrow> bool) \<Rightarrow> 'a list \<Rightarrow> 'a list option" where
  \<comment> \<open>\<open>append(list[:i:i], list[i+1:]...)\<close> for the first matching index\<close>
  "remove_first P [] = None"
| "remove_first P (x # xs) =
     (if P x then Some xs else map_option (Cons x) (remove_first P xs))"

lemma remove_first_None: "remove_first P xs = None \<longleftrightarrow> (\<forall>x \<in> set xs. \<not> P x)"
  by (induction xs) auto

lemma remove_first_Some:
  "remove_first P xs = Some ys \<Longrightarrow>
   \<exists>as x bs. xs = as @ x # bs \<and> ys = as @ bs \<and> P x \<and> (\<forall>a \<in> set as. \<not> P a)"
proof (induction xs arbitrary: ys)
  case (Cons x xs)
  show ?case
  proof (cases "P x")
    case True
    with Cons.prems show ?thesis by (intro exI [of _ "[]"]) auto
  next
    case False
    with Cons.prems obtain zs where zs: "remove_first P xs = Some zs" "ys = x # zs" by auto
    from Cons.IH [OF zs(1)] obtain as y bs where
      "xs = as @ y # bs" "zs = as @ bs" "P y" "\<forall>a \<in> set as. \<not> P a" by blast
    with False zs(2) show ?thesis by (intro exI [of _ "x # as"]) auto
  qed
qed simp

fun update_first :: "('a \<Rightarrow> bool) \<Rightarrow> ('a \<Rightarrow> 'a) \<Rightarrow> 'a list \<Rightarrow> 'a list" where
  \<comment> \<open>mutation through the first matching pointer of a slice\<close>
  "update_first P f [] = []"
| "update_first P f (x # xs) = (if P x then f x # xs else x # update_first P f xs)"

lemma update_first_split:
  "\<exists>x \<in> set xs. P x \<Longrightarrow>
   \<exists>as x bs. xs = as @ x # bs \<and> P x \<and> (\<forall>a \<in> set as. \<not> P a) \<and>
     update_first P f xs = as @ f x # bs"
proof (induction xs)
  case (Cons x xs)
  show ?case
  proof (cases "P x")
    case True
    then show ?thesis by (intro exI [of _ "[]"]) auto
  next
    case False
    with Cons.prems have "\<exists>x \<in> set xs. P x" by auto
    from Cons.IH [OF this] obtain as y bs where
      "xs = as @ y # bs" "P y" "\<forall>a \<in> set as. \<not> P a" "update_first P f xs = as @ f y # bs"
      by blast
    with False show ?thesis by (intro exI [of _ "x # as"]) auto
  qed
qed simp

lemma find_update_split:
  assumes "find P xs = Some y"
  shows "\<exists>as x bs. xs = as @ x # bs \<and> P x \<and> update_first P f xs = as @ f x # bs"
proof -
  have "\<exists>x \<in> set xs. P x" using assms by (metis find_None_iff option.distinct(1))
  from update_first_split [OF this, of f] show ?thesis by blast
qed

lemma map_update_first: "(\<And>x. g (f x) = g x) \<Longrightarrow> map g (update_first P f xs) = map g xs"
  by (induction xs) auto

section \<open>Sorting\<close>

fun insert_by :: "('a \<Rightarrow> 'a \<Rightarrow> bool) \<Rightarrow> 'a \<Rightarrow> 'a list \<Rightarrow> 'a list" where
  "insert_by lt x [] = [x]"
| "insert_by lt x (y # ys) = (if lt y x then y # insert_by lt x ys else x # y # ys)"

definition sort_slice :: "('a \<Rightarrow> 'a \<Rightarrow> bool) \<Rightarrow> 'a list \<Rightarrow> 'a list" where
  \<comment> \<open>stable, so it is \<open>sort.SliceStable\<close>, and one of the results \<open>sort.Slice\<close> may give\<close>
  "sort_slice lt xs = foldr (insert_by lt) xs []"

lemma mset_insert_by [simp]: "mset (insert_by lt x xs) = add_mset x (mset xs)"
  by (induction xs) auto

lemma mset_sort_slice [simp]: "mset (sort_slice lt xs) = mset xs"
  by (induction xs) (auto simp: sort_slice_def)

lemma set_sort_slice [simp]: "set (sort_slice lt xs) = set xs"
  by (metis mset_sort_slice set_mset_mset)

lemma length_sort_slice [simp]: "length (sort_slice lt xs) = length xs"
  by (metis mset_sort_slice size_mset)

lemma set_insert_by [simp]: "set (insert_by lt x xs) = insert x (set xs)"
  by (induction xs) auto

locale go_less =
  fixes lt :: "'a \<Rightarrow> 'a \<Rightarrow> bool"
  assumes irrefl: "\<not> lt x x"
    and trans: "lt x y \<Longrightarrow> lt y z \<Longrightarrow> lt x z"
    and neg_trans: "\<not> lt x y \<Longrightarrow> \<not> lt y z \<Longrightarrow> \<not> lt x z"
begin

lemma asym: "lt x y \<Longrightarrow> \<not> lt y x"
  using irrefl trans by blast

lemma sorted_insert_by:
  "sorted_wrt (\<lambda>a b. \<not> lt b a) xs \<Longrightarrow> sorted_wrt (\<lambda>a b. \<not> lt b a) (insert_by lt x xs)"
proof (induction xs)
  case (Cons y ys)
  show ?case
  proof (cases "lt y x")
    case True
    with Cons show ?thesis by (auto dest: asym)
  next
    case False
    with Cons.prems show ?thesis by (auto dest: neg_trans)
  qed
qed simp

lemma sorted_sort_slice: "sorted_wrt (\<lambda>a b. \<not> lt b a) (sort_slice lt xs)"
  by (induction xs) (auto simp: sort_slice_def sorted_insert_by)

lemma sorted_unique:
  "mset xs = mset ys \<Longrightarrow>
   sorted_wrt (\<lambda>a b. \<not> lt b a) xs \<Longrightarrow> sorted_wrt (\<lambda>a b. \<not> lt b a) ys \<Longrightarrow>
   (\<And>a b. a \<in> set xs \<Longrightarrow> b \<in> set xs \<Longrightarrow> \<not> lt a b \<Longrightarrow> \<not> lt b a \<Longrightarrow> a = b) \<Longrightarrow> xs = ys"
proof (induction xs arbitrary: ys)
  case (Cons x xs)
  from Cons.prems(1) obtain y ys' where ys: "ys = y # ys'" by (cases ys) auto
  have sets: "set (x # xs) = set ys" using Cons.prems(1) by (metis set_mset_mset)
  have "\<not> lt y x" if "y \<noteq> x"
  proof -
    from sets ys that have "y \<in> set xs" by auto
    with Cons.prems(2) show ?thesis by auto
  qed
  moreover have "\<not> lt x y" if "y \<noteq> x"
  proof -
    from sets ys that have "x \<in> set ys'" by auto
    with Cons.prems(3) ys show ?thesis by auto
  qed
  moreover from sets ys have "y \<in> set (x # xs)" by auto
  ultimately have xy: "x = y" using Cons.prems(4) [of x y] by (cases "y = x") auto
  have "mset xs = mset ys'" using Cons.prems(1) ys xy by simp
  then have "xs = ys'"
    using Cons.prems(2,3,4) ys by (intro Cons.IH) auto
  with xy ys show ?case by simp
qed simp

text \<open>Where the comparator separates the elements, the result does not depend on the order
  the elements were collected in, nor on the sorting algorithm.\<close>

lemma sort_slice_unique:
  assumes "mset ys = mset xs" "sorted_wrt (\<lambda>a b. \<not> lt b a) ys"
    and "\<And>a b. a \<in> set xs \<Longrightarrow> b \<in> set xs \<Longrightarrow> \<not> lt a b \<Longrightarrow> \<not> lt b a \<Longrightarrow> a = b"
  shows "ys = sort_slice lt xs"
proof -
  have "set ys = set xs" using assms(1) by (metis set_mset_mset)
  then show ?thesis
    using assms by (intro sorted_unique) (auto intro: sorted_sort_slice)
qed

lemma sort_slice_mset:
  assumes "mset ys = mset xs"
    and "\<And>a b. a \<in> set xs \<Longrightarrow> b \<in> set xs \<Longrightarrow> \<not> lt a b \<Longrightarrow> \<not> lt b a \<Longrightarrow> a = b"
  shows "sort_slice lt ys = sort_slice lt xs"
  using assms by (intro sort_slice_unique) (auto simp: sorted_sort_slice)

end

text \<open>A comparator that compares a key in a linear order meets the contract.\<close>

lemma go_less_key: "go_less (\<lambda>x y. key x < (key y :: 'k :: linorder))"
  by unfold_locales auto

lemma go_less_key2:
  "go_less (\<lambda>x y. if key x \<noteq> key y then key x < (key y :: 'k :: linorder)
                  else key' x < (key' y :: 'l :: linorder))"
  by unfold_locales (auto split: if_splits)

text \<open>The comparator of a name or of an id, used by most lists of the store.\<close>

interpretation str_less: go_less "\<lambda>x y :: string. x < y"
  by unfold_locales auto

end
