(* ===== verification/Observability.thy ===== *)
theory Observability
  imports Go_Prelude
begin

text \<open>
  The observability surface: the series of \<open>gateway/internal/obs/metrics.go\<close> and the log levels of \<open>gateway/internal/obs/log.go\<close>.

  A write to a series is a \<open>metric_event\<close>: the field of \<open>Metrics\<close> it goes to, its label values and its amount. The
  Prometheus client panics when the number of label values is not the number of labels the series was registered with,
  and when a counter is given a negative amount; \<open>metric_ok\<close> says that neither happens.
\<close>

section \<open>Series\<close>

type_synonym metric_event = "string \<times> string list \<times> rat" \<comment> \<open>series, labels, amount\<close>

datatype metric_kind = CounterVec | HistogramVec | GaugeVec

record metric_desc =
  md_kind :: metric_kind
  md_name :: string
  md_labels :: "string list"

definition NewMetrics :: "(string, metric_desc) gomap" where
  \<comment> \<open>what is registered, by the field of \<open>Metrics\<close> that holds it\<close>
  "NewMetrics =
     [(''requests'', \<lparr> md_kind = CounterVec, md_name = ''cognigate_requests_total'',
         md_labels = [''tenant'', ''provider'', ''model'', ''route'', ''code''] \<rparr>),
      (''request_duration'', \<lparr> md_kind = HistogramVec, md_name = ''cognigate_request_duration_seconds'',
         md_labels = [''tenant'', ''provider'', ''route''] \<rparr>),
      (''upstream_duration'', \<lparr> md_kind = HistogramVec, md_name = ''cognigate_upstream_duration_seconds'',
         md_labels = [''provider'', ''model''] \<rparr>),
      (''tokens'', \<lparr> md_kind = CounterVec, md_name = ''cognigate_tokens_total'',
         md_labels = [''tenant'', ''provider'', ''model'', ''direction''] \<rparr>),
      (''cost'', \<lparr> md_kind = CounterVec, md_name = ''cognigate_cost_usd_total'',
         md_labels = [''tenant'', ''provider'', ''model''] \<rparr>),
      (''fallback_cascades'', \<lparr> md_kind = CounterVec, md_name = ''cognigate_fallback_cascades_total'',
         md_labels = [''tenant'', ''from_model'', ''to_model'', ''reason''] \<rparr>),
      (''breaker_state'', \<lparr> md_kind = GaugeVec, md_name = ''cognigate_breaker_state'',
         md_labels = [''tenant'', ''provider'', ''model''] \<rparr>),
      (''quota_state'', \<lparr> md_kind = GaugeVec, md_name = ''cognigate_quota_state'', md_labels = [''tenant'', ''window'', ''unit''] \<rparr>),
      (''telemetry_dropped'', \<lparr> md_kind = CounterVec, md_name = ''cognigate_telemetry_dropped_total'', md_labels = [] \<rparr>)]"

definition metric_ok :: "metric_event \<Rightarrow> bool" where
  "metric_ok e =
     (case e of (series, labels, x) \<Rightarrow>
        (case map_of NewMetrics series of
           None \<Rightarrow> False
         | Some d \<Rightarrow> length labels = length (md_labels d) \<and> (md_kind d = CounterVec \<longrightarrow> 0 \<le> x)))"

definition metrics_ok :: "metric_event list option \<Rightarrow> bool" where
  \<comment> \<open>\<open>None\<close>: metrics are off\<close>
  "metrics_ok ms = (case ms of None \<Rightarrow> True | Some es \<Rightarrow> list_all metric_ok es)"

definition TokenKindPrompt :: string where
  "TokenKindPrompt = ''prompt''"

definition TokenKindCompletion :: string where
  "TokenKindCompletion = ''completion''"

section \<open>The age of the catalogs\<close>

record CatalogAgeSample =
  cas_Tenant :: string
  cas_Provider :: string
  cas_Seconds :: rat

type_synonym catalogAgeCollector = "(unit \<Rightarrow> CatalogAgeSample list) option" \<comment> \<open>\<open>source\<close>\<close>

definition SetCatalogAgeSource :: "(unit \<Rightarrow> CatalogAgeSample list) \<Rightarrow> catalogAgeCollector \<Rightarrow> catalogAgeCollector" where
  "SetCatalogAgeSource fn c = Some fn"

definition Collect_ages :: "catalogAgeCollector \<Rightarrow> (string list \<times> rat) list" where
  \<comment> \<open>the samples sent on a scrape: label values and value\<close>
  "Collect_ages c =
     (case c of None \<Rightarrow> [] | Some source \<Rightarrow> map (\<lambda>s. ([cas_Tenant s, cas_Provider s], cas_Seconds s)) (source ()))"

section \<open>Levels\<close>

datatype slog_level = LevelDebug | LevelInfo | LevelWarn | LevelError

definition ParseLevel :: "string \<Rightarrow> slog_level" where
  "ParseLevel level =
     (let l = ToLower (TrimSpace level) in
      if l = ''debug'' then LevelDebug
      else if l = ''warn'' \<or> l = ''warning'' then LevelWarn
      else if l = ''error'' then LevelError
      else LevelInfo)"

definition log_key :: "string list \<Rightarrow> string \<Rightarrow> string" where
  \<comment> \<open>\<open>ReplaceAttr\<close> of \<open>newHandler\<close>: the groups an attribute is in, and its key\<close>
  "log_key groups key = (if groups = [] \<and> key = ''time'' then ''ts'' else key)"

section \<open>Writes that do not panic\<close>

lemma metrics_ok_add: "metrics_ok (map_option (\<lambda>es. es @ [e]) ms) \<longleftrightarrow> metrics_ok ms \<and> (ms \<noteq> None \<longrightarrow> metric_ok e)"
  by (cases ms) (auto simp: metrics_ok_def)

lemma metric_ok_series:
  "metric_ok (''requests'', labels, x) \<longleftrightarrow> length labels = 5 \<and> 0 \<le> x"
  "metric_ok (''request_duration'', labels, x) \<longleftrightarrow> length labels = 3"
  "metric_ok (''upstream_duration'', labels, x) \<longleftrightarrow> length labels = 2"
  "metric_ok (''tokens'', labels, x) \<longleftrightarrow> length labels = 4 \<and> 0 \<le> x"
  "metric_ok (''cost'', labels, x) \<longleftrightarrow> length labels = 3 \<and> 0 \<le> x"
  "metric_ok (''fallback_cascades'', labels, x) \<longleftrightarrow> length labels = 4 \<and> 0 \<le> x"
  "metric_ok (''breaker_state'', labels, x) \<longleftrightarrow> length labels = 3"
  by (auto simp: metric_ok_def NewMetrics_def)

text \<open>The published names are distinct, so registering them cannot panic either.\<close>

lemma metric_names_distinct: "distinct (map (md_name \<circ> snd) NewMetrics)" "distinct (map fst NewMetrics)"
  by (simp_all add: NewMetrics_def)

end
