(* ===== verification/Api_Errors.thy ===== *)
theory Api_Errors
  imports Go_Prelude
begin

text \<open>
  The error contract: \<open>gateway/internal/apierr/apierr.go\<close>.

  A Go error is a value of \<open>goerr\<close>: one of the sentinels, an error of
  Fiber's own with its status, a formatted text (\<open>fmt.Errorf\<close>), text around another error (\<open>%w\<close>), or an
  \<open>*apierr.Error\<close>, whose cause is again an error. A message is kept as its format and its arguments;
  what \<open>fmt.Sprintf\<close> renders is not modelled.
\<close>

section \<open>Errors\<close>

datatype farg = FStr string | FInt int | FFloat rat

type_synonym msg = "string \<times> farg list"

record Attempt =
  at_Provider :: string
  at_Model :: string
  at_Failure :: string
  at_Status :: int

datatype goerr =
    Sentinel string
  | FiberErr int
  | Errorf msg
  | Wrapf msg goerr
  | StatusErr string int string \<comment> \<open>\<open>*analytics.StatusError\<close>: operation, status, body\<close>
  | ApiErr apiError
and apiError =
    ApiError (e_Status: int) (e_Type: string) (e_Code: string) (e_Msg: msg) (e_Param: string)
      (e_Wrapped: "goerr option") (e_Attempts: "Attempt list") (e_RetryAfterSeconds: int)

definition ErrNotFound :: goerr where
  "ErrNotFound = Sentinel ''store: not found''"

definition ErrConflict :: goerr where
  "ErrConflict = Sentinel ''store: conflict''"

fun errors_Is :: "goerr \<Rightarrow> goerr \<Rightarrow> bool" where
  "errors_Is (Sentinel s) t = (Sentinel s = t)"
| "errors_Is (FiberErr n) t = (FiberErr n = t)"
| "errors_Is (Errorf m) t = (Errorf m = t)"
| "errors_Is (StatusErr op st bd) t = (StatusErr op st bd = t)"
| "errors_Is (Wrapf s e) t = (Wrapf s e = t \<or> errors_Is e t)"
| "errors_Is (ApiErr (ApiError st ty co ms pa (Some w) ats ra)) t =
     (ApiErr (ApiError st ty co ms pa (Some w) ats ra) = t \<or> errors_Is w t)"
| "errors_Is (ApiErr e) t = (ApiErr e = t)"

definition TypeInvalidRequest :: string where
  "TypeInvalidRequest = ''invalid_request_error''"

definition TypeAuthentication :: string where
  "TypeAuthentication = ''authentication_error''"

definition TypeRateLimit :: string where
  "TypeRateLimit = ''rate_limit_error''"

definition TypeAPI :: string where
  "TypeAPI = ''api_error''"

lemmas error_types = TypeInvalidRequest_def TypeAuthentication_def TypeRateLimit_def TypeAPI_def

text \<open>The codes with the statuses the constant block groups them under.\<close>

definition registry :: "(int \<times> string) list" where
  "registry =
    [(401, ''invalid_api_key''), (401, ''wrong_plane''),
     (400, ''invalid_request''), (400, ''fallback_duplicate_model''),
     (400, ''capture_ttl_too_long''), (400, ''unsupported_parameter''),
     (403, ''insufficient_scope''),
     (404, ''model_not_found''), (404, ''alias_unresolvable''), (404, ''not_supported''),
     (404, ''resource_not_found''),
     (409, ''alias_collides_with_model''), (409, ''conflict''),
     (413, ''request_too_large''),
     (429, ''rate_limited''), (429, ''concurrency_exceeded''), (429, ''quota_exceeded''),
     (429, ''budget_exceeded''),
     (502, ''upstream_exhausted''), (502, ''response_too_large''), (502, ''upstream_error''),
     (503, ''service_unavailable''), (504, ''gateway_timeout'')]"

section \<open>Constructors\<close>

definition newErr :: "int \<Rightarrow> string \<Rightarrow> string \<Rightarrow> msg \<Rightarrow> apiError" where
  "newErr status typ code m = ApiError status typ code m [] None [] 0"

definition WithParam :: "apiError \<Rightarrow> string \<Rightarrow> apiError" where
  "WithParam e param =
     ApiError (e_Status e) (e_Type e) (e_Code e) (e_Msg e) param (e_Wrapped e) (e_Attempts e)
       (e_RetryAfterSeconds e)"

definition WithCause :: "apiError \<Rightarrow> goerr \<Rightarrow> apiError" where
  "WithCause e err =
     ApiError (e_Status e) (e_Type e) (e_Code e) (e_Msg e) (e_Param e) (Some err) (e_Attempts e)
       (e_RetryAfterSeconds e)"

definition WithAttempts :: "apiError \<Rightarrow> Attempt list \<Rightarrow> apiError" where
  "WithAttempts e ats =
     ApiError (e_Status e) (e_Type e) (e_Code e) (e_Msg e) (e_Param e) (e_Wrapped e) ats
       (e_RetryAfterSeconds e)"

definition ceil_seconds :: "duration \<Rightarrow> int" where
  \<comment> \<open>\<open>math.Ceil(d.Seconds())\<close>\<close>
  "ceil_seconds d = - ((- d) div Second)"

definition WithRetryAfter :: "apiError \<Rightarrow> duration \<Rightarrow> apiError" where
  "WithRetryAfter e d =
     (let secs = ceil_seconds d;
          secs1 = (if secs < 1 then 1 else secs)
      in ApiError (e_Status e) (e_Type e) (e_Code e) (e_Msg e) (e_Param e) (e_Wrapped e)
           (e_Attempts e) secs1)"

definition InvalidAPIKey :: apiError where
  "InvalidAPIKey = newErr 401 TypeAuthentication ''invalid_api_key'' (''Invalid API key provided.'', [])"

definition WrongPlane :: "string \<Rightarrow> apiError" where
  "WrongPlane want = newErr 401 TypeAuthentication ''wrong_plane''
     (''This endpoint requires a %s key.'', [FStr want])"

definition InvalidRequest :: "msg \<Rightarrow> apiError" where
  "InvalidRequest m = newErr 400 TypeInvalidRequest ''invalid_request'' m"

definition FallbackDuplicate :: "string \<Rightarrow> apiError" where
  "FallbackDuplicate model = newErr 400 TypeInvalidRequest ''fallback_duplicate_model''
     (''Model %q appears more than once in the fallback chain.'', [FStr model])"

definition CaptureTTLTooLong :: "int \<Rightarrow> apiError" where
  "CaptureTTLTooLong maxHours = newErr 400 TypeInvalidRequest ''capture_ttl_too_long''
     (''Debug capture ttl must not exceed %d hours.'', [FInt maxHours])"

definition UnsupportedParameter :: "string \<Rightarrow> apiError" where
  "UnsupportedParameter param = WithParam (newErr 400 TypeInvalidRequest ''unsupported_parameter''
     (''Parameter %q is not supported by the resolved model.'', [FStr param])) param"

definition InsufficientScope :: apiError where
  "InsufficientScope = newErr 403 TypeInvalidRequest ''insufficient_scope''
     (''This admin key is not scoped to the requested tenant.'', [])"

definition ModelNotFound :: "string \<Rightarrow> apiError" where
  "ModelNotFound model = WithParam (newErr 404 TypeInvalidRequest ''model_not_found''
     (''The model %q does not exist or you do not have access to it.'', [FStr model])) ''model''"

definition AliasUnresolvable :: "string \<Rightarrow> apiError" where
  "AliasUnresolvable al = WithParam (newErr 404 TypeInvalidRequest ''alias_unresolvable''
     (''The alias %q resolved to no available model.'', [FStr al])) ''model''"

definition NotSupported :: "string \<Rightarrow> apiError" where
  "NotSupported path = newErr 404 TypeInvalidRequest ''not_supported''
     (''%s is not implemented by this gateway.'', [FStr path])"

definition ResourceNotFound :: "string \<Rightarrow> string \<Rightarrow> apiError" where
  "ResourceNotFound kind rid = newErr 404 TypeInvalidRequest ''resource_not_found''
     (''No %s with id %q.'', [FStr kind, FStr rid])"

definition AliasCollides :: "string \<Rightarrow> apiError" where
  "AliasCollides name = WithParam (newErr 409 TypeInvalidRequest ''alias_collides_with_model''
     (''The alias %q collides with a real model id in the catalog.'', [FStr name])) ''name''"

definition Conflict :: "msg \<Rightarrow> apiError" where
  "Conflict m = newErr 409 TypeInvalidRequest ''conflict'' m"

definition RequestTooLarge :: "int \<Rightarrow> apiError" where
  "RequestTooLarge limit = newErr 413 TypeInvalidRequest ''request_too_large''
     (''Request body exceeds the %d byte limit.'', [FInt limit])"

definition RateLimited :: apiError where
  "RateLimited = newErr 429 TypeRateLimit ''rate_limited''
     (''Rate limit exceeded. Retry after the interval in the Retry-After header.'', [])"

definition ConcurrencyExceeded :: "int \<Rightarrow> apiError" where
  "ConcurrencyExceeded limit = newErr 429 TypeRateLimit ''concurrency_exceeded''
     (''Too many concurrent requests for this key (limit %d).'', [FInt limit])"

definition QuotaExceeded :: apiError where
  "QuotaExceeded = newErr 429 TypeRateLimit ''quota_exceeded''
     (''Token quota exhausted for the current period.'', [])"

definition BudgetExceeded :: apiError where
  "BudgetExceeded = newErr 429 TypeRateLimit ''budget_exceeded''
     (''Spend budget exhausted for the current period.'', [])"

definition UpstreamExhausted :: "int \<Rightarrow> apiError" where
  "UpstreamExhausted attempts = newErr 502 TypeAPI ''upstream_exhausted''
     (''All %d routing candidates failed.'', [FInt attempts])"

definition ResponseTooLarge :: "int \<Rightarrow> apiError" where
  "ResponseTooLarge limit = newErr 502 TypeAPI ''response_too_large''
     (''Upstream response exceeds the %d byte limit.'', [FInt limit])"

definition UpstreamError :: "msg \<Rightarrow> apiError" where
  "UpstreamError m = newErr 502 TypeAPI ''upstream_error'' m"

definition Unavailable :: "msg \<Rightarrow> apiError" where
  "Unavailable m = newErr 503 TypeAPI ''service_unavailable'' m"

definition GatewayTimeout :: "rat \<Rightarrow> apiError" where
  "GatewayTimeout seconds = newErr 504 TypeAPI ''gateway_timeout''
     (''The request exceeded the %.0fs gateway timeout.'', [FFloat seconds])"

fun err_as :: "goerr \<Rightarrow> apiError option" where
  \<comment> \<open>\<open>errors.As\<close> for \<open>*apierr.Error\<close>: the first one down the chain\<close>
  "err_as (Sentinel s) = None"
| "err_as (FiberErr n) = None"
| "err_as (Errorf m) = None"
| "err_as (StatusErr op st bd) = None"
| "err_as (Wrapf s e) = err_as e"
| "err_as (ApiErr e) = Some e"

definition From :: "goerr \<Rightarrow> apiError" where
  "From err = (case err_as err of
       Some e \<Rightarrow> e
     | None \<Rightarrow> ApiError 500 TypeAPI ''internal_error''
         (''The gateway encountered an internal error.'', []) [] (Some err) [] 0)"


lemmas api_constructors =
  InvalidAPIKey_def WrongPlane_def InvalidRequest_def FallbackDuplicate_def CaptureTTLTooLong_def
  UnsupportedParameter_def InsufficientScope_def ModelNotFound_def AliasUnresolvable_def
  NotSupported_def ResourceNotFound_def AliasCollides_def Conflict_def RequestTooLarge_def
  RateLimited_def ConcurrencyExceeded_def QuotaExceeded_def BudgetExceeded_def
  UpstreamExhausted_def ResponseTooLarge_def UpstreamError_def Unavailable_def GatewayTimeout_def

section \<open>Rendering\<close>

record Body =
  bd_Message :: msg
  bd_Type :: string
  bd_Code :: string
  bd_Param :: "string option"
  bd_RequestID :: string
  bd_Attempts :: "Attempt list"

definition Envelope :: "apiError \<Rightarrow> string \<Rightarrow> Body" where
  "Envelope e requestID =
     \<lparr> bd_Message = e_Msg e, bd_Type = e_Type e, bd_Code = e_Code e,
       bd_Param = (if e_Param e \<noteq> [] then Some (e_Param e) else None),
       bd_RequestID = requestID, bd_Attempts = e_Attempts e \<rparr>"

section \<open>What the contract promises\<close>

inductive built :: "apiError \<Rightarrow> bool" where
  \<comment> \<open>the errors the constructors of the package can make\<close>
  "e \<in> {InvalidAPIKey, InsufficientScope, RateLimited, QuotaExceeded, BudgetExceeded} \<Longrightarrow> built e"
| "e \<in> {WrongPlane s, FallbackDuplicate s, UnsupportedParameter s, ModelNotFound s,
        AliasUnresolvable s, NotSupported s, ResourceNotFound s s', AliasCollides s} \<Longrightarrow> built e"
| "e \<in> {InvalidRequest m, Conflict m, UpstreamError m, Unavailable m} \<Longrightarrow> built e"
| "e \<in> {CaptureTTLTooLong n, RequestTooLarge n, ConcurrencyExceeded n, UpstreamExhausted n,
        ResponseTooLarge n, GatewayTimeout x} \<Longrightarrow> built e"
| "built e \<Longrightarrow> built (WithParam e p)"
| "built e \<Longrightarrow> built (WithCause e err)"
| "built e \<Longrightarrow> built (WithAttempts e ats)"
| "built e \<Longrightarrow> built (WithRetryAfter e d)"

lemma With_fields [simp]:
  "e_Status (WithParam e p) = e_Status e" "e_Code (WithParam e p) = e_Code e"
  "e_Type (WithParam e p) = e_Type e" "e_Param (WithParam e p) = p"
  "e_RetryAfterSeconds (WithParam e p) = e_RetryAfterSeconds e"
  "e_Status (WithCause e w) = e_Status e" "e_Code (WithCause e w) = e_Code e"
  "e_Type (WithCause e w) = e_Type e" "e_Attempts (WithCause e w) = e_Attempts e"
  "e_RetryAfterSeconds (WithCause e w) = e_RetryAfterSeconds e"
  "e_Status (WithAttempts e a) = e_Status e" "e_Code (WithAttempts e a) = e_Code e"
  "e_Type (WithAttempts e a) = e_Type e" "e_Attempts (WithAttempts e a) = a"
  "e_RetryAfterSeconds (WithAttempts e a) = e_RetryAfterSeconds e"
  "e_Status (WithRetryAfter e d) = e_Status e" "e_Code (WithRetryAfter e d) = e_Code e"
  "e_Type (WithRetryAfter e d) = e_Type e"
  by (simp_all add: WithParam_def WithCause_def WithAttempts_def WithRetryAfter_def Let_def)

lemma ceil_seconds_bounds:
  "d \<le> ceil_seconds d * Second \<and> ceil_seconds d * Second < d + Second"
proof -
  have "- d = Second * ((- d) div Second) + (- d) mod Second" by simp
  moreover have "0 \<le> (- d) mod Second" "(- d) mod Second < Second" by simp_all
  ultimately show ?thesis unfolding ceil_seconds_def by linarith
qed

definition registered :: "int \<Rightarrow> string \<Rightarrow> string \<Rightarrow> bool" where
  "registered status typ code \<longleftrightarrow>
     (status, code) \<in> set registry \<and>
     typ \<in> {TypeInvalidRequest, TypeAuthentication, TypeRateLimit, TypeAPI} \<and>
     (status = 429 \<longleftrightarrow> typ = TypeRateLimit)"

lemma registered_pairs:
  "registered 401 TypeAuthentication ''invalid_api_key''"
  "registered 401 TypeAuthentication ''wrong_plane''"
  "registered 400 TypeInvalidRequest ''invalid_request''"
  "registered 400 TypeInvalidRequest ''fallback_duplicate_model''"
  "registered 400 TypeInvalidRequest ''capture_ttl_too_long''"
  "registered 400 TypeInvalidRequest ''unsupported_parameter''"
  "registered 403 TypeInvalidRequest ''insufficient_scope''"
  "registered 404 TypeInvalidRequest ''model_not_found''"
  "registered 404 TypeInvalidRequest ''alias_unresolvable''"
  "registered 404 TypeInvalidRequest ''not_supported''"
  "registered 404 TypeInvalidRequest ''resource_not_found''"
  "registered 409 TypeInvalidRequest ''alias_collides_with_model''"
  "registered 409 TypeInvalidRequest ''conflict''"
  "registered 413 TypeInvalidRequest ''request_too_large''"
  "registered 429 TypeRateLimit ''rate_limited''"
  "registered 429 TypeRateLimit ''concurrency_exceeded''"
  "registered 429 TypeRateLimit ''quota_exceeded''"
  "registered 429 TypeRateLimit ''budget_exceeded''"
  "registered 502 TypeAPI ''upstream_exhausted''"
  "registered 502 TypeAPI ''response_too_large''"
  "registered 502 TypeAPI ''upstream_error''"
  "registered 503 TypeAPI ''service_unavailable''"
  "registered 504 TypeAPI ''gateway_timeout''"
  by code_simp+

lemma built_registered: "built e \<Longrightarrow> registered (e_Status e) (e_Type e) (e_Code e)"
  by (induction rule: built.induct)
    (auto simp: api_constructors newErr_def registered_pairs)

text \<open>The registry is closed: every error the constructors can build, with any parameter, cause,
  attempts or wait attached to it, has a (status, code) pair of the registry and one of the four
  envelope types, and a 429 is always of the rate-limit type.\<close>

theorem registry_closed:
  assumes "built e"
  shows "(e_Status e, e_Code e) \<in> set registry \<and>
    e_Type e \<in> {TypeInvalidRequest, TypeAuthentication, TypeRateLimit, TypeAPI} \<and>
    (e_Status e = 429 \<longleftrightarrow> e_Type e = TypeRateLimit)"
  using built_registered [OF assms] by (simp add: registered_def)

theorem registry_closed_witness:
  "(429, ''budget_exceeded'') \<in> set registry"
proof -
  have "built (WithRetryAfter BudgetExceeded 1500000000)" by (intro built.intros) simp
  from registry_closed [OF this] show ?thesis by (simp add: BudgetExceeded_def newErr_def)
qed

text \<open>\<open>WithRetryAfter\<close> never tells a caller to come back early or at once: the published number of
  seconds is at least one, covers the whole wait, and is less than a second longer than it unless it
  is the minimum of one second.\<close>

theorem retry_after_covers_wait:
  "1 \<le> e_RetryAfterSeconds (WithRetryAfter e d) \<and>
   d \<le> e_RetryAfterSeconds (WithRetryAfter e d) * Second \<and>
   (e_RetryAfterSeconds (WithRetryAfter e d) = 1 \<or>
    e_RetryAfterSeconds (WithRetryAfter e d) * Second < d + Second)"
  using ceil_seconds_bounds [of d] by (auto simp: WithRetryAfter_def Let_def)

end
