(* ===== verification/Store_Types.thy ===== *)
theory Store_Types
  imports Api_Errors
begin

text \<open>
  The stored types and the credential format: \<open>gateway/internal/store/types.go\<close> and
  \<open>gateway/internal/store/keys.go\<close>. Dollar figures, caps and sample rates are \<open>float64\<close> in the code and
  rationals here. A pointer field that may be nil is an \<open>option\<close>. The random bytes behind an id or a
  credential are arguments of the operations that mint them, and SHA-256 is the argument \<open>sha256hex\<close>.
\<close>

section \<open>Types\<close>

type_synonym Plane = string

definition PlaneData :: Plane where
  "PlaneData = ''data''"

definition PlaneAdmin :: Plane where
  "PlaneAdmin = ''admin''"

definition DataKeyPrefix :: string where
  "DataKeyPrefix = ''cg-''"

definition AdminKeyPrefix :: string where
  "AdminKeyPrefix = ''cga-''"

definition ScopeRoot :: string where
  "ScopeRoot = ''root''"

record TenantDebugCapture =
  dc_Enabled :: bool
  dc_TTLSeconds :: int
  dc_SampleRate :: rat

record TenantCache =
  tc_Enabled :: bool
  tc_TTLSeconds :: int

record TenantLimits =
  tl_MaxRequestBytes :: int
  tl_RequestTimeoutSeconds :: int
  tl_StreamIdleTimeoutSeconds :: int
  tl_MaxConcurrentPerKey :: int
  tl_RequestsPerSecond :: int
  tl_BurstCapacity :: int
  tl_RequestsPerMinute :: int

record Tenant =
  t_ID :: string
  t_Name :: string
  t_Status :: string
  t_CreatedAt :: time
  t_Limits :: TenantLimits
  t_Cache :: TenantCache
  t_DebugCapture :: TenantDebugCapture
  t_SystemInstruction :: string

record TenantPatch =
  tp_Name :: "string option"
  tp_Status :: "string option"
  tp_Limits :: "TenantLimits option"
  tp_Cache :: "TenantCache option"
  tp_DebugCapture :: "TenantDebugCapture option"
  tp_SystemInstruction :: "string option"

record APIKey =
  k_ID :: string
  k_TenantID :: string
  k_Plane :: Plane
  k_Name :: string
  k_Prefix :: string
  k_Hash :: string
  k_Scope :: string
  k_CreatedAt :: time
  k_ExpiresAt :: "time option"
  k_RevokedAt :: "time option"

definition Active :: "APIKey \<Rightarrow> time \<Rightarrow> bool" where
  "Active k now =
     (if k_RevokedAt k \<noteq> None then False
      else case k_ExpiresAt k of
             Some ex \<Rightarrow> \<not> ex < now
           | None \<Rightarrow> True)"

record Provider =
  p_ID :: string
  p_TenantID :: string
  p_Name :: string
  p_Kind :: string
  p_BaseURL :: string
  p_Enabled :: bool
  p_KeyStrategy :: string
  p_Keys :: "string list"
  p_KeyPrefixes :: "string list"
  p_CreatedAt :: time

definition KeyStrategyRoundRobin :: string where
  "KeyStrategyRoundRobin = ''round_robin''"

definition KeyStrategyFailover :: string where
  "KeyStrategyFailover = ''failover''"

definition ValidKeyStrategy :: "string \<Rightarrow> bool" where
  "ValidKeyStrategy s \<longleftrightarrow> s = [] \<or> s = KeyStrategyRoundRobin \<or> s = KeyStrategyFailover"

record ProviderPatch =
  pp_BaseURL :: "string option"
  pp_Enabled :: "bool option"
  pp_KeyStrategy :: "string option"
  pp_Keys :: "string list option" \<comment> \<open>\<open>None\<close> is the nil slice\<close>

record AuditEntry =
  au_ID :: string
  au_At :: time
  au_Actor :: string
  au_ActorKeyID :: string
  au_ActorScope :: string
  au_Action :: string
  au_Resource :: string
  au_TenantID :: string
  au_Status :: int
  au_RequestID :: string

record Event =
  ev_ID :: string
  ev_Type :: string
  ev_Created :: time
  ev_TenantID :: string
  ev_Data :: "(string \<times> farg) list"

record Model =
  md_ID :: string
  md_Provider :: string
  md_ContextWindow :: int
  md_MaxOutputTokens :: int
  md_Capabilities :: "string list"
  md_InputCostPerMTok :: rat
  md_OutputCostPerMTok :: rat
  md_Deprecated :: bool

record Alias =
  a_ID :: string
  a_TenantID :: string
  a_Name :: string
  a_Pin :: string
  a_Capabilities :: "string list"
  a_MinContextWindow :: int
  a_ProviderPreference :: "string list"
  a_CostTier :: string
  a_CreatedAt :: time

record Route =
  r_ID :: string
  r_TenantID :: string
  r_Match :: string
  r_Chain :: "string list"
  r_CreatedAt :: time

record QuotaLimit =
  ql_Cap :: rat
  ql_SoftThresholdPct :: int

record QuotaWindow =
  qw_Tokens :: "QuotaLimit option"
  qw_Cost :: "QuotaLimit option"
  qw_Requests :: "QuotaLimit option"

record Quota =
  q_TenantID :: string
  q_KeyID :: string
  q_Day :: QuotaWindow
  q_Month :: QuotaWindow
  q_UpdatedAt :: time

definition Quota_Empty :: "Quota \<Rightarrow> bool" where
  "Quota_Empty q \<longleftrightarrow>
     qw_Tokens (q_Day q) = None \<and> qw_Cost (q_Day q) = None \<and> qw_Requests (q_Day q) = None \<and>
     qw_Tokens (q_Month q) = None \<and> qw_Cost (q_Month q) = None \<and> qw_Requests (q_Month q) = None"

record Webhook =
  w_ID :: string
  w_TenantID :: string
  w_URL :: string
  w_Secret :: string
  w_Events :: "string list"
  w_Enabled :: bool
  w_CreatedAt :: time

record UsageRecord =
  u_RequestID :: string
  u_ClientRequestID :: string
  u_TenantID :: string
  u_KeyPrefix :: string
  u_Provider :: string
  u_Model :: string
  u_RequestedModel :: string
  u_FallbackDepth :: int
  u_PromptTokens :: int
  u_CompletionToken :: int
  u_TotalTokens :: int
  u_CostUSD :: rat
  u_ChargeUSD :: rat
  u_BillingMode :: string
  u_Cached :: bool
  u_Streamed :: bool
  u_StatusCode :: int
  u_DurationMS :: int
  u_RecordedAt :: time

record UsageTotals =
  ut_Requests :: int
  ut_CachedRequests :: int
  ut_PromptTokens :: int
  ut_CompletionTokens :: int
  ut_TotalTokens :: int
  ut_CostUSD :: rat
  ut_ChargeUSD :: rat

definition zero_totals :: UsageTotals where
  "zero_totals = \<lparr> ut_Requests = 0, ut_CachedRequests = 0, ut_PromptTokens = 0,
     ut_CompletionTokens = 0, ut_TotalTokens = 0, ut_CostUSD = 0, ut_ChargeUSD = 0 \<rparr>"

record UsageBucket =
  ub_Key :: string
  ub_Totals :: UsageTotals

section \<open>Credentials\<close>

definition KeyPrefix :: "string \<Rightarrow> string option" where
  \<comment> \<open>\<open>None\<close> is the panic of slicing past the end of a string shorter than its scheme\<close>
  "KeyPrefix plaintext =
     (let shown = 8;
          scheme = (if HasPrefix plaintext AdminKeyPrefix then AdminKeyPrefix else DataKeyPrefix)
      in if length plaintext < length scheme then None
         else
           let scheme2 = (if HasPrefix (drop (length scheme) plaintext) ''dev-''
                          then scheme @ ''dev-'' else scheme);
               rest = drop (length scheme2) plaintext;
               rest2 = (if length rest > shown then take shown rest else rest)
           in Some (scheme2 @ rest2))"

definition GenerateAPIKey ::
  "(string \<Rightarrow> string) \<Rightarrow> Plane \<Rightarrow> bool \<Rightarrow> string \<Rightarrow> (string \<times> string \<times> string) option" where
  \<comment> \<open>\<open>token\<close> is what \<open>randomToken(24)\<close> returned\<close>
  "GenerateAPIKey sha256hex plane dev token =
     (let scheme = (if plane = PlaneAdmin then AdminKeyPrefix else DataKeyPrefix);
          scheme2 = (if dev then scheme @ ''dev-'' else scheme);
          plaintext = scheme2 @ token
      in case KeyPrefix plaintext of
           None \<Rightarrow> None
         | Some prefix \<Rightarrow> Some (plaintext, prefix, sha256hex plaintext))"

definition PlaneOf :: "string \<Rightarrow> Plane option" where
  "PlaneOf plaintext =
     (if HasPrefix plaintext AdminKeyPrefix then Some PlaneAdmin
      else if HasPrefix plaintext DataKeyPrefix then Some PlaneData
      else None)"

lemmas key_schemes = DataKeyPrefix_def AdminKeyPrefix_def PlaneData_def PlaneAdmin_def

lemma generated_shape:
  assumes "GenerateAPIKey h plane dev token = Some (plaintext, prefix, hsh)"
  shows "plaintext = (if plane = PlaneAdmin then ''cga-'' else ''cg-'') @ (if dev then ''dev-'' else []) @ token"
    and "hsh = h plaintext" and "KeyPrefix plaintext = Some prefix"
  using assms by (auto simp: GenerateAPIKey_def Let_def key_schemes split: option.splits)

lemma KeyPrefix_total:
  assumes "HasPrefix p AdminKeyPrefix \<or> HasPrefix p DataKeyPrefix"
  shows "\<exists>x. KeyPrefix p = Some x"
  using assms HasPrefix_length [of p AdminKeyPrefix] HasPrefix_length [of p DataKeyPrefix]
  by (auto simp: KeyPrefix_def Let_def)

lemma generate_total: "\<exists>plaintext prefix. GenerateAPIKey h plane dev token
    = Some (plaintext, prefix, h plaintext)"
proof -
  let ?p = "(if dev then (if plane = PlaneAdmin then AdminKeyPrefix else DataKeyPrefix) @ ''dev-''
    else (if plane = PlaneAdmin then AdminKeyPrefix else DataKeyPrefix)) @ token"
  have "\<exists>x. KeyPrefix ?p = Some x" by (rule KeyPrefix_total) simp
  then show ?thesis by (auto simp: GenerateAPIKey_def Let_def)
qed

text \<open>A minted credential names its plane and hides its secret: for every plane, marker and token
  \<open>GenerateAPIKey\<close> succeeds, the plane read back from the plaintext is the one it was minted for, and
  the display prefix is the scheme followed by at most eight characters of the token, so two
  tokens that agree on those eight characters have the same prefix.\<close>

theorem minted_key_format:
  assumes "plane = PlaneData \<or> plane = PlaneAdmin" and "dev \<or> \<not> HasPrefix token ''dev-''"
  shows "\<exists>scheme prefix plaintext.
    GenerateAPIKey h plane dev token = Some (plaintext, prefix, h plaintext) \<and>
    PlaneOf plaintext = Some plane \<and>
    scheme = (if plane = PlaneAdmin then ''cga-'' else ''cg-'') @ (if dev then ''dev-'' else []) \<and>
    plaintext = scheme @ token \<and> prefix = scheme @ take 8 token"
  using assms
  by (auto simp: GenerateAPIKey_def KeyPrefix_def PlaneOf_def Let_def key_schemes HasPrefix_def)

theorem minted_key_format_witness:
  "GenerateAPIKey rev PlaneAdmin True ''abcdefghijkl''
     = Some (''cga-dev-abcdefghijkl'', ''cga-dev-abcdefgh'', rev ''cga-dev-abcdefghijkl'')"
  using minted_key_format [of PlaneAdmin True "''abcdefghijkl''" rev] by auto

end
