(* ===== verification/Memory_Store.thy ===== *)
theory Memory_Store
  imports Store_Types
begin

text \<open>
  The in-memory store, \<open>gateway/internal/store/memory.go\<close>.

  Every method holds the store's lock for its whole body, so a method is one atomic step on the
  record \<open>Memory\<close>. The two key maps of the code share pointers to one \<open>APIKey\<close>; here the keys live in
  the heap \<open>m_keyheap\<close> and both maps hold indices into it, so revoking through one map is seen through
  the other. Other stored pointers are never shared, and every accessor copies, so they are values.
  The clock and the random part of a new id are arguments. A method that returns an error leaves the
  store as it was, so its result is \<open>goerr + Memory \<times> 'a\<close>.
\<close>

definition maxMemoryUsageRecords :: nat where
  "maxMemoryUsageRecords = 50000"

definition maxMemoryAuditEntries :: nat where
  "maxMemoryAuditEntries = 5000"

definition MaxTenantEvents :: nat where
  "MaxTenantEvents = 1000"

record Memory =
  m_tenants :: "(string, Tenant) gomap"
  m_keyheap :: "APIKey list"
  m_keys :: "(string, nat) gomap"
  m_keysByHash :: "(string, nat) gomap"
  m_providers :: "(string, Provider list) gomap"
  m_aliases :: "(string, Alias list) gomap"
  m_routes :: "(string, Route list) gomap"
  m_quotas :: "(string, Quota) gomap"
  m_webhooks :: "(string, Webhook list) gomap"
  m_events :: "(string, Event list) gomap"
  m_usage :: "(string, UsageRecord list) gomap"
  m_audit :: "AuditEntry list"
  m_dev :: bool

definition NewMemory :: "bool \<Rightarrow> Memory" where
  "NewMemory dev = \<lparr> m_tenants = [], m_keyheap = [], m_keys = [], m_keysByHash = [],
     m_providers = [], m_aliases = [], m_routes = [], m_quotas = [], m_webhooks = [],
     m_events = [], m_usage = [], m_audit = [], m_dev = dev \<rparr>"

definition at_nil :: "(string, 'a list) gomap \<Rightarrow> string \<Rightarrow> 'a list" where
  \<comment> \<open>indexing a Go map of slices: a missing key is the nil slice\<close>
  "at_nil m k = (case map_of m k of None \<Rightarrow> [] | Some xs \<Rightarrow> xs)"

definition Memory_Kind :: "Memory \<Rightarrow> string" where
  "Memory_Kind m = (if m_dev m then ''memory-dev'' else ''memory'')"

section \<open>Authentication\<close>

definition ResolveKey ::
  "(string \<Rightarrow> string) \<Rightarrow> time \<Rightarrow> string \<Rightarrow> Memory \<Rightarrow> goerr + APIKey \<times> Tenant option" where
  "ResolveKey sha256hex now plaintext m =
     (case map_of (m_keysByHash m) (sha256hex plaintext) of
        None \<Rightarrow> Inl ErrNotFound
      | Some r \<Rightarrow>
          let key = m_keyheap m ! r in
          if \<not> Active key now then Inl ErrNotFound
          else if k_TenantID key \<noteq> []
               then (case map_of (m_tenants m) (k_TenantID key) of
                       None \<Rightarrow> Inl ErrNotFound
                     | Some t \<Rightarrow> Inr (key, Some t))
               else Inr (key, None))"

section \<open>Tenants\<close>

definition no_limits :: TenantLimits where
  "no_limits = \<lparr> tl_MaxRequestBytes = 0, tl_RequestTimeoutSeconds = 0,
     tl_StreamIdleTimeoutSeconds = 0, tl_MaxConcurrentPerKey = 0, tl_RequestsPerSecond = 0,
     tl_BurstCapacity = 0, tl_RequestsPerMinute = 0 \<rparr>"

definition new_tenant :: "string \<Rightarrow> string \<Rightarrow> time \<Rightarrow> Tenant" where
  "new_tenant tid name now = \<lparr> t_ID = tid, t_Name = name, t_Status = ''active'', t_CreatedAt = now,
     t_Limits = no_limits, t_Cache = \<lparr> tc_Enabled = False, tc_TTLSeconds = 0 \<rparr>,
     t_DebugCapture = \<lparr> dc_Enabled = False, dc_TTLSeconds = 0, dc_SampleRate = 0 \<rparr>,
     t_SystemInstruction = [] \<rparr>"

definition CreateTenant :: "time \<Rightarrow> string \<Rightarrow> string \<Rightarrow> Memory \<Rightarrow> goerr + Memory \<times> Tenant" where
  "CreateTenant now tid name0 m =
     (let name = TrimSpace name0 in
      if name = [] then Inl (Wrapf (''%w: tenant name is required'', []) ErrConflict)
      else if \<exists>t \<in> set (map snd (m_tenants m)). EqualFold (t_Name t) name
      then Inl (Wrapf (''%w: a tenant named %q already exists'', [FStr name]) ErrConflict)
      else
        let t = new_tenant tid name now
        in Inr (m\<lparr>m_tenants := AList.update tid t (m_tenants m)\<rparr>, t))"

definition GetTenant :: "string \<Rightarrow> Memory \<Rightarrow> goerr + Tenant" where
  "GetTenant tid m =
     (case map_of (m_tenants m) tid of None \<Rightarrow> Inl ErrNotFound | Some t \<Rightarrow> Inr t)"

definition tenant_less :: "Tenant \<Rightarrow> Tenant \<Rightarrow> bool" where
  "tenant_less x y =
     (if t_CreatedAt x \<noteq> t_CreatedAt y then t_CreatedAt x < t_CreatedAt y else t_ID x < t_ID y)"

definition ListTenants :: "Memory \<Rightarrow> Tenant list" where
  "ListTenants m = sort_slice tenant_less (map snd (m_tenants m))"

definition patch_tenant :: "Tenant \<Rightarrow> TenantPatch \<Rightarrow> Tenant" where
  \<comment> \<open>the assignments below the name check\<close>
  "patch_tenant t p =
     (let t1 = (case tp_Status p of Some s \<Rightarrow> t\<lparr>t_Status := s\<rparr> | None \<Rightarrow> t);
          t2 = (case tp_Limits p of Some l \<Rightarrow> t1\<lparr>t_Limits := l\<rparr> | None \<Rightarrow> t1);
          t3 = (case tp_Cache p of Some c \<Rightarrow> t2\<lparr>t_Cache := c\<rparr> | None \<Rightarrow> t2);
          t4 = (case tp_DebugCapture p of Some d \<Rightarrow> t3\<lparr>t_DebugCapture := d\<rparr> | None \<Rightarrow> t3)
      in case tp_SystemInstruction p of Some s \<Rightarrow> t4\<lparr>t_SystemInstruction := s\<rparr> | None \<Rightarrow> t4)"

definition UpdateTenant :: "string \<Rightarrow> TenantPatch \<Rightarrow> Memory \<Rightarrow> goerr + Memory \<times> Tenant" where
  "UpdateTenant tid p m =
     (case map_of (m_tenants m) tid of
        None \<Rightarrow> Inl ErrNotFound
      | Some t \<Rightarrow>
          let renamed = (case tp_Name p of
                None \<Rightarrow> Inr t
              | Some name0 \<Rightarrow>
                  let name = TrimSpace name0 in
                  if name = [] then Inl (Wrapf (''%w: tenant name is required'', []) ErrConflict)
                  else if \<exists>x \<in> set (m_tenants m). fst x \<noteq> tid \<and> EqualFold (t_Name (snd x)) name
                  then Inl (Wrapf (''%w: a tenant named %q already exists'', [FStr name]) ErrConflict)
                  else Inr (t\<lparr>t_Name := name\<rparr>))
          in case renamed of
               Inl e \<Rightarrow> Inl e
             | Inr t1 \<Rightarrow>
                 let t2 = patch_tenant t1 p
                 in Inr (m\<lparr>m_tenants := AList.update tid t2 (m_tenants m)\<rparr>, t2))"

definition delete_tenant_keys :: "string \<Rightarrow> Memory \<Rightarrow> Memory" where
  \<comment> \<open>the loop over \<open>m.keys\<close>\<close>
  "delete_tenant_keys tid m =
     (let mine = filter (\<lambda>(keyID, r). k_TenantID (m_keyheap m ! r) = tid) (m_keys m)
      in m\<lparr>m_keysByHash := fold (\<lambda>(keyID, r). AList.delete (k_Hash (m_keyheap m ! r))) mine (m_keysByHash m),
           m_keys := fold (\<lambda>(keyID, r). AList.delete keyID) mine (m_keys m)\<rparr>)"

definition DeleteTenant :: "string \<Rightarrow> Memory \<Rightarrow> goerr + Memory" where
  "DeleteTenant tid m =
     (case map_of (m_tenants m) tid of
        None \<Rightarrow> Inl ErrNotFound
      | Some t \<Rightarrow>
          let m1 = delete_tenant_keys tid (m\<lparr>m_tenants := AList.delete tid (m_tenants m)\<rparr>)
          in Inr (m1\<lparr>m_providers := AList.delete tid (m_providers m1),
                     m_aliases := AList.delete tid (m_aliases m1),
                     m_routes := AList.delete tid (m_routes m1),
                     m_quotas := AList.delete tid (m_quotas m1),
                     m_webhooks := AList.delete tid (m_webhooks m1),
                     m_usage := AList.delete tid (m_usage m1)\<rparr>))"

section \<open>API keys\<close>

definition CreateAPIKey ::
  "(string \<Rightarrow> string) \<Rightarrow> time \<Rightarrow> string \<Rightarrow> string \<Rightarrow> string \<Rightarrow> Plane \<Rightarrow> string \<Rightarrow> string \<Rightarrow> time option
    \<Rightarrow> Memory \<Rightarrow> goerr + Memory \<times> APIKey \<times> string" where
  \<comment> \<open>\<open>kid\<close> is the new id and \<open>token\<close> the random part of the credential\<close>
  "CreateAPIKey sha256hex now kid token tenantID plane name scope expiresAt m =
     (if tenantID \<noteq> [] \<and> map_of (m_tenants m) tenantID = None then Inl ErrNotFound
      else if tenantID = [] \<and> (plane \<noteq> PlaneAdmin \<or> scope \<noteq> ScopeRoot)
      then Inl (Wrapf (''%w: only root admin keys may omit a tenant'', []) ErrConflict)
      else case GenerateAPIKey sha256hex plane (m_dev m) token of
             None \<Rightarrow> Inl (Sentinel ''panic'')
           | Some (plaintext, prefix, hsh) \<Rightarrow>
               let k = \<lparr> k_ID = kid, k_TenantID = tenantID, k_Plane = plane, k_Name = name,
                         k_Prefix = prefix, k_Hash = hsh, k_Scope = scope, k_CreatedAt = now,
                         k_ExpiresAt = expiresAt, k_RevokedAt = None \<rparr>;
                   r = length (m_keyheap m)
               in Inr (m\<lparr>m_keyheap := m_keyheap m @ [k],
                         m_keys := AList.update kid r (m_keys m),
                         m_keysByHash := AList.update hsh r (m_keysByHash m)\<rparr>, k, plaintext))"

definition key_less :: "APIKey \<Rightarrow> APIKey \<Rightarrow> bool" where
  "key_less x y =
     (if k_CreatedAt x \<noteq> k_CreatedAt y then k_CreatedAt x < k_CreatedAt y else k_ID x < k_ID y)"

definition ListAPIKeys :: "string \<Rightarrow> Memory \<Rightarrow> APIKey list" where
  "ListAPIKeys tenantID m =
     sort_slice key_less
       (filter (\<lambda>k. k_TenantID k = tenantID) (map (\<lambda>x. m_keyheap m ! snd x) (m_keys m)))"

definition RevokeAPIKey :: "time \<Rightarrow> string \<Rightarrow> string \<Rightarrow> Memory \<Rightarrow> goerr + Memory" where
  "RevokeAPIKey now tenantID keyID m =
     (case map_of (m_keys m) keyID of
        None \<Rightarrow> Inl ErrNotFound
      | Some r \<Rightarrow>
          let k = m_keyheap m ! r in
          if k_TenantID k \<noteq> tenantID then Inl ErrNotFound
          else if k_RevokedAt k \<noteq> None then Inr m
          else Inr (m\<lparr>m_keyheap := (m_keyheap m)[r := k\<lparr>k_RevokedAt := Some now\<rparr>]\<rparr>))"

section \<open>Providers\<close>

definition maskProviderKey :: "string \<Rightarrow> string" where
  \<comment> \<open>the separator is the three bytes of the ellipsis character\<close>
  "maskProviderKey raw =
     (if length raw \<le> 6 + 4 then replicate (length raw) (CHR ''*'')
      else take 6 raw @ [CHR 0xE2, CHR 0x80, CHR 0xA6] @ drop (length raw - 4) raw)"

definition CreateProvider :: "time \<Rightarrow> string \<Rightarrow> Provider \<Rightarrow> Memory \<Rightarrow> goerr + Memory \<times> Provider" where
  "CreateProvider now pid p m =
     (if map_of (m_tenants m) (p_TenantID p) = None then Inl ErrNotFound
      else if \<exists>ex \<in> set (at_nil (m_providers m) (p_TenantID p)). EqualFold (p_Name ex) (p_Name p)
      then Inl (Wrapf (''%w: provider %q already registered'', [FStr (p_Name p)]) ErrConflict)
      else
        let saved = p\<lparr>p_ID := pid, p_CreatedAt := now, p_KeyPrefixes := map maskProviderKey (p_Keys p)\<rparr>
        in Inr (m\<lparr>m_providers := AList.update (p_TenantID p)
                     (at_nil (m_providers m) (p_TenantID p) @ [saved]) (m_providers m)\<rparr>, saved))"

definition ListProviders :: "string \<Rightarrow> Memory \<Rightarrow> Provider list" where
  "ListProviders tenantID m = at_nil (m_providers m) tenantID"

definition provider_named :: "string \<Rightarrow> Provider \<Rightarrow> bool" where
  "provider_named pid p \<longleftrightarrow> p_ID p = pid \<or> EqualFold (p_Name p) pid"

definition GetProvider :: "string \<Rightarrow> string \<Rightarrow> Memory \<Rightarrow> goerr + Provider" where
  "GetProvider tenantID pid m =
     (case find (provider_named pid) (at_nil (m_providers m) tenantID) of
        Some p \<Rightarrow> Inr p
      | None \<Rightarrow> Inl ErrNotFound)"

definition patch_provider :: "ProviderPatch \<Rightarrow> Provider \<Rightarrow> Provider" where
  "patch_provider patch p =
     (let p1 = (case pp_BaseURL patch of Some u \<Rightarrow> p\<lparr>p_BaseURL := TrimRightChar u (CHR ''/'')\<rparr> | None \<Rightarrow> p);
          p2 = (case pp_Enabled patch of Some b \<Rightarrow> p1\<lparr>p_Enabled := b\<rparr> | None \<Rightarrow> p1);
          p3 = (case pp_KeyStrategy patch of Some s \<Rightarrow> p2\<lparr>p_KeyStrategy := s\<rparr> | None \<Rightarrow> p2)
      in case pp_Keys patch of
           Some ks \<Rightarrow> p3\<lparr>p_Keys := ks, p_KeyPrefixes := map maskProviderKey ks\<rparr>
         | None \<Rightarrow> p3)"

definition UpdateProvider ::
  "string \<Rightarrow> string \<Rightarrow> ProviderPatch \<Rightarrow> Memory \<Rightarrow> goerr + Memory \<times> Provider" where
  "UpdateProvider tenantID pid patch m =
     (case find (provider_named pid) (at_nil (m_providers m) tenantID) of
        Some p \<Rightarrow>
          Inr (m\<lparr>m_providers := AList.update tenantID
                  (update_first (provider_named pid) (patch_provider patch)
                     (at_nil (m_providers m) tenantID)) (m_providers m)\<rparr>,
               patch_provider patch p)
      | None \<Rightarrow> Inl ErrNotFound)"

definition DeleteProvider :: "string \<Rightarrow> string \<Rightarrow> Memory \<Rightarrow> goerr + Memory" where
  "DeleteProvider tenantID pid m =
     (case remove_first (provider_named pid) (at_nil (m_providers m) tenantID) of
        Some ps \<Rightarrow> Inr (m\<lparr>m_providers := AList.update tenantID ps (m_providers m)\<rparr>)
      | None \<Rightarrow> Inl ErrNotFound)"

section \<open>Aliases\<close>

definition UpsertAlias :: "time \<Rightarrow> string \<Rightarrow> Alias \<Rightarrow> Memory \<Rightarrow> goerr + Memory \<times> Alias" where
  "UpsertAlias now aid a m =
     (if map_of (m_tenants m) (a_TenantID a) = None then Inl ErrNotFound
      else
        let xs = at_nil (m_aliases m) (a_TenantID a) in
        case find (\<lambda>x. a_Name x = a_Name a) xs of
          Some existing \<Rightarrow>
            let saved = a\<lparr>a_ID := a_ID existing, a_CreatedAt := a_CreatedAt existing\<rparr>
            in Inr (m\<lparr>m_aliases := AList.update (a_TenantID a)
                        (update_first (\<lambda>x. a_Name x = a_Name a) (\<lambda>_. saved) xs) (m_aliases m)\<rparr>, saved)
        | None \<Rightarrow>
            let saved = a\<lparr>a_ID := aid, a_CreatedAt := now\<rparr>
            in Inr (m\<lparr>m_aliases := AList.update (a_TenantID a) (xs @ [saved]) (m_aliases m)\<rparr>, saved))"

definition alias_less :: "Alias \<Rightarrow> Alias \<Rightarrow> bool" where
  "alias_less x y \<longleftrightarrow> a_Name x < a_Name y"

definition ListAliases :: "string \<Rightarrow> Memory \<Rightarrow> Alias list" where
  "ListAliases tenantID m = sort_slice alias_less (at_nil (m_aliases m) tenantID)"

definition DeleteAlias :: "string \<Rightarrow> string \<Rightarrow> Memory \<Rightarrow> goerr + Memory" where
  "DeleteAlias tenantID name m =
     (case remove_first (\<lambda>a. a_Name a = name \<or> a_ID a = name) (at_nil (m_aliases m) tenantID) of
        Some xs \<Rightarrow> Inr (m\<lparr>m_aliases := AList.update tenantID xs (m_aliases m)\<rparr>)
      | None \<Rightarrow> Inl ErrNotFound)"

section \<open>Routes\<close>

definition UpsertRoute :: "time \<Rightarrow> string \<Rightarrow> Route \<Rightarrow> Memory \<Rightarrow> goerr + Memory \<times> Route" where
  "UpsertRoute now rid r m =
     (if map_of (m_tenants m) (r_TenantID r) = None then Inl ErrNotFound
      else
        let xs = at_nil (m_routes m) (r_TenantID r) in
        case find (\<lambda>x. r_Match x = r_Match r) xs of
          Some existing \<Rightarrow>
            let saved = r\<lparr>r_ID := r_ID existing, r_CreatedAt := r_CreatedAt existing\<rparr>
            in Inr (m\<lparr>m_routes := AList.update (r_TenantID r)
                        (update_first (\<lambda>x. r_Match x = r_Match r) (\<lambda>_. saved) xs) (m_routes m)\<rparr>, saved)
        | None \<Rightarrow>
            let saved = r\<lparr>r_ID := rid, r_CreatedAt := now\<rparr>
            in Inr (m\<lparr>m_routes := AList.update (r_TenantID r) (xs @ [saved]) (m_routes m)\<rparr>, saved))"

definition route_less :: "Route \<Rightarrow> Route \<Rightarrow> bool" where
  "route_less x y \<longleftrightarrow> r_Match x < r_Match y"

definition ListRoutes :: "string \<Rightarrow> Memory \<Rightarrow> Route list" where
  "ListRoutes tenantID m = sort_slice route_less (at_nil (m_routes m) tenantID)"

definition DeleteRoute :: "string \<Rightarrow> string \<Rightarrow> Memory \<Rightarrow> goerr + Memory" where
  "DeleteRoute tenantID rid m =
     (case remove_first (\<lambda>r. r_ID r = rid \<or> r_Match r = rid) (at_nil (m_routes m) tenantID) of
        Some xs \<Rightarrow> Inr (m\<lparr>m_routes := AList.update tenantID xs (m_routes m)\<rparr>)
      | None \<Rightarrow> Inl ErrNotFound)"

section \<open>Quotas\<close>

definition quotaKey :: "string \<Rightarrow> string \<Rightarrow> string" where
  "quotaKey tenantID keyID = tenantID @ [CHR 0x00] @ keyID"

definition SetQuota :: "time \<Rightarrow> Quota \<Rightarrow> Memory \<Rightarrow> goerr + Memory \<times> Quota" where
  "SetQuota now q m =
     (if map_of (m_tenants m) (q_TenantID q) = None then Inl ErrNotFound
      else
        let saved = q\<lparr>q_UpdatedAt := now\<rparr>
        in Inr (m\<lparr>m_quotas := AList.update (quotaKey (q_TenantID q) (q_KeyID q)) saved (m_quotas m)\<rparr>, saved))"

definition GetQuota :: "string \<Rightarrow> string \<Rightarrow> Memory \<Rightarrow> goerr + Quota" where
  "GetQuota tenantID keyID m =
     (case map_of (m_quotas m) (quotaKey tenantID keyID) of
        None \<Rightarrow> Inl ErrNotFound | Some q \<Rightarrow> Inr q)"

definition DeleteQuota :: "string \<Rightarrow> string \<Rightarrow> Memory \<Rightarrow> goerr + Memory" where
  "DeleteQuota tenantID keyID m =
     (let k = quotaKey tenantID keyID in
      if map_of (m_quotas m) k = None then Inl ErrNotFound
      else Inr (m\<lparr>m_quotas := AList.delete k (m_quotas m)\<rparr>))"

section \<open>Webhooks\<close>

definition CreateWebhook :: "time \<Rightarrow> string \<Rightarrow> Webhook \<Rightarrow> Memory \<Rightarrow> goerr + Memory \<times> Webhook" where
  "CreateWebhook now wid w m =
     (if map_of (m_tenants m) (w_TenantID w) = None then Inl ErrNotFound
      else
        let saved = w\<lparr>w_ID := wid, w_CreatedAt := now\<rparr>
        in Inr (m\<lparr>m_webhooks := AList.update (w_TenantID w)
                    (at_nil (m_webhooks m) (w_TenantID w) @ [saved]) (m_webhooks m)\<rparr>, saved))"

definition ListWebhooks :: "string \<Rightarrow> Memory \<Rightarrow> Webhook list" where
  "ListWebhooks tenantID m = at_nil (m_webhooks m) tenantID"

definition DeleteWebhook :: "string \<Rightarrow> string \<Rightarrow> Memory \<Rightarrow> goerr + Memory" where
  "DeleteWebhook tenantID wid m =
     (case remove_first (\<lambda>w. w_ID w = wid) (at_nil (m_webhooks m) tenantID) of
        Some xs \<Rightarrow> Inr (m\<lparr>m_webhooks := AList.update tenantID xs (m_webhooks m)\<rparr>)
      | None \<Rightarrow> Inl ErrNotFound)"

section \<open>Events and audit\<close>

definition RecordEvent :: "Event \<Rightarrow> Memory \<Rightarrow> Memory" where
  "RecordEvent e m =
     m\<lparr>m_events := AList.update (ev_TenantID e)
         (last_n MaxTenantEvents (at_nil (m_events m) (ev_TenantID e) @ [e])) (m_events m)\<rparr>"

definition ListEvents :: "string \<Rightarrow> Memory \<Rightarrow> Event list" where
  "ListEvents tenantID m = rev (at_nil (m_events m) tenantID)"

definition RecordAudit :: "time \<Rightarrow> string \<Rightarrow> AuditEntry \<Rightarrow> Memory \<Rightarrow> Memory" where
  "RecordAudit now aid e m =
     m\<lparr>m_audit := last_n maxMemoryAuditEntries (m_audit m @ [e\<lparr>au_ID := aid, au_At := now\<rparr>])\<rparr>"

definition ListAudit :: "Memory \<Rightarrow> AuditEntry list" where
  "ListAudit m = rev (m_audit m)"

section \<open>Usage\<close>

definition RecordUsage :: "UsageRecord \<Rightarrow> Memory \<Rightarrow> Memory" where
  "RecordUsage rec m =
     m\<lparr>m_usage := AList.update (u_TenantID rec)
         (last_n maxMemoryUsageRecords (at_nil (m_usage m) (u_TenantID rec) @ [rec])) (m_usage m)\<rparr>"

definition inWindow :: "time \<Rightarrow> time \<Rightarrow> time \<Rightarrow> bool" where
  "inWindow t since until \<longleftrightarrow> \<not> t < since \<and> t < until"

definition addUsage :: "UsageTotals \<Rightarrow> UsageRecord \<Rightarrow> UsageTotals" where
  "addUsage dst r =
     \<lparr> ut_Requests = ut_Requests dst + 1,
       ut_CachedRequests = (if u_Cached r then ut_CachedRequests dst + 1 else ut_CachedRequests dst),
       ut_PromptTokens = ut_PromptTokens dst + u_PromptTokens r,
       ut_CompletionTokens = ut_CompletionTokens dst + u_CompletionToken r,
       ut_TotalTokens = ut_TotalTokens dst + u_TotalTokens r,
       ut_CostUSD = ut_CostUSD dst + u_CostUSD r,
       ut_ChargeUSD = ut_ChargeUSD dst + u_ChargeUSD r \<rparr>"

definition Usage :: "string \<Rightarrow> time \<Rightarrow> time \<Rightarrow> Memory \<Rightarrow> UsageTotals" where
  "Usage tenantID since until m =
     foldl (\<lambda>out r. if \<not> inWindow (u_RecordedAt r) since until then out else addUsage out r)
       zero_totals (at_nil (m_usage m) tenantID)"

definition KeyUsage :: "string \<Rightarrow> string \<Rightarrow> time \<Rightarrow> time \<Rightarrow> Memory \<Rightarrow> UsageTotals" where
  "KeyUsage tenantID keyPrefix since until m =
     foldl (\<lambda>out r. if u_KeyPrefix r \<noteq> keyPrefix \<or> \<not> inWindow (u_RecordedAt r) since until
                    then out else addUsage out r)
       zero_totals (at_nil (m_usage m) tenantID)"

datatype group_key = GSkip | GKey string | GUnsupported

definition bucket_key :: "string \<Rightarrow> UsageRecord \<Rightarrow> group_key" where
  "bucket_key groupBy r =
     (if groupBy = ''model'' then GKey (u_Model r)
      else if groupBy = ''provider'' then GKey (u_Provider r)
      else if groupBy = ''key'' then GKey (u_KeyPrefix r)
      else if groupBy = ''client_request_id''
      then (if u_ClientRequestID r = [] then GSkip else GKey (u_ClientRequestID r))
      else GUnsupported)"

fun fill_buckets ::
  "string \<Rightarrow> time \<Rightarrow> time \<Rightarrow> (string, UsageTotals) gomap \<Rightarrow> UsageRecord list
    \<Rightarrow> goerr + (string, UsageTotals) gomap" where
  "fill_buckets groupBy since until bs [] = Inr bs"
| "fill_buckets groupBy since until bs (r # rs) =
     (if \<not> inWindow (u_RecordedAt r) since until then fill_buckets groupBy since until bs rs
      else case bucket_key groupBy r of
             GUnsupported \<Rightarrow> Inl (Errorf (''unsupported group_by %q'', [FStr groupBy]))
           | GSkip \<Rightarrow> fill_buckets groupBy since until bs rs
           | GKey key \<Rightarrow>
               let old = (case map_of bs key of None \<Rightarrow> zero_totals | Some t \<Rightarrow> t)
               in fill_buckets groupBy since until (AList.update key (addUsage old r) bs) rs)"

definition bucket_less :: "UsageBucket \<Rightarrow> UsageBucket \<Rightarrow> bool" where
  "bucket_less x y =
     (if ut_CostUSD (ub_Totals x) \<noteq> ut_CostUSD (ub_Totals y)
      then ut_CostUSD (ub_Totals x) > ut_CostUSD (ub_Totals y)
      else ub_Key x < ub_Key y)"

definition UsageBreakdown ::
  "string \<Rightarrow> time \<Rightarrow> time \<Rightarrow> string \<Rightarrow> Memory \<Rightarrow> goerr + UsageBucket list" where
  "UsageBreakdown tenantID since until groupBy m =
     (case fill_buckets groupBy since until [] (at_nil (m_usage m) tenantID) of
        Inl e \<Rightarrow> Inl e
      | Inr bs \<Rightarrow>
          Inr (sort_slice bucket_less (map (\<lambda>(k, v). \<lparr>ub_Key = k, ub_Totals = v\<rparr>) bs)))"

end
