(* ===== verification/Gateway_Config.thy ===== *)
theory Gateway_Config
  imports Store_Types
begin

text \<open>
  The configuration: \<open>gateway/internal/config/config.go\<close>. Durations are nanoseconds, rates and
  percentages are \<open>float64\<close> in the code and rationals here. The YAML parser, the file system, the
  process environment and \<open>strconv.ParseFloat\<close> are arguments of \<open>Load\<close>: the parser may change the
  configuration also when it fails, as \<open>yaml.Unmarshal\<close> does.
\<close>

section \<open>The configuration\<close>

definition whole_seconds :: "duration \<Rightarrow> int" where
  \<comment> \<open>\<open>int(d.Seconds())\<close>, which truncates toward zero\<close>
  "whole_seconds d = (if d \<ge> 0 then d div Second else - ((- d) div Second))"

record GatewayListener =
  gw_Port :: int
  gw_TLSCertFile :: string
  gw_TLSKeyFile :: string

definition TLSEnabled :: "GatewayListener \<Rightarrow> bool" where
  "TLSEnabled g \<longleftrightarrow> gw_TLSCertFile g \<noteq> [] \<and> gw_TLSKeyFile g \<noteq> []"

definition MinBootstrapKeyLen :: int where
  "MinBootstrapKeyLen = 16"

record AnalyticsConfig =
  an_BaseURL :: string
  an_Token :: string
  an_Timeout :: duration

record ModelPrice =
  mp_Input :: rat
  mp_Output :: rat

record CatalogConfig =
  cc_TTL :: duration
  cc_StaleWarnAfter :: duration
  cc_ProviderTimeout :: duration
  cc_Prices :: "(string, (string, ModelPrice) gomap) gomap"

definition BillingPassthrough :: string where
  "BillingPassthrough = ''passthrough''"

definition BillingMarkup :: string where
  "BillingMarkup = ''markup''"

definition BillingAbsorb :: string where
  "BillingAbsorb = ''absorb''"

definition CostExact :: string where
  "CostExact = ''exact''"

definition CostHint :: string where
  "CostHint = ''hint''"

definition CostHidden :: string where
  "CostHidden = ''hidden''"

lemmas billing_names = BillingPassthrough_def BillingMarkup_def BillingAbsorb_def
  CostExact_def CostHint_def CostHidden_def

record Billing =
  bl_Mode :: string
  bl_MarkupPct :: rat
  bl_CostVisibility :: string

record BreakerConfig =
  bc_ErrorThreshold :: int
  bc_Window :: duration
  bc_OpenDuration :: duration

record RoutingConfig =
  ro_MaxFallbackDepth :: int
  ro_Breaker :: BreakerConfig

record QuotasConfig =
  qc_DefaultSoftThresholdPct :: int
  qc_Enforcement :: string

record LimitsConfig =
  lc_MaxRequestBytes :: int
  lc_MaxResponseBytes :: int
  lc_RequestTimeout :: duration
  lc_UpstreamConnectTimeout :: duration
  lc_StreamIdleTimeout :: duration
  lc_MaxConcurrentPerKey :: int

record RateLimitConfig =
  rl_RequestsPerSecond :: int
  rl_BurstCapacity :: int
  rl_RequestsPerMinute :: int

record CacheConfig =
  cf_Enabled :: bool
  cf_DefaultTTL :: duration
  cf_MaxTTL :: duration
  cf_MaxEntryBytes :: int
  cf_MaxBytes :: int

record WebhooksConfig =
  wc_MaxAttempts :: int
  wc_Timeout :: duration

record MetricsConfig =
  mc_Enabled :: bool
  mc_Path :: string
  mc_Token :: string

definition MaxCaptureTTLCeiling :: duration where
  "MaxCaptureTTLCeiling = 72 * Hour"

record DebugConfig =
  db_MaxTTL :: duration
  db_DefaultTTL :: duration
  db_DefaultSampleRate :: rat
  db_MaxBytesPerTenant :: int
  db_SweepInterval :: duration

text \<open>The sections with one field (\<open>Admin\<close>, \<open>Chat\<close>, \<open>Telemetry\<close>, \<open>Health\<close>, \<open>Shutdown\<close>, \<open>Log\<close>)
  are that field.\<close>

record Config =
  cfg_Gateway :: GatewayListener
  cfg_BootstrapKey :: string
  cfg_Analytics :: AnalyticsConfig
  cfg_Catalog :: CatalogConfig
  cfg_Billing :: Billing
  cfg_SystemInstruction :: string
  cfg_Routing :: RoutingConfig
  cfg_Quotas :: QuotasConfig
  cfg_Limits :: LimitsConfig
  cfg_RateLimit :: RateLimitConfig
  cfg_Cache :: CacheConfig
  cfg_Webhooks :: WebhooksConfig
  cfg_TelemetryBuffer :: int
  cfg_HealthCacheTTL :: duration
  cfg_Metrics :: MetricsConfig
  cfg_DrainTimeout :: duration
  cfg_LogLevel :: string
  cfg_Debug :: DebugConfig

section \<open>Billing\<close>

definition round_half_even :: "rat \<Rightarrow> int" where
  "round_half_even x =
     (let n = \<lfloor>x\<rfloor>; d = x - of_int n in
      if d < 1/2 then n else if d > 1/2 then n + 1 else if even n then n else n + 1)"

function one_figure :: "rat \<Rightarrow> rat" where
  \<comment> \<open>\<open>strconv.FormatFloat(x, 'e', 0, 64)\<close> parsed back: a positive number to one significant figure,
     ties to the even digit\<close>
  "one_figure x =
     (if x \<le> 0 then x
      else if x \<ge> 10 then 10 * one_figure (x / 10)
      else if x < 1 then one_figure (10 * x) / 10
      else of_int (round_half_even x))"
  by pat_completeness auto
termination
proof (relation "measure (\<lambda>x. if x \<ge> 1 then nat \<lfloor>x\<rfloor> else 10 + nat \<lfloor>1 / x\<rfloor>)")
  fix x :: rat
  assume "\<not> x \<le> 0" "x \<ge> 10"
  moreover from this have "\<lfloor>x / 10\<rfloor> < \<lfloor>x\<rfloor>" by linarith
  ultimately show "(x / 10, x) \<in> measure (\<lambda>x. if x \<ge> 1 then nat \<lfloor>x\<rfloor> else 10 + nat \<lfloor>1 / x\<rfloor>)"
    by simp
next
  fix x :: rat
  assume x: "\<not> x \<le> 0" "\<not> x \<ge> 10" "x < 1"
  show "(10 * x, x) \<in> measure (\<lambda>x. if x \<ge> 1 then nat \<lfloor>x\<rfloor> else 10 + nat \<lfloor>1 / x\<rfloor>)"
  proof (cases "10 * x \<ge> 1")
    case True
    have "nat \<lfloor>10 * x\<rfloor> < 10" using x by linarith
    with True x show ?thesis by (simp add: trans_less_add1)
  next
    case False
    have "1 < 1 / (10 * x)" using False x by (simp add: field_simps)
    moreover have "1 / x = 10 * (1 / (10 * x))" by simp
    ultimately have "\<lfloor>1 / (10 * x)\<rfloor> < \<lfloor>1 / x\<rfloor>" by linarith
    with False x show ?thesis by simp
  qed
qed simp

declare one_figure.simps [simp del]

definition TenantCost :: "Billing \<Rightarrow> rat \<Rightarrow> rat" where
  "TenantCost b cost =
     (if bl_CostVisibility b \<noteq> CostHint \<or> cost \<le> 0 then cost else one_figure cost)"

definition HidesCost :: "Billing \<Rightarrow> bool" where
  "HidesCost b \<longleftrightarrow> bl_CostVisibility b = CostHidden"

definition Charge :: "Billing \<Rightarrow> rat \<Rightarrow> rat" where
  "Charge b cost =
     (if bl_Mode b = BillingAbsorb then 0
      else if bl_Mode b = BillingMarkup then cost * (1 + bl_MarkupPct b / 100)
      else cost)"

section \<open>Loading\<close>

definition Default :: Config where
  "Default =
     \<lparr> cfg_Gateway = \<lparr> gw_Port = 8080, gw_TLSCertFile = [], gw_TLSKeyFile = [] \<rparr>,
       cfg_BootstrapKey = [],
       cfg_Analytics = \<lparr> an_BaseURL = [], an_Token = [], an_Timeout = 10 * Second \<rparr>,
       cfg_Catalog = \<lparr> cc_TTL = Hour, cc_StaleWarnAfter = 6 * Hour, cc_ProviderTimeout = 10 * Second,
         cc_Prices = [] \<rparr>,
       cfg_Billing = \<lparr> bl_Mode = BillingPassthrough, bl_MarkupPct = 0, bl_CostVisibility = CostHidden \<rparr>,
       cfg_SystemInstruction = [],
       cfg_Routing = \<lparr> ro_MaxFallbackDepth = 5,
         ro_Breaker = \<lparr> bc_ErrorThreshold = 5, bc_Window = 30 * Second, bc_OpenDuration = 60 * Second \<rparr> \<rparr>,
       cfg_Quotas = \<lparr> qc_DefaultSoftThresholdPct = 80, qc_Enforcement = ''on'' \<rparr>,
       cfg_Limits = \<lparr> lc_MaxRequestBytes = 2 * 1024 * 1024, lc_MaxResponseBytes = 8 * 1024 * 1024,
         lc_RequestTimeout = 120 * Second, lc_UpstreamConnectTimeout = 10 * Second,
         lc_StreamIdleTimeout = 60 * Second, lc_MaxConcurrentPerKey = 32 \<rparr>,
       cfg_RateLimit = \<lparr> rl_RequestsPerSecond = 50, rl_BurstCapacity = 100, rl_RequestsPerMinute = 3600 \<rparr>,
       cfg_Cache = \<lparr> cf_Enabled = False, cf_DefaultTTL = 5 * Minute, cf_MaxTTL = 24 * Hour,
         cf_MaxEntryBytes = 256 * 1024, cf_MaxBytes = 64 * 1024 * 1024 \<rparr>,
       cfg_Webhooks = \<lparr> wc_MaxAttempts = 5, wc_Timeout = 10 * Second \<rparr>,
       cfg_TelemetryBuffer = 1000,
       cfg_HealthCacheTTL = 2 * Second,
       cfg_Metrics = \<lparr> mc_Enabled = True, mc_Path = ''/metrics'', mc_Token = [] \<rparr>,
       cfg_DrainTimeout = 30 * Second,
       cfg_LogLevel = ''info'',
       cfg_Debug = \<lparr> db_MaxTTL = MaxCaptureTTLCeiling, db_DefaultTTL = 24 * Hour,
         db_DefaultSampleRate = 1 / 100, db_MaxBytesPerTenant = 32 * 1024 * 1024, db_SweepInterval = Minute \<rparr> \<rparr>"

definition envStr :: "(string \<Rightarrow> string) \<Rightarrow> string \<Rightarrow> (string \<Rightarrow> Config \<Rightarrow> Config) \<Rightarrow> Config \<Rightarrow> Config" where
  \<comment> \<open>\<open>getenv\<close> answers the empty string for a variable that is not set\<close>
  "envStr getenv name put cfg =
     (let v1 = TrimSpace (getenv (''CG_'' @ name)); v2 = TrimSpace (getenv name) in
      if v1 \<noteq> [] then put v1 cfg else if v2 \<noteq> [] then put v2 cfg else cfg)"

definition ParseBool :: "string \<Rightarrow> bool option" where
  "ParseBool s =
     (if s \<in> {''1'', ''t'', ''T'', ''TRUE'', ''true'', ''True''} then Some True
      else if s \<in> {''0'', ''f'', ''F'', ''FALSE'', ''false'', ''False''} then Some False else None)"

definition map_gateway :: "(GatewayListener \<Rightarrow> GatewayListener) \<Rightarrow> Config \<Rightarrow> Config" where
  "map_gateway f cfg = cfg\<lparr>cfg_Gateway := f (cfg_Gateway cfg)\<rparr>"

definition map_billing :: "(Billing \<Rightarrow> Billing) \<Rightarrow> Config \<Rightarrow> Config" where
  "map_billing f cfg = cfg\<lparr>cfg_Billing := f (cfg_Billing cfg)\<rparr>"

definition applyEnv :: "(string \<Rightarrow> rat option) \<Rightarrow> (string \<Rightarrow> string) \<Rightarrow> Config \<Rightarrow> Config" where
  "applyEnv ParseFloat getenv cfg0 =
     (let env = envStr getenv;
          c1 = env ''PORT'' (\<lambda>v c. case Atoi v of Some n \<Rightarrow> map_gateway (gw_Port_update (\<lambda>_. n)) c | None \<Rightarrow> c) cfg0;
          c2 = env ''ADMIN_BOOTSTRAP_KEY'' (\<lambda>v c. c\<lparr>cfg_BootstrapKey := v\<rparr>) c1;
          c3 = env ''TLS_CERT_FILE'' (\<lambda>v. map_gateway (gw_TLSCertFile_update (\<lambda>_. v))) c2;
          c4 = env ''TLS_KEY_FILE'' (\<lambda>v. map_gateway (gw_TLSKeyFile_update (\<lambda>_. v))) c3;
          c5 = env ''ANALYTICS_URL'' (\<lambda>v c. c\<lparr>cfg_Analytics := (cfg_Analytics c)\<lparr>an_BaseURL := v\<rparr>\<rparr>) c4;
          c6 = env ''ANALYTICS_TOKEN'' (\<lambda>v c. c\<lparr>cfg_Analytics := (cfg_Analytics c)\<lparr>an_Token := v\<rparr>\<rparr>) c5;
          c7 = env ''METRICS_TOKEN'' (\<lambda>v c. c\<lparr>cfg_Metrics := (cfg_Metrics c)\<lparr>mc_Token := v\<rparr>\<rparr>) c6;
          c8 = env ''LOG_LEVEL'' (\<lambda>v c. c\<lparr>cfg_LogLevel := v\<rparr>) c7;
          c9 = env ''QUOTA_ENFORCEMENT'' (\<lambda>v c. c\<lparr>cfg_Quotas := (cfg_Quotas c)\<lparr>qc_Enforcement := v\<rparr>\<rparr>) c8;
          c10 = env ''BILLING_MODE'' (\<lambda>v. map_billing (bl_Mode_update (\<lambda>_. v))) c9;
          c11 = env ''BILLING_MARKUP_PCT'' (\<lambda>v c. case ParseFloat v of
                  Some f \<Rightarrow> map_billing (bl_MarkupPct_update (\<lambda>_. f)) c | None \<Rightarrow> c) c10;
          c12 = env ''BILLING_COST_VISIBILITY'' (\<lambda>v. map_billing (bl_CostVisibility_update (\<lambda>_. v))) c11;
          c13 = env ''CHAT_SYSTEM_INSTRUCTION'' (\<lambda>v c. c\<lparr>cfg_SystemInstruction := v\<rparr>) c12
      in env ''CACHE_ENABLED'' (\<lambda>v c. case ParseBool v of
           Some b \<Rightarrow> c\<lparr>cfg_Cache := (cfg_Cache c)\<lparr>cf_Enabled := b\<rparr>\<rparr> | None \<Rightarrow> c) c13)"

fun first_err :: "(bool \<times> msg) list \<Rightarrow> goerr option" where
  \<comment> \<open>a sequence of \<open>if cond { return fmt.Errorf(...) }\<close>\<close>
  "first_err [] = None"
| "first_err ((bad, m) # rest) = (if bad then Some (Errorf m) else first_err rest)"

definition price_checks :: "(string, (string, ModelPrice) gomap) gomap \<Rightarrow> (bool \<times> msg) list" where
  "price_checks prices =
     concat (map (\<lambda>(kind, models). map (\<lambda>(mid, price).
       (mp_Input price < 0 \<or> mp_Output price < 0,
        (''catalog.prices.%s.%s: rates cannot be negative'', [FStr kind, FStr mid]))) models) prices)"

definition billing_checks :: "Billing \<Rightarrow> (bool \<times> msg) list" where
  "billing_checks b =
     [(bl_Mode b = BillingMarkup \<and> bl_MarkupPct b \<le> 0,
        (''billing.markup_pct must be positive when billing.mode is %q'', [FStr BillingMarkup])),
      (bl_Mode b \<notin> {BillingPassthrough, BillingAbsorb, BillingMarkup},
        (''billing.mode must be %q, %q or %q, got %q'',
         [FStr BillingPassthrough, FStr BillingMarkup, FStr BillingAbsorb, FStr (bl_Mode b)])),
      (bl_CostVisibility b \<notin> {CostExact, CostHint, CostHidden},
        (''billing.cost_visibility must be %q, %q or %q, got %q'',
         [FStr CostHidden, FStr CostHint, FStr CostExact, FStr (bl_CostVisibility b)]))]"

definition Validate :: "Config \<Rightarrow> goerr option" where
  "Validate c = first_err (
     [(gw_Port (cfg_Gateway c) < 1 \<or> gw_Port (cfg_Gateway c) > 65535,
        (''gateway.port %d out of range'', [FInt (gw_Port (cfg_Gateway c))])),
      (cfg_BootstrapKey c \<noteq> [] \<and> int (length (cfg_BootstrapKey c)) < MinBootstrapKeyLen,
        (''admin.bootstrap_key is %d characters; at least %d are required'',
         [FInt (int (length (cfg_BootstrapKey c))), FInt MinBootstrapKeyLen])),
      (gw_TLSCertFile (cfg_Gateway c) \<noteq> [] \<and> gw_TLSKeyFile (cfg_Gateway c) = [],
        (''gateway.tls_cert_file is set but gateway.tls_key_file is not; TLS needs both'', [])),
      (gw_TLSKeyFile (cfg_Gateway c) \<noteq> [] \<and> gw_TLSCertFile (cfg_Gateway c) = [],
        (''gateway.tls_key_file is set but gateway.tls_cert_file is not; TLS needs both'', []))]
     @ price_checks (cc_Prices (cfg_Catalog c))
     @ billing_checks (cfg_Billing c)
     @ [(ro_MaxFallbackDepth (cfg_Routing c) < 1, (''routing.max_fallback_depth must be at least 1'', [])),
        (lc_MaxRequestBytes (cfg_Limits c) < 1, (''limits.max_request_bytes must be positive'', [])),
        (lc_MaxResponseBytes (cfg_Limits c) < 1, (''limits.max_response_bytes must be positive'', [])),
        (lc_RequestTimeout (cfg_Limits c) \<le> 0, (''limits.request_timeout must be positive'', [])),
        (lc_MaxConcurrentPerKey (cfg_Limits c) < 1, (''limits.max_concurrent_per_key must be at least 1'', [])),
        (qc_Enforcement (cfg_Quotas c) \<notin> {''on'', ''observe''},
          (''quotas.enforcement must be \"on\" or \"observe\", got %q'', [FStr (qc_Enforcement (cfg_Quotas c))])),
        (qc_DefaultSoftThresholdPct (cfg_Quotas c) < 1 \<or> qc_DefaultSoftThresholdPct (cfg_Quotas c) > 100,
          (''quotas.default_soft_threshold_pct %d out of range 1..100'',
           [FInt (qc_DefaultSoftThresholdPct (cfg_Quotas c))])),
        (cf_DefaultTTL (cfg_Cache c) > cf_MaxTTL (cfg_Cache c), (''cache.default_ttl exceeds cache.max_ttl'', [])),
        (cf_MaxEntryBytes (cfg_Cache c) > cf_MaxBytes (cfg_Cache c),
          (''cache.max_entry_bytes exceeds cache.max_bytes: no entry could ever be stored'', [])),
        (cfg_TelemetryBuffer c < 1, (''telemetry.buffer must be at least 1'', [])),
        (cfg_LogLevel c \<notin> {''debug'', ''info'', ''warn'', ''error''},
          (''log.level must be one of debug|info|warn|error, got %q'', [FStr (cfg_LogLevel c)])),
        (db_DefaultSampleRate (cfg_Debug c) < 0 \<or> db_DefaultSampleRate (cfg_Debug c) > 1,
          (''debug.default_sample_rate must be within 0..1'', [])),
        (db_MaxTTL (cfg_Debug c) > MaxCaptureTTLCeiling,
          (''debug.max_capture_ttl may not exceed %s'', [FInt MaxCaptureTTLCeiling])),
        (db_DefaultTTL (cfg_Debug c) > db_MaxTTL (cfg_Debug c),
          (''debug.default_capture_ttl exceeds debug.max_capture_ttl'', [])),
        (db_MaxBytesPerTenant (cfg_Debug c) < 1, (''debug.max_capture_bytes_per_tenant must be positive'', [])),
        (db_SweepInterval (cfg_Debug c) < Second, (''debug.capture_sweep_interval must be at least 1s'', []))])"

datatype file_read = FileData string | FileMissing | FileError goerr

definition Load ::
  "(string \<Rightarrow> file_read) \<Rightarrow> (string \<Rightarrow> Config \<Rightarrow> Config \<times> goerr option) \<Rightarrow> (string \<Rightarrow> rat option)
    \<Rightarrow> (string \<Rightarrow> string) \<Rightarrow> string \<Rightarrow> Config \<times> goerr option" where
  "Load readFile unmarshal ParseFloat getenv path =
     (let (cfg, failed) =
            (if path = [] then (Default, None)
             else case readFile path of
                    FileData raw \<Rightarrow>
                      (case unmarshal raw Default of
                         (c, Some err) \<Rightarrow> (c, Some (Wrapf (''parse %s: %w'', [FStr path]) err))
                       | (c, None) \<Rightarrow> (c, None))
                  | FileMissing \<Rightarrow> (Default, None)
                  | FileError err \<Rightarrow> (Default, Some (Wrapf (''read %s: %w'', [FStr path]) err)))
      in case failed of
           Some err \<Rightarrow> (cfg, Some err)
         | None \<Rightarrow> (let cfg2 = applyEnv ParseFloat getenv cfg in (cfg2, Validate cfg2)))"

section \<open>What the configuration guarantees\<close>

lemma first_err_append: "first_err (xs @ ys) = None \<longleftrightarrow> first_err xs = None \<and> first_err ys = None"
  by (induction xs rule: first_err.induct) auto

lemma round_half_even_near: "\<bar>of_int (round_half_even x) - x\<bar> \<le> 1 / 2"
proof -
  have "of_int \<lfloor>x\<rfloor> \<le> x" "x < of_int \<lfloor>x\<rfloor> + 1" by linarith+
  then show ?thesis by (auto simp: round_half_even_def Let_def abs_le_iff)
qed

lemma round_half_even_digit: "1 \<le> x \<Longrightarrow> x < 10 \<Longrightarrow> 1 \<le> round_half_even x \<and> round_half_even x \<le> 10"
  using floor_mono [of 1 x] floor_less_iff [of x 10] by (auto simp: round_half_even_def Let_def)

definition leading_figure :: "rat \<Rightarrow> rat \<Rightarrow> bool" where
  \<comment> \<open>\<open>y\<close> is \<open>x\<close> to one significant figure\<close>
  "leading_figure x y \<longleftrightarrow>
     (\<exists>d e. 1 \<le> d \<and> d \<le> 10 \<and> (10 :: rat) powi e \<le> x \<and> x < 10 powi (e + 1) \<and>
            y = of_int d * 10 powi e \<and> \<bar>y - x\<bar> \<le> 10 powi e / 2)"

lemma leading_figure_scale:
  assumes "leading_figure x y"
  shows "leading_figure (10 powi k * x) (10 powi k * y)"
proof -
  obtain d e where de: "1 \<le> d" "d \<le> 10" "(10 :: rat) powi e \<le> x" "x < 10 powi (e + 1)"
      "y = of_int d * 10 powi e" "\<bar>y - x\<bar> \<le> 10 powi e / 2"
    using assms by (auto simp: leading_figure_def)
  let ?s = "(10 :: rat) powi k"
  have s: "0 < ?s" by simp
  have pw: "(10 :: rat) powi (k + n) = ?s * 10 powi n" for n by (simp add: power_int_add)
  have "\<bar>?s * y - ?s * x\<bar> = ?s * \<bar>y - x\<bar>"
    using s by (simp add: abs_mult flip: right_diff_distrib)
  then have "\<bar>?s * y - ?s * x\<bar> \<le> 10 powi (k + e) / 2"
    using de(6) s pw [of e] by (metis mult_le_cancel_left_pos times_divide_eq_right)
  moreover have "10 powi (k + e) \<le> ?s * x" using de(3) s pw [of e] by simp
  moreover have "?s * x < 10 powi (k + e + 1)" using de(4) s pw [of "e + 1"] by (simp add: add.assoc)
  moreover have "?s * y = of_int d * 10 powi (k + e)" using de(5) pw [of e] by simp
  ultimately show ?thesis unfolding leading_figure_def using de(1,2) by blast
qed

lemma one_figure_leading: "0 < x \<Longrightarrow> leading_figure x (one_figure x)"
proof (induction x rule: one_figure.induct)
  case (1 x)
  consider "x \<ge> 10" | "x < 1" | "1 \<le> x" "x < 10" by linarith
  then show ?case
  proof cases
    case 1
    with "1.prems" "1.IH"(1) have "leading_figure (x / 10) (one_figure (x / 10))" by simp
    from leading_figure_scale [OF this, of 1] 1 "1.prems" show ?thesis
      by (simp add: one_figure.simps [of x])
  next
    case 2
    with "1.prems" "1.IH"(2) have "leading_figure (10 * x) (one_figure (10 * x))" by simp
    from leading_figure_scale [OF this, of "-1"] 2 "1.prems" show ?thesis
      by (simp add: one_figure.simps [of x] power_int_minus)
  next
    case 3
    then show ?thesis
      using round_half_even_near [of x] round_half_even_digit [of x]
      unfolding leading_figure_def
      by (intro exI [of _ "round_half_even x"] exI [of _ 0]) (simp add: one_figure.simps [of x])
  qed
qed

text \<open>Under \<open>hint\<close> the data plane publishes the operator's cost to one significant figure: a digit
  times a power of ten, off by at most half a unit of the leading digit, and the loop that scales the
  number ends for every positive cost. Under the other two settings the figure is not changed.\<close>

theorem tenant_cost_hint:
  assumes "0 < cost"
  shows "if bl_CostVisibility b = CostHint then leading_figure cost (TenantCost b cost)
    else TenantCost b cost = cost"
  using assms by (simp add: TenantCost_def one_figure_leading)

theorem tenant_cost_hint_witness:
  "leading_figure (123 / 100000) (TenantCost \<lparr> bl_Mode = BillingAbsorb, bl_MarkupPct = 0, bl_CostVisibility = CostHint \<rparr>
     (123 / 100000)) \<and> one_figure (123 / 100000) = 1 / 1000"
proof -
  have fl: "\<lfloor>123 / 100 :: rat\<rfloor> = 1" by (simp add: floor_eq_iff)
  have "one_figure (123 / 100000) = 1 / 1000"
    by (simp add: one_figure.simps round_half_even_def fl)
  then show ?thesis
    using tenant_cost_hint [of "123 / 100000" "\<lparr> bl_Mode = BillingAbsorb, bl_MarkupPct = 0, bl_CostVisibility = CostHint \<rparr>"]
    by simp
qed


text \<open>A configuration that \<open>Load\<close> hands to the process without an error has passed every check.\<close>

lemma Load_validated: "Load rd um pf ge path = (cfg, None) \<Longrightarrow> Validate cfg = None"
  by (auto simp: Load_def Let_def split: prod.splits option.splits if_splits)

lemma first_err_None: "first_err xs = None \<longleftrightarrow> (\<forall>c \<in> set xs. \<not> fst c)"
  by (induction xs rule: first_err.induct) auto

lemma Validate_None:
  assumes "Validate c = None"
  shows "1 \<le> gw_Port (cfg_Gateway c)" "gw_Port (cfg_Gateway c) \<le> 65535"
    and "cfg_BootstrapKey c = [] \<or> MinBootstrapKeyLen \<le> int (length (cfg_BootstrapKey c))"
    and "gw_TLSCertFile (cfg_Gateway c) = [] \<longleftrightarrow> gw_TLSKeyFile (cfg_Gateway c) = []"
    and "first_err (price_checks (cc_Prices (cfg_Catalog c))) = None"
    and "first_err (billing_checks (cfg_Billing c)) = None"
    and "1 \<le> ro_MaxFallbackDepth (cfg_Routing c)"
    and "1 \<le> lc_MaxRequestBytes (cfg_Limits c)" "1 \<le> lc_MaxResponseBytes (cfg_Limits c)"
    and "0 < lc_RequestTimeout (cfg_Limits c)" "1 \<le> lc_MaxConcurrentPerKey (cfg_Limits c)"
    and "qc_Enforcement (cfg_Quotas c) \<in> {''on'', ''observe''}"
    and "1 \<le> qc_DefaultSoftThresholdPct (cfg_Quotas c)" "qc_DefaultSoftThresholdPct (cfg_Quotas c) \<le> 100"
    and "cf_DefaultTTL (cfg_Cache c) \<le> cf_MaxTTL (cfg_Cache c)"
    and "cf_MaxEntryBytes (cfg_Cache c) \<le> cf_MaxBytes (cfg_Cache c)"
    and "0 \<le> db_DefaultSampleRate (cfg_Debug c)" "db_DefaultSampleRate (cfg_Debug c) \<le> 1"
    and "db_MaxTTL (cfg_Debug c) \<le> MaxCaptureTTLCeiling" "db_DefaultTTL (cfg_Debug c) \<le> db_MaxTTL (cfg_Debug c)"
    and "1 \<le> db_MaxBytesPerTenant (cfg_Debug c)" "Second \<le> db_SweepInterval (cfg_Debug c)"
  using assms unfolding Validate_def first_err_append
  by (simp_all split: if_splits) (blast | linarith | argo)+

lemma billing_accepted:
  assumes "first_err (billing_checks b) = None"
  shows "bl_Mode b \<in> {BillingPassthrough, BillingAbsorb, BillingMarkup}"
    and "bl_Mode b = BillingMarkup \<Longrightarrow> 0 < bl_MarkupPct b"
    and "bl_CostVisibility b \<in> {CostExact, CostHint, CostHidden}"
  using assms by (auto simp: billing_checks_def split: if_splits)

lemma Default_valid: "Validate Default = None"
  by (simp add: Validate_def Default_def price_checks_def billing_checks_def billing_names
      MinBootstrapKeyLen_def MaxCaptureTTLCeiling_def)

lemma applyEnv_empty: "applyEnv pf (\<lambda>_. []) cfg = cfg"
  by (simp add: applyEnv_def envStr_def Let_def TrimSpace_def trim_lead.simps lead_space_def)

lemma Load_default: "Load rd um pf (\<lambda>_. []) [] = (Default, None)"
  by (simp add: Load_def applyEnv_empty Default_valid)

text \<open>What a tenant is billed under any configuration that \<open>Load\<close> accepts, for a request that cost
  the operator \<open>cost\<close>: nothing in absorb mode, exactly the cost in passthrough mode, and strictly more
  than a positive cost in markup mode; a free request is never charged, no charge is negative, and a
  dearer request is never charged less.\<close>

theorem charge_accepted:
  assumes "Load rd um pf ge path = (cfg, None)" and "0 \<le> cost" "cost \<le> cost'"
  shows "(bl_Mode (cfg_Billing cfg) = BillingAbsorb \<and> Charge (cfg_Billing cfg) cost = 0 \<or>
      bl_Mode (cfg_Billing cfg) = BillingPassthrough \<and> Charge (cfg_Billing cfg) cost = cost \<or>
      bl_Mode (cfg_Billing cfg) = BillingMarkup \<and> (0 < cost \<longrightarrow> cost < Charge (cfg_Billing cfg) cost)) \<and>
    Charge (cfg_Billing cfg) 0 = 0 \<and> 0 \<le> Charge (cfg_Billing cfg) cost \<and>
    Charge (cfg_Billing cfg) cost \<le> Charge (cfg_Billing cfg) cost'"
proof -
  let ?b = "cfg_Billing cfg"
  have acc: "first_err (billing_checks ?b) = None" by (rule Validate_None(6) [OF Load_validated [OF assms(1)]])
  consider "bl_Mode ?b = BillingAbsorb" | "bl_Mode ?b = BillingPassthrough"
    | "bl_Mode ?b = BillingMarkup" "0 < bl_MarkupPct ?b" using billing_accepted(1,2) [OF acc] by blast
  then show ?thesis
  proof cases
    case 3
    define k where "k = 1 + bl_MarkupPct ?b / 100"
    have "1 < k" using 3 by (simp add: k_def)
    moreover have "Charge ?b x = x * k" for x using 3 by (simp add: Charge_def k_def billing_names)
    ultimately show ?thesis using 3 assms(2,3) by (simp add: mult_right_mono)
  qed (use assms(2,3) in \<open>simp_all add: Charge_def billing_names\<close>)
qed

theorem charge_accepted_witness: "Charge (cfg_Billing Default) 5 = 5 \<and> (5 :: rat) \<le> Charge (cfg_Billing Default) 7"
  using charge_accepted [OF Load_default, of 5 7]
  by (simp add: Default_def billing_names)

end
