(* ===== verification/Tenant_Limits.thy ===== *)
theory Tenant_Limits
  imports Gateway_Config
begin

text \<open>
  What one caller may consume: \<open>gateway/internal/server/limits.go\<close> and the concurrency limiter of
  \<open>gateway/internal/server/middleware.go\<close>.

  Both limiters hold their lock for the whole of an operation, so an operation is one step on the
  limiter's state. Tokens are \<open>float64\<close> in the code and rationals here, so the arithmetic of the bucket
  is exact; \<open>time.Duration(x)\<close> truncates to nanoseconds as in the code. A release closure with its
  \<open>sync.Once\<close> is an index into the limiter's list of permits, which says for each permit
  whether its release has run.
\<close>

section \<open>Effective limits\<close>

record effectiveLimits =
  ef_MaxRequestBytes :: int
  ef_RequestTimeout :: duration
  ef_StreamIdleTimeout :: duration
  ef_MaxConcurrentPerKey :: int
  ef_RequestsPerSecond :: int
  ef_BurstCapacity :: int
  ef_RequestsPerMinute :: int

definition lowerInt64 :: "int \<Rightarrow> int \<Rightarrow> int" where
  "lowerInt64 cap override = (if override \<le> 0 \<or> override > cap then cap else override)"

definition lowerInt :: "int \<Rightarrow> int \<Rightarrow> int" where
  "lowerInt cap override = (if override \<le> 0 \<or> override > cap then cap else override)"

definition lowerDuration :: "duration \<Rightarrow> int \<Rightarrow> duration" where
  "lowerDuration cap overrideSeconds = lowerInt64 cap (wrap64 (overrideSeconds * Second))"

definition limitsFor :: "Config \<Rightarrow> Tenant option \<Rightarrow> effectiveLimits" where
  "limitsFor cfg t =
     (let dep = cfg_Limits cfg;
          eff = \<lparr> ef_MaxRequestBytes = lc_MaxRequestBytes dep, ef_RequestTimeout = lc_RequestTimeout dep,
                  ef_StreamIdleTimeout = lc_StreamIdleTimeout dep,
                  ef_MaxConcurrentPerKey = lc_MaxConcurrentPerKey dep,
                  ef_RequestsPerSecond = rl_RequestsPerSecond (cfg_RateLimit cfg),
                  ef_BurstCapacity = rl_BurstCapacity (cfg_RateLimit cfg),
                  ef_RequestsPerMinute = rl_RequestsPerMinute (cfg_RateLimit cfg) \<rparr>
      in case t of
           None \<Rightarrow> eff
         | Some tn \<Rightarrow>
             let v = t_Limits tn in
             \<lparr> ef_MaxRequestBytes = lowerInt64 (ef_MaxRequestBytes eff) (tl_MaxRequestBytes v),
               ef_RequestTimeout = lowerDuration (ef_RequestTimeout eff) (tl_RequestTimeoutSeconds v),
               ef_StreamIdleTimeout = lowerDuration (ef_StreamIdleTimeout eff) (tl_StreamIdleTimeoutSeconds v),
               ef_MaxConcurrentPerKey = lowerInt (ef_MaxConcurrentPerKey eff) (tl_MaxConcurrentPerKey v),
               ef_RequestsPerSecond = lowerInt (ef_RequestsPerSecond eff) (tl_RequestsPerSecond v),
               ef_BurstCapacity = lowerInt (ef_BurstCapacity eff) (tl_BurstCapacity v),
               ef_RequestsPerMinute = lowerInt (ef_RequestsPerMinute eff) (tl_RequestsPerMinute v) \<rparr>)"

fun check_overrides :: "(string \<times> int \<times> int) list \<Rightarrow> apiError option" where
  \<comment> \<open>the loop over parameter, value and cap\<close>
  "check_overrides [] = None"
| "check_overrides ((param, v, cap) # fs) =
     (if v < 0 then Some (WithParam (InvalidRequest (''%s must not be negative.'', [FStr param])) param)
      else if v > cap
      then Some (WithParam (InvalidRequest
             (''%s is %d, above the deployment ceiling of %d. A tenant limit may only narrow one.'',
              [FStr param, FInt v, FInt cap])) param)
      else check_overrides fs)"

definition validateTenantLimits :: "Config \<Rightarrow> TenantLimits \<Rightarrow> apiError option" where
  "validateTenantLimits cfg l =
     (let dep = cfg_Limits cfg; rate = cfg_RateLimit cfg in
      check_overrides
        [(''limits.max_request_bytes'', tl_MaxRequestBytes l, lc_MaxRequestBytes dep),
         (''limits.request_timeout_seconds'', tl_RequestTimeoutSeconds l, whole_seconds (lc_RequestTimeout dep)),
         (''limits.stream_idle_timeout_seconds'', tl_StreamIdleTimeoutSeconds l,
            whole_seconds (lc_StreamIdleTimeout dep)),
         (''limits.max_concurrent_per_key'', tl_MaxConcurrentPerKey l, lc_MaxConcurrentPerKey dep),
         (''limits.requests_per_second'', tl_RequestsPerSecond l, rl_RequestsPerSecond rate),
         (''limits.burst_capacity'', tl_BurstCapacity l, rl_BurstCapacity rate),
         (''limits.requests_per_minute'', tl_RequestsPerMinute l, rl_RequestsPerMinute rate)])"

section \<open>The rate limiter\<close>

record bucket =
  bk_tokens :: rat
  bk_last :: time
  bk_minuteStart :: time
  bk_minuteCount :: int

type_synonym rateLimiter = "(string, bucket) gomap"

definition sweepAbove :: nat where
  "sweepAbove = 4096"

definition newRateLimiter :: rateLimiter where
  "newRateLimiter = []"

definition sweep :: "time \<Rightarrow> int \<Rightarrow> int \<Rightarrow> rateLimiter \<Rightarrow> rateLimiter" where
  "sweep now rps burst l =
     (let full = (if rps \<ge> 1 \<and> burst \<ge> 1 then \<lfloor>(of_int burst :: rat) / of_int rps * of_int Second\<rfloor> else 0)
      in filter (\<lambda>kv. \<not> (now - bk_last (snd kv) \<ge> full \<and> now - bk_minuteStart (snd kv) \<ge> Minute)) l)"

definition refill :: "time \<Rightarrow> int \<Rightarrow> int \<Rightarrow> bucket \<Rightarrow> bucket" where
  \<comment> \<open>the branch for a bucket that exists already\<close>
  "refill now rps burst b =
     (let b1 = (if rps \<ge> 1 \<and> burst \<ge> 1
                then let t = bk_tokens b + of_int (now - bk_last b) / of_int Second * of_int rps
                     in b\<lparr>bk_tokens := (if t > of_int burst then of_int burst else t)\<rparr>
                else b)
      in if now - bk_minuteStart b1 \<ge> Minute then b1\<lparr>bk_minuteStart := now, bk_minuteCount := 0\<rparr> else b1)"

definition bucket_wait :: "int \<Rightarrow> bucket \<Rightarrow> duration" where
  "bucket_wait rps b = \<lfloor>(1 - bk_tokens b) / of_int rps * of_int Second\<rfloor>"

definition spend :: "time \<Rightarrow> int \<Rightarrow> int \<Rightarrow> int \<Rightarrow> bucket \<Rightarrow> bucket \<times> duration \<times> bool" where
  \<comment> \<open>both ceilings measured before either is charged\<close>
  "spend now rps burst rpm b =
     (let bucketOn = (rps \<ge> 1 \<and> burst \<ge> 1); minuteOn = (rpm \<ge> 1);
          dry = (bucketOn \<and> bk_tokens b < 1);
          wait1 = (if dry then bucket_wait rps b else 0);
          out = (minuteOn \<and> bk_minuteCount b \<ge> rpm);
          w = Minute - (now - bk_minuteStart b);
          wait2 = (if out \<and> w > wait1 then w else wait1)
      in if dry \<or> out then (b, wait2, False)
         else (b\<lparr>bk_tokens := (if bucketOn then bk_tokens b - 1 else bk_tokens b),
                 bk_minuteCount := (if minuteOn then bk_minuteCount b + 1 else bk_minuteCount b)\<rparr>, 0, True))"

definition new_bucket :: "time \<Rightarrow> int \<Rightarrow> bucket" where
  "new_bucket now burst = \<lparr> bk_tokens = of_int burst, bk_last = now, bk_minuteStart = now, bk_minuteCount = 0 \<rparr>"

definition rate_take ::
  "time \<Rightarrow> string \<Rightarrow> int \<Rightarrow> int \<Rightarrow> int \<Rightarrow> rateLimiter \<Rightarrow> rateLimiter \<times> duration \<times> bool" where
  "rate_take now tid rps burst rpm l =
     (if \<not> (rps \<ge> 1 \<and> burst \<ge> 1) \<and> \<not> rpm \<ge> 1 then (l, 0, True)
      else
        let (l1, b) = (case map_of l tid of
               None \<Rightarrow>
                 (let b = new_bucket now burst; l' = AList.update tid b l
                  in (if length l' > sweepAbove then sweep now rps burst l' else l', b))
             | Some b \<Rightarrow> (l, refill now rps burst b));
            (b2, wait, ok) = spend now rps burst rpm (b\<lparr>bk_last := now\<rparr>)
        in (AList.update tid b2 l1, wait, ok))"

section \<open>The concurrency limiter\<close>

record concurrencyLimiter =
  cl_inUse :: "(string, int) gomap"
  cl_limit :: int
  cl_permits :: "(string \<times> bool) list" \<comment> \<open>the key of each release closure, and whether it has run\<close>

definition newConcurrencyLimiter :: "int \<Rightarrow> concurrencyLimiter" where
  "newConcurrencyLimiter limit = \<lparr> cl_inUse = [], cl_limit = (if limit < 1 then 32 else limit), cl_permits = [] \<rparr>"

definition in_use :: "concurrencyLimiter \<Rightarrow> string \<Rightarrow> int" where
  "in_use l key = (case map_of (cl_inUse l) key of None \<Rightarrow> 0 | Some n \<Rightarrow> n)"

definition acquire :: "string \<Rightarrow> int \<Rightarrow> concurrencyLimiter \<Rightarrow> concurrencyLimiter \<times> nat option" where
  "acquire key limit0 l =
     (let limit = (if limit0 < 1 then cl_limit l else limit0) in
      if in_use l key \<ge> limit then (l, None)
      else (l\<lparr>cl_inUse := AList.update key (in_use l key + 1) (cl_inUse l),
              cl_permits := cl_permits l @ [(key, False)]\<rparr>, Some (length (cl_permits l))))"

definition release :: "nat \<Rightarrow> concurrencyLimiter \<Rightarrow> concurrencyLimiter" where
  \<comment> \<open>calling the closure \<open>acquire\<close> returned; only the first call has an effect\<close>
  "release p l =
     (if p < length (cl_permits l) \<and> \<not> snd (cl_permits l ! p)
      then let key = fst (cl_permits l ! p);
               l1 = l\<lparr>cl_permits := (cl_permits l)[p := (key, True)]\<rparr>
           in if in_use l1 key \<le> 1 then l1\<lparr>cl_inUse := AList.delete key (cl_inUse l1)\<rparr>
              else l1\<lparr>cl_inUse := AList.update key (in_use l1 key - 1) (cl_inUse l1)\<rparr>
      else l)"

section \<open>Limits only narrow\<close>

lemma check_overrides_None:
  "check_overrides fs = None \<longleftrightarrow> (\<forall>(p, v, cap) \<in> set fs. 0 \<le> v \<and> v \<le> cap)"
  by (induction fs rule: check_overrides.induct) auto

lemma lower_le: "lowerInt64 cap v \<le> cap" "lowerInt cap v \<le> cap" "lowerDuration cap v \<le> cap"
  by (auto simp: lowerInt64_def lowerInt_def lowerDuration_def)

lemma lower_accepted:
  assumes "0 \<le> v" "v \<le> cap"
  shows "lowerInt cap v = (if v = 0 then cap else v)" "lowerInt64 cap v = (if v = 0 then cap else v)"
  using assms by (auto simp: lowerInt_def lowerInt64_def)

lemma lowerDuration_accepted:
  assumes "0 \<le> v" "v \<le> whole_seconds cap" "cap < 2 ^ 63"
  shows "lowerDuration cap v = (if v * Second = 0 then cap else v * Second)"
proof (cases "v = 0")
  case True
  then show ?thesis by (simp add: lowerDuration_def lowerInt64_def wrap64_def)
next
  case False
  then have v: "1 \<le> v" using assms(1) by simp
  have "cap \<ge> 0"
  proof (rule ccontr)
    assume "\<not> cap \<ge> 0"
    then have "v \<le> - ((- cap) div Second)" "(- cap) div Second \<ge> 0"
      using assms(2) by (simp_all add: whole_seconds_def pos_imp_zdiv_nonneg_iff)
    with v show False by linarith
  qed
  then have "v \<le> cap div Second" using assms(2) by (simp add: whole_seconds_def)
  then have "v * Second \<le> cap"
    using div_mult_mod_eq [of cap Second] pos_mod_sign [of Second cap] by linarith
  moreover from this have "wrap64 (v * Second) = v * Second"
    using v assms by (intro wrap64_id) auto
  ultimately show ?thesis using v by (auto simp: lowerDuration_def lowerInt64_def)
qed

definition no_wider :: "effectiveLimits \<Rightarrow> effectiveLimits \<Rightarrow> bool" where
  "no_wider a d \<longleftrightarrow>
     ef_MaxRequestBytes a \<le> ef_MaxRequestBytes d \<and> ef_RequestTimeout a \<le> ef_RequestTimeout d \<and>
     ef_StreamIdleTimeout a \<le> ef_StreamIdleTimeout d \<and> ef_MaxConcurrentPerKey a \<le> ef_MaxConcurrentPerKey d \<and>
     ef_RequestsPerSecond a \<le> ef_RequestsPerSecond d \<and> ef_BurstCapacity a \<le> ef_BurstCapacity d \<and>
     ef_RequestsPerMinute a \<le> ef_RequestsPerMinute d"

definition overridden :: "effectiveLimits \<Rightarrow> TenantLimits \<Rightarrow> effectiveLimits" where
  \<comment> \<open>what an operator reading the stored overrides expects: each replaces the deployment's, zero is absent\<close>
  "overridden d v =
     (let or_else = (\<lambda>x y. if x = 0 then y else x) in
      \<lparr> ef_MaxRequestBytes = or_else (tl_MaxRequestBytes v) (ef_MaxRequestBytes d),
        ef_RequestTimeout = or_else (tl_RequestTimeoutSeconds v * Second) (ef_RequestTimeout d),
        ef_StreamIdleTimeout = or_else (tl_StreamIdleTimeoutSeconds v * Second) (ef_StreamIdleTimeout d),
        ef_MaxConcurrentPerKey = or_else (tl_MaxConcurrentPerKey v) (ef_MaxConcurrentPerKey d),
        ef_RequestsPerSecond = or_else (tl_RequestsPerSecond v) (ef_RequestsPerSecond d),
        ef_BurstCapacity = or_else (tl_BurstCapacity v) (ef_BurstCapacity d),
        ef_RequestsPerMinute = or_else (tl_RequestsPerMinute v) (ef_RequestsPerMinute d) \<rparr>)"

lemma limits_no_wider: "no_wider (limitsFor cfg u) (limitsFor cfg None)"
  by (auto simp: no_wider_def limitsFor_def Let_def lower_le split: option.split)

text \<open>A tenant's limits only narrow the deployment's: no effective limit is above the deployment's, for
  any stored values, and overrides that validation accepts are exactly the limits enforced (zero
  meaning the deployment's own). The two ceilings given as durations are \<open>int64\<close> values.\<close>

theorem limits_narrow:
  assumes "validateTenantLimits cfg (t_Limits t) = None"
    and "lc_RequestTimeout (cfg_Limits cfg) < 2 ^ 63" "lc_StreamIdleTimeout (cfg_Limits cfg) < 2 ^ 63"
  shows "no_wider (limitsFor cfg u) (limitsFor cfg None) \<and>
    limitsFor cfg (Some t) = overridden (limitsFor cfg None) (t_Limits t)"
proof -
  define v dep rate where "v = t_Limits t" and "dep = cfg_Limits cfg" and "rate = cfg_RateLimit cfg"
  have ok: "0 \<le> tl_MaxRequestBytes v" "tl_MaxRequestBytes v \<le> lc_MaxRequestBytes dep"
    "0 \<le> tl_RequestTimeoutSeconds v" "tl_RequestTimeoutSeconds v \<le> whole_seconds (lc_RequestTimeout dep)"
    "0 \<le> tl_StreamIdleTimeoutSeconds v" "tl_StreamIdleTimeoutSeconds v \<le> whole_seconds (lc_StreamIdleTimeout dep)"
    "0 \<le> tl_MaxConcurrentPerKey v" "tl_MaxConcurrentPerKey v \<le> lc_MaxConcurrentPerKey dep"
    "0 \<le> tl_RequestsPerSecond v" "tl_RequestsPerSecond v \<le> rl_RequestsPerSecond rate"
    "0 \<le> tl_BurstCapacity v" "tl_BurstCapacity v \<le> rl_BurstCapacity rate"
    "0 \<le> tl_RequestsPerMinute v" "tl_RequestsPerMinute v \<le> rl_RequestsPerMinute rate"
    using assms(1) unfolding validateTenantLimits_def check_overrides_None Let_def
    by (simp_all add: v_def dep_def rate_def)
  have "limitsFor cfg (Some t) = overridden (limitsFor cfg None) v"
    unfolding limitsFor_def overridden_def Let_def option.case v_def [symmetric] dep_def [symmetric] rate_def [symmetric]
    using lower_accepted [OF ok(1,2)] lowerDuration_accepted [OF ok(3,4)] lowerDuration_accepted [OF ok(5,6)]
      lower_accepted [OF ok(7,8)] lower_accepted [OF ok(9,10)] lower_accepted [OF ok(11,12)]
      lower_accepted [OF ok(13,14)] assms(2,3)
    by (simp add: dep_def)
  then show ?thesis by (simp add: limits_no_wider v_def)
qed

definition example_limited :: Tenant where
  "example_limited = \<lparr> t_ID = ''tnt_1'', t_Name = ''acme'', t_Status = ''active'', t_CreatedAt = 0,
     t_Limits = \<lparr> tl_MaxRequestBytes = 1000, tl_RequestTimeoutSeconds = 30, tl_StreamIdleTimeoutSeconds = 0,
       tl_MaxConcurrentPerKey = 4, tl_RequestsPerSecond = 2, tl_BurstCapacity = 10, tl_RequestsPerMinute = 0 \<rparr>,
     t_Cache = \<lparr> tc_Enabled = False, tc_TTLSeconds = 0 \<rparr>,
     t_DebugCapture = \<lparr> dc_Enabled = False, dc_TTLSeconds = 0, dc_SampleRate = 0 \<rparr>, t_SystemInstruction = [] \<rparr>"

theorem limits_narrow_witness:
  "ef_RequestTimeout (limitsFor Default (Some example_limited)) = 30 * Second \<and>
   ef_StreamIdleTimeout (limitsFor Default (Some example_limited)) = 60 * Second"
proof -
  have "validateTenantLimits Default (t_Limits example_limited) = None"
    by (simp add: validateTenantLimits_def Default_def example_limited_def whole_seconds_def)
  from limits_narrow [OF this, of "Some example_limited"] show ?thesis
    by (simp add: overridden_def Let_def Default_def example_limited_def limitsFor_def)
qed

section \<open>The rate limiter keeps both ceilings\<close>

definition expired :: "time \<Rightarrow> int \<Rightarrow> int \<Rightarrow> bucket \<Rightarrow> bool" where
  "expired now rps burst b \<longleftrightarrow>
     now - bk_last b \<ge> (if rps \<ge> 1 \<and> burst \<ge> 1 then \<lfloor>(of_int burst :: rat) / of_int rps * of_int Second\<rfloor> else 0) \<and>
     now - bk_minuteStart b \<ge> Minute"

lemma sweep_lookup:
  assumes "distinct (map fst l)"
  shows "map_of (sweep now rps burst l) k =
    (case map_of l k of None \<Rightarrow> None | Some b \<Rightarrow> if expired now rps burst b then None else Some b)"
  using map_of_filter_value [OF assms, of "\<lambda>_ b. \<not> expired now rps burst b" k]
  by (simp add: sweep_def expired_def Let_def split: option.splits if_splits)

lemma sweep_distinct: "distinct (map fst l) \<Longrightarrow> distinct (map fst (sweep now rps burst l))"
  by (auto simp: sweep_def Let_def)

definition opened :: "time \<Rightarrow> int \<Rightarrow> int \<Rightarrow> bucket option \<Rightarrow> bucket" where
  \<comment> \<open>the bucket a request is measured against\<close>
  "opened now rps burst ob =
     (case ob of None \<Rightarrow> new_bucket now burst | Some b \<Rightarrow> refill now rps burst b)\<lparr>bk_last := now\<rparr>"

lemma rate_take_self:
  assumes "rps \<ge> 1 \<and> burst \<ge> 1 \<or> rpm \<ge> 1"
  shows "map_of (fst (rate_take now k rps burst rpm l)) k =
      Some (fst (spend now rps burst rpm (opened now rps burst (map_of l k))))"
    and "snd (rate_take now k rps burst rpm l) = snd (spend now rps burst rpm (opened now rps burst (map_of l k)))"
  using assms
  by (auto simp: rate_take_def opened_def Let_def split: prod.splits option.splits)

lemma rate_take_other:
  assumes "distinct (map fst l)" "k \<noteq> k'"
  shows "map_of (fst (rate_take now k rps burst rpm l)) k' = map_of l k' \<or>
    map_of (fst (rate_take now k rps burst rpm l)) k' = None \<and>
    (\<exists>b. map_of l k' = Some b \<and> expired now rps burst b)"
  using assms distinct_update_keys [OF assms(1), of k "new_bucket now burst"]
  by (auto simp: rate_take_def Let_def sweep_lookup split: prod.splits option.splits)

lemma rate_take_distinct:
  "distinct (map fst l) \<Longrightarrow> distinct (map fst (fst (rate_take now k rps burst rpm l)))"
  by (auto simp: rate_take_def Let_def split: prod.splits option.splits intro!: sweep_distinct)

fun admitted :: "string \<Rightarrow> rateLimiter \<Rightarrow> (time \<times> string \<times> int \<times> int \<times> int) list \<Rightarrow> int" where
  \<comment> \<open>how many requests of one tenant a sequence of \<open>take\<close> calls admits; a call is its time, tenant and
     three ceilings\<close>
  "admitted tid l [] = 0"
| "admitted tid l ((now, k, rps, burst, rpm) # es) =
     (case rate_take now k rps burst rpm l of
        (l', wait, ok) \<Rightarrow> (if k = tid \<and> ok then 1 else 0) + admitted tid l' es)"

text \<open>A bound on the admitted requests follows from an invariant of the tenant's bucket: its value for the
  count so far, the time and what the limiter holds for the tenant.\<close>

locale rate_bound =
  fixes tid :: string and good :: "time \<Rightarrow> string \<times> int \<times> int \<times> int \<Rightarrow> bool"
    and inv :: "int \<Rightarrow> time \<Rightarrow> bucket option \<Rightarrow> bool" and bound :: "time \<Rightarrow> int \<Rightarrow> bool"
  assumes start: "good now e \<Longrightarrow> inv 0 now None"
    and later: "inv n now ob \<Longrightarrow> good now' e \<Longrightarrow> now \<le> now' \<Longrightarrow> inv n now' ob"
    and own: "inv n now ob \<Longrightarrow> good now (tid, rps, burst, rpm) \<Longrightarrow>
      (rps \<ge> 1 \<and> burst \<ge> 1 \<or> rpm \<ge> 1) \<and>
      (case spend now rps burst rpm (opened now rps burst ob) of
         (b, wait, ok) \<Rightarrow> inv (if ok then n + 1 else n) now (Some b))"
    and swept: "inv n now (Some b) \<Longrightarrow> good now (k, rps, burst, rpm) \<Longrightarrow> expired now rps burst b \<Longrightarrow> inv n now None"
    and finish: "inv n now ob \<Longrightarrow> bound now n"
begin

lemma step:
  assumes "inv n now (map_of l tid)" "good now (k, rps, burst, rpm)" "distinct (map fst l)"
    and "rate_take now k rps burst rpm l = (l', wait, ok)"
  shows "inv (if k = tid \<and> ok then n + 1 else n) now (map_of l' tid)"
proof (cases "k = tid")
  case True
  with own [OF assms(1)] assms(2) have on: "rps \<ge> 1 \<and> burst \<ge> 1 \<or> rpm \<ge> 1"
    and next_inv: "case spend now rps burst rpm (opened now rps burst (map_of l tid)) of
         (b, wait, ok) \<Rightarrow> inv (if ok then n + 1 else n) now (Some b)" by auto
  from rate_take_self [OF on, of now tid l] assms(4) True next_inv
  show ?thesis by (auto split: prod.splits)
next
  case False
  with rate_take_other [OF assms(3) False, of now rps burst rpm] assms(4)
  show ?thesis using assms(1) swept [OF _ assms(2)] by (cases "map_of l tid") auto
qed

lemma run:
  assumes "\<forall>e \<in> set es. good (fst e) (snd e)" "sorted (map fst es)" "\<forall>e \<in> set es. now \<le> fst e"
    and "inv n now (map_of l tid)" "distinct (map fst l)"
  shows "\<exists>now'. (now' = now \<or> now' \<in> set (map fst es)) \<and> bound now' (n + admitted tid l es)"
  using assms
proof (induction es arbitrary: n now l)
  case Nil
  then show ?case using finish by auto
next
  case (Cons e es)
  obtain t k rps burst rpm where e: "e = (t, k, rps, burst, rpm)" by (cases e)
  obtain l' wait ok where tk: "rate_take t k rps burst rpm l = (l', wait, ok)" by (cases "rate_take t k rps burst rpm l")
  have good: "good t (k, rps, burst, rpm)" using Cons.prems(1) e by simp
  have "inv n t (map_of l tid)" using later [OF Cons.prems(4) good] Cons.prems(3) e by simp
  from step [OF this good Cons.prems(5) tk] have inv: "inv (if k = tid \<and> ok then n + 1 else n) t (map_of l' tid)" .
  have "distinct (map fst l')" using rate_take_distinct [OF Cons.prems(5), of t k rps burst rpm] tk by simp
  with Cons.IH [OF _ _ _ inv] Cons.prems(1,2) e
  obtain now' where "now' = t \<or> now' \<in> set (map fst es)"
      "bound now' ((if k = tid \<and> ok then n + 1 else n) + admitted tid l' es)" by auto
  then show ?case using tk e by (auto intro!: exI [of _ now'] simp: add.assoc split: if_splits)
qed

lemma run_new:
  assumes "\<forall>e \<in> set es. good (fst e) (snd e)" "sorted (map fst es)" "es \<noteq> []"
  shows "\<exists>now \<in> set (map fst es). bound now (admitted tid newRateLimiter es)"
proof -
  obtain t e es' where es: "es = (t, e) # es'" using assms(3) by (cases es) auto
  have "inv 0 t (map_of newRateLimiter tid)" using start [of t e] assms(1) es by (simp add: newRateLimiter_def)
  from run [OF assms(1,2) _ this] assms(2) es show ?thesis by (auto simp: newRateLimiter_def)
qed

end

definition minute_event :: "string \<Rightarrow> int \<Rightarrow> time \<Rightarrow> time \<Rightarrow> string \<times> int \<times> int \<times> int \<Rightarrow> bool" where
  \<comment> \<open>the tenant's own requests come with the minute ceiling \<open>M\<close>; the others are arbitrary\<close>
  "minute_event tid M t0 now e \<longleftrightarrow> t0 \<le> now \<and> 1 \<le> M \<and> (fst e = tid \<longrightarrow> snd (snd (snd e)) = M)"

definition minute_inv :: "int \<Rightarrow> time \<Rightarrow> int \<Rightarrow> time \<Rightarrow> bucket option \<Rightarrow> bool" where
  "minute_inv M t0 n now ob \<longleftrightarrow> t0 \<le> now \<and> 1 \<le> M \<and>
     (case ob of
        None \<Rightarrow> n \<le> M * ((now - t0) div Minute)
      | Some b \<Rightarrow> t0 \<le> bk_minuteStart b \<and> bk_minuteStart b \<le> now \<and> bk_minuteCount b \<le> M \<and>
          n \<le> M * ((bk_minuteStart b - t0) div Minute) + bk_minuteCount b)"

lemma window_mono: "(a :: int) \<le> b \<Longrightarrow> 1 \<le> M \<Longrightarrow> M * (a div Minute) \<le> M * (b div Minute)"
  by (simp add: zdiv_mono1)

lemma window_next:
  assumes "(a :: int) + Minute \<le> b" "1 \<le> M"
  shows "M * (a div Minute) + M \<le> M * (b div Minute)"
proof -
  have "a div Minute + 1 \<le> b div Minute"
    using zdiv_mono1 [OF assms(1), of Minute] by (simp add: div_add_self2)
  then have "M * (a div Minute + 1) \<le> M * (b div Minute)" using assms(2) by (simp add: mult_left_mono)
  then show ?thesis by (simp add: distrib_left)
qed

lemma minute_opened:
  assumes "minute_inv M t0 n now ob"
  shows "minute_inv M t0 n now (Some (opened now rps burst ob))"
proof (cases ob)
  case None
  with assms show ?thesis by (simp add: minute_inv_def opened_def new_bucket_def)
next
  case (Some b)
  show ?thesis
  proof (cases "now - bk_minuteStart b \<ge> Minute")
    case True
    have "M * ((bk_minuteStart b - t0) div Minute) + M \<le> M * ((now - t0) div Minute)"
      using True assms by (intro window_next) (auto simp: minute_inv_def)
    with True assms Some show ?thesis
      by (auto simp: minute_inv_def opened_def refill_def Let_def)
  next
    case False
    with assms Some show ?thesis by (auto simp: minute_inv_def opened_def refill_def Let_def)
  qed
qed

interpretation minute_bound: rate_bound tid "minute_event tid M t0" "minute_inv M t0"
  "\<lambda>now n. n \<le> M * ((now - t0) div Minute + 1)"
proof
  fix now :: int and e assume "minute_event tid M t0 now e"
  then show "minute_inv M t0 0 now None"
    by (simp add: minute_inv_def minute_event_def pos_imp_zdiv_nonneg_iff)
next
  fix n now ob now' e
  assume "minute_inv M t0 n now ob" "minute_event tid M t0 now' e" "now \<le> now'"
  then show "minute_inv M t0 n now' ob"
    by (cases ob) (auto simp: minute_inv_def intro: order_trans [OF _ window_mono])
next
  fix n now ob rps burst rpm
  assume inv: "minute_inv M t0 n now ob" and ev: "minute_event tid M t0 now (tid, rps, burst, rpm)"
  have "minute_inv M t0 n now (Some (opened now rps burst ob))" by (rule minute_opened [OF inv])
  then show "(rps \<ge> 1 \<and> burst \<ge> 1 \<or> rpm \<ge> 1) \<and>
      (case spend now rps burst rpm (opened now rps burst ob) of
         (b, wait, ok) \<Rightarrow> minute_inv M t0 (if ok then n + 1 else n) now (Some b))"
    using ev by (auto simp: minute_inv_def minute_event_def spend_def Let_def)
next
  fix n now b k rps burst rpm
  assume inv: "minute_inv M t0 n now (Some b)" and "expired now rps burst b"
  then have "M * ((bk_minuteStart b - t0) div Minute) + M \<le> M * ((now - t0) div Minute)"
    by (intro window_next) (auto simp: minute_inv_def expired_def)
  with inv show "minute_inv M t0 n now None" by (auto simp: minute_inv_def)
next
  fix n now ob assume inv: "minute_inv M t0 n now ob"
  show "n \<le> M * ((now - t0) div Minute + 1)"
  proof (cases ob)
    case None
    with inv show ?thesis by (simp add: minute_inv_def distrib_left)
  next
    case (Some b)
    then have "M * ((bk_minuteStart b - t0) div Minute) \<le> M * ((now - t0) div Minute)"
      "n \<le> M * ((bk_minuteStart b - t0) div Minute) + M"
      using inv by (auto intro!: window_mono simp: minute_inv_def)
    then show ?thesis by (simp only: distrib_left mult_1_right)
  qed
qed


text \<open>The figure an operator quotes to a customer holds: whatever the other tenants do, and however
  entries are swept, a tenant held to \<open>M\<close> requests a minute is admitted at most \<open>M\<close> times for every
  minute begun since \<open>t0\<close>.\<close>

theorem rate_minute_bound:
  assumes "1 \<le> M" "sorted (map fst es)" "\<forall>e \<in> set es. t0 \<le> fst e \<and> fst e \<le> t"
    and "\<forall>(now, k, rps, burst, rpm) \<in> set es. k = tid \<longrightarrow> rpm = M" and "t0 \<le> t"
  shows "admitted tid newRateLimiter es \<le> M * ((t - t0) div Minute + 1)"
proof (cases "es = []")
  case True
  then show ?thesis using assms(1,5) by (simp add: pos_imp_zdiv_nonneg_iff)
next
  case False
  have "\<forall>e \<in> set es. minute_event tid M t0 (fst e) (snd e)"
    using assms by (auto simp: minute_event_def)
  from minute_bound.run_new [OF this assms(2) False] obtain now where
    now: "now \<in> set (map fst es)" "admitted tid newRateLimiter es \<le> M * ((now - t0) div Minute + 1)" by blast
  have "M * ((now - t0) div Minute) \<le> M * ((t - t0) div Minute)"
    using now(1) assms(1,3) by (intro window_mono) auto
  with now(2) show ?thesis by (simp add: distrib_left)
qed

theorem rate_minute_bound_witness:
  "admitted ''a'' newRateLimiter
     [(0, ''a'', 0, 0, 2), (5, ''b'', 9, 9, 9), (6, ''a'', 0, 0, 2), (7, ''a'', 0, 0, 2)] \<le> 2"
  using rate_minute_bound [of 2 "[(0, ''a'', 0, 0, 2), (5, ''b'', 9, 9, 9), (6, ''a'', 0, 0, 2), (7, ''a'', 0, 0, 2)]" 0 7 "''a''"]
  by simp

definition bucket_event :: "int \<Rightarrow> int \<Rightarrow> time \<Rightarrow> time \<Rightarrow> string \<times> int \<times> int \<times> int \<Rightarrow> bool" where
  "bucket_event R B t0 now e \<longleftrightarrow> t0 \<le> now \<and> 1 \<le> R \<and> 1 \<le> B \<and> R dvd B * Second \<and>
     fst (snd e) = R \<and> fst (snd (snd e)) = B"

definition earned :: "int \<Rightarrow> time \<Rightarrow> time \<Rightarrow> rat" where
  "earned R t0 t = of_int (t - t0) / of_int Second * of_int R"

definition bucket_inv :: "int \<Rightarrow> int \<Rightarrow> time \<Rightarrow> int \<Rightarrow> time \<Rightarrow> bucket option \<Rightarrow> bool" where
  "bucket_inv R B t0 n now ob \<longleftrightarrow> t0 \<le> now \<and> 1 \<le> R \<and> 1 \<le> B \<and> R dvd B * Second \<and>
     (case ob of
        None \<Rightarrow> of_int n \<le> earned R t0 now
      | Some b \<Rightarrow> t0 \<le> bk_last b \<and> bk_last b \<le> now \<and> 0 \<le> bk_tokens b \<and> bk_tokens b \<le> of_int B \<and>
          of_int n + bk_tokens b \<le> of_int B + earned R t0 (bk_last b))"

lemma earned_mono: "a \<le> b \<Longrightarrow> 1 \<le> R \<Longrightarrow> earned R t0 a \<le> earned R t0 b"
  by (simp add: earned_def divide_right_mono mult_right_mono)

lemma earned_split: "earned R t0 b = earned R t0 a + of_int (b - a) / of_int Second * of_int R"
  by (simp add: earned_def add_divide_distrib diff_divide_distrib algebra_simps)

lemma full_exact:
  assumes "R dvd B * Second" "1 \<le> R"
  shows "of_int \<lfloor>(of_int B :: rat) / of_int R * of_int Second\<rfloor> = (of_int B :: rat) / of_int R * of_int Second"
proof -
  obtain c where c: "B * Second = R * c" using assms(1) by (auto simp: dvd_def)
  have "(of_int B :: rat) * of_int Second = of_int R * of_int c" using c by (metis of_int_mult)
  then have "(of_int B :: rat) / of_int R * of_int Second = of_int c" using assms(2) by (simp add: field_simps)
  then show ?thesis by simp
qed

lemma expired_full:
  assumes "expired now R B b" "R dvd B * Second" "1 \<le> R" "1 \<le> B"
  shows "of_int B \<le> of_int (now - bk_last b) / of_int Second * (of_int R :: rat)"
proof -
  have "\<lfloor>(of_int B :: rat) / of_int R * of_int Second\<rfloor> \<le> now - bk_last b"
    using assms by (simp add: expired_def)
  then have "(of_int \<lfloor>(of_int B :: rat) / of_int R * of_int Second\<rfloor> :: rat) \<le> of_int (now - bk_last b)"
    by (simp only: of_int_le_iff)
  then have "(of_int B :: rat) / of_int R * of_int Second \<le> of_int (now - bk_last b)"
    unfolding full_exact [OF assms(2,3)] .
  then show ?thesis using assms(3) by (simp add: field_simps)
qed

lemma bucket_opened:
  assumes "bucket_inv R B t0 n now ob"
  shows "bucket_inv R B t0 n now (Some (opened now R B ob))"
proof (cases ob)
  case None
  with assms show ?thesis by (auto simp: bucket_inv_def opened_def new_bucket_def)
next
  case (Some b)
  have "0 \<le> of_int (now - bk_last b) / of_int Second * (of_int R :: rat)"
    using assms Some by (simp add: bucket_inv_def)
  with assms Some earned_split [of R t0 now "bk_last b"] show ?thesis
    by (auto simp: bucket_inv_def opened_def refill_def Let_def)
qed

interpretation bucket_bound: rate_bound tid "bucket_event R B t0" "bucket_inv R B t0"
  "\<lambda>now n. (of_int n :: rat) \<le> of_int B + earned R t0 now"
proof
  fix now :: int and e assume "bucket_event R B t0 now e"
  then show "bucket_inv R B t0 0 now None" by (simp add: bucket_inv_def bucket_event_def earned_def)
next
  fix n now ob now' e
  assume "bucket_inv R B t0 n now ob" "bucket_event R B t0 now' e" "now \<le> now'"
  then show "bucket_inv R B t0 n now' ob"
    by (cases ob) (auto simp: bucket_inv_def intro: order_trans [OF _ earned_mono])
next
  fix n now ob rps burst rpm
  assume inv: "bucket_inv R B t0 n now ob" and "bucket_event R B t0 now (tid, rps, burst, rpm)"
  then have eq: "rps = R" "burst = B" "1 \<le> R" "1 \<le> B" by (auto simp: bucket_event_def)
  from bucket_opened [OF inv] eq(3,4) show "(rps \<ge> 1 \<and> burst \<ge> 1 \<or> rpm \<ge> 1) \<and>
      (case spend now rps burst rpm (opened now rps burst ob) of
         (b, wait, ok) \<Rightarrow> bucket_inv R B t0 (if ok then n + 1 else n) now (Some b))"
    unfolding eq(1,2) by (auto simp: bucket_inv_def spend_def Let_def)
next
  fix n now b k rps burst rpm
  assume inv: "bucket_inv R B t0 n now (Some b)" and ev: "bucket_event R B t0 now (k, rps, burst, rpm)"
    and "expired now rps burst b"
  then have "of_int B \<le> of_int (now - bk_last b) / of_int Second * (of_int R :: rat)"
    by (intro expired_full) (auto simp: bucket_event_def)
  with inv earned_split [of R t0 now "bk_last b"] show "bucket_inv R B t0 n now None"
    by (auto simp: bucket_inv_def)
next
  fix n now ob assume inv: "bucket_inv R B t0 n now ob"
  show "of_int n \<le> of_int B + earned R t0 now"
  proof (cases ob)
    case None
    with inv show ?thesis by (simp add: bucket_inv_def)
  next
    case (Some b)
    with inv earned_mono [of "bk_last b" now R t0] show ?thesis by (simp add: bucket_inv_def)
  qed
qed



section \<open>Sweeping and waiting\<close>

lemma opened_expired:
  assumes "expired now R B b" "now \<le> t" "R dvd B * Second" "1 \<le> R" "1 \<le> B" "0 \<le> bk_tokens b"
  shows "opened t R B (Some b) = opened t R B None"
proof -
  have "(of_int (now - bk_last b) :: rat) / of_int Second * of_int R \<le> of_int (t - bk_last b) / of_int Second * of_int R"
    using assms(2,4) by (intro mult_right_mono divide_right_mono) auto
  with expired_full [OF assms(1,3,4,5)] have "of_int B \<le> bk_tokens b + of_int (t - bk_last b) / of_int Second * (of_int R :: rat)"
    using assms(6) by linarith
  moreover have "t - bk_minuteStart b \<ge> Minute" using assms(1,2) by (simp add: expired_def)
  ultimately show ?thesis
    using assms(4,5) by (auto simp: opened_def refill_def new_bucket_def Let_def)
qed

lemma sweep_opened:
  assumes "distinct (map fst l)" "\<forall>b \<in> set (map snd l). 0 \<le> bk_tokens b"
    and "now \<le> t" "R dvd B * Second" "1 \<le> R" "1 \<le> B"
  shows "opened t R B (map_of (sweep now R B l) k) = opened t R B (map_of l k)"
proof (cases "map_of l k")
  case None
  then show ?thesis using sweep_lookup [OF assms(1)] by simp
next
  case (Some b)
  then have "0 \<le> bk_tokens b" using assms(2) by (force dest: map_of_SomeD)
  with Some show ?thesis
    using sweep_lookup [OF assms(1), of now R B k] opened_expired [OF _ assms(3-6), of b] by simp
qed

text \<open>Sweeping changes no answer when all tenants have the same rate and burst: the next request of
  any tenant gets the same answer and leaves the same bucket whether or not \<open>sweep\<close> ran before. It does
  when they differ, because \<open>sweep\<close> measures every bucket by the ceilings of the tenant that
  triggered it: a bucket that needs 200 seconds to fill is forgotten after 60, and its tenant has
  199 tokens left after its next request instead of 59.\<close>

theorem sweep_answers:
  assumes "distinct (map fst l)" "\<forall>b \<in> set (map snd l). 0 \<le> bk_tokens b"
    and "now \<le> t" "R dvd B * Second" "1 \<le> R" "1 \<le> B"
  shows "snd (rate_take t k R B rpm (sweep now R B l)) = snd (rate_take t k R B rpm l) \<and>
    map_of (fst (rate_take t k R B rpm (sweep now R B l))) k = map_of (fst (rate_take t k R B rpm l)) k \<and>
    (let spent = [(''a'', \<lparr> bk_tokens = 0, bk_last = 0, bk_minuteStart = 0, bk_minuteCount = 200 \<rparr>)] in
     map_option bk_tokens (map_of (fst (rate_take Minute ''a'' 1 200 0 (sweep Minute 50 100 spent))) ''a'') = Some 199 \<and>
     map_option bk_tokens (map_of (fst (rate_take Minute ''a'' 1 200 0 spent)) ''a'') = Some 59)"
proof -
  have on: "R \<ge> 1 \<and> B \<ge> 1 \<or> rpm \<ge> 1" using assms by simp
  have same: "snd (rate_take t k R B rpm (sweep now R B l)) = snd (rate_take t k R B rpm l)"
    "map_of (fst (rate_take t k R B rpm (sweep now R B l))) k = map_of (fst (rate_take t k R B rpm l)) k"
    unfolding rate_take_self [OF on] sweep_opened [OF assms] by simp_all
  have "sweep Minute 50 100 [(''a'', \<lparr> bk_tokens = 0, bk_last = 0, bk_minuteStart = 0, bk_minuteCount = 200 \<rparr>)] = []"
    by (simp add: sweep_def)
  then have "let spent = [(''a'', \<lparr> bk_tokens = 0, bk_last = 0, bk_minuteStart = 0, bk_minuteCount = 200 \<rparr>)] in
     map_option bk_tokens (map_of (fst (rate_take Minute ''a'' 1 200 0 (sweep Minute 50 100 spent))) ''a'') = Some 199 \<and>
     map_option bk_tokens (map_of (fst (rate_take Minute ''a'' 1 200 0 spent)) ''a'') = Some 59"
    by (simp add: rate_take_self(1) [of 1 200 0] opened_def refill_def new_bucket_def spend_def Let_def)
  with same show ?thesis by blast
qed

theorem sweep_answers_witness:
  "snd (rate_take Minute ''a'' 2 4 0 (sweep Minute 2 4
      [(''a'', \<lparr> bk_tokens = 1, bk_last = 0, bk_minuteStart = 0, bk_minuteCount = 3 \<rparr>)])) = (0, True)"
proof -
  let ?l = "[(''a'', \<lparr> bk_tokens = 1, bk_last = 0, bk_minuteStart = 0, bk_minuteCount = 3 \<rparr>)]"
  have "snd (rate_take Minute ''a'' 2 4 0 (sweep Minute 2 4 ?l)) = snd (rate_take Minute ''a'' 2 4 0 ?l)"
    using sweep_answers [of ?l Minute Minute 2 4 "''a''" 0] by simp
  also have "\<dots> = (0, True)"
    by (simp add: rate_take_self(2) [of 2 4 0] opened_def refill_def spend_def Let_def)
  finally show ?thesis .
qed

lemma refused_shape:
  assumes "rate_take now k rps burst rpm l = (l', wait, False)"
  obtains b where "map_of l' k = Some b" "bk_last b = now" "rps \<ge> 1 \<and> burst \<ge> 1 \<or> rpm \<ge> 1"
    and "rps \<ge> 1 \<and> burst \<ge> 1 \<and> bk_tokens b < 1 \<Longrightarrow> bucket_wait rps b \<le> wait"
    and "rpm \<ge> 1 \<and> bk_minuteCount b \<ge> rpm \<Longrightarrow> Minute - (now - bk_minuteStart b) \<le> wait"
proof -
  have on: "rps \<ge> 1 \<and> burst \<ge> 1 \<or> rpm \<ge> 1" using assms by (auto simp: rate_take_def split: if_splits)
  define b where "b = opened now rps burst (map_of l k)"
  have "bk_last b = now" by (simp add: b_def opened_def)
  moreover have "spend now rps burst rpm b = (b, wait, False)" "map_of l' k = Some b"
    using rate_take_self [OF on, of now k l] assms
    by (auto simp: b_def spend_def Let_def split: if_splits)
  moreover from this have "rps \<ge> 1 \<and> burst \<ge> 1 \<and> bk_tokens b < 1 \<Longrightarrow> bucket_wait rps b \<le> wait"
    "rpm \<ge> 1 \<and> bk_minuteCount b \<ge> rpm \<Longrightarrow> Minute - (now - bk_minuteStart b) \<le> wait"
    by (auto simp: spend_def Let_def split: if_splits)
  ultimately show thesis using that on by blast
qed


lemma bucket_refilled:
  assumes "bucket_wait rps b < d" "1 \<le> rps"
  shows "1 \<le> bk_tokens b + of_int d / of_int Second * (of_int rps :: rat)"
proof -
  have "(1 - bk_tokens b) / of_int rps * of_int Second < of_int d"
    using assms(1) by (simp add: bucket_wait_def floor_less_iff)
  then show ?thesis using assms(2) by (simp add: field_simps)
qed

lemma waited_admitted:
  assumes "rate_take now k rps burst rpm l = (l', wait, False)" "now \<le> t" "now + wait < t"
  shows "snd (rate_take t k rps burst rpm l') = (0, True)"
proof -
  obtain b where b: "map_of l' k = Some b" "bk_last b = now" and on: "rps \<ge> 1 \<and> burst \<ge> 1 \<or> rpm \<ge> 1"
    and dry: "rps \<ge> 1 \<and> burst \<ge> 1 \<and> bk_tokens b < 1 \<Longrightarrow> bucket_wait rps b \<le> wait"
    and out: "rpm \<ge> 1 \<and> bk_minuteCount b \<ge> rpm \<Longrightarrow> Minute - (now - bk_minuteStart b) \<le> wait"
    by (rule refused_shape [OF assms(1)]) blast
  define b' where "b' = opened t rps burst (Some b)"
  have "\<not> (rps \<ge> 1 \<and> burst \<ge> 1 \<and> bk_tokens b' < 1)"
  proof
    assume *: "rps \<ge> 1 \<and> burst \<ge> 1 \<and> bk_tokens b' < 1"
    have "1 \<le> bk_tokens b + of_int (t - now) / of_int Second * (of_int rps :: rat)"
    proof (cases "bk_tokens b < 1")
      case True
      then show ?thesis using dry * assms(3) by (intro bucket_refilled) auto
    next
      case False
      moreover have "0 \<le> of_int (t - now) / of_int Second * (of_int rps :: rat)" using * assms(2) by simp
      ultimately show ?thesis by linarith
    qed
    with * b(2) show False by (auto simp: b'_def opened_def refill_def Let_def split: if_splits)
  qed
  moreover have "\<not> (rpm \<ge> 1 \<and> bk_minuteCount b' \<ge> rpm)"
    using out assms(3) by (auto simp: b'_def opened_def refill_def Let_def split: if_splits)
  ultimately have "snd (spend t rps burst rpm b') = (0, True)" by (auto simp: spend_def Let_def)
  then show ?thesis using rate_take_self(2) [OF on, of t k l'] b(1) by (simp add: b'_def)
qed

text \<open>A client that is refused and waits out its \<open>Retry-After\<close> header is admitted, by both ceilings at
  once, if nothing else of its tenant was taken in between.\<close>

theorem retry_after_admits:
  assumes "rate_take now k rps burst rpm l = (l', wait, False)"
    and "now + e_RetryAfterSeconds (WithRetryAfter RateLimited wait) * Second < t"
  shows "snd (rate_take t k rps burst rpm l') = (0, True)"
proof -
  define secs where "secs = e_RetryAfterSeconds (WithRetryAfter RateLimited wait)"
  have "wait \<le> secs * Second" "1 \<le> secs"
    using ceil_seconds_bounds [of wait] by (auto simp: secs_def WithRetryAfter_def Let_def)
  with assms(2) have "now \<le> t" "now + wait < t" by (auto simp: secs_def)
  then show ?thesis by (rule waited_admitted [OF assms(1)])
qed

theorem retry_after_admits_witness:
  "snd (rate_take 700000000 ''a'' 1 1 0 (fst (rate_take 0 ''a'' 1 1 0 newRateLimiter))) = (300000000, False) \<and>
   snd (rate_take 1700000001 ''a'' 1 1 0
     (fst (rate_take 700000000 ''a'' 1 1 0 (fst (rate_take 0 ''a'' 1 1 0 newRateLimiter))))) = (0, True)"
proof -
  let ?l = "fst (rate_take 0 ''a'' 1 1 0 newRateLimiter)"
  have "snd (rate_take 700000000 ''a'' 1 1 0 ?l) = (300000000, False)" by code_simp
  moreover from this obtain l' where l': "rate_take 700000000 ''a'' 1 1 0 ?l = (l', 300000000, False)"
    by (metis prod.collapse)
  moreover have "e_RetryAfterSeconds (WithRetryAfter RateLimited 300000000) = 1"
    by (simp add: WithRetryAfter_def ceil_seconds_def)
  ultimately show ?thesis using retry_after_admits [OF l', of 1700000001] by simp
qed

section \<open>Concurrency\<close>

definition outstanding :: "concurrencyLimiter \<Rightarrow> string \<Rightarrow> nat" where
  \<comment> \<open>the permits of a key whose release has not run\<close>
  "outstanding l key = length (filter (\<lambda>p. p = (key, False)) (cl_permits l))"

inductive limiter_reach :: "concurrencyLimiter \<Rightarrow> bool" where
  init: "limiter_reach (newConcurrencyLimiter limit)"
| acq: "limiter_reach l \<Longrightarrow> limiter_reach (fst (acquire key limit l))"
| rel: "limiter_reach l \<Longrightarrow> limiter_reach (release p l)"

definition limiter_inv :: "concurrencyLimiter \<Rightarrow> bool" where
  "limiter_inv l \<longleftrightarrow> (\<forall>key. in_use l key = int (outstanding l key)) \<and> (\<forall>key n. map_of (cl_inUse l) key = Some n \<longrightarrow> 1 \<le> n)"

lemma limiter_inv_new: "limiter_inv (newConcurrencyLimiter n)"
  by (simp add: limiter_inv_def newConcurrencyLimiter_def in_use_def outstanding_def)

lemma limiter_inv_acquire: "limiter_inv l \<Longrightarrow> limiter_inv (fst (acquire key limit l))"
  by (auto simp: limiter_inv_def acquire_def Let_def in_use_def outstanding_def split: option.splits)

lemma length_filter_update:
  "p < length xs \<Longrightarrow> P (xs ! p) \<Longrightarrow> \<not> P y \<Longrightarrow>
   length (filter P xs) = Suc (length (filter P (xs[p := y])))"
proof (induction xs arbitrary: p)
  case (Cons x xs)
  then show ?case by (cases p) auto
qed simp

lemma length_filter_update_other:
  "p < length xs \<Longrightarrow> \<not> P (xs ! p) \<Longrightarrow> \<not> P y \<Longrightarrow>
   length (filter P (xs[p := y])) = length (filter P xs)"
proof (induction xs arbitrary: p)
  case (Cons x xs)
  then show ?case by (cases p) auto
qed simp

lemma outstanding_release:
  assumes "p < length (cl_permits l)" "\<not> snd (cl_permits l ! p)"
  shows "outstanding l key = outstanding (release p l) key + (if fst (cl_permits l ! p) = key then 1 else 0)"
proof -
  obtain k where k: "cl_permits l ! p = (k, False)" using assms(2) by (cases "cl_permits l ! p") auto
  have "cl_permits (release p l) = (cl_permits l)[p := (k, True)]"
    using assms k by (simp add: release_def Let_def)
  then show ?thesis
    using k length_filter_update [OF assms(1), of "\<lambda>q. q = (key, False)" "(k, True)"]
      length_filter_update_other [OF assms(1), of "\<lambda>q. q = (key, False)" "(k, True)"]
    by (cases "k = key") (simp_all add: outstanding_def)
qed

lemma release_in_use:
  assumes "limiter_inv l" "p < length (cl_permits l)" "\<not> snd (cl_permits l ! p)"
  shows "in_use (release p l) key = in_use l key - (if fst (cl_permits l ! p) = key then 1 else 0)"
proof -
  obtain k where k: "cl_permits l ! p = (k, False)" using assms(3) by (cases "cl_permits l ! p") auto
  have "1 \<le> in_use l k"
    using assms outstanding_release [OF assms(2,3), of k] k by (simp add: limiter_inv_def)
  then show ?thesis
    using assms(2) k by (auto simp: release_def Let_def in_use_def split: option.splits)
qed

lemma limiter_inv_release:
  assumes "limiter_inv l"
  shows "limiter_inv (release p l)"
proof (cases "p < length (cl_permits l) \<and> \<not> snd (cl_permits l ! p)")
  case True
  then have p: "p < length (cl_permits l)" "\<not> snd (cl_permits l ! p)" by auto
  have "in_use (release p l) key = int (outstanding (release p l) key)" for key
    using release_in_use [OF assms p, of key] outstanding_release [OF p, of key] assms
    by (simp add: limiter_inv_def split: if_splits)
  moreover have "1 \<le> n" if "map_of (cl_inUse (release p l)) key = Some n" for key n
    using that assms p by (auto simp: release_def Let_def limiter_inv_def in_use_def split: if_splits option.splits)
  ultimately show ?thesis by (simp add: limiter_inv_def)
next
  case False
  then have "release p l = l" by (auto simp: release_def)
  then show ?thesis using assms by simp
qed

lemma limiter_reach_inv: "limiter_reach l \<Longrightarrow> limiter_inv l"
  by (induction rule: limiter_reach.induct)
    (auto intro: limiter_inv_new limiter_inv_acquire limiter_inv_release)

text \<open>C13. The concurrency limit is exact in every state the limiter can reach, whatever the order of
  acquisitions and releases and however often a release closure is called: a request is refused exactly
  when as many permits of its key are outstanding as the limit in force allows, a granted permit
  counts for its own key only, and giving it back, once or twice, restores the counts.\<close>

theorem concurrency_exact:
  assumes "limiter_reach l"
  shows "case acquire key limit l of
      (l', None) \<Rightarrow> l' = l \<and> (if limit < 1 then cl_limit l else limit) \<le> int (outstanding l key)
    | (l', Some p) \<Rightarrow> int (outstanding l' key) \<le> (if limit < 1 then cl_limit l else limit) \<and>
        outstanding l' = (outstanding l)(key := outstanding l key + 1) \<and>
        outstanding (release p l') = outstanding l \<and> release p (release p l') = release p l'"
proof -
  have inv: "in_use l key = int (outstanding l key)" using limiter_reach_inv [OF assms] by (simp add: limiter_inv_def)
  show ?thesis
  proof (cases "in_use l key \<ge> (if limit < 1 then cl_limit l else limit)")
    case True
    then show ?thesis using inv by (simp add: acquire_def Let_def)
  next
    case False
    define l' where "l' = fst (acquire key limit l)"
    let ?p = "length (cl_permits l)"
    have acq: "acquire key limit l = (l', Some ?p)" using False by (simp add: l'_def acquire_def Let_def)
    have perm: "cl_permits l' = cl_permits l @ [(key, False)]" using False by (simp add: l'_def acquire_def Let_def)
    then have up: "outstanding l' = (outstanding l)(key := outstanding l key + 1)"
      by (auto simp: outstanding_def)
    have "outstanding (release ?p l') k = outstanding l k" for k
      using outstanding_release [of ?p l' k] perm up by (auto split: if_splits)
    moreover have "release ?p (release ?p l') = release ?p l'"
      using perm by (auto simp: release_def Let_def nth_append)
    ultimately show ?thesis using acq up inv False by (auto split: if_splits)
  qed
qed

theorem concurrency_exact_witness:
  "outstanding (release 0 (fst (acquire ''k'' 2 (newConcurrencyLimiter 8)))) = outstanding (newConcurrencyLimiter 8)"
proof -
  have "limiter_reach (newConcurrencyLimiter 8)" by (rule limiter_reach.init)
  moreover have "snd (acquire ''k'' 2 (newConcurrencyLimiter 8)) = Some 0"
    by (simp add: acquire_def newConcurrencyLimiter_def in_use_def)
  ultimately show ?thesis
    using concurrency_exact [of "newConcurrencyLimiter 8" 2 "''k''"] by (auto split: prod.splits)
qed

end
