(* ===== verification/Http_Context.thy ===== *)
theory Http_Context
  imports Store_Types
begin

text \<open>
  The request context and the conventions every response obeys: \<open>gateway/internal/httpx/httpx.go\<close>.

  A \<open>*fiber.Ctx\<close> is the record \<open>fctx\<close>: the request as Fiber presents it, the values the
  middleware stores in the context's locals, and the response written so far. \<open>c.Get\<close> reads a header of the
  \<^emph>\<open>request\<close> and \<open>c.Set\<close> writes one of the response, as Fiber documents. Header names are compared as
  the code spells them. A response body is kept as what it was made from: the error envelope, a value that
  \<open>c.JSON\<close> marshals, bytes, or a stream whose writer runs later.
\<close>

section \<open>The context\<close>

record Outcome =
  oc_Provider :: string
  oc_Model :: string
  oc_Alias :: string
  oc_FallbackDepth :: int
  oc_PromptTokens :: int
  oc_CompletionTokens :: int
  oc_UpstreamMS :: int
  oc_ErrorCode :: string
  oc_CacheStatus :: string

definition no_outcome :: Outcome where
  "no_outcome = \<lparr> oc_Provider = [], oc_Model = [], oc_Alias = [], oc_FallbackDepth = 0,
     oc_PromptTokens = 0, oc_CompletionTokens = 0, oc_UpstreamMS = 0, oc_ErrorCode = [],
     oc_CacheStatus = [] \<rparr>"

record slot =
  sl_adopted :: bool
  sl_release :: nat \<comment> \<open>the permit its release closure gives back\<close>

datatype jval = JNull | JBool bool | JInt int | JNum rat | JStr string | JTime time
  | JArr "jval list" | JObj "(string \<times> jval) list"

datatype respBody = NoBody | ErrorBody Body | JSONBody jval | RawBody string | StreamBody

record fctx =
  c_method :: string
  c_path :: string
  c_reqHeaders :: "(string, string) gomap"
  c_queryArgs :: "(string, string) gomap"
  c_params :: "(string, string) gomap"
  c_contentLength :: int
  c_reqBody :: string
  c_requestID :: string
  c_clientRequestID :: string
  c_key :: "APIKey option"
  c_tenant :: "Tenant option"
  c_outcome :: Outcome
  c_slot :: "slot option"
  c_respHeaders :: "(string, string) gomap"
  c_status :: int
  c_body :: respBody

definition new_ctx :: "string \<Rightarrow> string \<Rightarrow> (string, string) gomap \<Rightarrow> (string, string) gomap \<Rightarrow> string \<Rightarrow> fctx" where
  \<comment> \<open>a request with a declared length, before any middleware\<close>
  "new_ctx method path hdrs args body =
     \<lparr> c_method = method, c_path = path, c_reqHeaders = hdrs, c_queryArgs = args, c_params = [],
       c_contentLength = int (length body), c_reqBody = body, c_requestID = [], c_clientRequestID = [],
       c_key = None, c_tenant = None, c_outcome = no_outcome, c_slot = None, c_respHeaders = [],
       c_status = 200, c_body = NoBody \<rparr>"

definition str_at :: "(string, string) gomap \<Rightarrow> string \<Rightarrow> string" where
  "str_at m k = (case map_of m k of None \<Rightarrow> [] | Some v \<Rightarrow> v)"

definition c_Get :: "fctx \<Rightarrow> string \<Rightarrow> string" where
  "c_Get c name = str_at (c_reqHeaders c) name"

definition c_Set :: "fctx \<Rightarrow> string \<Rightarrow> string \<Rightarrow> fctx" where
  "c_Set c name v = c\<lparr>c_respHeaders := AList.update name v (c_respHeaders c)\<rparr>"

section \<open>Headers and identifiers\<close>

definition HeaderRequestID :: string where
  "HeaderRequestID = ''X-CogniGate-Request-Id''"

definition HeaderServedBy :: string where
  "HeaderServedBy = ''X-CogniGate-Served-By''"

definition HeaderFallbackDepth :: string where
  "HeaderFallbackDepth = ''X-CogniGate-Fallback-Depth''"

definition HeaderQuotaState :: string where
  "HeaderQuotaState = ''X-CogniGate-Quota-State''"

definition HeaderCache :: string where
  "HeaderCache = ''X-CogniGate-Cache''"

definition HeaderDebugCapture :: string where
  "HeaderDebugCapture = ''X-CogniGate-Debug-Capture''"

definition HeaderClientRequestID :: string where
  "HeaderClientRequestID = ''X-Client-Request-Id''"

definition HeaderRetryAfter :: string where
  "HeaderRetryAfter = ''Retry-After''"

lemmas header_names = HeaderRequestID_def HeaderServedBy_def HeaderFallbackDepth_def
  HeaderQuotaState_def HeaderCache_def HeaderDebugCapture_def HeaderClientRequestID_def
  HeaderRetryAfter_def

definition MaxClientRequestID :: nat where
  "MaxClientRequestID = 128"

definition SetRequestID :: "fctx \<Rightarrow> string \<Rightarrow> fctx" where
  "SetRequestID c rid = c_Set (c\<lparr>c_requestID := rid\<rparr>) HeaderRequestID rid"

definition cont_byte :: "nat \<Rightarrow> bool" where
  "cont_byte b \<longleftrightarrow> 0x80 \<le> b \<and> b \<le> 0xBF"

definition rune2 :: "nat \<Rightarrow> nat \<Rightarrow> bool" where
  "rune2 a b \<longleftrightarrow> 0xC2 \<le> a \<and> a \<le> 0xDF \<and> cont_byte b"

definition rune3 :: "nat \<Rightarrow> nat \<Rightarrow> nat \<Rightarrow> bool" where
  "rune3 a b c \<longleftrightarrow> 0xE0 \<le> a \<and> a \<le> 0xEF \<and> cont_byte b \<and> cont_byte c \<and>
     (a = 0xE0 \<longrightarrow> 0xA0 \<le> b) \<and> (a = 0xED \<longrightarrow> b \<le> 0x9F)"

definition rune4 :: "nat \<Rightarrow> nat \<Rightarrow> nat \<Rightarrow> nat \<Rightarrow> bool" where
  "rune4 a b c d \<longleftrightarrow> 0xF0 \<le> a \<and> a \<le> 0xF4 \<and> cont_byte b \<and> cont_byte c \<and> cont_byte d \<and>
     (a = 0xF0 \<longrightarrow> 0x90 \<le> b) \<and> (a = 0xF4 \<longrightarrow> b \<le> 0x8F)"

definition rune_width :: "string \<Rightarrow> nat" where
  \<comment> \<open>\<open>utf8.DecodeRuneInString\<close>: the width of the rune a non-empty string starts with, 0 where the
     bytes are not UTF-8 (the code then sees \<open>RuneError\<close> of width 1)\<close>
  "rune_width s =
     (let bs = map byte s in
      if bs = [] then 0
      else if bs ! 0 < 0x80 then 1
      else if 2 \<le> length bs \<and> rune2 (bs ! 0) (bs ! 1) then 2
      else if 3 \<le> length bs \<and> rune3 (bs ! 0) (bs ! 1) (bs ! 2) then 3
      else if 4 \<le> length bs \<and> rune4 (bs ! 0) (bs ! 1) (bs ! 2) (bs ! 3) then 4
      else 0)"

definition rune_error :: string where
  \<comment> \<open>U+FFFD in UTF-8\<close>
  "rune_error = [char_of (0xEF :: nat), char_of (0xBF :: nat), char_of (0xBD :: nat)]"

definition control_byte :: "char \<Rightarrow> bool" where
  "control_byte c \<longleftrightarrow> byte c < 0x20 \<or> byte c = 0x7F"

function strip_controls :: "string \<Rightarrow> string" where
  \<comment> \<open>\<open>strings.Map\<close> with the function that drops control characters: bytes that are not UTF-8 come
     out as U+FFFD\<close>
  "strip_controls s =
     (if s = [] then []
      else if rune_width s = 0 then rune_error @ strip_controls (tl s)
      else if control_byte (hd s) then strip_controls (tl s)
      else take (rune_width s) s @ strip_controls (drop (rune_width s) s))"
  by pat_completeness auto
termination by (relation "measure length") auto

declare strip_controls.simps [simp del]

definition sanitizeCorrelationID :: "string \<Rightarrow> string" where
  "sanitizeCorrelationID raw0 =
     (let raw = TrimSpace raw0;
          raw2 = (if length raw > MaxClientRequestID then take MaxClientRequestID raw else raw)
      in strip_controls raw2)"

definition SetClientRequestID :: "fctx \<Rightarrow> string \<Rightarrow> fctx" where
  "SetClientRequestID c raw =
     (let v = sanitizeCorrelationID raw in
      if v = [] then c else c_Set (c\<lparr>c_clientRequestID := v\<rparr>) HeaderClientRequestID v)"

definition SetAuth :: "fctx \<Rightarrow> APIKey \<Rightarrow> Tenant option \<Rightarrow> fctx" where
  "SetAuth c key tenant = c\<lparr>c_key := Some key, c_tenant := tenant\<rparr>"

definition TenantID :: "fctx \<Rightarrow> string" where
  "TenantID c = (case c_tenant c of Some t \<Rightarrow> t_ID t | None \<Rightarrow> [])"

section \<open>Errors become responses\<close>

definition setErrorCode :: "fctx \<Rightarrow> string \<Rightarrow> fctx" where
  "setErrorCode c code = c\<lparr>c_outcome := (c_outcome c)\<lparr>oc_ErrorCode := code\<rparr>\<rparr>"

definition Fail :: "fctx \<Rightarrow> goerr \<Rightarrow> fctx" where
  "Fail c err =
     (let e = From err;
          c1 = setErrorCode c (e_Code e);
          rid = c_requestID c1;
          c2 = (if rid \<noteq> [] then c_Set c1 HeaderRequestID rid else c1);
          c3 = (if e_Status e = 429 \<and> c_Get c2 HeaderRetryAfter = []
                then (let seconds = (if e_RetryAfterSeconds e < 1 then 1 else e_RetryAfterSeconds e)
                      in c_Set c2 HeaderRetryAfter (Itoa seconds))
                else c2)
      in c3\<lparr>c_status := e_Status e, c_body := ErrorBody (Envelope e rid)\<rparr>)"

lemma Fail_fields [simp]:
  "c_status (Fail c err) = e_Status (From err)"
  "c_body (Fail c err) = ErrorBody (Envelope (From err) (c_requestID c))"
  "oc_ErrorCode (c_outcome (Fail c err)) = e_Code (From err)"
  "c_key (Fail c err) = c_key c" "c_tenant (Fail c err) = c_tenant c" "c_slot (Fail c err) = c_slot c"
  "c_requestID (Fail c err) = c_requestID c"
  by (simp_all add: Fail_def Let_def c_Set_def setErrorCode_def)

lemma From_ApiErr [simp]: "From (ApiErr e) = e"
  by (simp add: From_def)

text \<open>A 429 leaves with a \<open>Retry-After\<close> of at least one second, as the comment on \<open>Fail\<close> promises,
  if and only if the request carried no \<open>Retry-After\<close> header itself: the guard reads the header of the
  request, so a client that sends one is answered without the header.\<close>

theorem fail_429_retry_after:
  assumes "e_Status (From err) = 429" and "c_respHeaders c = []"
  shows "map_of (c_respHeaders (Fail c err)) HeaderRetryAfter =
    (if c_Get c HeaderRetryAfter = []
     then Some (Itoa (max 1 (e_RetryAfterSeconds (From err)))) else None)"
  using assms
  by (auto simp: Fail_def Let_def c_Set_def c_Get_def setErrorCode_def HeaderRetryAfter_def
      HeaderRequestID_def max_def)

theorem fail_429_retry_after_witness:
  "map_of (c_respHeaders (Fail (new_ctx ''GET'' ''/v1/models'' [(''Retry-After'', ''5'')] [] [])
      (ApiErr RateLimited))) HeaderRetryAfter = None"
  by (subst fail_429_retry_after)
    (simp_all add: RateLimited_def newErr_def c_Get_def str_at_def new_ctx_def HeaderRetryAfter_def)

section \<open>The echoed correlation id\<close>

lemma rune_width_le: "rune_width s \<le> length s"
  by (simp add: rune_width_def Let_def Suc_leI)

lemma rune_width_cases:
  assumes "rune_width s \<noteq> 0" "rune_width s \<noteq> 1"
  obtains a b r where "s = a # b # r" "rune_width s = 2" "0x80 \<le> byte a" "0x80 \<le> byte b"
  | a b c r where "s = a # b # c # r" "rune_width s = 3" "0x80 \<le> byte a" "0x80 \<le> byte b" "0x80 \<le> byte c"
  | a b c d r where "s = a # b # c # d # r" "rune_width s = 4" "0x80 \<le> byte a" "0x80 \<le> byte b"
      "0x80 \<le> byte c" "0x80 \<le> byte d"
proof -
  obtain a r where s: "s = a # r" using assms(1) by (cases s) (auto simp: rune_width_def)
  have hi: "0x80 \<le> byte a" using assms s by (auto simp: rune_width_def Let_def split: if_splits)
  consider (two) b r' where "r = b # r'" "rune2 (byte a) (byte b)" "rune_width s = 2"
    | (three) b c r' where "r = b # c # r'" "rune3 (byte a) (byte b) (byte c)" "rune_width s = 3"
    | (four) b c d r' where "r = b # c # d # r'" "rune4 (byte a) (byte b) (byte c) (byte d)" "rune_width s = 4"
    using assms s hi
    by (cases r; cases "tl r"; cases "tl (tl r)") (auto simp: rune_width_def Let_def split: if_splits)
  then show thesis
  proof cases
    case two
    with that(1) s hi show thesis by (auto simp: rune2_def cont_byte_def)
  next
    case three
    with that(2) s hi show thesis by (auto simp: rune3_def cont_byte_def)
  next
    case four
    with that(3) s hi show thesis by (auto simp: rune4_def cont_byte_def)
  qed
qed

lemma rune_width_high:
  assumes "rune_width s \<noteq> 0" "rune_width s \<noteq> 1" "c \<in> set (take (rune_width s) s)"
  shows "0x80 \<le> byte c"
  using assms(1,2)
proof (cases rule: rune_width_cases)
  case (1 a b r)
  with assms(3) show ?thesis by (simp add: numeral_2_eq_2) blast
next
  case (2 a b d r)
  with assms(3) show ?thesis by (simp add: numeral_3_eq_3) blast
next
  case (3 a b d e r)
  with assms(3) show ?thesis by (simp add: eval_nat_numeral) blast
qed

lemma high_not_control: "0x80 \<le> byte c \<Longrightarrow> \<not> control_byte c"
  by (simp add: control_byte_def)

lemma rune_error_clean: "c \<in> set rune_error \<Longrightarrow> \<not> control_byte c"
  by (auto simp: rune_error_def control_byte_def byte_def)

lemma rune_clean:
  assumes "rune_width s \<noteq> 0" "\<not> control_byte (hd s)" "c \<in> set (take (rune_width s) s)"
  shows "\<not> control_byte c"
proof (cases "rune_width s = 1")
  case True
  with assms(2,3) show ?thesis by (cases s) auto
next
  case False
  with assms show ?thesis using rune_width_high high_not_control by blast
qed

lemma strip_controls_clean: "c \<in> set (strip_controls s) \<Longrightarrow> \<not> control_byte c"
proof (induction s rule: strip_controls.induct)
  case (1 s)
  then show ?case
    by (subst (asm) strip_controls.simps)
      (auto split: if_splits dest: rune_clean [rotated 2] rune_error_clean)
qed

lemma strip_controls_length: "length (strip_controls s) \<le> 3 * length s"
proof (induction s rule: strip_controls.induct)
  case (1 s)
  have step: "length (strip_controls s) =
      (if s = [] then 0 else if rune_width s = 0 then 3 + length (strip_controls (tl s))
       else if control_byte (hd s) then length (strip_controls (tl s))
       else rune_width s + length (strip_controls (drop (rune_width s) s)))"
    using rune_width_le [of s]
    by (subst strip_controls.simps) (simp add: rune_error_def)
  show ?case
  proof (cases s)
    case (Cons c s')
    then have False: "s \<noteq> []" by simp
    consider "rune_width s = 0" | "rune_width s \<noteq> 0" "control_byte (hd s)"
      | "rune_width s \<noteq> 0" "\<not> control_byte (hd s)" by blast
    then show ?thesis
    proof cases
      case 1
      with "1.IH"(1) False show ?thesis by (simp add: step [unfolded Cons] Cons)
    next
      case 2
      with "1.IH"(2) False show ?thesis by (simp add: step [unfolded Cons] Cons)
    next
      case 3
      with "1.IH"(3) False rune_width_le [of s] show ?thesis by (simp add: step)
    qed
  qed (simp add: strip_controls.simps)
qed

lemma strip_controls_ascii:
  assumes "\<forall>c \<in> set s. byte c < 0x80"
  shows "strip_controls s = filter (\<lambda>c. \<not> control_byte c) s"
  using assms
proof (induction s)
  case Nil
  show ?case by (simp add: strip_controls.simps)
next
  case (Cons c s)
  then have "rune_width (c # s) = 1" by (simp add: rune_width_def)
  with Cons show ?case by (subst strip_controls.simps) simp
qed

text \<open>What the gateway echoes as the caller's correlation id carries no control character, and for
  an ASCII value it is at most \<open>MaxClientRequestID\<close> bytes. For other bytes only three times that
  holds: the value is cut before \<open>strings.Map\<close> replaces every byte that is not UTF-8 by the three bytes
  of U+FFFD.\<close>

theorem correlation_id_sanitized:
  assumes "c \<in> set (sanitizeCorrelationID raw)"
  shows "\<not> control_byte c \<and> length (sanitizeCorrelationID raw) \<le> 3 * MaxClientRequestID \<and>
    ((\<forall>b \<in> set (TrimSpace raw). byte b < 0x80) \<longrightarrow>
      length (sanitizeCorrelationID raw) \<le> MaxClientRequestID)"
proof -
  let ?r = "if length (TrimSpace raw) > MaxClientRequestID then take MaxClientRequestID (TrimSpace raw) else TrimSpace raw"
  have eq: "sanitizeCorrelationID raw = strip_controls ?r"
    by (simp add: sanitizeCorrelationID_def Let_def)
  have len: "length ?r \<le> MaxClientRequestID" by simp
  have "set ?r \<subseteq> set (TrimSpace raw)" by (auto dest: in_set_takeD)
  then have "(\<forall>b \<in> set (TrimSpace raw). byte b < 0x80) \<Longrightarrow> length (strip_controls ?r) \<le> length ?r"
    using strip_controls_ascii [of ?r] by (simp add: subset_iff)
  then show ?thesis
    using assms len strip_controls_clean [of c ?r] strip_controls_length [of ?r]
    unfolding eq by linarith
qed

lemma trim_lead_none: "lead_space f g s = 0 \<Longrightarrow> trim_lead f g s = s"
  by (simp add: trim_lead.simps)

lemma TrimSpace_bad_bytes: "TrimSpace (replicate n (char_of (255 :: nat))) = replicate n (char_of (255 :: nat))"
proof -
  have none: "lead_space f g (replicate n (char_of (255 :: nat))) = 0"
    if "\<And>b. \<not> f 255 b" "\<And>b c. \<not> g 255 b c" for f g
    using that
    by (cases n; cases "n - 1"; cases "n - 2")
      (auto simp: lead_space_def ascii_space_def byte_def)
  show ?thesis
    unfolding TrimSpace_def Let_def
    by (subst trim_lead_none, rule none, simp, simp add: wide_space_def)
      (subst trim_lead_none, unfold rev_replicate, rule none, simp, simp add: wide_space_def, simp)
qed

lemma strip_bad_bytes:
  "strip_controls (replicate n (char_of (255 :: nat))) = concat (replicate n rune_error)"
proof (induction n)
  case (Suc n)
  have "rune_width (replicate (Suc n) (char_of (255 :: nat))) = 0"
    by (simp add: rune_width_def rune2_def rune3_def rune4_def byte_def)
  with Suc show ?case by (subst strip_controls.simps) simp
qed (simp add: strip_controls.simps)

theorem correlation_id_sanitized_witness:
  "length (sanitizeCorrelationID (replicate 128 (char_of (255 :: nat)))) = 384 \<and>
   \<not> control_byte (char_of (0xEF :: nat))"
proof -
  have eq: "sanitizeCorrelationID (replicate 128 (char_of (255 :: nat))) = concat (replicate 128 rune_error)"
    unfolding sanitizeCorrelationID_def TrimSpace_bad_bytes Let_def
    by (simp add: strip_bad_bytes MaxClientRequestID_def)
  then have "length (sanitizeCorrelationID (replicate 128 (char_of (255 :: nat)))) = 384"
    by (simp add: length_concat sum_list_replicate rune_error_def)
  moreover have "char_of (0xEF :: nat) \<in> set (sanitizeCorrelationID (replicate 128 (char_of (255 :: nat))))"
    unfolding eq by (simp add: rune_error_def)
  ultimately show ?thesis using correlation_id_sanitized by blast
qed

end
