(* ===== verification/Paging.thy ===== *)
theory Paging
  imports Http_Context
begin

text \<open>
  List responses of the admin plane: \<open>gateway/internal/server/page.go\<close>, with the query accessors of
  \<open>gateway/internal/server/params.go\<close> and \<open>queryInt\<close> of \<open>middleware.go\<close>. A refused request is the
  error that \<open>sendPage\<close> hands to \<open>httpx.Fail\<close>. At the end, the loop of a client that pages
  through a collection, and that it ends with every item.
\<close>

definition query :: "fctx \<Rightarrow> string \<Rightarrow> string" where
  "query c name = str_at (c_queryArgs c) name"

definition param :: "fctx \<Rightarrow> string \<Rightarrow> string" where
  "param c name = str_at (c_params c) name"

definition header :: "fctx \<Rightarrow> string \<Rightarrow> string" where
  "header c name = c_Get c name"

definition queryInt :: "fctx \<Rightarrow> string \<Rightarrow> int \<Rightarrow> int \<Rightarrow> int \<Rightarrow> int" where
  "queryInt c name def lo hi =
     (let raw = TrimSpace (query c name) in
      if raw = [] then def
      else case Atoi raw of
             None \<Rightarrow> def
           | Some n \<Rightarrow> if n < lo \<or> n > hi then def else n)"

definition defaultPageLimit :: int where
  "defaultPageLimit = 50"

definition maxPageLimit :: int where
  "maxPageLimit = 200"

definition bad_limit :: goerr where
  "bad_limit = ApiErr (WithParam (InvalidRequest
     (''limit must be an integer between 1 and %d.'', [FInt maxPageLimit])) ''limit'')"

definition pageLimit :: "fctx \<Rightarrow> goerr + int" where
  "pageLimit c =
     (let raw = TrimSpace (query c ''limit'') in
      if raw = [] then Inr defaultPageLimit
      else case Atoi raw of
             None \<Rightarrow> Inl bad_limit
           | Some n \<Rightarrow> if n < 1 \<or> n > maxPageLimit then Inl bad_limit else Inr n)"

record 'a page =
  pg_data :: "'a list"
  pg_has_more :: bool

fun after_cursor :: "('a \<Rightarrow> string) \<Rightarrow> string \<Rightarrow> 'a list \<Rightarrow> 'a list option" where
  \<comment> \<open>the search for the cursor, and \<open>items[at+1:]\<close>\<close>
  "after_cursor idOf after [] = None"
| "after_cursor idOf after (x # xs) = (if idOf x = after then Some xs else after_cursor idOf after xs)"

definition unknown_cursor :: goerr where
  "unknown_cursor = ApiErr (WithParam (InvalidRequest
     (''Unknown cursor: no item with that id in this collection.'', [])) ''after'')"

definition paginate :: "fctx \<Rightarrow> 'a list \<Rightarrow> ('a \<Rightarrow> string) \<Rightarrow> goerr + 'a page" where
  "paginate c items idOf =
     (case pageLimit c of
        Inl err \<Rightarrow> Inl err
      | Inr limit \<Rightarrow>
          let after = TrimSpace (query c ''after'') in
          case (if after = [] then Some items else after_cursor idOf after items) of
            None \<Rightarrow> Inl unknown_cursor
          | Some rest \<Rightarrow>
              let hasMore = int (length rest) > limit
              in Inr \<lparr> pg_data = (if hasMore then take (nat limit) rest else rest), pg_has_more = hasMore \<rparr>)"

definition sendPage :: "fctx \<Rightarrow> 'a list \<Rightarrow> ('a \<Rightarrow> string) \<Rightarrow> fctx + 'a page" where
  \<comment> \<open>\<open>Inl\<close> is the context after \<open>httpx.Fail\<close>\<close>
  "sendPage c items idOf = (case paginate c items idOf of Inl err \<Rightarrow> Inl (Fail c err) | Inr p \<Rightarrow> Inr p)"

section \<open>Paging through a collection\<close>

definition page_request :: "int \<Rightarrow> string \<Rightarrow> fctx" where
  "page_request limit after = new_ctx ''GET'' ''/admin/v1/tenants'' [] [(''limit'', Itoa limit), (''after'', after)] []"

fun walk :: "nat \<Rightarrow> int \<Rightarrow> 'a list \<Rightarrow> ('a \<Rightarrow> string) \<Rightarrow> string \<Rightarrow> 'a list option" where
  \<comment> \<open>the loop of a client: ask for the page after the last item seen until there is no more\<close>
  "walk 0 limit items idOf after = None"
| "walk (Suc fuel) limit items idOf after =
     (case paginate (page_request limit after) items idOf of
        Inl err \<Rightarrow> None
      | Inr p \<Rightarrow>
          if pg_has_more p
          then map_option (\<lambda>rest. pg_data p @ rest) (walk fuel limit items idOf (idOf (last (pg_data p))))
          else Some (pg_data p))"

lemma after_cursor_split:
  assumes "distinct (map idOf (xs @ x # ys))"
  shows "after_cursor idOf (idOf x) (xs @ x # ys) = Some ys"
  using assms by (induction xs) auto

lemma after_cursor_None: "after_cursor idOf a items = None \<longleftrightarrow> a \<notin> idOf ` set items"
  by (induction items) auto

definition pageable :: "('a \<Rightarrow> string) \<Rightarrow> 'a list \<Rightarrow> bool" where
  \<comment> \<open>ids as the store mints them: unique, not empty, without white space at their ends\<close>
  "pageable idOf items \<longleftrightarrow>
     distinct (map idOf items) \<and> (\<forall>x \<in> set items. idOf x \<noteq> [] \<and> TrimSpace (idOf x) = idOf x)"

lemma pageLimit_request:
  assumes "1 \<le> limit" "limit \<le> maxPageLimit"
  shows "pageLimit (page_request limit after) = Inr limit"
proof -
  have "Atoi (Itoa limit) = Some limit" using assms by (intro Atoi_Itoa) (auto simp: maxPageLimit_def)
  moreover from this have "Itoa limit \<noteq> []" by (auto simp: Atoi_def)
  ultimately show ?thesis
    using assms by (simp add: pageLimit_def page_request_def query_def str_at_def new_ctx_def TrimSpace_Itoa)
qed

lemma paginate_request:
  assumes "1 \<le> limit" "limit \<le> maxPageLimit" "pageable idOf (xs @ rest)"
  shows "paginate (page_request limit (if xs = [] then [] else idOf (last xs))) (xs @ rest) idOf =
    Inr \<lparr> pg_data = take (nat limit) rest, pg_has_more = int (length rest) > limit \<rparr>"
proof -
  let ?a = "if xs = [] then [] else idOf (last xs)"
  have q: "query (page_request limit ?a) ''after'' = ?a"
    by (simp add: page_request_def query_def str_at_def new_ctx_def)
  have "(if TrimSpace ?a = [] then Some (xs @ rest) else after_cursor idOf (TrimSpace ?a) (xs @ rest)) = Some rest"
  proof (cases xs rule: rev_cases)
    case (snoc ys y)
    then show ?thesis using assms(3) after_cursor_split [of idOf ys y rest] by (simp add: pageable_def)
  qed simp
  then show ?thesis
    using assms(1) by (simp add: paginate_def pageLimit_request [OF assms(1,2)] q Let_def del: if_split_asm)
qed

lemma walk_from:
  assumes "1 \<le> limit" "limit \<le> maxPageLimit" "pageable idOf (xs @ rest)" "length rest < fuel"
  shows "walk fuel limit (xs @ rest) idOf (if xs = [] then [] else idOf (last xs)) = Some rest"
  using assms(3,4)
proof (induction fuel arbitrary: xs rest)
  case (Suc fuel)
  note page = paginate_request [OF assms(1,2) Suc.prems(1)]
  show ?case
  proof (cases "int (length rest) > limit")
    case True
    define page where "page = take (nat limit) rest"
    have ne: "page \<noteq> []" and split: "rest = page @ drop (nat limit) rest"
      using True assms(1) by (auto simp: page_def)
    have "length (drop (nat limit) rest) < fuel" using Suc.prems(2) True assms(1) by simp
    moreover have "pageable idOf ((xs @ page) @ drop (nat limit) rest)" using Suc.prems(1) split by simp
    ultimately have "walk fuel limit ((xs @ page) @ drop (nat limit) rest) idOf (idOf (last (xs @ page)))
        = Some (drop (nat limit) rest)" using Suc.IH [of "xs @ page" "drop (nat limit) rest"] ne by simp
    then have "walk fuel limit (xs @ rest) idOf (idOf (last page)) = Some (drop (nat limit) rest)"
      using ne split by simp
    then show ?thesis using True page by (simp add: page_def)
  qed (use page in simp)
qed simp

text \<open>C32. Paging ends and loses nothing: for every page size the API allows, a client that follows the
  cursor until \<open>has_more\<close> is false stops after at most one request per item and one more, and has
  then seen every item exactly once and in order; no page is longer than asked for, and a cursor that is
  not in the collection is refused instead of answered from the beginning.\<close>

theorem paging_complete:
  assumes "1 \<le> limit" "limit \<le> maxPageLimit" "pageable idOf items"
  shows "walk (Suc (length items)) limit items idOf [] = Some items \<and>
    (\<forall>after p. paginate (page_request limit after) items idOf = Inr p \<longrightarrow> int (length (pg_data p)) \<le> limit) \<and>
    (\<forall>after. TrimSpace after \<noteq> [] \<longrightarrow> TrimSpace after \<notin> idOf ` set items \<longrightarrow>
      paginate (page_request limit after) items idOf = Inl unknown_cursor)"
proof (intro conjI allI impI)
  show "walk (Suc (length items)) limit items idOf [] = Some items"
    using walk_from [of limit idOf "[]" items "Suc (length items)"] assms by simp
next
  fix after p assume "paginate (page_request limit after) items idOf = Inr p"
  then show "int (length (pg_data p)) \<le> limit"
    using assms(1) unfolding paginate_def pageLimit_request [OF assms(1,2)] Let_def
    by (auto split: option.splits if_splits)
next
  fix after assume "TrimSpace after \<noteq> []" "TrimSpace after \<notin> idOf ` set items"
  then show "paginate (page_request limit after) items idOf = Inl unknown_cursor"
    unfolding paginate_def pageLimit_request [OF assms(1,2)]
    by (simp add: page_request_def query_def str_at_def new_ctx_def after_cursor_None [THEN iffD2])
qed

theorem paging_complete_witness:
  "walk 4 2 [''a'', ''b'', ''c''] (\<lambda>s. s) [] = Some [''a'', ''b'', ''c''] \<and>
   paginate (page_request 2 ''z'') [''a'', ''b'', ''c''] (\<lambda>s. s) = Inl unknown_cursor"
proof -
  have vis: "TrimSpace [c] = [c]" if "c \<in> {CHR ''a'', CHR ''b'', CHR ''c'', CHR ''z''}" for c
    using that by (intro TrimSpace_visible) (auto simp: byte_def)
  have "pageable (\<lambda>s. s) [''a'', ''b'', ''c'']" by (simp add: pageable_def vis)
  from paging_complete [OF _ _ this, of 2] vis show ?thesis
    by (simp add: maxPageLimit_def eval_nat_numeral)
qed

end
