(* ===== verification/Debug_Capture.thy ===== *)
theory Debug_Capture
  imports Http_Context Gateway_Config
begin

text \<open>
  Debug capture: the store \<open>gateway/internal/capture/capture.go\<close> and the policy of
  \<open>gateway/internal/server/capture.go\<close>; its middleware is in the theory \<open>Middleware\<close>. The server
  always has a store, so the nil receiver is not modelled. The clock is an argument.
\<close>

section \<open>The store\<close>

record CaptureEntry =
  cp_ID :: string
  cp_RequestID :: string
  cp_At :: time
  cp_ExpiresAt :: time
  cp_Model :: string
  cp_Status :: int
  cp_Request :: string
  cp_Response :: string

definition cp_size :: "CaptureEntry \<Rightarrow> int" where
  "cp_size e = int (length (cp_Request e) + length (cp_Response e)) + 256"

record capture_bucket =
  cb_bytes :: int
  cb_entries :: "CaptureEntry list" \<comment> \<open>oldest first\<close>

record CaptureStore =
  cs_maxBytesPerTenant :: int
  cs_byTenant :: "(string, capture_bucket) gomap"

definition NewCaptureStore :: "int \<Rightarrow> CaptureStore" where
  "NewCaptureStore maxBytesPerTenant = \<lparr> cs_maxBytesPerTenant = maxBytesPerTenant, cs_byTenant = [] \<rparr>"

fun expire_entries :: "time \<Rightarrow> int \<Rightarrow> CaptureEntry list \<Rightarrow> int \<times> CaptureEntry list" where
  \<comment> \<open>the scan of \<open>expire\<close>: it stops at the first live entry\<close>
  "expire_entries now bytes [] = (bytes, [])"
| "expire_entries now bytes (e # es) =
     (if \<not> now < cp_ExpiresAt e then expire_entries now (bytes - cp_size e) es else (bytes, e # es))"

definition expire :: "time \<Rightarrow> capture_bucket \<Rightarrow> capture_bucket \<times> nat" where
  "expire now b =
     (let (bytes, es) = expire_entries now (cb_bytes b) (cb_entries b)
      in (\<lparr> cb_bytes = bytes, cb_entries = es \<rparr>, length (cb_entries b) - length es))"

fun evict_oldest :: "int \<Rightarrow> int \<Rightarrow> int \<Rightarrow> CaptureEntry list \<Rightarrow> int \<times> CaptureEntry list" where
  "evict_oldest maxBytes sz bytes [] = (bytes, [])"
| "evict_oldest maxBytes sz bytes (e # es) =
     (if bytes + sz > maxBytes then evict_oldest maxBytes sz (bytes - cp_size e) es else (bytes, e # es))"

definition Capture_Put :: "string \<Rightarrow> CaptureEntry \<Rightarrow> CaptureStore \<Rightarrow> CaptureStore \<times> bool" where
  "Capture_Put tenantID e s =
     (if tenantID = [] then (s, False)
      else
        let sz = cp_size e in
        if sz > cs_maxBytesPerTenant s then (s, False)
        else
          let b = (case map_of (cs_byTenant s) tenantID of
                     None \<Rightarrow> \<lparr> cb_bytes = 0, cb_entries = [] \<rparr> | Some b \<Rightarrow> b);
              (b1, n) = expire (cp_At e) b;
              (bytes, es) = evict_oldest (cs_maxBytesPerTenant s) sz (cb_bytes b1) (cb_entries b1);
              b2 = \<lparr> cb_bytes = bytes + sz, cb_entries = es @ [e] \<rparr>
          in (s\<lparr>cs_byTenant := AList.update tenantID b2 (cs_byTenant s)\<rparr>, True))"

definition Capture_List :: "string \<Rightarrow> time \<Rightarrow> CaptureStore \<Rightarrow> CaptureEntry list" where
  "Capture_List tenantID now s =
     (case map_of (cs_byTenant s) tenantID of
        None \<Rightarrow> []
      | Some b \<Rightarrow> filter (\<lambda>e. now < cp_ExpiresAt e) (rev (cb_entries b)))"

definition Capture_Sweep :: "time \<Rightarrow> CaptureStore \<Rightarrow> CaptureStore \<times> nat" where
  "Capture_Sweep now s =
     (let swept = map (\<lambda>(k, b). (k, expire now b)) (cs_byTenant s)
      in (s\<lparr>cs_byTenant := map (\<lambda>(k, b, n). (k, b)) (filter (\<lambda>(k, b, n). cb_entries b \<noteq> []) swept)\<rparr>,
          sum_list (map (\<lambda>(k, b, n). n) swept)))"

definition Capture_Flush :: "string \<Rightarrow> CaptureStore \<Rightarrow> CaptureStore \<times> nat" where
  "Capture_Flush tenantID s =
     (case map_of (cs_byTenant s) tenantID of
        None \<Rightarrow> (s, 0)
      | Some b \<Rightarrow> (s\<lparr>cs_byTenant := AList.delete tenantID (cs_byTenant s)\<rparr>, length (cb_entries b)))"

section \<open>Policy\<close>

definition newCaptureStore :: "DebugConfig \<Rightarrow> CaptureStore" where
  "newCaptureStore d = NewCaptureStore (db_MaxBytesPerTenant d)"

definition captureTTL :: "Config \<Rightarrow> TenantDebugCapture \<Rightarrow> duration" where
  "captureTTL cfg p =
     (let ttl = (if dc_TTLSeconds p > 0 then wrap64 (dc_TTLSeconds p * Second) else db_DefaultTTL (cfg_Debug cfg))
      in if ttl > db_MaxTTL (cfg_Debug cfg) then db_MaxTTL (cfg_Debug cfg) else ttl)"

definition captureSampleRate :: "Config \<Rightarrow> TenantDebugCapture \<Rightarrow> rat" where
  "captureSampleRate cfg p = (if dc_SampleRate p > 0 then dc_SampleRate p else db_DefaultSampleRate (cfg_Debug cfg))"

definition whole_hours :: "duration \<Rightarrow> int" where
  \<comment> \<open>\<open>int(d.Hours())\<close>, which truncates toward zero\<close>
  "whole_hours d = (if d \<ge> 0 then d div Hour else - ((- d) div Hour))"

definition validateTenantDebugCapture :: "Config \<Rightarrow> TenantDebugCapture \<Rightarrow> apiError option" where
  "validateTenantDebugCapture cfg p =
     (if dc_TTLSeconds p < 0
      then Some (WithParam (InvalidRequest (''debug_capture.ttl_seconds must not be negative.'', []))
             ''debug_capture.ttl_seconds'')
      else if wrap64 (dc_TTLSeconds p * Second) > db_MaxTTL (cfg_Debug cfg)
      then Some (CaptureTTLTooLong (whole_hours (db_MaxTTL (cfg_Debug cfg))))
      else if dc_SampleRate p < 0 \<or> dc_SampleRate p > 1
      then Some (WithParam (InvalidRequest (''debug_capture.sample_rate must be within 0..1.'', []))
             ''debug_capture.sample_rate'')
      else None)"

definition captureWarnings :: "Config \<Rightarrow> TenantDebugCapture \<Rightarrow> msg list" where
  "captureWarnings cfg p =
     (if \<not> dc_Enabled p \<or> dc_SampleRate p < 1 then []
      else [(''debug_capture.sample_rate is 1.0: every request and response body for this tenant will be retained for %s and readable through the admin plane. Prefer a sample below 1.0 unless a specific investigation needs all of it.'',
             [FInt (captureTTL cfg p)])])"

primrec sweepCaptures :: "time list \<Rightarrow> CaptureStore \<Rightarrow> CaptureStore" where
  \<comment> \<open>the background loop: one sweep for each tick of the ticker until the process stops\<close>
  "sweepCaptures [] s = s"
| "sweepCaptures (t # ts) s = sweepCaptures ts (fst (Capture_Sweep t s))"

section \<open>What is kept, and for how long\<close>

lemma cp_size_pos: "0 < cp_size e"
  by (simp add: cp_size_def)

definition bucket_ok :: "int \<Rightarrow> duration \<Rightarrow> capture_bucket \<Rightarrow> bool" where
  "bucket_ok maxBytes D b \<longleftrightarrow>
     cb_bytes b = sum_list (map cp_size (cb_entries b)) \<and> cb_bytes b \<le> maxBytes \<and>
     sorted (map cp_At (cb_entries b)) \<and> (\<forall>e \<in> set (cb_entries b). cp_ExpiresAt e \<le> cp_At e + D)"

definition captures_ok :: "int \<Rightarrow> duration \<Rightarrow> time \<Rightarrow> CaptureStore \<Rightarrow> bool" where
  "captures_ok maxBytes D now s \<longleftrightarrow>
     cs_maxBytesPerTenant s = maxBytes \<and> distinct (map fst (cs_byTenant s)) \<and>
     (\<forall>b \<in> set (map snd (cs_byTenant s)). bucket_ok maxBytes D b \<and> (\<forall>e \<in> set (cb_entries b). cp_At e \<le> now))"

inductive capture_reach :: "int \<Rightarrow> duration \<Rightarrow> time \<Rightarrow> CaptureStore \<Rightarrow> bool" for maxBytes D where
  init: "capture_reach maxBytes D now (NewCaptureStore maxBytes)"
| put: "capture_reach maxBytes D now s \<Longrightarrow> now \<le> cp_At e \<Longrightarrow> cp_ExpiresAt e \<le> cp_At e + D \<Longrightarrow>
    capture_reach maxBytes D (cp_At e) (fst (Capture_Put tid e s))"
| sweep: "capture_reach maxBytes D now s \<Longrightarrow> capture_reach maxBytes D now (fst (Capture_Sweep t s))"
| flush: "capture_reach maxBytes D now s \<Longrightarrow> capture_reach maxBytes D now (fst (Capture_Flush tid s))"

lemma expire_entries_suffix:
  assumes "expire_entries now bytes es = (bytes', es')"
  shows "\<exists>gone. es = gone @ es' \<and> bytes' = bytes - sum_list (map cp_size gone) \<and>
    (\<forall>e \<in> set gone. cp_ExpiresAt e \<le> now) \<and> (es' = [] \<or> now < cp_ExpiresAt (hd es'))"
  using assms
proof (induction now bytes es rule: expire_entries.induct)
  case (2 now bytes e es)
  show ?case
  proof (cases "now < cp_ExpiresAt e")
    case True
    with "2.prems" show ?thesis by (intro exI [of _ "[]"]) auto
  next
    case False
    with 2 obtain gone where "es = gone @ es'" "bytes' = bytes - cp_size e - sum_list (map cp_size gone)"
      "\<forall>e \<in> set gone. cp_ExpiresAt e \<le> now" "es' = [] \<or> now < cp_ExpiresAt (hd es')" by auto
    with False show ?thesis by (intro exI [of _ "e # gone"]) auto
  qed
qed simp

lemma evict_oldest_suffix:
  assumes "evict_oldest maxBytes sz bytes es = (bytes', es')"
  shows "\<exists>gone. es = gone @ es' \<and> bytes' = bytes - sum_list (map cp_size gone) \<and>
    (es' = [] \<or> bytes' + sz \<le> maxBytes)"
  using assms
proof (induction maxBytes sz bytes es rule: evict_oldest.induct)
  case (2 maxBytes sz bytes e es)
  show ?case
  proof (cases "bytes + sz > maxBytes")
    case True
    with 2 obtain gone where "es = gone @ es'" "bytes' = bytes - cp_size e - sum_list (map cp_size gone)"
      "es' = [] \<or> bytes' + sz \<le> maxBytes" by auto
    with True show ?thesis by (intro exI [of _ "e # gone"]) auto
  next
    case False
    with "2.prems" show ?thesis by (intro exI [of _ "[]"]) auto
  qed
qed simp

lemma sum_sizes_nonneg: "0 \<le> sum_list (map cp_size es)"
  using cp_size_pos by (intro sum_list_nonneg) (auto simp: order_less_imp_le)

lemma bucket_ok_expire:
  assumes "bucket_ok maxBytes D b" "expire now b = (b', n)"
  shows "bucket_ok maxBytes D b'" "set (cb_entries b') \<subseteq> set (cb_entries b)"
    and "cb_entries b' = [] \<or> now < cp_ExpiresAt (hd (cb_entries b'))"
proof -
  obtain gone where g: "cb_entries b = gone @ cb_entries b'" "cb_bytes b' = cb_bytes b - sum_list (map cp_size gone)"
    "cb_entries b' = [] \<or> now < cp_ExpiresAt (hd (cb_entries b'))"
    using assms(2) expire_entries_suffix [of now "cb_bytes b" "cb_entries b"]
    by (auto simp: expire_def Let_def split: prod.splits)
  show "bucket_ok maxBytes D b'"
    using assms(1) g sum_sizes_nonneg [of gone] by (auto simp: bucket_ok_def sorted_append)
  show "set (cb_entries b') \<subseteq> set (cb_entries b)" using g(1) by auto
  show "cb_entries b' = [] \<or> now < cp_ExpiresAt (hd (cb_entries b'))" by (rule g(3))
qed


lemma captures_ok_put:
  assumes "captures_ok maxBytes D now s" "now \<le> cp_At e" "cp_ExpiresAt e \<le> cp_At e + D"
  shows "captures_ok maxBytes D (cp_At e) (fst (Capture_Put tid e s))"
proof (cases "tid = [] \<or> cp_size e > cs_maxBytesPerTenant s")
  case True
  have "captures_ok maxBytes D (cp_At e) s" using assms(1,2) by (fastforce simp: captures_ok_def)
  with True show ?thesis by (auto simp: Capture_Put_def Let_def)
next
  case False
  define b where "b = (case map_of (cs_byTenant s) tid of None \<Rightarrow> \<lparr> cb_bytes = 0, cb_entries = [] \<rparr> | Some b \<Rightarrow> b)"
  have fits: "cp_size e \<le> maxBytes" using False assms(1) by (simp add: captures_ok_def)
  have b: "bucket_ok maxBytes D b" "\<forall>x \<in> set (cb_entries b). cp_At x \<le> now"
    using assms(1) fits cp_size_pos [of e]
    by (auto simp: b_def captures_ok_def bucket_ok_def split: option.splits dest!: map_of_SomeD)
  obtain b1 n where ex: "expire (cp_At e) b = (b1, n)" by (metis surj_pair)
  obtain bytes es where ev: "evict_oldest maxBytes (cp_size e) (cb_bytes b1) (cb_entries b1) = (bytes, es)"
    by (metis surj_pair)
  define b2 where "b2 = \<lparr> cb_bytes = bytes + cp_size e, cb_entries = es @ [e] \<rparr>"
  have put: "fst (Capture_Put tid e s) = s\<lparr>cs_byTenant := AList.update tid b2 (cs_byTenant s)\<rparr>"
    using False ex ev assms(1) by (simp add: Capture_Put_def Let_def b_def [symmetric] b2_def captures_ok_def)
  note b1 = bucket_ok_expire [OF b(1) ex]
  obtain gone where g: "cb_entries b1 = gone @ es" "bytes = cb_bytes b1 - sum_list (map cp_size gone)"
    "es = [] \<or> bytes + cp_size e \<le> maxBytes" using evict_oldest_suffix [OF ev] by blast
  have bytes: "bytes = sum_list (map cp_size es)" using b1(1) g by (simp add: bucket_ok_def)
  then have "bytes + cp_size e \<le> maxBytes" using g(3) fits by auto
  moreover have old: "\<forall>x \<in> set es. cp_At x \<le> now" using b(2) b1(2) g(1) by auto
  ultimately have "bucket_ok maxBytes D b2" "\<forall>x \<in> set (cb_entries b2). cp_At x \<le> cp_At e"
    using b1(1) g(1) bytes assms(2,3) by (force simp: bucket_ok_def b2_def sorted_append)+
  moreover have "\<forall>x \<in> set (map snd (AList.update tid b2 (cs_byTenant s))). x = b2 \<or> x \<in> set (map snd (cs_byTenant s))"
    by (intro ballI) (rule update_values)
  moreover have "bucket_ok maxBytes D x \<and> (\<forall>y \<in> set (cb_entries x). cp_At y \<le> cp_At e)"
    if "x \<in> set (map snd (cs_byTenant s))" for x
    using that assms(1,2) unfolding captures_ok_def by (metis order_trans)
  moreover have "distinct (map fst (AList.update tid b2 (cs_byTenant s)))"
    using assms(1) unfolding captures_ok_def by (intro distinct_update_keys) blast
  ultimately show ?thesis
    using assms(1) unfolding put captures_ok_def by (auto simp del: set_map)
qed

lemma captures_ok_sweep:
  assumes "captures_ok maxBytes D now s"
  shows "captures_ok maxBytes D now (fst (Capture_Sweep t s))"
    and "b \<in> set (map snd (cs_byTenant (fst (Capture_Sweep t s)))) \<Longrightarrow>
      bucket_ok maxBytes D b \<and> cb_entries b \<noteq> [] \<and> t < cp_ExpiresAt (hd (cb_entries b))"
proof -
  have sub: "\<exists>b0 n. b0 \<in> set (map snd (cs_byTenant s)) \<and> expire t b0 = (b, n) \<and> cb_entries b \<noteq> []"
    if "b \<in> set (map snd (cs_byTenant (fst (Capture_Sweep t s))))" for b
  proof -
    from that have "b \<in> snd ` set (cs_byTenant (fst (Capture_Sweep t s)))" by simp
    then obtain kv where kv: "b = snd kv" "kv \<in> set (cs_byTenant (fst (Capture_Sweep t s)))" by (rule imageE)
    define k where "k = fst kv"
    have "(k, b) \<in> set (cs_byTenant (fst (Capture_Sweep t s)))" using kv by (simp add: k_def)
    then obtain b0 n where "(k, b0) \<in> set (cs_byTenant s)" "(b, n) = expire t b0" "cb_entries b \<noteq> []"
      by (auto simp: Capture_Sweep_def Let_def)
    then show ?thesis by (intro exI [of _ b0] exI [of _ n]) force
  qed
  have keys: "distinct (map fst (cs_byTenant (fst (Capture_Sweep t s))))"
  proof -
    have "distinct (map fst (filter P (map (\<lambda>(k, b). (k, expire t b)) m)))" if "distinct (map fst m)"
      for P and m :: "(string, capture_bucket) gomap"
    proof -
      have "map fst (map (\<lambda>(k, b). (k, expire t b)) m) = map fst m" by (induction m) auto
      with that have "distinct (map fst (map (\<lambda>(k, b). (k, expire t b)) m))" by (simp only:)
      then show ?thesis by (rule distinct_filter_keys)
    qed
    then show ?thesis using assms
      by (simp add: Capture_Sweep_def Let_def captures_ok_def case_prod_beta' comp_def)
  qed
  have good: "bucket_ok maxBytes D b \<and> (\<forall>e \<in> set (cb_entries b). cp_At e \<le> now) \<and> cb_entries b \<noteq> [] \<and>
      t < cp_ExpiresAt (hd (cb_entries b))"
    if "b \<in> set (map snd (cs_byTenant (fst (Capture_Sweep t s))))" for b
  proof -
    from sub [OF that] obtain b0 n where
      b0: "b0 \<in> set (map snd (cs_byTenant s))" "expire t b0 = (b, n)" "cb_entries b \<noteq> []" by blast
    have "bucket_ok maxBytes D b0" "\<forall>e \<in> set (cb_entries b0). cp_At e \<le> now"
      using assms b0(1) by (auto simp: captures_ok_def)
    with bucket_ok_expire [OF this(1) b0(2)] b0(3) show ?thesis by blast
  qed
  show "captures_ok maxBytes D now (fst (Capture_Sweep t s))"
  proof -
    have "cs_maxBytesPerTenant (fst (Capture_Sweep t s)) = maxBytes"
      using assms by (simp add: captures_ok_def Capture_Sweep_def Let_def)
    with good keys show ?thesis unfolding captures_ok_def by blast
  qed
  show "b \<in> set (map snd (cs_byTenant (fst (Capture_Sweep t s)))) \<Longrightarrow>
      bucket_ok maxBytes D b \<and> cb_entries b \<noteq> [] \<and> t < cp_ExpiresAt (hd (cb_entries b))" using good by blast
qed

lemma captures_ok_flush: "captures_ok maxBytes D now s \<Longrightarrow> captures_ok maxBytes D now (fst (Capture_Flush tid s))"
  unfolding captures_ok_def Capture_Flush_def
  by (cases "map_of (cs_byTenant s) tid")
    (auto simp del: set_map dest: delete_values intro: distinct_delete_keys)

lemma capture_reach_ok: "capture_reach maxBytes D now s \<Longrightarrow> captures_ok maxBytes D now s"
proof (induction rule: capture_reach.induct)
  case (init now)
  then show ?case by (simp add: captures_ok_def NewCaptureStore_def)
qed (auto intro: captures_ok_put captures_ok_sweep captures_ok_flush)

text \<open>C33. The capture store keeps its two promises in every state it can reach, over captures whose
  lifetime is at most \<open>D\<close>: no tenant holds more than its byte budget, and the expiry is a deletion,
  since after a sweep at \<open>t\<close> nothing that is \<open>D\<close> old is resident any more, even where a shortened
  policy made a later capture expire before an earlier one; and what the admin plane shows is live,
  newest first.\<close>

theorem captures_bounded_and_deleted:
  assumes "capture_reach maxBytes D now s"
  shows "(\<forall>b \<in> set (map snd (cs_byTenant s)). sum_list (map cp_size (cb_entries b)) \<le> maxBytes) \<and>
    (\<forall>b \<in> set (map snd (cs_byTenant (fst (Capture_Sweep t s)))). \<forall>e \<in> set (cb_entries b). t < cp_At e + D) \<and>
    (\<forall>e \<in> set (Capture_List tid t s). t < cp_ExpiresAt e) \<and>
    sorted (rev (map cp_At (Capture_List tid t s)))"
proof (intro conjI ballI)
  have ok: "captures_ok maxBytes D now s" using capture_reach_ok [OF assms] .
  show "sum_list (map cp_size (cb_entries b)) \<le> maxBytes" if "b \<in> set (map snd (cs_byTenant s))" for b
    using ok that by (force simp: captures_ok_def bucket_ok_def)
  show "t < cp_At e + D" if b: "b \<in> set (map snd (cs_byTenant (fst (Capture_Sweep t s))))" and e: "e \<in> set (cb_entries b)" for b e
  proof -
    have b: "bucket_ok maxBytes D b" "cb_entries b \<noteq> []" "t < cp_ExpiresAt (hd (cb_entries b))"
      using captures_ok_sweep(2) [OF ok b] by auto
    then have "cp_ExpiresAt (hd (cb_entries b)) \<le> cp_At (hd (cb_entries b)) + D" by (simp add: bucket_ok_def)
    moreover have "cp_At (hd (cb_entries b)) \<le> cp_At e"
      using b(1,2) e by (cases "cb_entries b") (auto simp: bucket_ok_def)
    ultimately show ?thesis using b(3) by linarith
  qed
  show "t < cp_ExpiresAt e" if "e \<in> set (Capture_List tid t s)" for e
    using that by (auto simp: Capture_List_def split: option.splits)
  show "sorted (rev (map cp_At (Capture_List tid t s)))"
  proof (cases "map_of (cs_byTenant s) tid")
    case (Some b)
    then have "sorted (map cp_At (cb_entries b))" using ok by (auto simp: captures_ok_def bucket_ok_def dest!: map_of_value)
    then have "sorted (map cp_At (filter P (cb_entries b)))" for P by (rule sorted_filter)
    then show ?thesis using Some by (simp add: Capture_List_def rev_map rev_filter)
  qed (simp add: Capture_List_def)
qed

definition example_capture :: "time \<Rightarrow> time \<Rightarrow> CaptureEntry" where
  "example_capture t ex = \<lparr> cp_ID = ''cap_1'', cp_RequestID = ''req_1'', cp_At = t, cp_ExpiresAt = ex,
     cp_Model = ''m'', cp_Status = 200, cp_Request = ''{}'', cp_Response = ''{}'' \<rparr>"

definition example_captures :: CaptureStore where
  "example_captures = fst (Capture_Put ''t'' (example_capture 20 25)
     (fst (Capture_Put ''t'' (example_capture 10 40) (NewCaptureStore 1000))))"

theorem captures_bounded_and_deleted_witness:
  "list_all (\<lambda>b. list_all (\<lambda>e. 15 < cp_At e) (cb_entries b)) (map snd (cs_byTenant (fst (Capture_Sweep 45 example_captures)))) \<and>
   sorted (rev (map cp_At (Capture_List ''t'' 22 example_captures)))"
proof -
  have "capture_reach 1000 30 10 (fst (Capture_Put ''t'' (example_capture 10 40) (NewCaptureStore 1000)))"
    using capture_reach.put [OF capture_reach.init [of 1000 30 0], of "example_capture 10 40" "''t''"]
    by (simp add: example_capture_def)
  from capture_reach.put [OF this, of "example_capture 20 25" "''t''"]
  have "capture_reach 1000 30 20 example_captures" by (simp add: example_capture_def example_captures_def)
  from captures_bounded_and_deleted [OF this, of 45 "''t''"] captures_bounded_and_deleted [OF this, of 22 "''t''"]
  show ?thesis unfolding list_all_iff by force
qed

section \<open>The policy in force\<close>

lemma captureTTL_le: "captureTTL cfg p \<le> db_MaxTTL (cfg_Debug cfg)"
  by (simp add: captureTTL_def Let_def)

end
