(* ===== verification/Middleware.thy ===== *)
theory Middleware
  imports Observability Memory_Store Tenant_Limits Paging Debug_Capture
begin

text \<open>
  The middleware of the HTTP surface: \<open>gateway/internal/server/middleware.go\<close>, the request path of
  \<open>server/limits.go\<close> and \<open>server/capture.go\<close>, \<open>server/audit.go\<close>, and the assembly in \<open>server/server.go\<close>.

  A handler takes the outside world, the server and the context and returns them changed, with how it ended:
  \<open>Returned err\<close>, or \<open>Panic v\<close> when it panicked with the value \<open>v\<close>. The argument \<open>rest\<close> of a middleware is
  what \<open>c.Next()\<close> runs. What follows \<open>c.Next()\<close> in the code is skipped by a panic, what is deferred is
  not. The state of the server is an extensible record, so that the middleware applies to any server that adds
  fields to it. The clock, the id generator, the random source, SHA-256, the text of a response body and
  Fiber's choice of route are fields of the record \<open>genv\<close>. The log and the metrics are lists of what was
  written to them; a nil \<open>Metrics\<close> is \<open>None\<close>.
\<close>

section \<open>The server\<close>

record 'w genv =
  ge_now :: "'w \<Rightarrow> 'w \<times> time"
  ge_NewID :: "string \<Rightarrow> 'w \<Rightarrow> 'w \<times> string"
  ge_Float64 :: "'w \<Rightarrow> 'w \<times> rat"
  ge_sha256 :: "string \<Rightarrow> string"
  ge_bodyText :: "respBody \<Rightarrow> string"
  ge_route :: "fctx \<Rightarrow> string"

record request_line =
  ln_error :: bool
  ln_request_id :: string
  ln_client_request_id :: string
  ln_tenant :: string
  ln_key_prefix :: string
  ln_method :: string
  ln_route :: string
  ln_status :: int
  ln_outcome :: Outcome
  ln_duration_ms :: int

record Server =
  sv_Config :: Config
  sv_Store :: Memory
  sv_limiter :: concurrencyLimiter
  sv_rates :: rateLimiter
  sv_captures :: CaptureStore
  sv_draining :: bool
  sv_log :: "request_line list"
  sv_metrics :: "metric_event list option"

datatype flow = Returned "goerr option" | Panic string

type_synonym ('w, 'x) handler = "'w \<Rightarrow> 'x Server_scheme \<Rightarrow> fctx \<Rightarrow> 'w \<times> 'x Server_scheme \<times> fctx \<times> flow"

definition fail_with :: "fctx \<Rightarrow> apiError \<Rightarrow> fctx \<times> flow" where
  \<comment> \<open>\<open>return httpx.Fail(c, e)\<close>\<close>
  "fail_with c e = (Fail c (ApiErr e), Returned None)"

definition meter_event :: "string \<Rightarrow> string list \<Rightarrow> rat \<Rightarrow> 'x Server_scheme \<Rightarrow> 'x Server_scheme" where
  "meter_event series labels x s = s\<lparr>sv_metrics := map_option (\<lambda>es. es @ [(series, labels, x)]) (sv_metrics s)\<rparr>"

section \<open>Around every request\<close>

definition identify :: "'w genv \<Rightarrow> ('w, 'x) handler \<Rightarrow> ('w, 'x) handler" where
  "identify ge rest w s c =
     (let (w1, rid) = ge_NewID ge ''req'' w;
          c1 = SetRequestID c rid;
          v = header c1 HeaderClientRequestID
      in rest w1 s (if v \<noteq> [] then SetClientRequestID c1 v else c1))"

definition recover :: "('w, 'x) handler \<Rightarrow> ('w, 'x) handler" where
  "recover rest w s c =
     (case rest w s c of
        (w1, s1, c1, Panic v) \<Rightarrow>
          (w1, s1, Fail c1 (ApiErr (From (Errorf (''panic: %v'', [FStr v])))), Returned None)
      | r \<Rightarrow> r)"

definition keyPrefix :: "fctx \<Rightarrow> string" where
  "keyPrefix c = (case c_key c of Some k \<Rightarrow> k_Prefix k | None \<Rightarrow> [])"

definition whole_millis :: "duration \<Rightarrow> int" where
  \<comment> \<open>\<open>d.Milliseconds()\<close>, which truncates toward zero\<close>
  "whole_millis d = (if d \<ge> 0 then d div 1000000 else - ((- d) div 1000000))"

definition observe :: "'w genv \<Rightarrow> ('w, 'x) handler \<Rightarrow> ('w, 'x) handler" where
  "observe ge rest w s c =
     (let (w1, started) = ge_now ge w in
      case rest w1 s c of
        (w2, s2, c2, Panic v) \<Rightarrow> (w2, s2, c2, Panic v)
      | (w2, s2, c2, Returned err) \<Rightarrow>
          let (w3, t) = ge_now ge w2;
              elapsed = t - started;
              route = (if ge_route ge c2 = [] then ''unmatched'' else ge_route ge c2);
              tenant = TenantID c2; status = c_status c2; out = c_outcome c2;
              s3 = meter_event ''requests''
                     [tenant, oc_Provider out, oc_Model out, route, Itoa status] 1 s2;
              s4 = meter_event ''request_duration'' [tenant, oc_Provider out, route]
                     (of_int elapsed / of_int Second) s3;
              line = \<lparr> ln_error = (status \<ge> 500), ln_request_id = c_requestID c2,
                       ln_client_request_id = c_clientRequestID c2, ln_tenant = tenant,
                       ln_key_prefix = keyPrefix c2, ln_method = c_method c2, ln_route = route,
                       ln_status = status, ln_outcome = out, ln_duration_ms = whole_millis elapsed \<rparr>
          in (w3, s4\<lparr>sv_log := sv_log s4 @ [line]\<rparr>, c2, Returned err))"

definition metricsPath :: "string \<Rightarrow> string" where
  "metricsPath p0 =
     (let p = TrimSpace p0 in
      if p = [] then ''/metrics'' else if HasPrefix p ''/'' then p else CHR ''/'' # p)"

definition refuseWhenDraining :: "('w, 'x) handler \<Rightarrow> ('w, 'x) handler" where
  "refuseWhenDraining rest w s c =
     (if \<not> sv_draining s then rest w s c
      else if c_path c \<in> {''/healthz'', metricsPath (mc_Path (cfg_Metrics (sv_Config s)))} then rest w s c
      else (w, s, fail_with (c_Set c ''Connection'' ''close'')
             (Unavailable (''The gateway is shutting down and is not accepting new requests.'', []))))"

definition limitBody :: "('w, 'x) handler \<Rightarrow> ('w, 'x) handler" where
  "limitBody rest w s c =
     (let limit = lc_MaxRequestBytes (cfg_Limits (sv_Config s)) in
      if c_contentLength c > limit then (w, s, fail_with c (RequestTooLarge limit))
      else if int (length (c_reqBody c)) > limit then (w, s, fail_with c (RequestTooLarge limit))
      else rest w s c)"

section \<open>Authentication\<close>

definition bearer :: "fctx \<Rightarrow> string" where
  "bearer c =
     (let h = header c ''Authorization''; scheme = ''bearer '' in
      if h = [] then []
      else if length h > length scheme \<and> EqualFold (take (length scheme) h) scheme
      then TrimSpace (drop (length scheme) h)
      else TrimSpace h)"

definition bootstrapMatches :: "Config \<Rightarrow> string \<Rightarrow> bool" where
  \<comment> \<open>\<open>ConstantTimeEqual\<close> is equality of the bytes\<close>
  "bootstrapMatches cfg raw \<longleftrightarrow> int (length (cfg_BootstrapKey cfg)) \<ge> MinBootstrapKeyLen \<and> raw = cfg_BootstrapKey cfg"

definition bootstrap_key :: APIKey where
  "bootstrap_key = \<lparr> k_ID = ''bootstrap'', k_TenantID = [], k_Plane = PlaneAdmin, k_Name = ''bootstrap'',
     k_Prefix = ''bootstrap'', k_Hash = [], k_Scope = ScopeRoot, k_CreatedAt = zero_time, k_ExpiresAt = None,
     k_RevokedAt = None \<rparr>"

definition auth :: "'w genv \<Rightarrow> Plane \<Rightarrow> ('w, 'x) handler \<Rightarrow> ('w, 'x) handler" where
  "auth ge want rest w s c =
     (let raw = bearer c in
      if raw = [] then (w, s, fail_with c InvalidAPIKey)
      else if bootstrapMatches (sv_Config s) raw
      then (if want \<noteq> PlaneAdmin then (w, s, fail_with c (WrongPlane want))
            else rest w s (SetAuth c bootstrap_key None))
      else
        case PlaneOf raw of
          None \<Rightarrow> (w, s, fail_with c InvalidAPIKey)
        | Some plane \<Rightarrow>
            if plane \<noteq> want then (w, s, fail_with c (WrongPlane want))
            else
              let (w1, t) = ge_now ge w in
              case ResolveKey (ge_sha256 ge) t raw (sv_Store s) of
                Inl err \<Rightarrow> (w1, s, fail_with c (WithCause InvalidAPIKey err))
              | Inr (key, tenant) \<Rightarrow>
                  if k_Plane key \<noteq> want then (w1, s, fail_with c (WrongPlane want))
                  else if (case tenant of Some tn \<Rightarrow> t_Status tn = ''suspended'' | None \<Rightarrow> False)
                  then (w1, s, fail_with c InvalidAPIKey)
                  else rest w1 s (SetAuth c key tenant))"

definition metricsAuth :: "('w, 'x) handler \<Rightarrow> ('w, 'x) handler" where
  "metricsAuth rest w s c =
     (let want = mc_Token (cfg_Metrics (sv_Config s)) in
      if want = [] then rest w s c
      else if bearer c \<noteq> want then (w, s, fail_with c InvalidAPIKey)
      else rest w s c)"

section \<open>Debug capture\<close>

definition captureDebug :: "'w genv \<Rightarrow> ('w, 'x) handler \<Rightarrow> ('w, 'x) handler" where
  "captureDebug ge rest w s c =
     (case c_tenant c of
        None \<Rightarrow> rest w s c
      | Some tenant \<Rightarrow>
          if \<not> dc_Enabled (t_DebugCapture tenant) then rest w s c
          else
            let c1 = c_Set c HeaderDebugCapture ''on'';
                (w1, roll) = ge_Float64 ge w;
                sample = (roll < captureSampleRate (sv_Config s) (t_DebugCapture tenant));
                request = (if sample then c_reqBody c1 else [])
            in case rest w1 s c1 of
                 (w2, s2, c2, Panic v) \<Rightarrow> (w2, s2, c2, Panic v)
               | (w2, s2, c2, Returned err) \<Rightarrow>
                   if \<not> sample then (w2, s2, c2, Returned err)
                   else
                     let status = (case err of Some e \<Rightarrow> e_Status (From e) | None \<Rightarrow> c_status c2);
                         response = (if c_body c2 = StreamBody then [] else ge_bodyText ge (c_body c2))
                     in if request = [] then (w2, s2, c2, Returned err)
                        else
                          let (w3, now) = ge_now ge w2;
                              (w4, newid) = ge_NewID ge ''cap'' w3;
                              entry = \<lparr> cp_ID = newid, cp_RequestID = c_requestID c2, cp_At = now,
                                cp_ExpiresAt = now + captureTTL (sv_Config s2) (t_DebugCapture tenant),
                                cp_Model = oc_Model (c_outcome c2), cp_Status = status,
                                cp_Request = request, cp_Response = response \<rparr>
                          in (w4, s2\<lparr>sv_captures := fst (Capture_Put (t_ID tenant) entry (sv_captures s2))\<rparr>,
                              c2, Returned err))"

section \<open>Per-tenant limits\<close>

definition rateExempt :: "fctx \<Rightarrow> bool" where
  "rateExempt c \<longleftrightarrow> TrimRightChar (c_path c) (CHR ''/'') \<in> {''/v1/health'', ''/v1/meta''}"

definition slot_take :: "fctx \<Rightarrow> fctx" where
  "slot_take c = c\<lparr>c_slot := map_option (sl_adopted_update (\<lambda>_. True)) (c_slot c)\<rparr>"

definition adoptSlot :: "fctx \<Rightarrow> fctx \<times> nat option" where
  \<comment> \<open>the release closure handed over, \<open>None\<close> for the one that does nothing\<close>
  "adoptSlot c = (case c_slot c of None \<Rightarrow> (c, None) | Some held \<Rightarrow> (slot_take c, Some (sl_release held)))"

definition releaseUnlessAdopted :: "nat \<Rightarrow> fctx \<Rightarrow> 'x Server_scheme \<Rightarrow> 'x Server_scheme" where
  \<comment> \<open>the slot is the one the context carries\<close>
  "releaseUnlessAdopted p c s =
     (if (case c_slot c of Some held \<Rightarrow> sl_adopted held | None \<Rightarrow> False) then s
      else s\<lparr>sv_limiter := release p (sv_limiter s)\<rparr>)"

definition admit_rate :: "'w genv \<Rightarrow> effectiveLimits \<Rightarrow> string \<Rightarrow> 'w \<Rightarrow> 'x Server_scheme \<Rightarrow> fctx
    \<Rightarrow> 'w \<times> 'x Server_scheme \<times> duration option" where
  \<comment> \<open>the rate check: \<open>Some wait\<close> is a refusal\<close>
  "admit_rate ge lims tid w s c =
     (if rateExempt c then (w, s, None)
      else
        let (w1, t) = ge_now ge w;
            (rates, wait, ok) = rate_take t tid (ef_RequestsPerSecond lims) (ef_BurstCapacity lims)
              (ef_RequestsPerMinute lims) (sv_rates s)
        in (w1, s\<lparr>sv_rates := rates\<rparr>, if ok then None else Some wait))"

definition limitTenant :: "'w genv \<Rightarrow> ('w, 'x) handler \<Rightarrow> ('w, 'x) handler" where
  "limitTenant ge rest w s c =
     (case (c_key c, c_tenant c) of
        (Some key, Some tenant) \<Rightarrow>
          let lims = limitsFor (sv_Config s) (Some tenant) in
          if c_contentLength c > ef_MaxRequestBytes lims \<or> int (length (c_reqBody c)) > ef_MaxRequestBytes lims
          then (w, s, fail_with c (RequestTooLarge (ef_MaxRequestBytes lims)))
          else
            (case admit_rate ge lims (t_ID tenant) w s c of
               (w1, s1, Some wait) \<Rightarrow> (w1, s1, fail_with c (WithRetryAfter RateLimited wait))
             | (w1, s1, None) \<Rightarrow>
                 (case acquire (k_ID key) (ef_MaxConcurrentPerKey lims) (sv_limiter s1) of
                    (l, None) \<Rightarrow> (w1, s1\<lparr>sv_limiter := l\<rparr>, fail_with c (ConcurrencyExceeded (ef_MaxConcurrentPerKey lims)))
                  | (l, Some p) \<Rightarrow>
                      let (w2, s2, c2, fl) = rest w1 (s1\<lparr>sv_limiter := l\<rparr>)
                            (c\<lparr>c_slot := Some \<lparr> sl_adopted = False, sl_release = p \<rparr>\<rparr>)
                      in (w2, releaseUnlessAdopted p c2 s2, c2, fl)))
      | _ \<Rightarrow> rest w s c)"

section \<open>The audit log\<close>

definition auditAction :: "string \<Rightarrow> string \<times> bool" where
  "auditAction method =
     (if method = ''POST'' then (''create'', True)
      else if method = ''PUT'' then (''upsert'', True)
      else if method = ''PATCH'' then (''update'', True)
      else if method = ''DELETE'' then (''delete'', True)
      else ([], False))"

definition audit_entry :: "APIKey \<Rightarrow> string \<Rightarrow> goerr option \<Rightarrow> fctx \<Rightarrow> AuditEntry" where
  "audit_entry key action err c =
     \<lparr> au_ID = [], au_At = zero_time, au_Actor = k_Prefix key, au_ActorKeyID = k_ID key,
       au_ActorScope = k_Scope key, au_Action = action, au_Resource = c_path c,
       au_TenantID = param c ''tenant'',
       au_Status = (case err of Some e \<Rightarrow> e_Status (From e) | None \<Rightarrow> c_status c),
       au_RequestID = c_requestID c \<rparr>"

definition auditMutations :: "'w genv \<Rightarrow> ('w, 'x) handler \<Rightarrow> ('w, 'x) handler" where
  \<comment> \<open>recording into the in-memory store cannot fail\<close>
  "auditMutations ge rest w s c =
     (case rest w s c of
        (w1, s1, c1, Panic v) \<Rightarrow> (w1, s1, c1, Panic v)
      | (w1, s1, c1, Returned err) \<Rightarrow>
          let (action, mutating) = auditAction (c_method c1) in
          if \<not> mutating then (w1, s1, c1, Returned err)
          else case c_key c1 of
                 None \<Rightarrow> (w1, s1, c1, Returned err)
               | Some key \<Rightarrow>
                   let (w2, aid) = ge_NewID ge ''aud'' w1;
                       (w3, now) = ge_now ge w2
                   in (w3, s1\<lparr>sv_Store := RecordAudit now aid (audit_entry key action err c1) (sv_Store s1)\<rparr>,
                       c1, Returned err))"

section \<open>Assembly\<close>

definition handleHealthz :: "('w, 'x) handler" where
  "handleHealthz w s c =
     (w, s,
      if sv_draining s
      then c\<lparr>c_status := 503, c_body := JSONBody (JObj [(''status'', JStr ''draining'')])\<rparr>
      else c\<lparr>c_body := JSONBody (JObj [(''status'', JStr ''ok'')])\<rparr>,
      Returned None)"

definition notFound :: "('w, 'x) handler" where
  \<comment> \<open>the handler registered last, for whatever no route matched\<close>
  "notFound w s c = (w, s, fail_with c (NotSupported (c_method c @ '' '' @ c_path c)))"

datatype matched = Healthz | MetricsRoute | DataRoute | AdminRoute | Unmatched

definition route_table ::
  "'w genv \<Rightarrow> (fctx \<Rightarrow> matched) \<Rightarrow> ('w, 'x) handler \<Rightarrow> ('w, 'x) handler \<Rightarrow> ('w, 'x) handler \<Rightarrow> ('w, 'x) handler" where
  \<comment> \<open>\<open>router\<close> is Fiber's match of method and path against the registered routes and groups; the last
     arguments are the handlers behind \<open>/metrics\<close>, \<open>/v1\<close> and \<open>/admin/v1\<close>\<close>
  "route_table ge router metricsH dataH adminH w s c =
     (case router c of
        Healthz \<Rightarrow> handleHealthz w s c
      | MetricsRoute \<Rightarrow>
          if mc_Enabled (cfg_Metrics (sv_Config s)) then metricsAuth metricsH w s c else notFound w s c
      | DataRoute \<Rightarrow> auth ge PlaneData (captureDebug ge (limitTenant ge dataH)) w s c
      | AdminRoute \<Rightarrow> auth ge PlaneAdmin (auditMutations ge adminH) w s c
      | Unmatched \<Rightarrow> notFound w s c)"

fun fiber_as :: "goerr \<Rightarrow> int option" where
  \<comment> \<open>\<open>errors.As\<close> for \<open>*fiber.Error\<close>\<close>
  "fiber_as (FiberErr n) = Some n"
| "fiber_as (Wrapf m e) = fiber_as e"
| "fiber_as (ApiErr (ApiError st ty co m p cause ats ra)) = (case cause of Some e \<Rightarrow> fiber_as e | None \<Rightarrow> None)"
| "fiber_as (Sentinel s) = None"
| "fiber_as (Errorf m) = None"
| "fiber_as (StatusErr op st bd) = None"

definition translateFiberError :: "goerr \<Rightarrow> LimitsConfig \<Rightarrow> goerr" where
  "translateFiberError err limits =
     (if err_as err \<noteq> None then err
      else case fiber_as err of
             None \<Rightarrow> err
           | Some code \<Rightarrow>
               if code = 413 then ApiErr (WithCause (RequestTooLarge (lc_MaxRequestBytes limits)) err)
               else if code = 404 \<or> code = 405 then ApiErr (WithCause (NotSupported ''the requested route'') err)
               else if code = 408
               then ApiErr (WithCause (GatewayTimeout (of_int (lc_RequestTimeout limits) / of_int Second)) err)
               else err)"

definition serve ::
  "'w genv \<Rightarrow> (fctx \<Rightarrow> matched) \<Rightarrow> ('w, 'x) handler \<Rightarrow> ('w, 'x) handler \<Rightarrow> ('w, 'x) handler \<Rightarrow> ('w, 'x) handler" where
  \<comment> \<open>the application: the middleware in the order of \<open>routes\<close>, then Fiber's error handler\<close>
  "serve ge router metricsH dataH adminH w s c =
     (case identify ge (recover (observe ge (refuseWhenDraining (limitBody
             (route_table ge router metricsH dataH adminH))))) w s c of
        (w1, s1, c1, Returned (Some err)) \<Rightarrow>
          (w1, s1, Fail c1 (translateFiberError err (cfg_Limits (sv_Config s1))), Returned None)
      | r \<Rightarrow> r)"

section \<open>What every handler keeps\<close>

definition identified :: "fctx \<Rightarrow> bool" where
  \<comment> \<open>the response carries the request id, in the header and in an error envelope\<close>
  "identified c \<longleftrightarrow> map_of (c_respHeaders c) HeaderRequestID = Some (c_requestID c) \<and>
     (\<forall>b. c_body c = ErrorBody b \<longrightarrow> bd_RequestID b = c_requestID c)"

inductive limiter_moves :: "concurrencyLimiter \<Rightarrow> concurrencyLimiter \<Rightarrow> bool" where
  \<comment> \<open>what any interleaving of requests can do to the limiter\<close>
  refl [intro]: "limiter_moves l l"
| acq: "limiter_moves l l' \<Longrightarrow> limiter_moves l (fst (acquire key limit l'))"
| rel: "limiter_moves l l' \<Longrightarrow> limiter_moves l (release p l')"

lemma limiter_moves_trans: "limiter_moves l2 l3 \<Longrightarrow> limiter_moves l1 l2 \<Longrightarrow> limiter_moves l1 l3"
  by (induction rule: limiter_moves.induct) (auto intro: limiter_moves.intros)

lemma limiter_moves_inv: "limiter_moves l l' \<Longrightarrow> limiter_inv l \<Longrightarrow> limiter_inv l'"
  by (induction rule: limiter_moves.induct) (auto intro: limiter_inv_acquire limiter_inv_release)

definition permits_kept :: "concurrencyLimiter \<Rightarrow> concurrencyLimiter \<Rightarrow> bool" where
  "permits_kept l l' \<longleftrightarrow> length (cl_permits l) \<le> length (cl_permits l') \<and>
     (\<forall>i < length (cl_permits l). fst (cl_permits l' ! i) = fst (cl_permits l ! i) \<and>
        (snd (cl_permits l ! i) \<longrightarrow> snd (cl_permits l' ! i)))"

lemma permits_kept_acquire: "permits_kept l l' \<Longrightarrow> permits_kept l (fst (acquire key limit l'))"
  by (auto simp: permits_kept_def acquire_def Let_def nth_append)

lemma cl_permits_release:
  "cl_permits (release p l) =
    (if p < length (cl_permits l) then (cl_permits l)[p := (fst (cl_permits l ! p), True)] else cl_permits l)"
  by (auto simp: release_def Let_def intro!: list_update_same_conv [THEN iffD2, symmetric] prod_eqI)

lemma permits_kept_release: "permits_kept l l' \<Longrightarrow> permits_kept l (release p l')"
  by (auto simp: permits_kept_def cl_permits_release nth_list_update)

lemma limiter_moves_permits: "limiter_moves l l' \<Longrightarrow> permits_kept l l'"
  by (induction rule: limiter_moves.induct)
    (auto simp: permits_kept_acquire permits_kept_release, auto simp: permits_kept_def)

lemma identified_c_Set [simp]: "name \<noteq> HeaderRequestID \<Longrightarrow> identified (c_Set c name v) = identified c"
  by (simp add: identified_def c_Set_def)

lemma c_Set_fields [simp]:
  "c_requestID (c_Set c name v) = c_requestID c" "c_slot (c_Set c name v) = c_slot c"
  "c_key (c_Set c name v) = c_key c" "c_tenant (c_Set c name v) = c_tenant c"
  "c_path (c_Set c name v) = c_path c" "c_method (c_Set c name v) = c_method c"
  "c_reqBody (c_Set c name v) = c_reqBody c" "c_contentLength (c_Set c name v) = c_contentLength c"
  "c_reqHeaders (c_Set c name v) = c_reqHeaders c" "c_status (c_Set c name v) = c_status c"
  "c_body (c_Set c name v) = c_body c" "c_outcome (c_Set c name v) = c_outcome c"
  by (simp_all add: c_Set_def)

lemma identified_Fail: "map_of (c_respHeaders c) HeaderRequestID = Some (c_requestID c) \<Longrightarrow> identified (Fail c err)"
  by (auto simp: identified_def Fail_def Let_def c_Set_def setErrorCode_def Envelope_def
      HeaderRetryAfter_def HeaderRequestID_def)

lemma identified_header: "identified c \<Longrightarrow> map_of (c_respHeaders c) HeaderRequestID = Some (c_requestID c)"
  by (simp add: identified_def)

definition kept :: "'x Server_scheme \<Rightarrow> fctx \<Rightarrow> 'w \<times> 'x Server_scheme \<times> fctx \<times> flow \<Rightarrow> bool" where
  \<comment> \<open>what a handler may do to the request id and to the limiter\<close>
  "kept s c r \<longleftrightarrow> (case r of (w', s', c', fl) \<Rightarrow>
     (identified c \<longrightarrow> identified c' \<and> c_requestID c' = c_requestID c) \<and>
     limiter_moves (sv_limiter s) (sv_limiter s'))"

lemma kept_fail: "limiter_moves (sv_limiter s) (sv_limiter s') \<Longrightarrow> kept s c (w, s', fail_with c e)"
  by (auto simp: kept_def fail_with_def intro: identified_Fail identified_header)

lemma kept_fail_header: "name \<noteq> HeaderRequestID \<Longrightarrow> kept s c (w, s, fail_with (c_Set c name v) e)"
  by (auto simp: kept_def fail_with_def c_Set_def intro!: identified_Fail dest: identified_header)

lemma kept_from:
  assumes "kept s1 c1 r" "limiter_moves (sv_limiter s) (sv_limiter s1)"
    and "identified c \<Longrightarrow> identified c1 \<and> c_requestID c1 = c_requestID c"
  shows "kept s c r"
  using assms limiter_moves_trans [OF _ assms(2)] by (cases r) (auto simp: kept_def)

lemma kept_state: "kept s c (w, s1, c1, fl) \<Longrightarrow> sv_limiter s2 = sv_limiter s1 \<Longrightarrow> kept s c (w', s2, c1, fl')"
  by (simp add: kept_def)

locale served_handler =
  fixes h :: "('w, 'x) handler"
  assumes keeps: "kept s c (h w s c)"
begin

lemma via_state: "sv_limiter s1 = sv_limiter s \<Longrightarrow> kept s c (h w s1 c)"
  using keeps [of s1 c w] by (auto simp: kept_def split: prod.splits)

lemma via_header: "name \<noteq> HeaderRequestID \<Longrightarrow> kept s c (h w s (c_Set c name v))"
  by (rule kept_from [OF keeps]) auto

lemma via_auth: "kept s c (h w s (SetAuth c key tenant))"
  by (rule kept_from [OF keeps]) (auto simp: SetAuth_def identified_def)

end

context served_handler
begin



lemma observe_keeps: "kept s c (observe ge h w s c)"
proof (cases "h (fst (ge_now ge w)) s c")
  case (fields w2 s2 c2 fl)
  then have "kept s c (w2, s2, c2, fl)" using keeps by metis
  then show ?thesis
    using fields by (auto simp: observe_def Let_def meter_event_def kept_def split: prod.splits flow.splits)
qed

lemma draining_keeps: "kept s c (refuseWhenDraining h w s c)"
  using keeps by (auto simp: refuseWhenDraining_def HeaderRequestID_def intro: kept_fail_header)

lemma body_keeps: "kept s c (limitBody h w s c)"
  using keeps by (auto simp: limitBody_def Let_def intro: kept_fail)

lemma auth_keeps: "kept s c (auth ge want h w s c)"
  using via_auth by (auto simp: auth_def Let_def intro: kept_fail split: option.splits prod.splits sum.splits)

lemma metrics_keeps: "kept s c (metricsAuth h w s c)"
  using keeps by (auto simp: metricsAuth_def Let_def intro: kept_fail)

lemma audit_keeps: "kept s c (auditMutations ge h w s c)"
proof (cases "h w s c")
  case (fields w2 s2 c2 fl)
  then have "kept s c (w2, s2, c2, fl)" using keeps by metis
  then show ?thesis
    using fields
    by (auto simp: auditMutations_def Let_def intro: kept_state split: prod.splits flow.splits option.splits)
qed

lemma capture_keeps: "kept s c (captureDebug ge h w s c)"
proof (cases "\<exists>t. c_tenant c = Some t \<and> dc_Enabled (t_DebugCapture t)")
  case True
  then obtain t where t: "c_tenant c = Some t" "dc_Enabled (t_DebugCapture t)" by auto
  obtain w2 s2 c2 fl where
    h: "h (fst (ge_Float64 ge w)) s (c_Set c HeaderDebugCapture ''on'') = (w2, s2, c2, fl)"
    by (metis prod_cases4)
  have "kept s c (h (fst (ge_Float64 ge w)) s (c_Set c HeaderDebugCapture ''on''))"
    by (rule via_header) (simp add: HeaderDebugCapture_def HeaderRequestID_def)
  then have k: "kept s c (w2, s2, c2, fl)" using h by simp
  have "\<exists>w3 s3. captureDebug ge h w s c = (w3, s3, c2, fl) \<and> sv_limiter s3 = sv_limiter s2"
    using t h by (cases fl) (simp_all add: captureDebug_def Let_def split_beta)
  then show ?thesis using kept_state [OF k] by auto
next
  case False
  then show ?thesis using keeps by (auto simp: captureDebug_def split: option.splits)
qed

end

lemma acquire_moves: "acquire key limit l = (l', p) \<Longrightarrow> limiter_moves l l'"
  using limiter_moves.acq [OF limiter_moves.refl, of l key limit] by simp

lemma admit_rate_limiter: "admit_rate ge lims tid w s c = (w1, s1, r) \<Longrightarrow> sv_limiter s1 = sv_limiter s"
  by (auto simp: admit_rate_def Let_def split: if_splits prod.splits)

lemma limitTenant_cases:
  obtains (passed) "c_key c = None \<or> c_tenant c = None" "limitTenant ge rest w s c = rest w s c"
  | (refused) w1 s1 e where "limitTenant ge rest w s c = (w1, s1, fail_with c e)" "sv_limiter s1 = sv_limiter s"
      "sv_Store s1 = sv_Store s"
  | (admitted) key tenant w1 s1 l p w2 s2 c2 fl where
      "c_key c = Some key" "c_tenant c = Some tenant"
      "acquire (k_ID key) (ef_MaxConcurrentPerKey (limitsFor (sv_Config s) (Some tenant))) (sv_limiter s) = (l, Some p)"
      "rest w1 (s1\<lparr>sv_limiter := l\<rparr>) (c\<lparr>c_slot := Some \<lparr> sl_adopted = False, sl_release = p \<rparr>\<rparr>) = (w2, s2, c2, fl)"
      "limitTenant ge rest w s c = (w2, releaseUnlessAdopted p c2 s2, c2, fl)"
proof (cases "c_key c = None \<or> c_tenant c = None")
  case True
  then show thesis using passed by (auto simp: limitTenant_def split: option.splits)
next
  case False
  then obtain key tenant where kt: "c_key c = Some key" "c_tenant c = Some tenant" by auto
  let ?lims = "limitsFor (sv_Config s) (Some tenant)"
  obtain w1 s1 r where a: "admit_rate ge ?lims (t_ID tenant) w s c = (w1, s1, r)" by (metis prod_cases3)
  have st: "sv_Store s1 = sv_Store s" using a by (auto simp: admit_rate_def Let_def split: if_splits prod.splits)
  obtain l q where q: "acquire (k_ID key) (ef_MaxConcurrentPerKey ?lims) (sv_limiter s) = (l, q)" by fastforce
  have l: "sv_limiter s1 = sv_limiter s" using admit_rate_limiter [OF a] .
  show thesis
  proof (cases "c_contentLength c > ef_MaxRequestBytes ?lims \<or> int (length (c_reqBody c)) > ef_MaxRequestBytes ?lims")
    case True
    then have "limitTenant ge rest w s c = (w, s, fail_with c (RequestTooLarge (ef_MaxRequestBytes ?lims)))"
      using kt by (auto simp: limitTenant_def Let_def)
    then show thesis by (rule refused) simp_all
  next
    case small: False
    show thesis
    proof (cases r)
      case (Some wait)
      then have "limitTenant ge rest w s c = (w1, s1, fail_with c (WithRetryAfter RateLimited wait))"
        using kt small a by (simp add: limitTenant_def Let_def)
      then show thesis using l st by (rule refused)
    next
      case None
      show thesis
      proof (cases q)
        case None
        then have "l = sv_limiter s" using q by (auto simp: acquire_def Let_def split: if_splits)
        moreover have "limitTenant ge rest w s c = (w1, s1\<lparr>sv_limiter := l\<rparr>,
            fail_with c (ConcurrencyExceeded (ef_MaxConcurrentPerKey ?lims)))"
          using kt small a q \<open>r = None\<close> None l by (simp add: limitTenant_def Let_def)
        ultimately show thesis using st by (auto intro: refused)
      next
        case (Some p)
        obtain w2 s2 c2 fl where
          h: "rest w1 (s1\<lparr>sv_limiter := l\<rparr>) (c\<lparr>c_slot := Some \<lparr> sl_adopted = False, sl_release = p \<rparr>\<rparr>) = (w2, s2, c2, fl)"
          by (metis prod_cases4)
        then have "limitTenant ge rest w s c = (w2, releaseUnlessAdopted p c2 s2, c2, fl)"
          using kt small a q \<open>r = None\<close> Some l by (simp add: limitTenant_def Let_def)
        then show thesis using admitted kt q Some h by blast
      qed
    qed
  qed
qed

lemma releaseUnlessAdopted_moves: "limiter_moves (sv_limiter s) (sv_limiter (releaseUnlessAdopted p c s))"
  using limiter_moves.rel [OF limiter_moves.refl] by (auto simp: releaseUnlessAdopted_def)

context served_handler
begin

lemma limit_keeps: "kept s c (limitTenant ge h w s c)"
proof (cases rule: limitTenant_cases [where c = c and ge = ge and rest = h and w = w and s = s])
  case passed
  then show ?thesis using keeps by simp
next
  case (refused w1 s1 e)
  then show ?thesis using kept_fail [of s s1 c w1 e] limiter_moves.refl by simp
next
  case (admitted key tenant w1 s1 l p w2 s2 c2 fl)
  let ?c = "c\<lparr>c_slot := Some \<lparr> sl_adopted = False, sl_release = p \<rparr>\<rparr>"
  have h: "kept (s1\<lparr>sv_limiter := l\<rparr>) ?c (w2, s2, c2, fl)" using keeps admitted(4) by metis
  have "kept s c (w2, s2, c2, fl)"
    by (rule kept_from [OF h]) (use acquire_moves [OF admitted(3)] in \<open>simp_all add: identified_def\<close>)
  then show ?thesis
    using admitted(5) limiter_moves_trans [OF releaseUnlessAdopted_moves [of s2 p c2]] by (auto simp: kept_def)
qed

lemma recover_keeps: "kept s c (recover h w s c)"
proof (cases "h w s c")
  case (fields w2 s2 c2 fl)
  then have "kept s c (w2, s2, c2, fl)" using keeps by metis
  then show ?thesis
    using fields by (cases fl) (auto simp: recover_def kept_def dest: identified_header intro: identified_Fail)
qed

end

lemma served_handlers:
  assumes "served_handler h"
  shows "served_handler (observe ge h)" "served_handler (refuseWhenDraining h)" "served_handler (limitBody h)"
    "served_handler (auth ge want h)" "served_handler (metricsAuth h)" "served_handler (auditMutations ge h)"
    "served_handler (captureDebug ge h)" "served_handler (limitTenant ge h)" "served_handler (recover h)"
  by (rule served_handler.intro,
      rule served_handler.observe_keeps served_handler.draining_keeps served_handler.body_keeps
        served_handler.auth_keeps served_handler.metrics_keeps served_handler.audit_keeps
        served_handler.capture_keeps served_handler.limit_keeps served_handler.recover_keeps, rule assms)+

interpretation healthz: served_handler handleHealthz
  by unfold_locales (auto simp: handleHealthz_def kept_def identified_def)

interpretation not_found: served_handler notFound
  by unfold_locales (auto simp: notFound_def intro: kept_fail)

lemma served_route_table:
  assumes "served_handler metricsH" "served_handler dataH" "served_handler adminH"
  shows "served_handler (route_table ge router metricsH dataH adminH)"
proof
  fix s c w
  note [simp] = served_handler.keeps [OF served_handlers(5) [OF assms(1)]]
    served_handler.keeps [OF served_handlers(4) [OF served_handlers(7) [OF served_handlers(8) [OF assms(2)]]]]
    served_handler.keeps [OF served_handlers(4) [OF served_handlers(6) [OF assms(3)]]]
    healthz.keeps not_found.keeps
  show "kept s c (route_table ge router metricsH dataH adminH w s c)"
    by (cases "router c") (simp_all add: route_table_def)
qed

end
