(* ===== verification/Calendar.thy ===== *)
theory Calendar
  imports Go_Prelude
begin

text \<open>
  The part of package \<open>time\<close> that the quota windows use, in UTC: the civil date of an instant and
  \<open>time.Date\<close> with its normalisation of an overflowing month. An instant is nanoseconds since
  the Unix epoch. The functions compute: the year is searched upward from a lower estimate.
\<close>

abbreviation Day_ns :: duration where
  "Day_ns \<equiv> 86400000000000"

definition leaps :: "int \<Rightarrow> int" where
  \<comment> \<open>leap years up to and including year \<open>y\<close>\<close>
  "leaps y = y div 4 - y div 100 + y div 400"

definition leap :: "int \<Rightarrow> bool" where
  "leap y \<longleftrightarrow> y mod 4 = 0 \<and> (y mod 100 \<noteq> 0 \<or> y mod 400 = 0)"

definition jan1 :: "int \<Rightarrow> int" where
  \<comment> \<open>the day number of January 1st, 0 being January 1st 1970\<close>
  "jan1 y = 365 * (y - 1970) + (leaps (y - 1) - leaps 1969)"

definition month_lengths :: "int \<Rightarrow> int list" where
  "month_lengths y = [31, if leap y then 29 else 28, 31, 30, 31, 30, 31, 31, 30, 31, 30, 31]"

lemma div_step:
  assumes "0 < (n :: int)"
  shows "y div n = (y - 1) div n + (if y mod n = 0 then 1 else 0)"
proof -
  define q r where "q = (y - 1) div n" and "r = (y - 1) mod n"
  have y: "y = n * q + (r + 1)" using mult_div_mod_eq [of n "y - 1"] by (simp add: q_def r_def)
  have r: "0 \<le> r" "r < n" using assms by (simp_all add: r_def)
  show ?thesis
  proof (cases "r + 1 = n")
    case True
    then have "y = n * (q + 1) + 0" using y by (simp add: distrib_left)
    then have "y div n = q + 1" "y mod n = 0"
      using assms int_div_pos_eq [of y n "q + 1" 0] int_mod_pos_eq [of y n "q + 1" 0] by simp_all
    then show ?thesis by (simp add: q_def)
  next
    case False
    then have "y div n = q" "y mod n = r + 1"
      using y r int_div_pos_eq [of y n q "r + 1"] int_mod_pos_eq [of y n q "r + 1"] by simp_all
    then show ?thesis using r by (simp add: q_def)
  qed
qed

lemma leaps_step: "leaps y = leaps (y - 1) + (if leap y then 1 else 0)"
proof -
  define p4 p100 p400 where "p4 = (y mod 4 = 0)" and "p100 = (y mod 100 = 0)" and "p400 = (y mod 400 = 0)"
  have "y mod 4 = y mod 100 mod 4" "y mod 100 = y mod 400 mod 100" by (simp_all add: mod_mod_cancel)
  then have imp: "p100 \<Longrightarrow> p4" "p400 \<Longrightarrow> p100" by (simp_all add: p4_def p100_def p400_def)
  have steps: "y div 4 = (y - 1) div 4 + (if p4 then 1 else 0)"
    "y div 100 = (y - 1) div 100 + (if p100 then 1 else 0)"
    "y div 400 = (y - 1) div 400 + (if p400 then 1 else 0)"
    unfolding p4_def p100_def p400_def by (rule div_step; simp)+
  have "leap y \<longleftrightarrow> p4 \<and> (\<not> p100 \<or> p400)" by (simp add: leap_def p4_def p100_def p400_def)
  moreover have "leaps y = leaps (y - 1) + (if p4 then 1 else 0) - (if p100 then 1 else 0) + (if p400 then 1 else 0)"
    unfolding leaps_def steps by linarith
  ultimately show ?thesis using imp by (cases p4; cases p100; cases p400) simp_all
qed

lemma jan1_step: "jan1 (y + 1) = jan1 y + sum_list (month_lengths y)"
  using leaps_step [of y] by (simp add: jan1_def month_lengths_def)

lemma jan1_less: "jan1 y < jan1 (y + 1)"
  by (simp add: jan1_step month_lengths_def)

lemma jan1_mono: "y \<le> z \<Longrightarrow> jan1 y \<le> jan1 z"
proof (induction z rule: int_ge_induct)
  case (step z)
  then show ?case using jan1_less [of z] by simp
qed simp

section \<open>The date of an instant\<close>

function year_up :: "int \<Rightarrow> int \<Rightarrow> int" where
  "year_up y d = (if d < jan1 (y + 1) then y else year_up (y + 1) d)"
  by pat_completeness auto
termination
proof (relation "measure (\<lambda>(y, d). nat (d + 1 - jan1 y))")
  fix y d assume "\<not> d < jan1 (y + 1)"
  with jan1_less [of y] show "((y + 1, d), (y, d)) \<in> measure (\<lambda>(y, d). nat (d + 1 - jan1 y))" by simp
qed simp

declare year_up.simps [simp del]

definition day_of :: "time \<Rightarrow> int" where
  "day_of t = t div Day_ns"

definition year_of :: "time \<Rightarrow> int" where
  "year_of t = (let d = day_of t in year_up (1970 + (if d \<ge> 0 then d div 366 else d div 365)) d)"

fun month_up :: "int \<Rightarrow> int list \<Rightarrow> int \<Rightarrow> int" where
  \<comment> \<open>the month, from \<open>m\<close> on, in which day \<open>r\<close> (from 0) of the remaining months falls\<close>
  "month_up m [] r = m"
| "month_up m (l # ls) r = (if r < l then m else month_up (m + 1) ls (r - l))"

definition month_of :: "time \<Rightarrow> int" where
  "month_of t = month_up 1 (month_lengths (year_of t)) (day_of t - jan1 (year_of t))"

definition month_start :: "int \<Rightarrow> int \<Rightarrow> int" where
  \<comment> \<open>the day number of the first of a month, for a month within its year\<close>
  "month_start y m = jan1 y + sum_list (take (nat (m - 1)) (month_lengths y))"

definition dom_of :: "time \<Rightarrow> int" where
  \<comment> \<open>the day of the month\<close>
  "dom_of t = day_of t - month_start (year_of t) (month_of t) + 1"

definition time_Date :: "int \<Rightarrow> int \<Rightarrow> int \<Rightarrow> time" where
  \<comment> \<open>\<open>time.Date(y, m, d, 0, 0, 0, 0, time.UTC)\<close>; a month outside 1 to 12 is normalised\<close>
  "time_Date y m d = (month_start (y + (m - 1) div 12) ((m - 1) mod 12 + 1) + (d - 1)) * Day_ns"

lemma year_up_correct: "jan1 y \<le> d \<Longrightarrow> jan1 (year_up y d) \<le> d \<and> d < jan1 (year_up y d + 1)"
proof (induction y d rule: year_up.induct)
  case (1 y d)
  then show ?case by (cases "d < jan1 (y + 1)") (simp_all add: year_up.simps [of y d])
qed

lemma jan1_bounds: "0 \<le> n \<Longrightarrow> jan1 (1970 + n) \<le> 366 * n" "0 \<le> n \<Longrightarrow> jan1 (1970 - n) \<le> - 365 * n"
proof -
  show "jan1 (1970 + n) \<le> 366 * n" if "0 \<le> n"
    using that
  proof (induction n rule: int_ge_induct)
    case (step n)
    have "jan1 ((1970 + n) + 1) \<le> jan1 (1970 + n) + 366"
      unfolding jan1_step by (simp add: month_lengths_def)
    with step show ?case by (simp add: ac_simps)
  qed (simp add: jan1_def)
  show "jan1 (1970 - n) \<le> - 365 * n" if "0 \<le> n"
    using that
  proof (induction n rule: int_ge_induct)
    case (step n)
    have "jan1 (1970 - (n + 1)) + 365 \<le> jan1 ((1970 - (n + 1)) + 1)"
      unfolding jan1_step by (simp add: month_lengths_def)
    with step show ?case by (simp add: algebra_simps)
  qed (simp add: jan1_def)
qed

lemma year_of_correct: "jan1 (year_of t) \<le> day_of t \<and> day_of t < jan1 (year_of t + 1)"
proof -
  let ?d = "day_of t"
  have "jan1 (1970 + (if ?d \<ge> 0 then ?d div 366 else ?d div 365)) \<le> ?d"
  proof (cases "?d \<ge> 0")
    case True
    then have "jan1 (1970 + ?d div 366) \<le> 366 * (?d div 366)"
      by (intro jan1_bounds) (simp add: pos_imp_zdiv_nonneg_iff)
    also have "\<dots> \<le> ?d" by linarith
    finally show ?thesis using True by simp
  next
    case False
    then have "jan1 (1970 - (- (?d div 365))) \<le> - 365 * (- (?d div 365))"
      by (intro jan1_bounds) linarith
    also have "\<dots> \<le> ?d" by linarith
    finally show ?thesis using False by simp
  qed
  then show ?thesis unfolding year_of_def Let_def by (rule year_up_correct)
qed

lemma year_unique: "jan1 y \<le> d \<Longrightarrow> d < jan1 (y + 1) \<Longrightarrow> jan1 z \<le> d \<Longrightarrow> d < jan1 (z + 1) \<Longrightarrow> y = z"
  using jan1_mono [of "y + 1" z] jan1_mono [of "z + 1" y] by (cases y z rule: linorder_cases) auto

definition month_len :: "int \<Rightarrow> int \<Rightarrow> int" where
  "month_len y m = month_lengths y ! nat (m - 1)"

definition AddDate :: "time \<Rightarrow> int \<Rightarrow> int \<Rightarrow> int \<Rightarrow> time" where
  \<comment> \<open>\<open>t.AddDate(years, months, days)\<close> in UTC: the date is shifted and normalised, the time of day stays\<close>
  "AddDate t years months days =
     time_Date (year_of t + years) (month_of t + months) (dom_of t + days) + t mod Day_ns"

lemma month_up_eq:
  assumes "k < length ls" "sum_list (take k ls) \<le> r" "r < sum_list (take (Suc k) ls)" "\<forall>l \<in> set ls. 0 < l"
  shows "month_up m ls r = m + int k"
  using assms
proof (induction ls arbitrary: m r k)
  case (Cons l ls)
  show ?case
  proof (cases k)
    case 0
    with Cons.prems show ?thesis by simp
  next
    case (Suc k')
    have "0 \<le> sum_list (take k' ls)" using Cons.prems(4)
      by (intro sum_list_nonneg) (auto dest!: in_set_takeD simp: order_less_imp_le)
    with Suc Cons.prems have "\<not> r < l" by simp
    moreover have "month_up (m + 1) ls (r - l) = (m + 1) + int k'"
      using Cons.prems Suc by (intro Cons.IH) auto
    ultimately show ?thesis using Suc by simp
  qed
qed simp

lemma month_up_in:
  assumes "0 \<le> r" "r < sum_list ls"
  shows "\<exists>k < length ls. month_up m ls r = m + int k \<and> sum_list (take k ls) \<le> r \<and> r < sum_list (take (Suc k) ls)"
  using assms
proof (induction ls arbitrary: m r)
  case (Cons l ls)
  show ?case
  proof (cases "r < l")
    case True
    with Cons.prems show ?thesis by (intro exI [of _ 0]) simp
  next
    case False
    with Cons.IH [of "r - l" "m + 1"] Cons.prems obtain k where
      "k < length ls" "month_up (m + 1) ls (r - l) = m + 1 + int k"
      "sum_list (take k ls) \<le> r - l" "r - l < sum_list (take (Suc k) ls)" by auto
    with False show ?thesis by (intro exI [of _ "Suc k"]) simp
  qed
qed simp

lemma month_lengths_pos: "\<forall>l \<in> set (month_lengths y). 0 < l" and month_lengths_12: "length (month_lengths y) = 12"
  by (auto simp: month_lengths_def)

definition in_month :: "int \<Rightarrow> int \<Rightarrow> int \<Rightarrow> bool" where
  "in_month y m d \<longleftrightarrow> 1 \<le> m \<and> m \<le> 12 \<and> month_start y m \<le> d \<and> d < month_start y m + month_len y m"

lemma month_sum:
  assumes "k < 12"
  shows "sum_list (take (Suc k) (month_lengths y)) = sum_list (take k (month_lengths y)) + month_lengths y ! k"
  using assms by (simp add: take_Suc_conv_app_nth month_lengths_12)

lemma in_month_iff:
  assumes "k < 12"
  shows "in_month y (1 + int k) d \<longleftrightarrow>
    sum_list (take k (month_lengths y)) \<le> d - jan1 y \<and> d - jan1 y < sum_list (take (Suc k) (month_lengths y))"
  using assms month_sum [OF assms, of y] by (auto simp: in_month_def month_start_def month_len_def)

lemma in_month_of: "in_month (year_of t) (month_of t) (day_of t)"
proof -
  let ?y = "year_of t" and ?r = "day_of t - jan1 (year_of t)"
  have "0 \<le> ?r" "?r < sum_list (month_lengths ?y)" using year_of_correct [of t] jan1_step [of ?y] by auto
  from month_up_in [OF this, of 1] obtain k where k: "k < 12" "month_of t = 1 + int k"
      "sum_list (take k (month_lengths ?y)) \<le> ?r" "?r < sum_list (take (Suc k) (month_lengths ?y))"
    by (auto simp: month_of_def month_lengths_12)
  then show ?thesis using in_month_iff [OF k(1), of ?y "day_of t"] by simp
qed

lemma prefix_sum_bounds:
  assumes "k < 12"
  shows "0 \<le> sum_list (take k (month_lengths y))" "sum_list (take (Suc k) (month_lengths y)) \<le> sum_list (month_lengths y)"
proof -
  have nonneg: "0 \<le> sum_list xs" if "set xs \<subseteq> set (month_lengths y)" for xs :: "int list"
    using that month_lengths_pos [of y] by (intro sum_list_nonneg) force
  show "0 \<le> sum_list (take k (month_lengths y))" by (rule nonneg) (rule set_take_subset)
  have "sum_list (month_lengths y) = sum_list (take (Suc k) (month_lengths y)) + sum_list (drop (Suc k) (month_lengths y))"
    by (metis append_take_drop_id sum_list_append)
  moreover have "0 \<le> sum_list (drop (Suc k) (month_lengths y))" by (rule nonneg) (rule set_drop_subset)
  ultimately show "sum_list (take (Suc k) (month_lengths y)) \<le> sum_list (month_lengths y)" by linarith
qed

lemma in_month_unique:
  assumes "in_month y m (day_of t)"
  shows "year_of t = y" "month_of t = m"
proof -
  define k where "k = nat (m - 1)"
  have k: "k < 12" "m = 1 + int k" using assms by (auto simp: in_month_def k_def)
  have r: "sum_list (take k (month_lengths y)) \<le> day_of t - jan1 y"
      "day_of t - jan1 y < sum_list (take (Suc k) (month_lengths y))"
    using assms in_month_iff [OF k(1)] k(2) by auto
  show y: "year_of t = y"
    using r prefix_sum_bounds [OF k(1), of y] year_of_correct [of t] jan1_step [of y]
    by (intro year_unique [of _ "day_of t"]) auto
  show "month_of t = m"
    using month_up_eq [OF _ r month_lengths_pos, of 1] k y by (simp add: month_of_def month_lengths_12)
qed

lemma day_of_Date: "day_of (n * Day_ns) = n"
  by (simp add: day_of_def)

lemma month_len_pos: "1 \<le> m \<Longrightarrow> m \<le> 12 \<Longrightarrow> 0 < month_len y m"
  using month_lengths_pos [of y] month_lengths_12 [of y] by (auto simp: month_len_def intro!: bspec [OF _ nth_mem])

lemma time_Date_in:
  assumes "1 \<le> m" "m \<le> 12"
  shows "time_Date y m d = (month_start y m + (d - 1)) * Day_ns"
  using assms by (simp add: time_Date_def div_pos_pos_trivial mod_pos_pos_trivial)

lemma time_Date_next:
  assumes "1 \<le> m" "m \<le> 12"
  shows "time_Date y (m + 1) 1 = (month_start y m + month_len y m) * Day_ns"
proof (cases "m = 12")
  case True
  have "month_start (y + 1) 1 = jan1 y + sum_list (month_lengths y)" by (simp add: month_start_def jan1_step)
  also have "\<dots> = month_start y 12 + month_len y 12"
    by (simp add: month_start_def month_len_def month_lengths_def eval_nat_numeral)
  finally show ?thesis using True by (simp add: time_Date_def)
next
  case False
  define k where "k = nat (m - 1)"
  have "k < 12" "nat m = Suc k" using assms False by (auto simp: k_def)
  then have "month_start y (m + 1) = month_start y m + month_len y m"
    using month_sum [of k y] by (simp add: month_start_def month_len_def k_def)
  then show ?thesis using assms False time_Date_in [of "m + 1" y 1] by simp
qed

lemma date_of_Date:
  assumes "1 \<le> m" "m \<le> 12" "1 \<le> d" "d \<le> month_len y m"
  shows "year_of (time_Date y m d) = y" "month_of (time_Date y m d) = m" "dom_of (time_Date y m d) = d"
    and "time_Date y m d mod Day_ns = 0"
proof -
  have day: "day_of (time_Date y m d) = month_start y m + (d - 1)"
    unfolding time_Date_in [OF assms(1,2)] by (rule day_of_Date)
  then have "in_month y m (day_of (time_Date y m d))" using assms by (simp add: in_month_def)
  from in_month_unique [OF this] show ym: "year_of (time_Date y m d) = y" "month_of (time_Date y m d) = m" .
  show "dom_of (time_Date y m d) = d" using day ym by (simp add: dom_of_def)
  show "time_Date y m d mod Day_ns = 0" using assms by (simp add: time_Date_in)
qed

lemma Date_of_day: "time_Date (year_of t) (month_of t) (dom_of t) = day_of t * Day_ns"
  using in_month_of [of t] by (simp add: in_month_def time_Date_in dom_of_def)

lemma dom_of_bounds: "1 \<le> dom_of t" "dom_of t \<le> month_len (year_of t) (month_of t)"
  using in_month_of [of t] by (auto simp: in_month_def dom_of_def)

lemma day_bounds: "day_of t * Day_ns \<le> t" "t < (day_of t + 1) * Day_ns"
  using div_mult_mod_eq [of t Day_ns] pos_mod_sign [of Day_ns t] pos_mod_bound [of Day_ns t]
  by (simp_all add: day_of_def distrib_right)

lemma day_of_between: "n * Day_ns \<le> t \<Longrightarrow> t < (n + 1) * Day_ns \<Longrightarrow> day_of t = n"
  using int_div_pos_eq [of t Day_ns n "t - n * Day_ns"] by (simp add: day_of_def algebra_simps)

lemma day_of_mono_bounds: "a * Day_ns \<le> t \<Longrightarrow> t < b * Day_ns \<Longrightarrow> a \<le> day_of t \<and> day_of t < b"
  using day_bounds [of t] by simp

section \<open>Rendering\<close>

definition pad :: "nat \<Rightarrow> int \<Rightarrow> string" where
  "pad n x = replicate (n - length (Itoa x)) (CHR ''0'') @ Itoa x"

definition RFC3339 :: "time \<Rightarrow> string" where
  \<comment> \<open>\<open>t.UTC().Format(time.RFC3339)\<close> for a year of four digits\<close>
  "RFC3339 t =
     (let r = t mod Day_ns in
      pad 4 (year_of t) @ ''-'' @ pad 2 (month_of t) @ ''-'' @ pad 2 (dom_of t) @ ''T'' @
      pad 2 (r div Hour) @ '':'' @ pad 2 (r mod Hour div Minute) @ '':'' @ pad 2 (r mod Minute div Second) @ ''Z'')"

end
