(* ===== verification/Quota_Control.thy ===== *)
theory Quota_Control
  imports Observability Calendar Http_Context Memory_Store Gateway_Config
begin

text \<open>
  Quotas: \<open>gateway/internal/server/quota.go\<close>. The store is seen through the three reads the code makes;
  \<open>memory_quota_reads\<close> is the in-memory store behind them. The clock is the argument \<open>now\<close>, read as often as
  the code reads it. Locks only order concurrent callers, so \<open>get\<close> and \<open>shouldAnnounce\<close> are single steps.
  An event handed to \<open>Events.Emit\<close> is appended to the list the evaluation returns, with its data as
  named arguments; \<open>resets_at\<close> is kept as an instant. \<open>Events\<close> may be nil. What an evaluation
  sets the gauge to is \<open>quota_gauges\<close> of its slots; \<open>computeQuota\<close> does not return it.
\<close>

section \<open>Windows and positions\<close>

definition quotaCacheTTL :: duration where
  "quotaCacheTTL = 5 * Second"

definition unitTokens :: string where "unitTokens = ''tokens''"
definition unitCost :: string where "unitCost = ''cost''"
definition unitRequests :: string where "unitRequests = ''requests''"
definition windowDay :: string where "windowDay = ''day''"
definition windowMonth :: string where "windowMonth = ''month''"

definition QuotaOK :: string where "QuotaOK = ''ok''"
definition QuotaSoftExceeded :: string where "QuotaSoftExceeded = ''soft-exceeded''"
definition QuotaHardExceeded :: string where "QuotaHardExceeded = ''hard-exceeded''"

lemmas quota_names = unitTokens_def unitCost_def unitRequests_def windowDay_def windowMonth_def
  QuotaOK_def QuotaSoftExceeded_def QuotaHardExceeded_def

record quotaScope =
  qs_tenantID :: string
  qs_keyID :: string
  qs_keyPrefix :: string

definition cacheKey :: "quotaScope \<Rightarrow> string" where
  "cacheKey q = qs_tenantID q @ CHR 0x00 # qs_keyID q"

definition requestScope :: "fctx \<Rightarrow> quotaScope" where
  "requestScope c =
     (let scope = \<lparr> qs_tenantID = TenantID c, qs_keyID = [], qs_keyPrefix = [] \<rparr>
      in case c_key c of
           Some k \<Rightarrow> scope\<lparr>qs_keyID := k_ID k, qs_keyPrefix := k_Prefix k\<rparr>
         | None \<Rightarrow> scope)"

record slotPosition =
  sp_window :: string
  sp_unit :: string
  sp_state :: string
  sp_used :: rat
  sp_cap :: rat
  sp_softPct :: int
  sp_since :: time
  sp_resetsAt :: time
  sp_keyLevel :: bool

definition limited :: "slotPosition \<Rightarrow> bool" where
  "limited p \<longleftrightarrow> sp_cap p > 0"

definition position :: "rat \<Rightarrow> rat \<Rightarrow> int \<Rightarrow> string" where
  "position used limit softPct =
     (if limit \<le> 0 then QuotaOK
      else if used \<ge> limit then QuotaHardExceeded
      else if used \<ge> limit * of_int softPct / 100 then QuotaSoftExceeded
      else QuotaOK)"

definition quotaGauge :: "string \<Rightarrow> int" where
  "quotaGauge state =
     (if state = QuotaSoftExceeded then 1 else if state = QuotaHardExceeded then 2 else 0)"

definition worse :: "string \<Rightarrow> string \<Rightarrow> string" where
  "worse a b = (if quotaGauge a \<ge> quotaGauge b then a else b)"

definition periodWindow :: "string \<Rightarrow> time \<Rightarrow> time \<times> time" where
  "periodWindow period now =
     (if period = windowMonth
      then let since = time_Date (year_of now) (month_of now) 1 in (since, AddDate since 0 1 0)
      else let since = time_Date (year_of now) (month_of now) (dom_of now) in (since, AddDate since 0 0 1))"

record windowTotals =
  wt_day :: UsageTotals
  wt_month :: UsageTotals

definition add_slot :: "Config \<Rightarrow> time \<Rightarrow> bool \<Rightarrow> string \<Rightarrow> string \<Rightarrow> QuotaLimit option \<Rightarrow> rat \<Rightarrow> slotPosition list" where
  "add_slot cfg now keyLevel window unit limit used =
     (case limit of
        None \<Rightarrow> []
      | Some l \<Rightarrow>
          let (since, resets) = periodWindow window now;
              soft = (if ql_SoftThresholdPct l < 1 \<or> ql_SoftThresholdPct l > 100
                      then qc_DefaultSoftThresholdPct (cfg_Quotas cfg) else ql_SoftThresholdPct l)
          in [\<lparr> sp_window = window, sp_unit = unit, sp_state = position used (ql_Cap l) soft, sp_used = used,
                sp_cap = ql_Cap l, sp_softPct = soft, sp_since = since, sp_resetsAt = resets,
                sp_keyLevel = keyLevel \<rparr>])"

definition positions :: "Config \<Rightarrow> Quota \<Rightarrow> windowTotals \<Rightarrow> time \<Rightarrow> bool \<Rightarrow> slotPosition list" where
  "positions cfg q totals now keyLevel =
     (let add = add_slot cfg now keyLevel; d = wt_day totals; m = wt_month totals in
      add windowDay unitTokens (qw_Tokens (q_Day q)) (of_int (ut_TotalTokens d)) @
      add windowDay unitCost (qw_Cost (q_Day q)) (ut_CostUSD d) @
      add windowDay unitRequests (qw_Requests (q_Day q)) (of_int (ut_Requests d)) @
      add windowMonth unitTokens (qw_Tokens (q_Month q)) (of_int (ut_TotalTokens m)) @
      add windowMonth unitCost (qw_Cost (q_Month q)) (ut_CostUSD m) @
      add windowMonth unitRequests (qw_Requests (q_Month q)) (of_int (ut_Requests m)))"

section \<open>Reading the store\<close>

record quota_reads =
  qr_GetQuota :: "string \<Rightarrow> string \<Rightarrow> goerr + Quota"
  qr_Usage :: "string \<Rightarrow> time \<Rightarrow> time \<Rightarrow> goerr + UsageTotals"
  qr_KeyUsage :: "string \<Rightarrow> string \<Rightarrow> time \<Rightarrow> time \<Rightarrow> goerr + UsageTotals"

definition loadQuota :: "quota_reads \<Rightarrow> string \<Rightarrow> string \<Rightarrow> goerr + Quota option" where
  "loadQuota st tenantID keyID =
     (case qr_GetQuota st tenantID keyID of
        Inl err \<Rightarrow> if errors_Is err ErrNotFound then Inr None else Inl err
      | Inr q \<Rightarrow> if Quota_Empty q then Inr None else Inr (Some q))"

definition any_limit :: "QuotaWindow \<Rightarrow> bool" where
  "any_limit w \<longleftrightarrow> qw_Tokens w \<noteq> None \<or> qw_Cost w \<noteq> None \<or> qw_Requests w \<noteq> None"

definition read_window :: "quota_reads \<Rightarrow> string \<Rightarrow> string \<Rightarrow> time \<Rightarrow> string \<Rightarrow> goerr + UsageTotals" where
  "read_window st tenantID keyPrefix now window =
     (let (since, until) = periodWindow window now in
      if keyPrefix = [] then qr_Usage st tenantID since until
      else qr_KeyUsage st tenantID keyPrefix since until)"

definition usageFor :: "quota_reads \<Rightarrow> string \<Rightarrow> string \<Rightarrow> time \<Rightarrow> Quota \<Rightarrow> goerr + windowTotals" where
  "usageFor st tenantID keyPrefix now q =
     (let rd = read_window st tenantID keyPrefix now in
      case (if any_limit (q_Day q) then rd windowDay else Inr zero_totals) of
        Inl err \<Rightarrow> Inl err
      | Inr day \<Rightarrow>
          (case (if any_limit (q_Month q) then rd windowMonth else Inr zero_totals) of
             Inl err \<Rightarrow> Inl err
           | Inr month \<Rightarrow> Inr \<lparr> wt_day = day, wt_month = month \<rparr>))"

definition level_slots :: "Config \<Rightarrow> quota_reads \<Rightarrow> time \<Rightarrow> string \<Rightarrow> string \<Rightarrow> string \<Rightarrow> bool \<Rightarrow> goerr + slotPosition list" where
  \<comment> \<open>one of the two levels: load the quota, aggregate its usage, place its slots\<close>
  "level_slots cfg st now tenantID keyID keyPrefix keyLevel =
     (case loadQuota st tenantID keyID of
        Inl err \<Rightarrow> Inl err
      | Inr None \<Rightarrow> Inr []
      | Inr (Some q) \<Rightarrow>
          (case usageFor st tenantID keyPrefix now q of
             Inl err \<Rightarrow> Inl err
           | Inr totals \<Rightarrow> Inr (positions cfg q totals now keyLevel)))"

definition quotaSlots :: "Config \<Rightarrow> quota_reads \<Rightarrow> time \<Rightarrow> quotaScope \<Rightarrow> goerr + slotPosition list" where
  "quotaSlots cfg st now scope =
     (case level_slots cfg st now (qs_tenantID scope) [] [] False of
        Inl err \<Rightarrow> Inl err
      | Inr slots \<Rightarrow>
          if qs_keyID scope = [] then Inr slots
          else (case level_slots cfg st now (qs_tenantID scope) (qs_keyID scope) (qs_keyPrefix scope) True of
                  Inl err \<Rightarrow> Inl err
                | Inr keySlots \<Rightarrow> Inr (slots @ keySlots)))"

section \<open>The cache and its memory of announcements\<close>

record quotaEntry =
  qe_state :: string
  qe_binding :: slotPosition
  qe_expires :: time

record announcement =
  an_since :: time
  an_state :: string

record quotaCache =
  qc_entries :: "(string, quotaEntry) gomap"
  qc_announced :: "(string, announcement) gomap"
  qc_ttl :: duration

definition newQuotaCache :: "duration \<Rightarrow> quotaCache" where
  "newQuotaCache ttl = \<lparr> qc_entries = [], qc_announced = [], qc_ttl = (if ttl \<le> 0 then quotaCacheTTL else ttl) \<rparr>"

definition invalidate :: "string \<Rightarrow> quotaCache \<Rightarrow> quotaCache" where
  "invalidate tenantID q =
     q\<lparr>qc_entries := filter (\<lambda>kv. \<not> HasPrefix (fst kv) (tenantID @ [CHR 0x00])) (qc_entries q)\<rparr>"

definition announce_key :: "string \<Rightarrow> slotPosition \<Rightarrow> string" where
  "announce_key scopeKey p = scopeKey @ CHR 0x00 # sp_window p @ CHR 0x00 # sp_unit p"

definition shouldAnnounce :: "string \<Rightarrow> slotPosition \<Rightarrow> quotaCache \<Rightarrow> quotaCache \<times> bool" where
  "shouldAnnounce scopeKey p q =
     (if quotaGauge (sp_state p) = 0 then (q, False)
      else
        let key = announce_key scopeKey p in
        if (case map_of (qc_announced q) key of
              Some prev \<Rightarrow> an_since prev = sp_since p \<and> quotaGauge (sp_state p) \<le> quotaGauge (an_state prev)
            | None \<Rightarrow> False)
        then (q, False)
        else (q\<lparr>qc_announced := AList.update key \<lparr> an_since = sp_since p, an_state = sp_state p \<rparr> (qc_announced q)\<rparr>, True))"

definition no_slot :: slotPosition where
  \<comment> \<open>the zero \<open>slotPosition\<close>\<close>
  "no_slot = \<lparr> sp_window = [], sp_unit = [], sp_state = [], sp_used = 0, sp_cap = 0, sp_softPct = 0,
     sp_since = zero_time, sp_resetsAt = zero_time, sp_keyLevel = False \<rparr>"

fun bind_slots :: "string \<times> slotPosition \<Rightarrow> slotPosition list \<Rightarrow> string \<times> slotPosition" where
  \<comment> \<open>the loop that finds the entry's state and binding slot\<close>
  "bind_slots (state, binding) [] = (state, binding)"
| "bind_slots (state, binding) (p # ps) =
     (if quotaGauge (sp_state p) > quotaGauge state then bind_slots (sp_state p, p) ps
      else if sp_state p = state \<and> quotaGauge (sp_state p) > 0 \<and> sp_resetsAt p > sp_resetsAt binding
      then bind_slots (state, p) ps
      else bind_slots (state, binding) ps)"

type_synonym emission = "string \<times> string \<times> (string \<times> farg) list" \<comment> \<open>tenant, event type, data\<close>

definition emitQuotaCrossing :: "Config \<Rightarrow> quotaScope \<Rightarrow> slotPosition \<Rightarrow> emission" where
  "emitQuotaCrossing cfg scope p =
     (qs_tenantID scope,
      if sp_state p = QuotaHardExceeded then ''quota.hard_cap_reached'' else ''quota.threshold_crossed'',
      [(''window'', FStr (sp_window p)), (''unit'', FStr (sp_unit p)), (''state'', FStr (sp_state p)),
       (''used'', FFloat (sp_used p)), (''cap'', FFloat (sp_cap p)), (''soft_threshold_pct'', FInt (sp_softPct p)),
       (''resets_at'', FInt (sp_resetsAt p)), (''scope'', FStr (if sp_keyLevel p then ''key'' else ''tenant'')),
       (''enforcement'', FStr (qc_Enforcement (cfg_Quotas cfg)))]
      @ (if sp_keyLevel p then [(''key_prefix'', FStr (qs_keyPrefix scope))] else []))"

fun announce_slots :: "Config \<Rightarrow> quotaScope \<Rightarrow> quotaCache \<Rightarrow> slotPosition list \<Rightarrow> quotaCache \<times> emission list" where
  "announce_slots cfg scope q [] = (q, [])"
| "announce_slots cfg scope q (p # ps) =
     (let (q1, yes) = shouldAnnounce (cacheKey scope) p q;
          (q2, es) = announce_slots cfg scope q1 ps
      in (q2, if yes then emitQuotaCrossing cfg scope p # es else es))"

definition quota_gauges :: "quotaScope \<Rightarrow> slotPosition list \<Rightarrow> metric_event list" where
  \<comment> \<open>what an evaluation writes to the gauge, one series per slot\<close>
  "quota_gauges scope slots = map (\<lambda>p. (''quota_state'', [qs_tenantID scope, sp_window p, sp_unit p], of_int (quotaGauge (sp_state p)))) slots"

definition computeQuota ::
  "Config \<Rightarrow> quota_reads \<Rightarrow> ('w \<Rightarrow> 'w \<times> time) \<Rightarrow> 'w \<Rightarrow> quotaScope \<Rightarrow> quotaCache
    \<Rightarrow> 'w \<times> quotaCache \<times> emission list \<times> (goerr + quotaEntry)" where
  "computeQuota cfg st now w scope q =
     (let (w1, t) = now w in
      case quotaSlots cfg st t scope of
        Inl err \<Rightarrow> (w1, q, [], Inl err)
      | Inr slots \<Rightarrow>
          let (state, binding) = bind_slots (QuotaOK, no_slot) slots;
              (q1, es) = announce_slots cfg scope q slots
          in (w1, q1, es, Inr \<lparr> qe_state = state, qe_binding = binding, qe_expires = zero_time \<rparr>))"

definition fresh_entry :: "quotaCache \<Rightarrow> string \<Rightarrow> time \<Rightarrow> quotaEntry option" where
  "fresh_entry q key t =
     (case map_of (qc_entries q) key of
        Some e \<Rightarrow> if t < qe_expires e then Some e else None
      | None \<Rightarrow> None)"

definition quota_get ::
  "Config \<Rightarrow> quota_reads \<Rightarrow> ('w \<Rightarrow> 'w \<times> time) \<Rightarrow> 'w \<Rightarrow> quotaScope \<Rightarrow> quotaCache
    \<Rightarrow> 'w \<times> quotaCache \<times> emission list \<times> (goerr + quotaEntry)" where
  "quota_get cfg st now w scope q =
     (let key = cacheKey scope; (w1, t1) = now w in
      case fresh_entry q key t1 of
        Some e \<Rightarrow> (w1, q, [], Inr e)
      | None \<Rightarrow>
          let (w2, t2) = now w1 in
          (case fresh_entry q key t2 of
             Some e \<Rightarrow> (w2, q, [], Inr e)
           | None \<Rightarrow>
               (case computeQuota cfg st now w2 scope q of
                  (w3, q1, es, Inl err) \<Rightarrow> (w3, q1, es, Inl err)
                | (w3, q1, es, Inr entry) \<Rightarrow>
                    let (w4, t4) = now w3; entry1 = entry\<lparr>qe_expires := t4 + qc_ttl q1\<rparr>
                    in (w4, q1\<lparr>qc_entries := AList.update key entry1 (qc_entries q1)\<rparr>, es, Inr entry1))))"

record quotaVerdict =
  qv_State :: string
  qv_Reject :: "apiError option"

definition verdict_of :: "Config \<Rightarrow> time \<Rightarrow> quotaEntry \<Rightarrow> quotaVerdict" where
  \<comment> \<open>\<open>t\<close> is the clock \<open>time.Until\<close> reads\<close>
  "verdict_of cfg t entry =
     (if qe_state entry \<noteq> QuotaHardExceeded \<or> qc_Enforcement (cfg_Quotas cfg) \<noteq> ''on''
      then \<lparr> qv_State = qe_state entry, qv_Reject = None \<rparr>
      else \<lparr> qv_State = qe_state entry,
             qv_Reject = Some (WithRetryAfter
               (if sp_unit (qe_binding entry) = unitCost then BudgetExceeded else QuotaExceeded)
               (sp_resetsAt (qe_binding entry) - t)) \<rparr>)"

definition evaluateQuota ::
  "Config \<Rightarrow> quota_reads \<Rightarrow> ('w \<Rightarrow> 'w \<times> time) \<Rightarrow> 'w \<Rightarrow> quotaScope \<Rightarrow> quotaCache
    \<Rightarrow> 'w \<times> quotaCache \<times> emission list \<times> quotaVerdict" where
  "evaluateQuota cfg st now w scope q =
     (if qs_tenantID scope = [] then (w, q, [], \<lparr> qv_State = QuotaOK, qv_Reject = None \<rparr>)
      else case quota_get cfg st now w scope q of
             (w1, q1, es, Inl err) \<Rightarrow> (w1, q1, es, \<lparr> qv_State = QuotaOK, qv_Reject = None \<rparr>)
           | (w1, q1, es, Inr entry) \<Rightarrow>
               let (w2, t) = now w1 in (w2, q1, es, verdict_of cfg t entry))"

record usage_reads =
  \<comment> \<open>the usage half of a store, which may be a service of its own\<close>
  ur_Usage :: "string \<Rightarrow> time \<Rightarrow> time \<Rightarrow> goerr + UsageTotals"
  ur_KeyUsage :: "string \<Rightarrow> string \<Rightarrow> time \<Rightarrow> time \<Rightarrow> goerr + UsageTotals"
  ur_UsageBreakdown :: "string \<Rightarrow> time \<Rightarrow> time \<Rightarrow> string \<Rightarrow> goerr + UsageBucket list"

definition memory_usage :: "Memory \<Rightarrow> usage_reads" where
  "memory_usage m =
     \<lparr> ur_Usage = (\<lambda>tenantID since until. Inr (Usage tenantID since until m)),
       ur_KeyUsage = (\<lambda>tenantID keyPrefix since until. Inr (KeyUsage tenantID keyPrefix since until m)),
       ur_UsageBreakdown = (\<lambda>tenantID since until groupBy. UsageBreakdown tenantID since until groupBy m) \<rparr>"

definition store_quota_reads :: "usage_reads \<Rightarrow> Memory \<Rightarrow> quota_reads" where
  \<comment> \<open>quotas from memory, usage from where it is kept\<close>
  "store_quota_reads u m =
     \<lparr> qr_GetQuota = (\<lambda>tenantID keyID. GetQuota tenantID keyID m), qr_Usage = ur_Usage u, qr_KeyUsage = ur_KeyUsage u \<rparr>"

definition memory_quota_reads :: "Memory \<Rightarrow> quota_reads" where
  "memory_quota_reads m =
     \<lparr> qr_GetQuota = (\<lambda>tenantID keyID. GetQuota tenantID keyID m),
       qr_Usage = (\<lambda>tenantID since until. Inr (Usage tenantID since until m)),
       qr_KeyUsage = (\<lambda>tenantID keyPrefix since until. Inr (KeyUsage tenantID keyPrefix since until m)) \<rparr>"

lemma memory_store_reads: "store_quota_reads (memory_usage m) m = memory_quota_reads m"
  by (simp add: store_quota_reads_def memory_usage_def memory_quota_reads_def)

section \<open>The gauge\<close>

lemma quota_gauges_ok: "list_all metric_ok (quota_gauges scope slots)"
  by (simp add: quota_gauges_def metric_ok_def NewMetrics_def list_all_iff)

section \<open>The windows tile time\<close>

lemma month_window:
  "periodWindow windowMonth t =
     (month_start (year_of t) (month_of t) * Day_ns,
      (month_start (year_of t) (month_of t) + month_len (year_of t) (month_of t)) * Day_ns)"
proof -
  have m: "1 \<le> month_of t" "month_of t \<le> 12" using in_month_of [of t] by (auto simp: in_month_def)
  define since where "since = time_Date (year_of t) (month_of t) 1"
  have "year_of since = year_of t" "month_of since = month_of t" "dom_of since = 1" "since mod Day_ns = 0"
    using date_of_Date [OF m, of 1 "year_of t"] month_len_pos [OF m, of "year_of t"] by (auto simp: since_def)
  then have "AddDate since 0 1 0 = time_Date (year_of t) (month_of t + 1) 1" by (simp add: AddDate_def)
  then show ?thesis
    using time_Date_next [OF m, of "year_of t"] time_Date_in [OF m, of "year_of t" 1]
    by (simp add: periodWindow_def Let_def since_def [symmetric])
qed

lemma AddDate_day:
  assumes "t mod Day_ns = 0"
  shows "AddDate t 0 0 1 = t + Day_ns"
proof -
  have "time_Date (year_of t) (month_of t) (dom_of t + 1) = time_Date (year_of t) (month_of t) (dom_of t) + Day_ns"
    by (simp add: time_Date_def algebra_simps)
  then show ?thesis
    using assms Date_of_day [of t] div_mult_mod_eq [of t Day_ns] by (simp add: AddDate_def day_of_def)
qed

lemma day_window:
  assumes "w \<noteq> windowMonth"
  shows "periodWindow w t = (day_of t * Day_ns, (day_of t + 1) * Day_ns)"
  using assms AddDate_day [of "day_of t * Day_ns"]
  by (simp add: periodWindow_def Let_def Date_of_day algebra_simps)

text \<open>The windows a quota is measured over tile time: every instant lies in its own half-open window,
  and every instant of that window has the same window, so no request is counted in two periods or in
  none, and two evaluations disagree about the period only if one lies past the other's end.\<close>

theorem period_windows_tile:
  assumes "periodWindow w t = (since, resets)"
  shows "since \<le> t \<and> t < resets \<and> (\<forall>u. since \<le> u \<and> u < resets \<longrightarrow> periodWindow w u = (since, resets))"
proof (cases "w = windowMonth")
  case True
  let ?y = "year_of t" and ?m = "month_of t"
  have win: "since = month_start ?y ?m * Day_ns" "resets = (month_start ?y ?m + month_len ?y ?m) * Day_ns"
    using assms True month_window [of t] by auto
  have inm: "in_month ?y ?m (day_of t)" by (rule in_month_of)
  have "since \<le> day_of t * Day_ns" "(day_of t + 1) * Day_ns \<le> resets"
    unfolding win using inm by (auto simp: in_month_def)
  with day_bounds [of t] have "since \<le> t" "t < resets" by linarith+
  moreover have "periodWindow w u = (since, resets)" if "since \<le> u" "u < resets" for u
  proof -
    have "month_start ?y ?m \<le> day_of u \<and> day_of u < month_start ?y ?m + month_len ?y ?m"
      using that unfolding win by (rule day_of_mono_bounds)
    then have "in_month ?y ?m (day_of u)" using inm by (simp add: in_month_def)
    then have "year_of u = ?y" "month_of u = ?m" by (rule in_month_unique)+
    then show ?thesis using True month_window [of u] win by simp
  qed
  ultimately show ?thesis by blast
next
  case False
  have win: "since = day_of t * Day_ns" "resets = (day_of t + 1) * Day_ns"
    using assms day_window [OF False, of t] by auto
  moreover have "periodWindow w u = (since, resets)" if "since \<le> u" "u < resets" for u
    using that day_of_between [of "day_of t" u] day_window [OF False, of u] win by simp
  ultimately show ?thesis using day_bounds [of t] by simp
qed

theorem period_windows_tile_witness:
  "periodWindow windowMonth 1709210096000000000 = (1709251200000000000 - 29 * Day_ns, 1709251200000000000) \<and>
   periodWindow windowMonth (1709251200000000000 - 1) = (1709251200000000000 - 29 * Day_ns, 1709251200000000000)"
proof -
  have w: "periodWindow windowMonth 1709210096000000000 = (1709251200000000000 - 29 * Day_ns, 1709251200000000000)"
    by code_simp
  with period_windows_tile [OF w] show ?thesis by simp
qed

section \<open>The verdict\<close>

lemma gauge_range: "quotaGauge s \<in> {0, 1, 2}"
  by (simp add: quotaGauge_def)

lemma gauge_nonneg [simp]: "0 \<le> quotaGauge s" "\<not> quotaGauge s < 0"
  by (simp_all add: quotaGauge_def)

lemma gauge_state: "quotaGauge s = quotaGauge s' \<Longrightarrow> 0 < quotaGauge s \<Longrightarrow> s = s'"
  by (auto simp: quotaGauge_def split: if_splits)

definition binds :: "slotPosition list \<Rightarrow> string \<times> slotPosition \<Rightarrow> bool" where
  \<comment> \<open>the worst state of the slots, and the slot in that state that holds the caller longest\<close>
  "binds ps sb \<longleftrightarrow>
     (\<forall>p \<in> set ps. quotaGauge (sp_state p) \<le> quotaGauge (fst sb)) \<and>
     (if quotaGauge (fst sb) = 0 then fst sb = QuotaOK
      else snd sb \<in> set ps \<and> sp_state (snd sb) = fst sb \<and>
           (\<forall>p \<in> set ps. sp_state p = fst sb \<longrightarrow> sp_resetsAt p \<le> sp_resetsAt (snd sb)))"

lemma bind_slots_binds:
  "binds qs (state, binding) \<Longrightarrow> binds (qs @ ps) (bind_slots (state, binding) ps)"
proof (induction ps arbitrary: qs state binding)
  case (Cons p ps)
  let ?g = "quotaGauge (sp_state p)"
  have "binds (qs @ [p])
    (if ?g > quotaGauge state then (sp_state p, p)
     else if sp_state p = state \<and> ?g > 0 \<and> sp_resetsAt p > sp_resetsAt binding then (state, p) else (state, binding))"
    using Cons.prems gauge_range [of state] gauge_range [of "sp_state p"] gauge_state [of "sp_state p" state]
    by (auto simp: binds_def split: if_splits)
  from Cons.IH [of "qs @ [p]" "fst (if ?g > quotaGauge state then (sp_state p, p)
      else if sp_state p = state \<and> ?g > 0 \<and> sp_resetsAt p > sp_resetsAt binding then (state, p) else (state, binding))"
      "snd (if ?g > quotaGauge state then (sp_state p, p)
      else if sp_state p = state \<and> ?g > 0 \<and> sp_resetsAt p > sp_resetsAt binding then (state, p) else (state, binding))"]
    this show ?case by (auto split: if_splits)
qed simp

lemma binds_start: "binds [] (QuotaOK, no_slot)"
  by (simp add: binds_def quotaGauge_def quota_names)

lemma bind_slots_ok: "binds ps (bind_slots (QuotaOK, no_slot) ps)"
  using bind_slots_binds [OF binds_start, of ps] by simp


definition judged :: "Config \<Rightarrow> time \<Rightarrow> slotPosition list \<Rightarrow> quotaVerdict \<Rightarrow> bool" where
  "judged cfg t slots v \<longleftrightarrow>
     (\<forall>p \<in> set slots. quotaGauge (sp_state p) \<le> quotaGauge (qv_State v)) \<and>
     (qv_State v = QuotaOK \<or> qv_State v \<in> sp_state ` set slots) \<and>
     (case qv_Reject v of
        None \<Rightarrow> qc_Enforcement (cfg_Quotas cfg) \<noteq> ''on'' \<or> (\<forall>p \<in> set slots. sp_state p \<noteq> QuotaHardExceeded)
      | Some e \<Rightarrow> qc_Enforcement (cfg_Quotas cfg) = ''on'' \<and> e_Status e = 429 \<and>
          (\<exists>b \<in> set slots. sp_state b = QuotaHardExceeded \<and>
             e_Code e = (if sp_unit b = unitCost then ''budget_exceeded'' else ''quota_exceeded'')) \<and>
          (\<forall>p \<in> set slots. sp_state p = QuotaHardExceeded \<longrightarrow>
             sp_resetsAt p \<le> t + e_RetryAfterSeconds e * Second))"

lemma hard_gauge: "quotaGauge s = 2 \<longleftrightarrow> s = QuotaHardExceeded"
  by (simp add: quotaGauge_def quota_names)

lemma verdict_judged:
  assumes "binds slots (state, binding)"
  shows "judged cfg t slots (verdict_of cfg t \<lparr> qe_state = state, qe_binding = binding, qe_expires = x \<rparr>)"
proof (cases "state = QuotaHardExceeded")
  case True
  let ?wait = "sp_resetsAt binding - t"
  have b: "binding \<in> set slots" "sp_state binding = QuotaHardExceeded"
    "\<forall>p \<in> set slots. sp_state p = QuotaHardExceeded \<longrightarrow> sp_resetsAt p \<le> sp_resetsAt binding"
    using assms True hard_gauge [of state] by (auto simp: binds_def)
  have covers: "?wait \<le> e_RetryAfterSeconds (WithRetryAfter e ?wait) * Second" for e
    using ceil_seconds_bounds [of ?wait] by (auto simp: WithRetryAfter_def Let_def)
  have wait: "\<forall>p \<in> set slots. sp_state p = QuotaHardExceeded \<longrightarrow>
      sp_resetsAt p \<le> t + e_RetryAfterSeconds (WithRetryAfter e ?wait) * Second" for e
  proof (intro ballI impI)
    fix p assume "p \<in> set slots" "sp_state p = QuotaHardExceeded"
    with b(3) have "sp_resetsAt p \<le> sp_resetsAt binding" by blast
    with covers [of e] show "sp_resetsAt p \<le> t + e_RetryAfterSeconds (WithRetryAfter e ?wait) * Second" by linarith
  qed
  have codes: "e_Status BudgetExceeded = 429" "e_Code BudgetExceeded = ''budget_exceeded''"
    "e_Status QuotaExceeded = 429" "e_Code QuotaExceeded = ''quota_exceeded''"
    by (simp_all add: BudgetExceeded_def QuotaExceeded_def newErr_def)
  have all: "\<forall>p \<in> set slots. quotaGauge (sp_state p) \<le> quotaGauge QuotaHardExceeded"
    using assms True by (simp add: binds_def)
  have member: "QuotaHardExceeded \<in> sp_state ` set slots" using b(1,2) by (metis imageI)
  show ?thesis
  proof (cases "qc_Enforcement (cfg_Quotas cfg) = ''on''")
    case on: True
    define e where "e = WithRetryAfter (if sp_unit binding = unitCost then BudgetExceeded else QuotaExceeded) ?wait"
    have "e_Status e = 429" "e_Code e = (if sp_unit binding = unitCost then ''budget_exceeded'' else ''quota_exceeded'')"
      using codes by (simp_all add: e_def)
    moreover have "verdict_of cfg t \<lparr> qe_state = state, qe_binding = binding, qe_expires = x \<rparr> =
        \<lparr> qv_State = QuotaHardExceeded, qv_Reject = Some e \<rparr>"
      using True on by (simp add: verdict_of_def e_def)
    ultimately show ?thesis
      unfolding judged_def using all member b on wait [of "if sp_unit binding = unitCost then BudgetExceeded else QuotaExceeded"]
      by (auto simp: e_def [symmetric])
  next
    case False
    with True all member show ?thesis by (simp add: judged_def verdict_of_def)
  qed
next
  case False
  then have "quotaGauge state \<noteq> 2" by (simp add: hard_gauge)
  then have "quotaGauge state < 2" using gauge_range [of state] by auto
  have none: "\<forall>p \<in> set slots. sp_state p \<noteq> QuotaHardExceeded"
  proof
    fix p assume "p \<in> set slots"
    then have "quotaGauge (sp_state p) \<le> quotaGauge state" using assms by (simp add: binds_def)
    with \<open>quotaGauge state < 2\<close> hard_gauge [of "sp_state p"] show "sp_state p \<noteq> QuotaHardExceeded" by auto
  qed
  have "state = QuotaOK \<or> state \<in> sp_state ` set slots"
    using assms by (auto simp: binds_def split: if_splits)
  with none False assms show ?thesis by (simp add: judged_def verdict_of_def binds_def)
qed



lemma memory_slots: "\<exists>slots. quotaSlots cfg (memory_quota_reads m) t scope = Inr slots"
proof -
  have level: "\<exists>slots. level_slots cfg (memory_quota_reads m) t tid kid kp b = Inr slots" for tid kid kp b
    by (auto simp: level_slots_def loadQuota_def memory_quota_reads_def GetQuota_def usageFor_def read_window_def
        Let_def ErrNotFound_def split: option.splits sum.splits prod.splits)
  obtain s1 where "level_slots cfg (memory_quota_reads m) t (qs_tenantID scope) [] [] False = Inr s1"
    using level by blast
  moreover obtain s2 where
    "level_slots cfg (memory_quota_reads m) t (qs_tenantID scope) (qs_keyID scope) (qs_keyPrefix scope) True = Inr s2"
    using level by blast
  ultimately show ?thesis by (simp add: quotaSlots_def)
qed

definition example_quota_store :: Memory where
  "example_quota_store = (NewMemory False)\<lparr>
     m_quotas := [(quotaKey ''t'' [], \<lparr> q_TenantID = ''t'', q_KeyID = [],
       q_Day = \<lparr> qw_Tokens = None, qw_Cost = None, qw_Requests = None \<rparr>,
       q_Month = \<lparr> qw_Tokens = None, qw_Cost = Some \<lparr> ql_Cap = 2, ql_SoftThresholdPct = 50 \<rparr>, qw_Requests = None \<rparr>,
       q_UpdatedAt = 0 \<rparr>)],
     m_usage := [(''t'', [\<lparr> u_RequestID = ''r'', u_ClientRequestID = [], u_TenantID = ''t'', u_KeyPrefix = ''cg-1'',
       u_Provider = ''p'', u_Model = ''m'', u_RequestedModel = ''m'', u_FallbackDepth = 0, u_PromptTokens = 10,
       u_CompletionToken = 10, u_TotalTokens = 20, u_CostUSD = 3, u_ChargeUSD = 3, u_BillingMode = ''passthrough'',
       u_Cached = False, u_Streamed = False, u_StatusCode = 200, u_DurationMS = 5, u_RecordedAt = 1000 \<rparr>])]\<rparr>"

definition example_scope :: quotaScope where
  "example_scope = \<lparr> qs_tenantID = ''t'', qs_keyID = ''key_1'', qs_keyPrefix = ''cg-1'' \<rparr>"

definition example_slot :: slotPosition where
  "example_slot = \<lparr> sp_window = windowMonth, sp_unit = unitCost, sp_state = QuotaHardExceeded, sp_used = 3, sp_cap = 2,
     sp_softPct = 50, sp_since = 0, sp_resetsAt = 2678400000000000, sp_keyLevel = False \<rparr>"

lemma example_slots:
  "quotaSlots Default (memory_quota_reads example_quota_store) 2000 example_scope = Inr [example_slot]"
proof -
  have w: "periodWindow windowMonth 2000 = (0, 2678400000000000)" by code_simp
  have u: "ut_CostUSD (Usage ''t'' 0 2678400000000000 example_quota_store) = 3"
    by (simp add: Usage_def example_quota_store_def at_nil_def inWindow_def addUsage_def zero_totals_def NewMemory_def)
  have q: "GetQuota ''t'' [] example_quota_store = Inr (snd (hd (m_quotas example_quota_store)))"
    and m: "q_Day (snd (hd (m_quotas example_quota_store))) = \<lparr> qw_Tokens = None, qw_Cost = None, qw_Requests = None \<rparr>"
      "q_Month (snd (hd (m_quotas example_quota_store))) =
        \<lparr> qw_Tokens = None, qw_Cost = Some \<lparr> ql_Cap = 2, ql_SoftThresholdPct = 50 \<rparr>, qw_Requests = None \<rparr>"
    by (simp_all add: GetQuota_def example_quota_store_def)
  have "level_slots Default (memory_quota_reads example_quota_store) 2000 ''t'' [] [] False = Inr [example_slot]"
    by (simp add: level_slots_def loadQuota_def memory_quota_reads_def q m Quota_Empty_def usageFor_def any_limit_def
        read_window_def positions_def add_slot_def w u Let_def position_def example_slot_def)
  moreover have "GetQuota ''t'' ''key_1'' example_quota_store = Inl ErrNotFound"
    by (simp add: GetQuota_def example_quota_store_def quotaKey_def)
  then have "level_slots Default (memory_quota_reads example_quota_store) 2000 ''t'' ''key_1'' ''cg-1'' True = Inr []"
    by (simp add: level_slots_def loadQuota_def memory_quota_reads_def ErrNotFound_def)
  ultimately show ?thesis by (simp add: quotaSlots_def example_scope_def)
qed


fun announced :: "string \<Rightarrow> quotaCache \<Rightarrow> slotPosition list \<Rightarrow> slotPosition list" where
  \<comment> \<open>the positions announced in a sequence of evaluations of one scope\<close>
  "announced k q [] = []"
| "announced k q (p # ps) =
     (case shouldAnnounce k p q of (q', yes) \<Rightarrow> (if yes then [p] else []) @ announced k q' ps)"

definition told :: "quotaCache \<Rightarrow> string \<Rightarrow> time \<Rightarrow> int" where
  \<comment> \<open>the level already announced under a key for the window that starts at \<open>s\<close>\<close>
  "told q key s = (case map_of (qc_announced q) key of
      Some a \<Rightarrow> if an_since a = s then quotaGauge (an_state a) else 0 | None \<Rightarrow> 0)"

lemma shouldAnnounce_told:
  assumes "shouldAnnounce k p q = (q', yes)"
  shows "yes \<longleftrightarrow> told q (announce_key k p) (sp_since p) < quotaGauge (sp_state p)"
    and "told q' (announce_key k p) (sp_since p) = max (told q (announce_key k p) (sp_since p)) (quotaGauge (sp_state p))"
  using assms gauge_range [of "sp_state p"]
  by (auto simp: shouldAnnounce_def Let_def told_def split: option.splits if_splits)

lemma announced_rises:
  assumes "\<forall>p \<in> set ps. announce_key k p = key \<and> sp_since p = s"
  shows "sorted_wrt (<) (map (\<lambda>p. quotaGauge (sp_state p)) (announced k q ps)) \<and>
    (\<forall>a \<in> set (announced k q ps). told q key s < quotaGauge (sp_state a)) \<and>
    (\<forall>p \<in> set ps. quotaGauge (sp_state p) \<le> told q key s \<or>
       (\<exists>a \<in> set (announced k q ps). quotaGauge (sp_state p) \<le> quotaGauge (sp_state a)))"
  using assms
proof (induction ps arbitrary: q)
  case (Cons p ps)
  obtain q' yes where sa: "shouldAnnounce k p q = (q', yes)" by (metis surj_pair)
  have key: "announce_key k p = key" "sp_since p = s" using Cons.prems by auto
  note told = shouldAnnounce_told [OF sa, unfolded key]
  have IH: "sorted_wrt (<) (map (\<lambda>p. quotaGauge (sp_state p)) (announced k q' ps))"
    "\<forall>a \<in> set (announced k q' ps). told q' key s < quotaGauge (sp_state a)"
    "\<forall>p \<in> set ps. quotaGauge (sp_state p) \<le> told q' key s \<or>
       (\<exists>a \<in> set (announced k q' ps). quotaGauge (sp_state p) \<le> quotaGauge (sp_state a))"
    using Cons.IH [of q'] Cons.prems by auto
  show ?case
  proof (cases yes)
    case True
    then show ?thesis using IH told sa by (fastforce simp: max_def)
  next
    case False
    then show ?thesis using IH told sa by (fastforce simp: max_def)
  qed
qed simp


lemma strictly_rising_short:
  assumes "sorted_wrt (<) (map f xs)" "\<forall>x \<in> set xs. f x \<in> {1, 2 :: int}"
  shows "length xs \<le> 2"
proof -
  have "distinct (map f xs)" using assms(1) by (simp add: strict_sorted_iff)
  then have "length xs = card (f ` set xs)" by (metis distinct_card length_map set_map)
  also have "\<dots> \<le> card {1, 2 :: int}" using assms(2) by (intro card_mono) auto
  finally show ?thesis by simp
qed

lemma announce_key_inject: "announce_key k p = announce_key k' p \<longleftrightarrow> k = k'"
  by (simp add: announce_key_def)

text \<open>Crossings are announced, not repeated: over any sequence of evaluations of one scope within one
  window, the announced states of a slot strictly rise, so there are at most two events, and every
  crossing is covered by an event at least as severe (or was announced before). The memory is kept per
  scope, though, and a tenant's own slots are evaluated in the scope of each of its keys: a crossing
  announced under one key is announced again under another.\<close>

theorem crossings_announced:
  assumes "\<forall>p \<in> set ps. sp_window p = win \<and> sp_unit p = un \<and> sp_since p = s"
  shows "sorted_wrt (<) (map (\<lambda>p. quotaGauge (sp_state p)) (announced k q ps)) \<and>
    length (announced k q ps) \<le> 2 \<and>
    (\<forall>p \<in> set ps. quotaGauge (sp_state p) \<le> told q (k @ CHR 0x00 # win @ CHR 0x00 # un) s \<or>
       (\<exists>a \<in> set (announced k q ps). quotaGauge (sp_state p) \<le> quotaGauge (sp_state a))) \<and>
    (\<forall>p k'. k' \<noteq> k \<and> 0 < quotaGauge (sp_state p) \<and> map_of (qc_announced q) (announce_key k' p) = None \<longrightarrow>
       snd (shouldAnnounce k' p (fst (shouldAnnounce k p q))))"
proof -
  let ?key = "k @ CHR 0x00 # win @ CHR 0x00 # un"
  have same: "\<forall>p \<in> set ps. announce_key k p = ?key \<and> sp_since p = s" using assms by (simp add: announce_key_def)
  note rises = announced_rises [OF same, of q]
  have told0: "0 \<le> told q ?key s" by (simp add: told_def split: option.splits)
  have "length (announced k q ps) \<le> 2"
  proof (rule strictly_rising_short)
    show "sorted_wrt (<) (map (\<lambda>p. quotaGauge (sp_state p)) (announced k q ps))" using rises by blast
    show "\<forall>p \<in> set (announced k q ps). quotaGauge (sp_state p) \<in> {1, 2}"
    proof
      fix p assume "p \<in> set (announced k q ps)"
      with rises told0 have "0 < quotaGauge (sp_state p)" by fastforce
      with gauge_range [of "sp_state p"] show "quotaGauge (sp_state p) \<in> {1, 2}" by auto
    qed
  qed
  moreover have "snd (shouldAnnounce k' p (fst (shouldAnnounce k p q)))"
    if "k' \<noteq> k" "0 < quotaGauge (sp_state p)" "map_of (qc_announced q) (announce_key k' p) = None" for p k'
  proof -
    have "announce_key k p \<noteq> announce_key k' p" using that(1) by (simp add: announce_key_inject)
    then have "map_of (qc_announced (fst (shouldAnnounce k p q))) (announce_key k' p) = None"
      using that(3) by (simp add: shouldAnnounce_def Let_def)
    then show ?thesis using that(2) by (simp add: shouldAnnounce_def Let_def)
  qed
  ultimately show ?thesis using rises by blast
qed

theorem crossings_announced_witness:
  "length (announced (cacheKey example_scope) (newQuotaCache 0) [example_slot, example_slot, example_slot]) \<le> 2 \<and>
   snd (shouldAnnounce (cacheKey (example_scope\<lparr>qs_keyID := ''key_2''\<rparr>)) example_slot
     (fst (shouldAnnounce (cacheKey example_scope) example_slot (newQuotaCache 0))))"
proof -
  have "\<forall>p \<in> set [example_slot, example_slot, example_slot].
      sp_window p = windowMonth \<and> sp_unit p = unitCost \<and> sp_since p = 0" by (simp add: example_slot_def)
  note run = crossings_announced [OF this, of "cacheKey example_scope" "newQuotaCache 0"]
  have "cacheKey (example_scope\<lparr>qs_keyID := ''key_2''\<rparr>) \<noteq> cacheKey example_scope"
    by (simp add: cacheKey_def example_scope_def)
  moreover have "0 < quotaGauge (sp_state example_slot)" by (simp add: example_slot_def quotaGauge_def quota_names)
  ultimately show ?thesis using run by (simp add: newQuotaCache_def)
qed

section \<open>Invalidation\<close>

lemma HasPrefix_iff: "HasPrefix s p \<longleftrightarrow> (\<exists>r. s = p @ r)"
  by (metis HasPrefix_append HasPrefix_def append_take_drop_id)

lemma scope_prefix:
  assumes "CHR 0x00 \<notin> set (qs_tenantID s)" "CHR 0x00 \<notin> set tid"
  shows "HasPrefix (cacheKey s) (tid @ [CHR 0x00]) \<longleftrightarrow> qs_tenantID s = tid"
  using append_sep_inject [OF assms] by (auto simp: HasPrefix_iff cacheKey_def)

text \<open>An admin change takes effect on the next request: after \<open>invalidate\<close> no position of the tenant
  is served from the cache, whichever of its keys asks, while another tenant's positions stay as they were and
  no announcement is forgotten. (Tenant ids, which the store mints, contain no NUL.)\<close>

theorem invalidate_exact:
  assumes "CHR 0x00 \<notin> set tid" "CHR 0x00 \<notin> set (qs_tenantID scope)" "distinct (map fst (qc_entries q))"
  shows "fresh_entry (invalidate tid q) (cacheKey scope) t =
      (if qs_tenantID scope = tid then None else fresh_entry q (cacheKey scope) t) \<and>
    qc_announced (invalidate tid q) = qc_announced q"
proof -
  have "map_of (qc_entries (invalidate tid q)) (cacheKey scope) =
      (case map_of (qc_entries q) (cacheKey scope) of None \<Rightarrow> None
       | Some v \<Rightarrow> if \<not> HasPrefix (cacheKey scope) (tid @ [CHR 0x00]) then Some v else None)"
    unfolding invalidate_def
    using map_of_filter_value [OF assms(3), of "\<lambda>k v. \<not> HasPrefix k (tid @ [CHR 0x00])" "cacheKey scope"] by simp
  then show ?thesis
    using scope_prefix [OF assms(2,1)] by (auto simp: fresh_entry_def invalidate_def split: option.splits)
qed

theorem invalidate_exact_witness:
  "fresh_entry (invalidate ''t'' ((newQuotaCache 0)\<lparr>qc_entries :=
      [(cacheKey example_scope, \<lparr> qe_state = QuotaOK, qe_binding = no_slot, qe_expires = 9 \<rparr>)]\<rparr>))
     (cacheKey example_scope) 1 = None"
proof -
  have "CHR 0x00 \<notin> set ''t''" "CHR 0x00 \<notin> set (qs_tenantID example_scope)" by (simp_all add: example_scope_def)
  from invalidate_exact [OF this] show ?thesis by (simp add: example_scope_def)
qed

end
