(* ===== verification/Response_Cache.thy ===== *)
theory Response_Cache
  imports Gateway_Config
begin

text \<open>
  The response cache, \<open>gateway/internal/cache/cache.go\<close>, and its policy,
  \<open>gateway/internal/server/cache.go\<close> with the determinism test of \<open>server/chat.go\<close>.

  The code keeps a doubly linked list of elements, a map from keys to elements and a set of keys per tenant.
  An element is a number here, never reused, so the map and the list refer to the same element as
  pointers do; \<open>rc_order\<close> is the list, front first. The abstract cache is a list of items, most
  recently used first, and the refinement at the end relates every method to it. SHA-256 and
  \<open>encoding/json\<close> on the request body are arguments.
\<close>

section \<open>The cache\<close>

record CacheEntry =
  ce_Body :: string
  ce_Provider :: string
  ce_Model :: string

definition CacheEntry_ServedBy :: "CacheEntry \<Rightarrow> string" where
  "CacheEntry_ServedBy e = ce_Provider e @ ''/'' @ ce_Model e"

record item =
  it_key :: string
  it_tenant :: string
  it_entry :: CacheEntry
  it_expires :: time
  it_size :: int

record Cache =
  rc_items :: "(string, nat) gomap"
  rc_order :: "(nat \<times> item) list"
  rc_byTenant :: "(string, (string, bool) gomap) gomap"
  rc_bytes :: int
  rc_maxBytes :: int
  rc_maxEntryBytes :: int
  rc_next :: nat

definition NewCache :: "int \<Rightarrow> int \<Rightarrow> Cache" where
  "NewCache maxBytes maxEntryBytes = \<lparr> rc_items = [], rc_order = [], rc_byTenant = [], rc_bytes = 0,
     rc_maxBytes = maxBytes, rc_maxEntryBytes = maxEntryBytes, rc_next = 0 \<rparr>"

definition drop_tenant_key :: "string \<Rightarrow> string \<Rightarrow> (string, (string, bool) gomap) gomap \<Rightarrow> (string, (string, bool) gomap) gomap" where
  "drop_tenant_key tenant key bt =
     (case map_of bt tenant of
        None \<Rightarrow> bt
      | Some keys \<Rightarrow>
          let keys' = AList.delete key keys
          in if keys' = [] then AList.delete tenant bt else AList.update tenant keys' bt)"

definition removeElement :: "nat \<Rightarrow> item \<Rightarrow> Cache \<Rightarrow> Cache" where
  \<comment> \<open>the element and its value\<close>
  "removeElement el it c =
     c\<lparr>rc_order := filter (\<lambda>x. fst x \<noteq> el) (rc_order c),
       rc_items := AList.delete (it_key it) (rc_items c),
       rc_byTenant := drop_tenant_key (it_tenant it) (it_key it) (rc_byTenant c),
       rc_bytes := rc_bytes c - it_size it\<rparr>"

definition value_of :: "Cache \<Rightarrow> nat \<Rightarrow> item" where
  \<comment> \<open>\<open>el.Value\<close>\<close>
  "value_of c el = (case map_of (rc_order c) el of Some it \<Rightarrow> it | None \<Rightarrow>
     \<lparr> it_key = [], it_tenant = [], it_entry = \<lparr> ce_Body = [], ce_Provider = [], ce_Model = [] \<rparr>,
       it_expires = 0, it_size = 0 \<rparr>)"

definition Cache_Get :: "time \<Rightarrow> string \<Rightarrow> Cache \<Rightarrow> Cache \<times> CacheEntry option" where
  "Cache_Get now key c =
     (case map_of (rc_items c) key of
        None \<Rightarrow> (c, None)
      | Some el \<Rightarrow>
          let it = value_of c el in
          if \<not> now < it_expires it then (removeElement el it c, None)
          else (c\<lparr>rc_order := (el, it) # filter (\<lambda>x. fst x \<noteq> el) (rc_order c)\<rparr>, Some (it_entry it)))"

function evict :: "Cache \<Rightarrow> Cache" where
  "evict c =
     (if rc_bytes c > rc_maxBytes c \<and> rc_order c \<noteq> []
      then evict (removeElement (fst (last (rc_order c))) (snd (last (rc_order c))) c)
      else c)"
  by pat_completeness auto
termination
proof (relation "measure (\<lambda>c. length (rc_order c))")
  fix c :: Cache
  assume "rc_maxBytes c < rc_bytes c \<and> rc_order c \<noteq> []"
  then have "last (rc_order c) \<in> set (rc_order c)" by simp
  then have "length (filter (\<lambda>x. fst x \<noteq> fst (last (rc_order c))) (rc_order c)) < length (rc_order c)"
    by (rule length_filter_less) simp
  then show "(removeElement (fst (last (rc_order c))) (snd (last (rc_order c))) c, c)
      \<in> measure (\<lambda>c. length (rc_order c))"
    by (simp add: removeElement_def)
qed simp

declare evict.simps [simp del]

definition entry_size :: "string \<Rightarrow> CacheEntry \<Rightarrow> int" where
  "entry_size key e = int (length (ce_Body e) + length (ce_Provider e) + length (ce_Model e) + length key)"

definition push_item :: "item \<Rightarrow> Cache \<Rightarrow> Cache" where
  \<comment> \<open>\<open>PushFront\<close> and the index updates\<close>
  "push_item it c =
     (let keys = (case map_of (rc_byTenant c) (it_tenant it) of None \<Rightarrow> [] | Some ks \<Rightarrow> ks)
      in c\<lparr>rc_items := AList.update (it_key it) (rc_next c) (rc_items c),
           rc_order := (rc_next c, it) # rc_order c,
           rc_byTenant := AList.update (it_tenant it) (AList.update (it_key it) True keys) (rc_byTenant c),
           rc_bytes := rc_bytes c + it_size it,
           rc_next := rc_next c + 1\<rparr>)"

definition Cache_Put :: "time \<Rightarrow> string \<Rightarrow> string \<Rightarrow> CacheEntry \<Rightarrow> duration \<Rightarrow> Cache \<Rightarrow> Cache" where
  "Cache_Put now tenant key e ttl c =
     (if ttl \<le> 0 then c
      else if entry_size key e > rc_maxEntryBytes c then c
      else
        let c1 = (case map_of (rc_items c) key of
                    Some el \<Rightarrow> removeElement el (value_of c el) c
                  | None \<Rightarrow> c);
            it = \<lparr> it_key = key, it_tenant = tenant, it_entry = e, it_expires = now + ttl,
                   it_size = entry_size key e \<rparr>
        in evict (push_item it c1))"

fun flush_keys :: "string list \<Rightarrow> Cache \<Rightarrow> Cache \<times> nat" where
  "flush_keys [] c = (c, 0)"
| "flush_keys (key # keys) c =
     (case map_of (rc_items c) key of
        Some el \<Rightarrow> (let (c', n) = flush_keys keys (removeElement el (value_of c el) c) in (c', n + 1))
      | None \<Rightarrow> flush_keys keys c)"

definition Cache_Flush :: "string \<Rightarrow> Cache \<Rightarrow> Cache \<times> nat" where
  "Cache_Flush tenant c =
     flush_keys (case map_of (rc_byTenant c) tenant of None \<Rightarrow> [] | Some ks \<Rightarrow> map fst ks) c"

definition Cache_Stats :: "Cache \<Rightarrow> nat \<times> int" where
  "Cache_Stats c = (length (rc_items c), rc_bytes c)"

section \<open>Keys\<close>

definition volatileFields :: "string list" where
  "volatileFields = [''user'', ''metadata'', ''stream_options'']"

record cache_codec =
  cc_decode :: "string \<Rightarrow> goerr + (string, string) gomap option"
  cc_encode :: "(string, string) gomap option \<Rightarrow> goerr + string"

definition canonicalize :: "cache_codec \<Rightarrow> string \<Rightarrow> goerr + string" where
  "canonicalize cc body =
     (case cc_decode cc body of
        Inl err \<Rightarrow> Inl err
      | Inr doc \<Rightarrow> cc_encode cc (map_option (fold AList.delete volatileFields) doc))"

definition Cache_Key ::
  "(string \<Rightarrow> string) \<Rightarrow> cache_codec \<Rightarrow> string \<Rightarrow> string \<Rightarrow> string \<Rightarrow> goerr + string" where
  "Cache_Key sha256hex cc tenantID servedBy body =
     (case canonicalize cc body of
        Inl err \<Rightarrow> Inl err
      | Inr canonical \<Rightarrow> Inr (sha256hex (tenantID @ [CHR 0x00] @ servedBy @ [CHR 0x00] @ canonical)))"

section \<open>Policy\<close>

definition newResponseCache :: "CacheConfig \<Rightarrow> Cache option" where
  "newResponseCache c = (if \<not> cf_Enabled c then None else Some (NewCache (cf_MaxBytes c) (cf_MaxEntryBytes c)))"

datatype sampled_value = Absent | NotNumber | Number rat
  \<comment> \<open>what \<open>sampled\<close> reads: absent or null, present but not a number (NaN), or a number\<close>

definition sampled_is :: "sampled_value \<Rightarrow> rat \<Rightarrow> bool" where
  "sampled_is v x = (case v of Number y \<Rightarrow> y = x | _ \<Rightarrow> False)"

record chatEnvelope =
  env_Model :: string
  env_Stream :: bool
  env_Temperature :: sampled_value
  env_TopP :: sampled_value
  env_N :: sampled_value

definition deterministic :: "chatEnvelope \<Rightarrow> bool" where
  "deterministic e =
     (if env_Temperature e \<noteq> Absent then sampled_is (env_Temperature e) 0
      else (env_TopP e = Absent \<or> sampled_is (env_TopP e) 1) \<and> (env_N e = Absent \<or> sampled_is (env_N e) 1))"

record cachePlan =
  pl_lookup :: bool
  pl_header :: string
  pl_ttl :: duration

definition silent_plan :: cachePlan where
  "silent_plan = \<lparr> pl_lookup = False, pl_header = [], pl_ttl = 0 \<rparr>"

definition cacheTTL :: "CacheConfig \<Rightarrow> Tenant option \<Rightarrow> duration" where
  "cacheTTL cfg t =
     (let ttl = (case t of
                   Some x \<Rightarrow> if tc_TTLSeconds (t_Cache x) > 0 then wrap64 (tc_TTLSeconds (t_Cache x) * Second)
                             else cf_DefaultTTL cfg
                 | None \<Rightarrow> cf_DefaultTTL cfg)
      in if ttl > cf_MaxTTL cfg then cf_MaxTTL cfg else ttl)"

definition planCache :: "CacheConfig \<Rightarrow> Cache option \<Rightarrow> Tenant option \<Rightarrow> string \<Rightarrow> chatEnvelope \<Rightarrow> cachePlan" where
  \<comment> \<open>\<open>hdr\<close> is the request's \<open>X-CogniGate-Cache\<close>\<close>
  "planCache cfg cache tenant hdr env =
     (if \<not> cf_Enabled cfg \<or> cache = None then silent_plan
      else
        let h = ToLower (TrimSpace hdr) in
        if h = ''bypass'' then silent_plan\<lparr>pl_header := ''bypass''\<rparr>
        else if h \<noteq> ''prefer'' \<and> (case tenant of None \<Rightarrow> True | Some t \<Rightarrow> \<not> tc_Enabled (t_Cache t)) then silent_plan
        else if env_Stream env \<or> \<not> deterministic env then silent_plan\<lparr>pl_header := ''bypass''\<rparr>
        else \<lparr> pl_lookup = True, pl_header = [], pl_ttl = cacheTTL cfg tenant \<rparr>)"

definition validateTenantCache :: "CacheConfig \<Rightarrow> TenantCache \<Rightarrow> apiError option" where
  "validateTenantCache cfg p =
     (if tc_TTLSeconds p < 0
      then Some (WithParam (InvalidRequest (''cache.ttl_seconds must not be negative.'', [])) ''cache.ttl_seconds'')
      else if wrap64 (tc_TTLSeconds p * Second) > cf_MaxTTL cfg
      then Some (WithParam (InvalidRequest
             (''cache.ttl_seconds is %d, above the deployment ceiling of %d.'',
              [FInt (tc_TTLSeconds p), FInt (whole_seconds (cf_MaxTTL cfg))])) ''cache.ttl_seconds'')
      else None)"

section \<open>The abstract cache\<close>

text \<open>The promise of the component: a list of items, most recently used first, with at most one item per key.\<close>

definition spec_get :: "time \<Rightarrow> string \<Rightarrow> item list \<Rightarrow> item list \<times> CacheEntry option" where
  "spec_get now key xs =
     (case find (\<lambda>x. it_key x = key) xs of
        None \<Rightarrow> (xs, None)
      | Some it \<Rightarrow>
          (let rest = filter (\<lambda>x. it_key x \<noteq> key) xs
           in if now < it_expires it then (it # rest, Some (it_entry it)) else (rest, None)))"

function fit :: "int \<Rightarrow> item list \<Rightarrow> item list" where
  \<comment> \<open>drop the least recently used until the rest fits\<close>
  "fit m xs = (if xs \<noteq> [] \<and> sum_list (map it_size xs) > m then fit m (butlast xs) else xs)"
  by pat_completeness auto
termination by (relation "measure (\<lambda>(m, xs). length xs)") auto

declare fit.simps [simp del]

definition spec_put :: "int \<Rightarrow> item \<Rightarrow> item list \<Rightarrow> item list" where
  "spec_put m it xs = fit m (it # filter (\<lambda>x. it_key x \<noteq> it_key it) xs)"

definition spec_flush :: "string \<Rightarrow> item list \<Rightarrow> item list" where
  "spec_flush tenant xs = filter (\<lambda>x. it_tenant x \<noteq> tenant) xs"

definition cached :: "Cache \<Rightarrow> item list" where
  "cached c = map snd (rc_order c)"

definition tenant_keys :: "Cache \<Rightarrow> string \<Rightarrow> string set" where
  "tenant_keys c t = (case map_of (rc_byTenant c) t of None \<Rightarrow> {} | Some ks \<Rightarrow> set (map fst ks))"

definition wf_cache :: "Cache \<Rightarrow> bool" where
  "wf_cache c \<longleftrightarrow>
     distinct (map fst (rc_order c)) \<and> (\<forall>x \<in> set (rc_order c). fst x < rc_next c) \<and>
     distinct (map it_key (cached c)) \<and>
     (\<forall>k el. map_of (rc_items c) k = Some el \<longleftrightarrow> (\<exists>it. (el, it) \<in> set (rc_order c) \<and> it_key it = k)) \<and>
     rc_bytes c = sum_list (map it_size (cached c)) \<and>
     (\<forall>t. tenant_keys c t = it_key ` {it \<in> set (cached c). it_tenant it = t}) \<and>
     (\<forall>t ks. map_of (rc_byTenant c) t = Some ks \<longrightarrow> ks \<noteq> [])"

lemma wf_cacheD:
  assumes "wf_cache c"
  shows "distinct (map fst (rc_order c))" "x \<in> set (rc_order c) \<Longrightarrow> fst x < rc_next c"
    "distinct (map it_key (cached c))"
    "map_of (rc_items c) k = Some el \<longleftrightarrow> (\<exists>it. (el, it) \<in> set (rc_order c) \<and> it_key it = k)"
    "rc_bytes c = sum_list (map it_size (cached c))"
    "tenant_keys c t = it_key ` {it \<in> set (cached c). it_tenant it = t}"
    "map_of (rc_byTenant c) t = Some ks \<Longrightarrow> ks \<noteq> []"
  using assms unfolding wf_cache_def by simp_all

lemma filter_key_split:
  assumes "distinct (map f (as @ x # bs))"
  shows "filter (\<lambda>y. f y \<noteq> f x) (as @ x # bs) = as @ bs"
proof -
  have "f x \<notin> f ` set as" "f x \<notin> f ` set bs" using assms by simp_all
  then have "\<forall>y \<in> set as. f y \<noteq> f x" "\<forall>y \<in> set bs. f y \<noteq> f x" by (metis image_eqI)+
  then show ?thesis by (simp add: filter_id_conv)
qed

lemma wf_NewCache: "wf_cache (NewCache m n)"
  by (simp add: wf_cache_def NewCache_def cached_def tenant_keys_def)

lemma value_of_order: "wf_cache c \<Longrightarrow> (el, it) \<in> set (rc_order c) \<Longrightarrow> value_of c el = it"
  using wf_cacheD(1) [of c] by (simp add: value_of_def)

lemma same_element:
  assumes "wf_cache c" "(i, x) \<in> set (rc_order c)" "(j, y) \<in> set (rc_order c)"
  shows "i = j \<longleftrightarrow> it_key x = it_key y"
proof
  assume "i = j"
  then show "it_key x = it_key y" using assms wf_cacheD(1) [OF assms(1)] by (metis map_of_is_SomeI option.inject)
next
  assume k: "it_key x = it_key y"
  have "(i, x) = (j, y)"
    using wf_cacheD(3) [OF assms(1)] k assms(2,3) unfolding cached_def distinct_map map_map
    by (fastforce simp: distinct_map inj_on_def)
  then show "i = j" by simp
qed

lemma cached_remove:
  assumes "wf_cache c" "(el, it) \<in> set (rc_order c)"
  shows "filter (\<lambda>x. fst x \<noteq> el) (rc_order c) = filter (\<lambda>x. it_key (snd x) \<noteq> it_key it) (rc_order c)"
  using same_element [OF assms(1) _ assms(2)] by (intro filter_cong) auto

lemma tenant_keys_drop:
  assumes "map_of bt t = Some ks \<Longrightarrow> ks \<noteq> []"
  shows "(case map_of (drop_tenant_key t k bt) t' of None \<Rightarrow> {} | Some ks \<Rightarrow> set (map fst ks)) =
    (case map_of bt t' of None \<Rightarrow> {} | Some ks \<Rightarrow> set (map fst ks)) - (if t' = t then {k} else {})"
proof (cases "map_of bt t")
  case None
  then show ?thesis by (auto simp: drop_tenant_key_def)
next
  case (Some ks)
  have "fst ` set (AList.delete k ks) = fst ` set ks - {k}" by (metis delete_keys image_set set_removeAll)
  moreover have "AList.delete k ks = [] \<Longrightarrow> fst ` set ks - {k} = {}" using calculation by simp
  ultimately show ?thesis using Some by (auto simp: drop_tenant_key_def Let_def split: option.splits)
qed

lemma removeElement_wf:
  assumes wf: "wf_cache c" and el: "(el, it) \<in> set (rc_order c)"
  shows "wf_cache (removeElement el it c)"
    and "cached (removeElement el it c) = filter (\<lambda>x. it_key x \<noteq> it_key it) (cached c)"
    and "rc_maxBytes (removeElement el it c) = rc_maxBytes c" "rc_maxEntryBytes (removeElement el it c) = rc_maxEntryBytes c"
proof -
  let ?c = "removeElement el it c"
  note d = wf_cacheD [OF wf]
  have o: "rc_order ?c = filter (\<lambda>x. it_key (snd x) \<noteq> it_key it) (rc_order c)"
    using cached_remove [OF assms] by (simp add: removeElement_def)
  show c: "cached ?c = filter (\<lambda>x. it_key x \<noteq> it_key it) (cached c)"
    by (simp add: cached_def o filter_map comp_def)
  have it: "it \<in> set (cached c)" using el by (force simp: cached_def)
  have uniq: "x = it" if "x \<in> set (cached c)" "it_key x = it_key it" for x
    using d(3) that it by (auto simp: distinct_map inj_on_def)
  have "sum_list (map it_size (cached c)) = it_size it + sum_list (map it_size (cached ?c))"
  proof -
    obtain as bs where s: "cached c = as @ it # bs" using it by (auto simp: in_set_conv_decomp)
    then have "filter (\<lambda>x. it_key x \<noteq> it_key it) (cached c) = as @ bs"
      using d(3) filter_key_split [of it_key as it bs] by simp
    then show ?thesis by (simp add: c s)
  qed
  then have b: "rc_bytes ?c = sum_list (map it_size (cached ?c))" using d(5) by (simp add: removeElement_def)
  have "tenant_keys ?c t = it_key ` {x \<in> set (cached ?c). it_tenant x = t}" for t
  proof -
    have "tenant_keys ?c t = tenant_keys c t - (if t = it_tenant it then {it_key it} else {})"
      using tenant_keys_drop [of "rc_byTenant c" "it_tenant it"] d(7)
      by (simp add: tenant_keys_def removeElement_def)
    also have "\<dots> = it_key ` {x \<in> set (cached ?c). it_tenant x = t}"
      unfolding d(6) c using uniq by auto
    finally show ?thesis .
  qed
  moreover have "map_of (rc_items ?c) k = Some e \<longleftrightarrow> (\<exists>x. (e, x) \<in> set (rc_order ?c) \<and> it_key x = k)" for k e
  proof -
    have "rc_items ?c = AList.delete (it_key it) (rc_items c)" by (simp add: removeElement_def)
    then show ?thesis unfolding o using d(4) [of k e] by auto
  qed
  moreover have "map_of (rc_byTenant ?c) t = Some ks \<Longrightarrow> ks \<noteq> []" for t ks
    using d(7) by (auto simp: removeElement_def drop_tenant_key_def Let_def split: option.splits if_splits)
  moreover have "distinct (map fst (rc_order ?c))" "distinct (map it_key (cached ?c))"
    using d(1,3) by (simp_all add: o c distinct_map_filter)
  moreover have "\<forall>x \<in> set (rc_order ?c). fst x < rc_next ?c" using d(2) by (simp add: removeElement_def)
  ultimately show "wf_cache ?c" unfolding wf_cache_def using b by blast
qed (simp_all add: removeElement_def)

lemma wf_cacheI:
  assumes "distinct (map fst (rc_order c))" "\<And>x. x \<in> set (rc_order c) \<Longrightarrow> fst x < rc_next c"
    "distinct (map it_key (cached c))"
    "\<And>k el. map_of (rc_items c) k = Some el \<longleftrightarrow> (\<exists>it. (el, it) \<in> set (rc_order c) \<and> it_key it = k)"
    "rc_bytes c = sum_list (map it_size (cached c))"
    "\<And>t. tenant_keys c t = it_key ` {it \<in> set (cached c). it_tenant it = t}"
    "\<And>t ks. map_of (rc_byTenant c) t = Some ks \<Longrightarrow> ks \<noteq> []"
  shows "wf_cache c"
  unfolding wf_cache_def by (intro conjI ballI allI impI assms; assumption?)

lemma push_item_fields [simp]:
  "cached (push_item it c) = it # cached c" "rc_maxBytes (push_item it c) = rc_maxBytes c"
  "rc_maxEntryBytes (push_item it c) = rc_maxEntryBytes c"
  by (simp_all add: push_item_def cached_def)

lemma keys_update: "fst ` set (AList.update k v al) = insert k (fst ` set al)"
  by (induction al) auto

lemma push_item_wf:
  assumes wf: "wf_cache c" and new: "it_key it \<notin> it_key ` set (cached c)"
  shows "wf_cache (push_item it c)"
proof (rule wf_cacheI)
  let ?c = "push_item it c"
  note d = wf_cacheD [OF wf]
  have o: "rc_order ?c = (rc_next c, it) # rc_order c" by (simp add: push_item_def)
  show "distinct (map fst (rc_order ?c))" using d(1,2) by (force simp: o)
  show "x \<in> set (rc_order ?c) \<Longrightarrow> fst x < rc_next ?c" for x
    using d(2) [of x] by (auto simp: push_item_def)
  show "distinct (map it_key (cached ?c))" using d(3) new by simp
  show "rc_bytes ?c = sum_list (map it_size (cached ?c))" using d(5) by (simp add: push_item_def cached_def)
  show "map_of (rc_items ?c) k = Some el \<longleftrightarrow> (\<exists>x. (el, x) \<in> set (rc_order ?c) \<and> it_key x = k)" for k el
  proof (cases "k = it_key it")
    case True
    have "it_key x \<noteq> it_key it" if "(el, x) \<in> set (rc_order c)" for x
      using new that unfolding cached_def by (force simp: image_iff)
    moreover have "map_of (rc_items ?c) k = Some (rc_next c)" using True by (simp add: push_item_def)
    ultimately show ?thesis using True by (auto simp: o)
  next
    case False
    then have "map_of (rc_items ?c) k = map_of (rc_items c) k" by (simp add: push_item_def)
    then show ?thesis using False d(4) [of k el] by (auto simp: o)
  qed
  show "tenant_keys ?c t = it_key ` {x \<in> set (cached ?c). it_tenant x = t}" for t
  proof (cases "t = it_tenant it")
    case True
    then have "tenant_keys ?c t = insert (it_key it) (tenant_keys c t)"
      by (auto simp: tenant_keys_def push_item_def keys_update split: option.splits)
    then show ?thesis using True d(6) [of t] by auto
  next
    case False
    then have "tenant_keys ?c t = tenant_keys c t" by (simp add: tenant_keys_def push_item_def)
    then show ?thesis using False d(6) [of t] by auto
  qed
  show "map_of (rc_byTenant ?c) t = Some ks \<Longrightarrow> ks \<noteq> []" for t ks
    using d(7) [of t ks] keys_update [of "it_key it" True] by (fastforce simp: push_item_def split: if_splits)
qed

lemma evict_wf:
  "wf_cache c \<Longrightarrow> wf_cache (evict c) \<and> cached (evict c) = fit (rc_maxBytes c) (cached c) \<and>
     rc_maxBytes (evict c) = rc_maxBytes c \<and> rc_maxEntryBytes (evict c) = rc_maxEntryBytes c"
proof (induction c rule: evict.induct)
  case (1 c)
  show ?case
  proof (cases "rc_bytes c > rc_maxBytes c \<and> rc_order c \<noteq> []")
    case True
    let ?l = "last (rc_order c)"
    let ?c = "removeElement (fst ?l) (snd ?l) c"
    have l: "(fst ?l, snd ?l) \<in> set (rc_order c)" using True by simp
    note r = removeElement_wf [OF 1(2) l]
    have "cached c \<noteq> []" "last (cached c) = snd ?l" using True by (simp_all add: cached_def last_map)
    then have s: "cached c = butlast (cached c) @ [snd ?l]" by (metis append_butlast_last_id)
    have "filter (\<lambda>x. it_key x \<noteq> it_key (snd ?l)) (cached c) = butlast (cached c)"
      using filter_key_split [of it_key "butlast (cached c)" "snd ?l" "[]"] wf_cacheD(3) [OF 1(2)] s by simp
    then have "cached ?c = butlast (cached c)" using r(2) by simp
    moreover have "fit (rc_maxBytes c) (cached c) = fit (rc_maxBytes c) (butlast (cached c))"
      using True wf_cacheD(5) [OF 1(2)] by (subst fit.simps) (simp add: cached_def)
    ultimately show ?thesis using 1(1) [OF True r(1)] r True by (subst (1 2 3 4) evict.simps) simp
  next
    case False
    then show ?thesis using 1(2) wf_cacheD(5) [OF 1(2)]
      by (subst (1 2 3 4) evict.simps, subst fit.simps) (auto simp: cached_def)
  qed
qed

lemma items_find:
  assumes "wf_cache c"
  shows "map_of (rc_items c) key = None \<Longrightarrow> find (\<lambda>x. it_key x = key) (cached c) = None"
    and "map_of (rc_items c) key = Some el \<Longrightarrow> (el, value_of c el) \<in> set (rc_order c) \<and>
      it_key (value_of c el) = key \<and> find (\<lambda>x. it_key x = key) (cached c) = Some (value_of c el)"
proof -
  note d = wf_cacheD [OF assms]
  show "find (\<lambda>x. it_key x = key) (cached c) = None" if "map_of (rc_items c) key = None"
  proof -
    have "it_key x \<noteq> key" if "x \<in> set (cached c)" for x
    proof -
      from that obtain i where "(i, x) \<in> set (rc_order c)" by (auto simp: cached_def)
      then show ?thesis using \<open>map_of (rc_items c) key = None\<close> d(4) [of key i] by auto
    qed
    then show ?thesis by (simp add: find_None_iff)
  qed
  show "(el, value_of c el) \<in> set (rc_order c) \<and>
      it_key (value_of c el) = key \<and> find (\<lambda>x. it_key x = key) (cached c) = Some (value_of c el)"
    if "map_of (rc_items c) key = Some el"
  proof -
    from that d(4) obtain it where it: "(el, it) \<in> set (rc_order c)" "it_key it = key" by blast
    then have v: "value_of c el = it" using value_of_order [OF assms] by simp
    have "it \<in> set (cached c)" using it(1) by (force simp: cached_def)
    then obtain y where y: "find (\<lambda>x. it_key x = key) (cached c) = Some y"
      using it(2) by (cases "find (\<lambda>x. it_key x = key) (cached c)") (auto simp: find_None_iff)
    then have "y \<in> set (cached c)" "it_key y = key" by (auto simp: find_Some_iff)
    then have "y = it" using d(3) \<open>it \<in> set (cached c)\<close> it(2) by (auto simp: distinct_map inj_on_def)
    then show ?thesis using it v y by simp
  qed
qed

lemma move_to_front_wf:
  assumes wf: "wf_cache c" and el: "(el, it) \<in> set (rc_order c)"
  shows "wf_cache (c\<lparr>rc_order := (el, it) # filter (\<lambda>x. fst x \<noteq> el) (rc_order c)\<rparr>)"
    and "cached (c\<lparr>rc_order := (el, it) # filter (\<lambda>x. fst x \<noteq> el) (rc_order c)\<rparr>) =
      it # filter (\<lambda>x. it_key x \<noteq> it_key it) (cached c)"
proof -
  let ?c = "c\<lparr>rc_order := (el, it) # filter (\<lambda>x. fst x \<noteq> el) (rc_order c)\<rparr>"
  note d = wf_cacheD [OF wf]
  show c: "cached ?c = it # filter (\<lambda>x. it_key x \<noteq> it_key it) (cached c)"
    by (simp add: cached_def cached_remove [OF assms] filter_map comp_def)
  obtain as bs where s: "rc_order c = as @ (el, it) # bs" using el by (auto simp: in_set_conv_decomp)
  have f: "filter (\<lambda>x. fst x \<noteq> el) (rc_order c) = as @ bs"
    using filter_key_split [of fst as "(el, it)" bs] d(1) s by simp
  have "mset (rc_order ?c) = mset ((el, it) # as @ bs)" using f by simp
  then have m: "mset (rc_order ?c) = mset (rc_order c)" by (simp add: s)
  then have se: "set (rc_order ?c) = set (rc_order c)" by (metis set_mset_mset)
  have mc: "mset (cached ?c) = mset (cached c)" unfolding cached_def mset_map m by (rule refl)
  then have sc: "set (cached ?c) = set (cached c)" by (metis set_mset_mset)
  show "wf_cache ?c"
  proof (rule wf_cacheI)
    have "mset (map fst (rc_order ?c)) = mset (map fst (rc_order c))" unfolding mset_map m by (rule refl)
    then show "distinct (map fst (rc_order ?c))" using d(1) by (metis mset_eq_imp_distinct_iff)
    have "mset (map it_key (cached ?c)) = mset (map it_key (cached c))" unfolding mset_map mc by (rule refl)
    then show "distinct (map it_key (cached ?c))" using d(3) by (metis mset_eq_imp_distinct_iff)
    have "mset (map it_size (cached ?c)) = mset (map it_size (cached c))" unfolding mset_map mc by (rule refl)
    then have "sum_list (map it_size (cached ?c)) = sum_list (map it_size (cached c))" by (metis sum_mset_sum_list)
    then show "rc_bytes ?c = sum_list (map it_size (cached ?c))" using d(5) by simp
    show "tenant_keys ?c t = it_key ` {x \<in> set (cached ?c). it_tenant x = t}" for t
      using d(6) [of t] unfolding sc by (simp add: tenant_keys_def)
    show "x \<in> set (rc_order ?c) \<Longrightarrow> fst x < rc_next ?c" for x using d(2) [of x] unfolding se by simp
    show "map_of (rc_items ?c) k = Some e \<longleftrightarrow> (\<exists>x. (e, x) \<in> set (rc_order ?c) \<and> it_key x = k)" for k e
      using d(4) [of k e] unfolding se by simp
    show "map_of (rc_byTenant ?c) t = Some ks \<Longrightarrow> ks \<noteq> []" for t ks using d(7) [of t ks] by simp
  qed
qed

lemma Cache_Get_refines:
  assumes wf: "wf_cache c" and g: "Cache_Get now key c = (c', r)"
  shows "wf_cache c' \<and> (cached c', r) = spec_get now key (cached c)"
proof (cases "map_of (rc_items c) key")
  case None
  then show ?thesis using g wf items_find(1) [OF wf None] by (simp add: Cache_Get_def spec_get_def)
next
  case (Some el)
  note i = items_find(2) [OF wf Some]
  show ?thesis
  proof (cases "now < it_expires (value_of c el)")
    case True
    then show ?thesis using g Some i move_to_front_wf [OF wf, of el "value_of c el"]
      by (auto simp: Cache_Get_def spec_get_def Let_def)
  next
    case False
    then show ?thesis using g Some i removeElement_wf(1,2) [OF wf, of el "value_of c el"]
      by (auto simp: Cache_Get_def spec_get_def Let_def)
  qed
qed

lemma Cache_Put_refines:
  assumes wf: "wf_cache c"
  shows "wf_cache (Cache_Put now tenant key e ttl c) \<and>
    cached (Cache_Put now tenant key e ttl c) =
      (if ttl \<le> 0 \<or> entry_size key e > rc_maxEntryBytes c then cached c
       else spec_put (rc_maxBytes c) \<lparr> it_key = key, it_tenant = tenant, it_entry = e, it_expires = now + ttl,
                   it_size = entry_size key e \<rparr> (cached c)) \<and>
    rc_maxBytes (Cache_Put now tenant key e ttl c) = rc_maxBytes c \<and>
    rc_maxEntryBytes (Cache_Put now tenant key e ttl c) = rc_maxEntryBytes c"
proof (cases "ttl \<le> 0 \<or> entry_size key e > rc_maxEntryBytes c")
  case True
  then show ?thesis using wf by (auto simp: Cache_Put_def)
next
  case False
  let ?it = "\<lparr> it_key = key, it_tenant = tenant, it_entry = e, it_expires = now + ttl, it_size = entry_size key e \<rparr>"
  define c1 where "c1 = (case map_of (rc_items c) key of Some el \<Rightarrow> removeElement el (value_of c el) c | None \<Rightarrow> c)"
  have c1: "wf_cache c1 \<and> cached c1 = filter (\<lambda>x. it_key x \<noteq> key) (cached c) \<and>
      rc_maxBytes c1 = rc_maxBytes c \<and> rc_maxEntryBytes c1 = rc_maxEntryBytes c"
  proof (cases "map_of (rc_items c) key")
    case None
    then have "filter (\<lambda>x. it_key x \<noteq> key) (cached c) = cached c"
      using items_find(1) [OF wf None] by (auto simp: find_None_iff filter_id_conv)
    then show ?thesis using None wf by (simp add: c1_def)
  next
    case (Some el)
    then show ?thesis using items_find(2) [OF wf Some] removeElement_wf [OF wf, of el "value_of c el"]
      by (simp add: c1_def)
  qed
  have "Cache_Put now tenant key e ttl c = evict (push_item ?it c1)"
    using False by (simp add: Cache_Put_def c1_def Let_def)
  moreover have "wf_cache (push_item ?it c1)" using c1 by (intro push_item_wf) auto
  ultimately show ?thesis using False c1 evict_wf [of "push_item ?it c1"] by (simp add: spec_put_def)
qed

lemma flush_keys_refines:
  "wf_cache c \<Longrightarrow> flush_keys keys c = (c', n) \<Longrightarrow>
   wf_cache c' \<and> cached c' = filter (\<lambda>x. it_key x \<notin> set keys) (cached c)"
proof (induction keys arbitrary: c n)
  case (Cons key keys)
  show ?case
  proof (cases "map_of (rc_items c) key")
    case None
    have "it_key x \<noteq> key" if "x \<in> set (cached c)" for x
      using items_find(1) [OF Cons.prems(1) None] that by (auto simp: find_None_iff)
    then have "filter (\<lambda>x. it_key x \<notin> set (key # keys)) (cached c) = filter (\<lambda>x. it_key x \<notin> set keys) (cached c)"
      by (intro filter_cong) auto
    then show ?thesis using Cons None by simp
  next
    case (Some el)
    note i = items_find(2) [OF Cons.prems(1) Some] and r = removeElement_wf [OF Cons.prems(1), of el "value_of c el"]
    obtain n' where "flush_keys keys (removeElement el (value_of c el) c) = (c', n')"
      using Cons.prems(2) Some by (auto split: prod.splits)
    from Cons.IH [OF _ this] i r show ?thesis by (auto intro: filter_cong)
  qed
qed simp

lemma Cache_Flush_refines:
  assumes wf: "wf_cache c" and f: "Cache_Flush tenant c = (c', n)"
  shows "wf_cache c' \<and> cached c' = spec_flush tenant (cached c)"
proof -
  define keys where "keys = (case map_of (rc_byTenant c) tenant of None \<Rightarrow> [] | Some ks \<Rightarrow> map fst ks)"
  have k: "set keys = it_key ` {it \<in> set (cached c). it_tenant it = tenant}"
    using wf_cacheD(6) [OF wf, of tenant] by (simp add: keys_def tenant_keys_def split: option.splits)
  have "it_key x \<notin> set keys \<longleftrightarrow> it_tenant x \<noteq> tenant" if "x \<in> set (cached c)" for x
    using k that wf_cacheD(3) [OF wf] by (auto simp: distinct_map inj_on_def)
  then show ?thesis using flush_keys_refines [OF wf, of keys c' n] f
    by (auto simp: Cache_Flush_def keys_def [symmetric] spec_flush_def intro: filter_cong)
qed

section \<open>What the cache promises\<close>

text \<open>C11. The cache implements a least-recently-used list with expiry: on every consistent state, \<open>Get\<close>, \<open>Put\<close> and
  \<open>Flush\<close> keep the list, the key index, the tenant index and the byte count consistent and act on the
  abstract list as its specification says: a hit moves to the front, an expired entry is dropped
  and not returned, a put replaces the key's entry, goes to the front and drops from the back only what
  does not fit, and a flush removes exactly the tenant's entries.\<close>

theorem cache_refines_lru:
  assumes "wf_cache c"
  shows "(wf_cache (fst (Cache_Get now key c)) \<and>
      (cached (fst (Cache_Get now key c)), snd (Cache_Get now key c)) = spec_get now key (cached c)) \<and>
    (wf_cache (Cache_Put now tenant key e ttl c) \<and>
      cached (Cache_Put now tenant key e ttl c) =
        (if ttl \<le> 0 \<or> entry_size key e > rc_maxEntryBytes c then cached c
         else spec_put (rc_maxBytes c) \<lparr> it_key = key, it_tenant = tenant, it_entry = e, it_expires = now + ttl,
                     it_size = entry_size key e \<rparr> (cached c))) \<and>
    (wf_cache (fst (Cache_Flush tenant c)) \<and> cached (fst (Cache_Flush tenant c)) = spec_flush tenant (cached c))"
  using Cache_Get_refines [OF assms, of now key "fst (Cache_Get now key c)" "snd (Cache_Get now key c)"]
    Cache_Put_refines [OF assms, of now tenant key e ttl]
    Cache_Flush_refines [OF assms, of tenant "fst (Cache_Flush tenant c)" "snd (Cache_Flush tenant c)"]
  by simp

definition example_entry :: CacheEntry where
  "example_entry = \<lparr> ce_Body = ''answer'', ce_Provider = ''a'', ce_Model = ''m1'' \<rparr>"

definition example_cache :: Cache where
  "example_cache = Cache_Put 10 ''t1'' ''key1'' example_entry 60 (NewCache 1000 100)"

lemma example_cache_wf: "wf_cache example_cache"
  using Cache_Put_refines [OF wf_NewCache] by (simp add: example_cache_def)

theorem cache_refines_lru_witness:
  "cached (fst (Cache_Flush ''t1'' example_cache)) = [] \<and> snd (Cache_Get 20 ''key1'' example_cache) = Some example_entry"
proof -
  have "spec_flush ''t1'' (cached example_cache) = []" "snd (spec_get 20 ''key1'' (cached example_cache)) = Some example_entry"
    by code_simp+
  then show ?thesis
    using cache_refines_lru [OF example_cache_wf, of 20 "''key1''" "''t1''" example_entry 0] by (metis snd_conv)
qed

inductive cache_reach :: "int \<Rightarrow> int \<Rightarrow> Cache \<Rightarrow> bool" for maxBytes maxEntryBytes where
  cache_new: "cache_reach maxBytes maxEntryBytes (NewCache maxBytes maxEntryBytes)"
| cache_get: "cache_reach maxBytes maxEntryBytes c \<Longrightarrow> cache_reach maxBytes maxEntryBytes (fst (Cache_Get now key c))"
| cache_put: "cache_reach maxBytes maxEntryBytes c \<Longrightarrow>
    cache_reach maxBytes maxEntryBytes (Cache_Put now tenant key e ttl c)"
| cache_flush: "cache_reach maxBytes maxEntryBytes c \<Longrightarrow> cache_reach maxBytes maxEntryBytes (fst (Cache_Flush tenant c))"

lemma fit_take: "\<exists>n. fit m xs = take n xs"
proof (induction m xs rule: fit.induct)
  case (1 m xs)
  show ?case
  proof (cases "xs \<noteq> [] \<and> sum_list (map it_size xs) > m")
    case True
    then obtain n where "fit m xs = take n (butlast xs)" using 1 fit.simps [of m xs] by auto
    then show ?thesis by (auto simp: butlast_conv_take)
  next
    case False
    then have "fit m xs = take (length xs) xs" using fit.simps [of m xs] by auto
    then show ?thesis by blast
  qed
qed

lemma fit_bound: "0 \<le> m \<Longrightarrow> sum_list (map it_size (fit m xs)) \<le> m"
proof (induction m xs rule: fit.induct)
  case (1 m xs)
  then show ?case using fit.simps [of m xs] by (cases "xs \<noteq> [] \<and> sum_list (map it_size xs) > m") auto
qed

definition in_bounds :: "int \<Rightarrow> int \<Rightarrow> Cache \<Rightarrow> bool" where
  "in_bounds m n c \<longleftrightarrow> wf_cache c \<and> rc_maxBytes c = m \<and> rc_maxEntryBytes c = n \<and>
     (\<forall>it \<in> set (cached c). 0 \<le> it_size it \<and> it_size it \<le> n) \<and> sum_list (map it_size (cached c)) \<le> m"

lemma sum_filter_le:
  "\<forall>x \<in> set xs. 0 \<le> it_size x \<Longrightarrow> sum_list (map it_size (filter P xs)) \<le> sum_list (map it_size xs)"
  by (induction xs) auto

lemma spec_get_list:
  "fst (spec_get now key xs) = xs \<or> fst (spec_get now key xs) = filter (\<lambda>x. it_key x \<noteq> key) xs \<or>
   (\<exists>it. find (\<lambda>x. it_key x = key) xs = Some it \<and> fst (spec_get now key xs) = it # filter (\<lambda>x. it_key x \<noteq> key) xs)"
  by (auto simp: spec_get_def Let_def split: option.splits)

lemma sum_split_key:
  assumes "distinct (map it_key xs)" "find (\<lambda>x. it_key x = key) xs = Some it"
  shows "it_size it + sum_list (map it_size (filter (\<lambda>x. it_key x \<noteq> key) xs)) = sum_list (map it_size xs)"
proof -
  from assms(2) obtain as bs where s: "xs = as @ it # bs" "it_key it = key"
    by (auto simp: find_Some_iff) (metis id_take_nth_drop)
  then show ?thesis using filter_key_split [of it_key as it bs] assms(1) by simp
qed

lemma get_max [simp]:
  "rc_maxBytes (fst (Cache_Get now key c)) = rc_maxBytes c" "rc_maxEntryBytes (fst (Cache_Get now key c)) = rc_maxEntryBytes c"
  by (auto simp: Cache_Get_def removeElement_def Let_def split: option.splits)

lemma flush_keys_max:
  "flush_keys ks c = (c', n) \<Longrightarrow> rc_maxBytes c' = rc_maxBytes c \<and> rc_maxEntryBytes c' = rc_maxEntryBytes c"
  by (induction ks arbitrary: c n) (auto simp: removeElement_def split: option.splits prod.splits)

lemma in_bounds_reach: "cache_reach m n c \<Longrightarrow> 0 \<le> m \<Longrightarrow> in_bounds m n c"
proof (induction rule: cache_reach.induct)
  case cache_new
  then show ?case using wf_NewCache [of m n] by (simp add: in_bounds_def NewCache_def cached_def)
next
  case (cache_get c now key)
  then have w: "in_bounds m n c" by simp
  then have wf: "wf_cache c" by (simp add: in_bounds_def)
  have r: "wf_cache (fst (Cache_Get now key c))" "cached (fst (Cache_Get now key c)) = fst (spec_get now key (cached c))"
    using Cache_Get_refines [OF wf, of now key] by (metis prod.collapse fst_conv)+
  from spec_get_list [of now key "cached c"] consider
    "fst (spec_get now key (cached c)) = cached c"
    | "fst (spec_get now key (cached c)) = filter (\<lambda>x. it_key x \<noteq> key) (cached c)"
    | it where "find (\<lambda>x. it_key x = key) (cached c) = Some it"
      "fst (spec_get now key (cached c)) = it # filter (\<lambda>x. it_key x \<noteq> key) (cached c)" by blast
  then show ?case
  proof cases
    case 3
    have "it \<in> set (cached c)" using 3(1) by (auto simp: find_Some_iff)
    then show ?thesis using w r 3 sum_split_key [OF wf_cacheD(3) [OF wf] 3(1)] by (auto simp: in_bounds_def)
  qed (use w r sum_filter_le [of "cached c" "\<lambda>x. it_key x \<noteq> key"] in \<open>auto simp: in_bounds_def\<close>)
next
  case (cache_put c now tenant key e ttl)
  then have w: "in_bounds m n c" by simp
  let ?c = "Cache_Put now tenant key e ttl c"
  note p = Cache_Put_refines [of c now tenant key e ttl]
  show ?case
  proof (cases "ttl \<le> 0 \<or> entry_size key e > rc_maxEntryBytes c")
    case True
    then show ?thesis using w p by (auto simp: in_bounds_def)
  next
    case False
    let ?it = "\<lparr> it_key = key, it_tenant = tenant, it_entry = e, it_expires = now + ttl, it_size = entry_size key e \<rparr>"
    let ?xs = "?it # filter (\<lambda>x. it_key x \<noteq> key) (cached c)"
    have c: "cached ?c = fit m ?xs" using False w p by (simp add: spec_put_def in_bounds_def)
    then have "set (cached ?c) \<subseteq> set ?xs" using fit_take [of m ?xs] set_take_subset by metis
    moreover have "\<forall>x \<in> set ?xs. 0 \<le> it_size x \<and> it_size x \<le> n"
      using w False by (auto simp: in_bounds_def entry_size_def)
    ultimately show ?thesis using w p fit_bound [OF cache_put.prems, of ?xs] c by (auto simp: in_bounds_def)
  qed
next
  case (cache_flush c tenant)
  then have w: "in_bounds m n c" by simp
  obtain c' k where f: "Cache_Flush tenant c = (c', k)" by fastforce
  have "wf_cache c'" "cached c' = spec_flush tenant (cached c)" using Cache_Flush_refines [OF _ f] w by (auto simp: in_bounds_def)
  moreover have "rc_maxBytes c' = m" "rc_maxEntryBytes c' = n"
    using flush_keys_max f w by (auto simp: Cache_Flush_def in_bounds_def)
  ultimately show ?case using w f sum_filter_le [of "cached c" "\<lambda>x. it_tenant x \<noteq> tenant"]
    by (auto simp: in_bounds_def spec_flush_def)
qed

text \<open>The cache never outgrows its bounds: after any sequence of gets, puts and flushes the byte count is the
  exact sum of the entry sizes and at most the configured total, every entry is within the per-entry
  limit, and the two indexes agree with the list.\<close>

theorem cache_bounded:
  assumes "cache_reach maxBytes maxEntryBytes c" "0 \<le> maxBytes"
  shows "wf_cache c \<and> rc_bytes c = sum_list (map it_size (cached c)) \<and> rc_bytes c \<le> maxBytes \<and>
    (\<forall>it \<in> set (cached c). it_size it \<le> maxEntryBytes)"
  using in_bounds_reach [OF assms] wf_cacheD(5) [of c] by (auto simp: in_bounds_def)

theorem cache_bounded_witness: "rc_bytes example_cache \<le> 1000 \<and> wf_cache example_cache"
proof -
  have "cache_reach 1000 100 example_cache" unfolding example_cache_def by (intro cache_put cache_new)
  from cache_bounded [OF this] show ?thesis by simp
qed

lemma fit_head:
  assumes "it_size x \<le> m" "0 \<le> m"
  shows "\<exists>ys. fit m (x # xs) = x # ys"
proof (induction xs rule: rev_induct)
  case Nil
  then show ?case using assms by (subst fit.simps) simp
next
  case (snoc y xs)
  show ?case
  proof (cases "sum_list (map it_size (x # xs @ [y])) > m")
    case True
    then have "fit m (x # xs @ [y]) = fit m (x # xs)" by (subst fit.simps) (simp add: butlast_append)
    then show ?thesis using snoc by simp
  next
    case False
    then have "fit m (x # xs @ [y]) = x # xs @ [y]" by (subst fit.simps) simp
    then show ?thesis by blast
  qed
qed

text \<open>What is stored is what is replayed: an entry within both size limits, put with a positive lifetime, is
  returned unchanged by a get of its key at every instant before it expires, and is never returned
  at or after that instant.\<close>

theorem put_then_get:
  assumes "wf_cache c" "0 < ttl" "entry_size key e \<le> rc_maxEntryBytes c" "entry_size key e \<le> rc_maxBytes c"
  shows "snd (Cache_Get later key (Cache_Put now tenant key e ttl c)) = (if later < now + ttl then Some e else None)"
proof -
  let ?it = "\<lparr> it_key = key, it_tenant = tenant, it_entry = e, it_expires = now + ttl, it_size = entry_size key e \<rparr>"
  let ?c = "Cache_Put now tenant key e ttl c"
  have "0 \<le> rc_maxBytes c" using assms(4) by (simp add: entry_size_def)
  then obtain ys where y: "cached ?c = ?it # ys"
    using Cache_Put_refines [OF assms(1), of now tenant key e ttl] assms(2-4)
      fit_head [of ?it "rc_maxBytes c"] by (auto simp: spec_put_def)
  have "wf_cache ?c" using Cache_Put_refines [OF assms(1)] by simp
  then have "snd (Cache_Get later key ?c) = snd (spec_get later key (cached ?c))"
    using Cache_Get_refines [of ?c later key] by (metis prod.collapse snd_conv)
  then show ?thesis by (simp add: y spec_get_def Let_def)
qed

theorem put_then_get_witness:
  "snd (Cache_Get 69 ''key1'' example_cache) = Some example_entry \<and> snd (Cache_Get 70 ''key1'' example_cache) = None"
proof -
  have "entry_size ''key1'' example_entry \<le> 100" by code_simp
  then show ?thesis
    using put_then_get [OF wf_NewCache, of 60 "''key1''" example_entry 1000 100 69 10 "''t1''"]
      put_then_get [OF wf_NewCache, of 60 "''key1''" example_entry 1000 100 70 10 "''t1''"]
    by (simp add: example_cache_def NewCache_def)
qed

text \<open>Cache keys separate tenants and ignore only what cannot matter: under a collision-free hash, two requests
  have the same key only if tenant, served-by and canonical body all agree, for tenant ids and
  served-by values without a zero byte; and two bodies whose fields agree except for \<open>user\<close>, \<open>metadata\<close> and
  \<open>stream_options\<close> have the same key, given that encoding depends only on the fields.\<close>

theorem cache_key_separates:
  assumes "inj sha256hex" and "\<And>a b. map_of a = map_of b \<Longrightarrow> cc_encode cc (Some a) = cc_encode cc (Some b)"
  shows "(CHR 0x00 \<notin> set t1 \<union> set t2 \<union> set s1 \<union> set s2 \<and>
      Cache_Key sha256hex cc t1 s1 b1 = Inr k \<and> Cache_Key sha256hex cc t2 s2 b2 = Inr k \<longrightarrow>
      t1 = t2 \<and> s1 = s2 \<and> canonicalize cc b1 = canonicalize cc b2) \<and>
    (cc_decode cc b1 = Inr (Some d1) \<and> cc_decode cc b2 = Inr (Some d2) \<and>
      (\<forall>f. f \<notin> set volatileFields \<longrightarrow> map_of d1 f = map_of d2 f) \<longrightarrow>
      Cache_Key sha256hex cc t s b1 = Cache_Key sha256hex cc t s b2)"
proof ((rule conjI; rule impI), goal_cases)
  case 1
  then obtain x y where xy: "canonicalize cc b1 = Inr x" "canonicalize cc b2 = Inr y"
    by (auto simp: Cache_Key_def split: sum.splits)
  from 1 have "sha256hex (t1 @ CHR 0x00 # s1 @ CHR 0x00 # x) = sha256hex (t2 @ CHR 0x00 # s2 @ CHR 0x00 # y)"
    by (simp add: Cache_Key_def xy)
  then have "t1 @ CHR 0x00 # s1 @ CHR 0x00 # x = t2 @ CHR 0x00 # s2 @ CHR 0x00 # y"
    using assms(1) by (simp add: inj_eq)
  then show ?case using 1 append_sep_inject [of "CHR 0x00" t1 t2] append_sep_inject [of "CHR 0x00" s1 s2] xy by simp
next
  case 2
  have "map_of (fold AList.delete volatileFields d1) = map_of (fold AList.delete volatileFields d2)"
    using 2 by (intro ext) (auto simp: volatileFields_def)
  from assms(2) [OF this] show ?case using 2 by (simp add: Cache_Key_def canonicalize_def)
qed

definition example_cc :: cache_codec where
  "example_cc = \<lparr> cc_decode = (\<lambda>b. Inr (Some [(''model'', b), (''user'', rev b)])),
     cc_encode = (\<lambda>d. case d of None \<Rightarrow> Inr ''null''
        | Some m \<Rightarrow> Inr (case map_of m ''model'' of None \<Rightarrow> [] | Some v \<Rightarrow> v)) \<rparr>"

theorem cache_key_separates_witness:
  "Cache_Key rev example_cc ''t1'' ''a/m'' ''q'' \<noteq> Cache_Key rev example_cc ''t2'' ''a/m'' ''q''"
proof -
  have i: "inj (rev :: string \<Rightarrow> string)" by (simp add: inj_on_def)
  have e: "\<And>a b. map_of a = map_of b \<Longrightarrow> cc_encode example_cc (Some a) = cc_encode example_cc (Some b)"
    by (simp add: example_cc_def)
  obtain k where "Cache_Key rev example_cc ''t1'' ''a/m'' ''q'' = Inr k"
    by (auto simp: Cache_Key_def canonicalize_def example_cc_def split: option.splits)
  then show ?thesis
    using cache_key_separates [OF i e, of "''t1''" "''t2''" "''a/m''" "''a/m''" "''q''" k "''q''" "[]" "[]" "[]" "[]"]
    by auto
qed

text \<open>A cache lifetime never exceeds the deployment ceiling, but the ceiling check itself can be passed by
  overflow: for lifetimes up to 9223372036 seconds a tenant's policy is accepted exactly when it is
  within the ceiling, while 10000000000 seconds is accepted under every non-negative ceiling, wraps to a
  negative lifetime, and so stores nothing.\<close>

theorem cache_ttl_ceiling:
  assumes "0 \<le> cf_MaxTTL cfg"
  shows "cacheTTL cfg t \<le> cf_MaxTTL cfg \<and>
    (0 \<le> tc_TTLSeconds p \<and> tc_TTLSeconds p \<le> 9223372036 \<longrightarrow>
      (validateTenantCache cfg p = None \<longleftrightarrow> tc_TTLSeconds p * Second \<le> cf_MaxTTL cfg)) \<and>
    validateTenantCache cfg (p\<lparr>tc_TTLSeconds := 10000000000\<rparr>) = None \<and>
    cacheTTL cfg (Some (x\<lparr>t_Cache := p\<lparr>tc_TTLSeconds := 10000000000\<rparr>\<rparr>)) < 0"
proof -
  have w: "wrap64 (10000000000 * Second) = - 8446744073709551616" by (simp add: wrap64_def)
  have "wrap64 (tc_TTLSeconds p * Second) = tc_TTLSeconds p * Second"
    if "0 \<le> tc_TTLSeconds p" "tc_TTLSeconds p \<le> 9223372036" using that by (intro wrap64_id) auto
  then show ?thesis using assms w by (auto simp: validateTenantCache_def cacheTTL_def Let_def)
qed

definition example_cache_config :: CacheConfig where
  "example_cache_config = \<lparr> cf_Enabled = True, cf_DefaultTTL = 60 * Second, cf_MaxTTL = 3600 * Second,
     cf_MaxEntryBytes = 100, cf_MaxBytes = 1000 \<rparr>"

theorem cache_ttl_ceiling_witness:
  "cacheTTL example_cache_config None \<le> 3600 * Second \<and>
   validateTenantCache example_cache_config \<lparr> tc_Enabled = True, tc_TTLSeconds = 3601 \<rparr> \<noteq> None \<and>
   validateTenantCache example_cache_config \<lparr> tc_Enabled = True, tc_TTLSeconds = 10000000000 \<rparr> = None"
  using cache_ttl_ceiling [of example_cache_config None "\<lparr> tc_Enabled = True, tc_TTLSeconds = 3601 \<rparr>"]
  by (simp add: example_cache_config_def)

end
