(* ===== verification/Upstream.thy ===== *)
theory Upstream
  imports Store_Types
begin

text \<open>
  The boundary to an upstream provider, \<open>gateway/internal/provider/\<close>: failure classification, the adapter
  registry, and the OpenAI adapter with its two vendor aliases.

  The world outside the process has a type \<open>'w\<close> that every effect threads: reading the clock
  and performing an HTTP exchange are functions on it, collected in the record \<open>upstream_env\<close> together with
  \<open>encoding/json\<close> on the two shapes the adapter decodes. A response body is the bytes it will deliver and
  the error, if any, that it reports after them. A header is a map from canonical names to values.
\<close>

section \<open>Classification\<close>

record Credential =
  cr_BaseURL :: string
  cr_APIKey :: string

datatype FailureKind = FailNone | FailTransport | FailServer | FailRateLimit | FailClient

primrec FailureKind_String :: "FailureKind \<Rightarrow> string" where
  "FailureKind_String FailNone = ''none''"
| "FailureKind_String FailTransport = ''transport''"
| "FailureKind_String FailServer = ''server''"
| "FailureKind_String FailRateLimit = ''rate_limit''"
| "FailureKind_String FailClient = ''client''"

definition Retryable :: "FailureKind \<Rightarrow> bool" where
  "Retryable f \<longleftrightarrow> f = FailTransport \<or> f = FailServer \<or> f = FailRateLimit"

definition Classify :: "int \<Rightarrow> FailureKind" where
  "Classify status =
     (if status \<ge> 200 \<and> status < 300 then FailNone
      else if status = 429 then FailRateLimit
      else if status \<ge> 500 then FailServer
      else if status \<ge> 400 then FailClient
      else FailServer)"

section \<open>Requests and responses\<close>

record TokenUsage =
  tu_PromptTokens :: int
  tu_CompletionTokens :: int
  tu_TotalTokens :: int

record Request =
  rq_Model :: string
  rq_Body :: string
  rq_Stream :: bool
  rq_Path :: string

type_synonym http_header = "(string, string list) gomap"

definition Header_Get :: "http_header \<Rightarrow> string \<Rightarrow> string" where
  "Header_Get h k = (case map_of h k of Some (v # vs) \<Rightarrow> v | _ \<Rightarrow> [])"

record body_reader =
  br_data :: string
  br_err :: "goerr option"

record Response =
  rs_StatusCode :: int
  rs_Header :: "http_header option"
  rs_Body :: string
  rs_Stream :: "body_reader option"
  rs_Usage :: "TokenUsage option"
  rs_Failure :: FailureKind
  rs_Latency :: duration

record 'w Adapter =
  ad_Kind :: string
  ad_ListModels :: "'w \<Rightarrow> Credential \<Rightarrow> 'w \<times> (goerr + Model list)"
  ad_Do :: "'w \<Rightarrow> Credential \<Rightarrow> Request \<Rightarrow> 'w \<times> Response option \<times> goerr option"

type_synonym 'w Registry = "(string, 'w Adapter) gomap"

definition KindOpenAI :: string where
  "KindOpenAI = ''openai''"

definition NewRegistry :: "'w Adapter list \<Rightarrow> 'w Registry" where
  "NewRegistry adapters = foldl (\<lambda>r a. AList.update (ad_Kind a) a r) [] adapters"

definition Registry_Get :: "'w Registry \<Rightarrow> string \<Rightarrow> 'w Adapter option" where
  "Registry_Get r kind =
     (case map_of r kind of Some a \<Rightarrow> Some a | None \<Rightarrow> map_of r KindOpenAI)"

section \<open>The OpenAI adapter\<close>

record http_request =
  hq_method :: string
  hq_url :: string
  hq_header :: "(string, string) gomap"
  hq_body :: string

record http_response =
  hp_StatusCode :: int
  hp_Header :: http_header
  hp_Body :: body_reader

record modelsResponse =
  mr_ID :: string
  mr_ContextWindow :: int
  mr_ContextLength :: int
  mr_MaxOutputTokens :: int
  mr_InputCostPerMTok :: rat
  mr_OutputCostPerMTok :: rat

record 'w upstream_env =
  ue_now :: "'w \<Rightarrow> 'w \<times> time"
  ue_NewRequest :: "http_request \<Rightarrow> goerr option"
  ue_client_Do :: "'w \<Rightarrow> http_request \<Rightarrow> 'w \<times> (goerr + http_response)"
  ue_unmarshalModels :: "string \<Rightarrow> goerr + modelsResponse list"
  ue_unmarshalUsage :: "string \<Rightarrow> goerr + TokenUsage option"

definition ReadAll_Limit :: "body_reader \<Rightarrow> int \<Rightarrow> string \<times> goerr option" where
  \<comment> \<open>\<open>io.ReadAll(io.LimitReader(r, n))\<close>\<close>
  "ReadAll_Limit r n =
     (take (nat n) (br_data r), if int (length (br_data r)) < n then br_err r else None)"

definition joinURL :: "string \<Rightarrow> string \<Rightarrow> string" where
  "joinURL base path = TrimSuffix base ''/'' @ ''/'' @ TrimPrefix path ''/''"

definition authorize :: "Credential \<Rightarrow> http_request \<Rightarrow> http_request" where
  "authorize cred req =
     (let h = (if cr_APIKey cred \<noteq> []
               then AList.update ''Authorization'' (''Bearer '' @ cr_APIKey cred) (hq_header req)
               else hq_header req)
      in req\<lparr>hq_header := AList.update ''User-Agent''
           ''CogniGate/1.0 (+https://github.com/Life-Experimentalist/CogniGate)'' h\<rparr>)"

definition inferCapabilities :: "string \<Rightarrow> string list" where
  "inferCapabilities mid =
     (let lower = ToLower mid;
          caps = (if Contains lower ''embed'' then [''embeddings'']
                  else if Contains lower ''whisper'' \<or> Contains lower ''transcribe''
                  then [''transcription''] else [''chat'']);
          caps1 = (if (\<exists>marker \<in> set [''vision'', ''-4o'', ''sonnet'', ''opus'', ''gemini''].
                       Contains lower marker) \<and> hd caps = ''chat''
                   then caps @ [''vision''] else caps)
      in if Contains lower ''tool'' \<or> hd caps1 = ''chat'' then caps1 @ [''tools''] else caps1)"

definition listed_model :: "modelsResponse \<Rightarrow> Model" where
  \<comment> \<open>the body of the loop over \<open>parsed.Data\<close>\<close>
  "listed_model m = \<lparr> md_ID = mr_ID m, md_Provider = [],
     md_ContextWindow = (if mr_ContextWindow m = 0 then mr_ContextLength m else mr_ContextWindow m),
     md_MaxOutputTokens = mr_MaxOutputTokens m, md_Capabilities = inferCapabilities (mr_ID m),
     md_InputCostPerMTok = mr_InputCostPerMTok m, md_OutputCostPerMTok = mr_OutputCostPerMTok m,
     md_Deprecated = False \<rparr>"

definition OpenAI_ListModels ::
  "'w upstream_env \<Rightarrow> int \<Rightarrow> 'w \<Rightarrow> Credential \<Rightarrow> 'w \<times> (goerr + Model list)" where
  "OpenAI_ListModels env maxResponseBytes w cred =
     (let req0 = \<lparr> hq_method = ''GET'', hq_url = joinURL (cr_BaseURL cred) ''/models'',
                   hq_header = [], hq_body = [] \<rparr> in
      case ue_NewRequest env req0 of
        Some err \<Rightarrow> (w, Inl err)
      | None \<Rightarrow>
          (case ue_client_Do env w (authorize cred req0) of
             (w1, Inl err) \<Rightarrow> (w1, Inl (Wrapf (''list models: %w'', []) err))
           | (w1, Inr resp) \<Rightarrow>
               (case ReadAll_Limit (hp_Body resp) maxResponseBytes of
                  (body, Some err) \<Rightarrow> (w1, Inl (Wrapf (''list models: %w'', []) err))
                | (body, None) \<Rightarrow>
                    if hp_StatusCode resp \<noteq> 200
                    then (w1, Inl (if hp_StatusCode resp = 401 \<or> hp_StatusCode resp = 403
                                   then Errorf (''list models: the provider rejected this key (%d)'',
                                                [FInt (hp_StatusCode resp)])
                                   else Errorf (''list models: upstream returned %d'',
                                                [FInt (hp_StatusCode resp)])))
                    else (case ue_unmarshalModels env body of
                            Inl err \<Rightarrow>
                              (w1, Inl (Wrapf (''list models: malformed catalog response: %w'', []) err))
                          | Inr parsed \<Rightarrow>
                              (w1, Inr (map listed_model (filter (\<lambda>m. mr_ID m \<noteq> []) parsed)))))))"

definition ErrResponseTooLarge :: goerr where
  "ErrResponseTooLarge = Errorf (''upstream response exceeds the configured limit'', [])"

definition extractUsage :: "'w upstream_env \<Rightarrow> string \<Rightarrow> TokenUsage option" where
  "extractUsage env body = (case ue_unmarshalUsage env body of Inl err \<Rightarrow> None | Inr u \<Rightarrow> u)"

definition failed_response :: "int \<Rightarrow> FailureKind \<Rightarrow> duration \<Rightarrow> Response" where
  \<comment> \<open>a \<open>Response\<close> literal with only status, failure and latency set\<close>
  "failed_response status kind latency = \<lparr> rs_StatusCode = status, rs_Header = None, rs_Body = [],
     rs_Stream = None, rs_Usage = None, rs_Failure = kind, rs_Latency = latency \<rparr>"

definition do_request :: "Credential \<Rightarrow> Request \<Rightarrow> http_request" where
  \<comment> \<open>the request with its three headers\<close>
  "do_request cred r =
     (let req1 = authorize cred \<lparr> hq_method = ''POST'', hq_url = joinURL (cr_BaseURL cred) (rq_Path r),
                                  hq_header = [], hq_body = rq_Body r \<rparr>;
          h1 = AList.update ''Content-Type'' ''application/json'' (hq_header req1)
      in req1\<lparr>hq_header := (if rq_Stream r then AList.update ''Accept'' ''text/event-stream'' h1 else h1)\<rparr>)"

definition read_response ::
  "'w upstream_env \<Rightarrow> int \<Rightarrow> Request \<Rightarrow> http_response \<Rightarrow> duration \<Rightarrow> Response option \<times> goerr option" where
  \<comment> \<open>everything after \<open>o.client.Do\<close> has answered\<close>
  "read_response env maxResponseBytes r resp latency =
     (let kind = Classify (hp_StatusCode resp) in
      if kind \<noteq> FailNone
      then (Some \<lparr> rs_StatusCode = hp_StatusCode resp, rs_Header = Some (hp_Header resp),
                   rs_Body = fst (ReadAll_Limit (hp_Body resp) (64 * 1024)), rs_Stream = None,
                   rs_Usage = None, rs_Failure = kind, rs_Latency = latency \<rparr>, None)
      else if rq_Stream r
      then (Some \<lparr> rs_StatusCode = hp_StatusCode resp, rs_Header = Some (hp_Header resp),
                   rs_Body = [], rs_Stream = Some (hp_Body resp), rs_Usage = None,
                   rs_Failure = FailNone, rs_Latency = latency \<rparr>, None)
      else case ReadAll_Limit (hp_Body resp) (wrap64 (maxResponseBytes + 1)) of
             (body, Some err) \<Rightarrow>
               (Some (failed_response 0 FailTransport latency),
                Some (Wrapf (''reading upstream body: %w'', []) err))
           | (body, None) \<Rightarrow>
               if int (length body) > maxResponseBytes
               then (Some (failed_response (hp_StatusCode resp) FailServer latency),
                     Some ErrResponseTooLarge)
               else (Some \<lparr> rs_StatusCode = hp_StatusCode resp, rs_Header = Some (hp_Header resp),
                            rs_Body = body, rs_Stream = None, rs_Usage = extractUsage env body,
                            rs_Failure = FailNone, rs_Latency = latency \<rparr>, None))"

definition OpenAI_Do ::
  "'w upstream_env \<Rightarrow> int \<Rightarrow> 'w \<Rightarrow> Credential \<Rightarrow> Request \<Rightarrow> 'w \<times> Response option \<times> goerr option" where
  "OpenAI_Do env maxResponseBytes w0 cred r =
     (let (w1, started) = ue_now env w0;
          req = \<lparr> hq_method = ''POST'', hq_url = joinURL (cr_BaseURL cred) (rq_Path r),
                  hq_header = [], hq_body = rq_Body r \<rparr> in
      case ue_NewRequest env req of
        Some err \<Rightarrow> (w1, None, Some err)
      | None \<Rightarrow>
          (case ue_client_Do env w1 (do_request cred r) of
             (w2, Inl err) \<Rightarrow>
               (let (w3, ended) = ue_now env w2
                in (w3, Some (failed_response 0 FailTransport (ended - started)),
                    Some (Wrapf (''upstream unreachable: %w'', []) err)))
           | (w2, Inr resp) \<Rightarrow>
               (let (w3, ended) = ue_now env w2
                in (w3, read_response env maxResponseBytes r resp (ended - started)))))"

definition NewOpenAI :: "'w upstream_env \<Rightarrow> int \<Rightarrow> 'w Adapter" where
  "NewOpenAI env maxResponseBytes = \<lparr> ad_Kind = KindOpenAI,
     ad_ListModels = OpenAI_ListModels env maxResponseBytes,
     ad_Do = OpenAI_Do env maxResponseBytes \<rparr>"

section \<open>Vendors with an OpenAI-compatible endpoint\<close>

definition KindGemini :: string where
  "KindGemini = ''gemini''"

definition KindAnthropic :: string where
  "KindAnthropic = ''anthropic''"

definition defaultBaseURLs :: "(string, string) gomap" where
  "defaultBaseURLs =
     [(KindGemini, ''https://generativelanguage.googleapis.com/v1beta/openai/''),
      (KindAnthropic, ''https://api.anthropic.com/v1/'')]"

definition DefaultBaseURL :: "string \<Rightarrow> string option" where
  "DefaultBaseURL kind = map_of defaultBaseURLs (ToLower (TrimSpace kind))"

definition Compat_ListModels ::
  "'w Adapter \<Rightarrow> 'w \<Rightarrow> Credential \<Rightarrow> 'w \<times> (goerr + Model list)" where
  "Compat_ListModels base w cred =
     (case ad_ListModels base w cred of
        (w1, Inl err) \<Rightarrow> (w1, Inl err)
      | (w1, Inr models) \<Rightarrow>
          (w1, Inr (map (\<lambda>m. m\<lparr>md_ID := TrimPrefix (md_ID m) ''models/''\<rparr>) models)))"

definition NewCompat :: "string \<Rightarrow> 'w Adapter \<Rightarrow> 'w Adapter" where
  "NewCompat kind base = base\<lparr>ad_Kind := kind, ad_ListModels := Compat_ListModels base\<rparr>"

section \<open>What an adapter promises\<close>

text \<open>The contract the dispatcher relies on: an answer is classified by its status, an error beside a response
  means that the exchange failed or that the body was too large, and there is no silence.\<close>

locale http_adapter =
  fixes exchange :: "'w \<Rightarrow> Credential \<Rightarrow> Request \<Rightarrow> 'w \<times> Response option \<times> goerr option"
  assumes answered: "exchange w c r = (w', Some resp, None) \<Longrightarrow> rs_Failure resp = Classify (rs_StatusCode resp)"
    and failed: "exchange w c r = (w', Some resp, Some e) \<Longrightarrow>
      rs_Failure resp = FailTransport \<or> errors_Is e ErrResponseTooLarge"
    and never_silent: "exchange w c r \<noteq> (w', None, None)"
begin

lemma success_status:
  "exchange w c r = (w', Some resp, None) \<Longrightarrow> rs_Failure resp = FailNone \<Longrightarrow>
   200 \<le> rs_StatusCode resp \<and> rs_StatusCode resp < 300"
  by (drule answered) (auto simp: Classify_def split: if_splits)

lemma client_status:
  "exchange w c r = (w', Some resp, None) \<Longrightarrow> rs_Failure resp = FailClient \<Longrightarrow>
   400 \<le> rs_StatusCode resp \<and> rs_StatusCode resp < 500 \<and> rs_StatusCode resp \<noteq> 429"
  by (drule answered) (auto simp: Classify_def split: if_splits)

end

lemma read_response_cases:
  "read_response env mx r hr lat = (resp, err) \<Longrightarrow> \<exists>x. resp = Some x \<and>
     (err = None \<and> rs_Failure x = Classify (rs_StatusCode x) \<or>
      err \<noteq> None \<and> (rs_Failure x = FailTransport \<or> err = Some ErrResponseTooLarge))"
  by (auto simp: read_response_def failed_response_def Let_def split: prod.splits option.splits if_splits)

lemma OpenAI_Do_cases:
  assumes "OpenAI_Do env mx w c r = (w', resp, err)"
  shows "(resp = None \<and> err \<noteq> None) \<or> (\<exists>x. resp = Some x \<and>
     (err = None \<and> rs_Failure x = Classify (rs_StatusCode x) \<or>
      err \<noteq> None \<and> (rs_Failure x = FailTransport \<or> err = Some ErrResponseTooLarge)))"
proof -
  have rr: "(w3, read_response env mx r hr lat) = (w', resp, err) \<Longrightarrow> read_response env mx r hr lat = (resp, err)"
    for w3 hr lat by simp
  show ?thesis
  proof (cases "ue_NewRequest env \<lparr> hq_method = ''POST'', hq_url = joinURL (cr_BaseURL c) (rq_Path r),
      hq_header = [], hq_body = rq_Body r \<rparr>")
    case None
    then show ?thesis using assms
      by (auto simp: OpenAI_Do_def Let_def failed_response_def split: prod.splits sum.splits
          dest!: rr read_response_cases)
  next
    case (Some e)
    then have "resp = None \<and> err = Some e" using assms by (simp add: OpenAI_Do_def Let_def split: prod.splits)
    then show ?thesis by simp
  qed
qed

interpretation oa: http_adapter "OpenAI_Do env maxResponseBytes" for env :: "'w upstream_env" and maxResponseBytes
proof unfold_locales
  fix w c r w' and resp :: Response
  assume "OpenAI_Do env maxResponseBytes w c r = (w', Some resp, None)"
  from OpenAI_Do_cases [OF this] show "rs_Failure resp = Classify (rs_StatusCode resp)" by simp
next
  fix w c r w' and resp :: Response and e
  assume "OpenAI_Do env maxResponseBytes w c r = (w', Some resp, Some e)"
  from OpenAI_Do_cases [OF this] show "rs_Failure resp = FailTransport \<or> errors_Is e ErrResponseTooLarge"
    by (auto simp: ErrResponseTooLarge_def)
next
  fix w c r w'
  show "OpenAI_Do env maxResponseBytes w c r \<noteq> (w', None, None)"
    using OpenAI_Do_cases [of env maxResponseBytes w c r w' None None] by auto
qed

text \<open>A response body is never truncated silently: for a non-streaming call that the upstream answers with a
  success, the adapter returns either the complete body, which is then within the limit, or the error
  \<open>ErrResponseTooLarge\<close>, exactly when the body exceeds the limit, or the error of reading it.\<close>

theorem no_silent_truncation:
  assumes "0 \<le> mx" "mx < 2 ^ 63 - 1" "\<not> rq_Stream r" "Classify (hp_StatusCode hr) = FailNone"
    and "read_response env mx r hr lat = (resp, err)"
  shows "(err = Some ErrResponseTooLarge \<and> int (length (br_data (hp_Body hr))) > mx) \<or>
    (\<exists>e. br_err (hp_Body hr) = Some e \<and> err = Some (Wrapf (''reading upstream body: %w'', []) e) \<and>
       int (length (br_data (hp_Body hr))) \<le> mx) \<or>
    (err = None \<and> (\<exists>x. resp = Some x \<and> rs_Body x = br_data (hp_Body hr) \<and> int (length (rs_Body x)) \<le> mx \<and>
       rs_StatusCode x = hp_StatusCode hr \<and> rs_Failure x = FailNone))"
proof -
  have w: "wrap64 (mx + 1) = mx + 1" using assms(1,2) by (intro wrap64_id) auto
  show ?thesis
  proof (cases "int (length (br_data (hp_Body hr))) > mx")
    case True
    then have "length (take (nat (mx + 1)) (br_data (hp_Body hr))) = nat (mx + 1)" by simp
    then have l: "int (length (take (nat (mx + 1)) (br_data (hp_Body hr)))) > mx" using assms(1) by simp
    have "\<not> int (length (br_data (hp_Body hr))) < mx + 1" using True by simp
    then have "err = Some ErrResponseTooLarge" using assms(3-5) l
      by (simp add: read_response_def ReadAll_Limit_def w)
    then show ?thesis using True by simp
  next
    case False
    then have "take (nat (mx + 1)) (br_data (hp_Body hr)) = br_data (hp_Body hr)" by simp
    then show ?thesis using False assms(3-5)
      by (cases "br_err (hp_Body hr)") (auto simp: read_response_def ReadAll_Limit_def w Let_def)
  qed
qed

definition example_upstream :: "time upstream_env" where
  "example_upstream = \<lparr> ue_now = (\<lambda>w. (w + 1, w)), ue_NewRequest = (\<lambda>_. None),
     ue_client_Do = (\<lambda>w q. (w + 5, Inr \<lparr> hp_StatusCode = 200, hp_Header = [],
        hp_Body = \<lparr> br_data = ''hello'', br_err = None \<rparr> \<rparr>)),
     ue_unmarshalModels = (\<lambda>_. Inr []), ue_unmarshalUsage = (\<lambda>_. Inr None) \<rparr>"

definition example_http :: http_response where
  "example_http = \<lparr> hp_StatusCode = 200, hp_Header = [], hp_Body = \<lparr> br_data = ''hello'', br_err = None \<rparr> \<rparr>"

definition example_chat :: Request where
  "example_chat = \<lparr> rq_Model = ''m1'', rq_Body = ''q'', rq_Stream = False, rq_Path = ''/chat'' \<rparr>"

theorem no_silent_truncation_witness:
  "snd (read_response example_upstream 3 example_chat example_http 7) = Some ErrResponseTooLarge"
proof -
  obtain resp err where r: "read_response example_upstream 3 example_chat example_http 7 = (resp, err)" by fastforce
  have "\<not> rq_Stream example_chat" "Classify (hp_StatusCode example_http) = FailNone"
    by (simp_all add: example_chat_def example_http_def Classify_def)
  moreover have "int (length (br_data (hp_Body example_http))) > 3" by (simp add: example_http_def)
  ultimately show ?thesis using no_silent_truncation [OF _ _ _ _ r] r by auto
qed

end
