(* ===== verification/Model_Catalog.thy ===== *)
theory Model_Catalog
  imports Upstream Memory_Store
begin

text \<open>
  The per-tenant model catalog, \<open>gateway/internal/catalog/catalog.go\<close>.

  The catalog keeps one optional snapshot per tenant. A method holds the tenant's lock for its whole
  body, so it is one step on the record \<open>Catalog\<close>; the providers are polled through their adapters,
  which thread the world. The calls of the \<open>OnChange\<close> hook are collected in order in \<open>ct_changes\<close>. The
  reads of the store that may fail are a record of functions, \<open>store_reads\<close>, and \<open>memory_reads\<close> is that record
  for the in-memory store. What an error prints as is the argument \<open>errText\<close>.
\<close>

record store_reads =
  sr_ListProviders :: "string \<Rightarrow> goerr + Provider list"
  sr_ListAliases :: "string \<Rightarrow> goerr + Alias list"
  sr_ListRoutes :: "string \<Rightarrow> goerr + Route list"

definition memory_reads :: "Memory \<Rightarrow> store_reads" where
  "memory_reads m = \<lparr> sr_ListProviders = (\<lambda>t. Inr (ListProviders t m)),
     sr_ListAliases = (\<lambda>t. Inr (ListAliases t m)), sr_ListRoutes = (\<lambda>t. Inr (ListRoutes t m)) \<rparr>"

section \<open>Snapshots\<close>

record Entry =
  en_Model :: Model
  en_ProviderID :: string

abbreviation en_ID :: "Entry \<Rightarrow> string" where
  "en_ID e \<equiv> md_ID (en_Model e)"

abbreviation en_Provider :: "Entry \<Rightarrow> string" where
  "en_Provider e \<equiv> md_Provider (en_Model e)"

record Snapshot =
  sn_Models :: "Entry list"
  sn_byID :: "(string, Entry) gomap"
  sn_FetchedAt :: time
  sn_Stale :: bool
  sn_Errors :: "(string, string) gomap"

definition Lookup :: "Snapshot \<Rightarrow> string \<Rightarrow> Entry option" where
  "Lookup s ref = map_of (sn_byID s) ref"

definition Age :: "Snapshot \<Rightarrow> time \<Rightarrow> duration" where
  "Age s now = (if sn_FetchedAt s = zero_time then 0 else now - sn_FetchedAt s)"

section \<open>Prices\<close>

record Price =
  pr_Input :: rat
  pr_Output :: rat

definition foldKey :: "string \<Rightarrow> string" where
  "foldKey s = ToLower (TrimSpace s)"

definition normalizePrices ::
  "(string, (string, Price) gomap) gomap \<Rightarrow> (string, (string, Price) gomap) gomap" where
  "normalizePrices inp =
     foldl (\<lambda>out (kind, models).
        AList.update (foldKey kind)
          (foldl (\<lambda>byModel (mid, price). AList.update (foldKey mid) price byModel) [] models) out)
       [] inp"

record Options =
  op_TTL :: duration
  op_StaleWarnAfter :: duration
  op_ProviderTimeout :: duration
  op_Prices :: "(string, (string, Price) gomap) gomap"
  op_OnChange :: bool

record 'w Catalog =
  ct_registry :: "'w Registry"
  ct_opts :: Options
  ct_perTenant :: "(string, Snapshot option) gomap"
  ct_changes :: "(string \<times> string list \<times> string list) list"

definition New :: "'w Registry \<Rightarrow> Options \<Rightarrow> 'w Catalog" where
  "New reg opts =
     (let o1 = opts\<lparr>op_Prices := normalizePrices (op_Prices opts)\<rparr>;
          o2 = (if op_TTL o1 \<le> 0 then o1\<lparr>op_TTL := 60 * Minute\<rparr> else o1);
          o3 = (if op_ProviderTimeout o2 \<le> 0 then o2\<lparr>op_ProviderTimeout := 10 * Second\<rparr> else o2)
      in \<lparr> ct_registry = reg, ct_opts = o3, ct_perTenant = [], ct_changes = [] \<rparr>)"

definition priceFor :: "'w Catalog \<Rightarrow> string \<Rightarrow> string \<Rightarrow> Price option" where
  "priceFor c kind modelID =
     (case map_of (op_Prices (ct_opts c)) (foldKey kind) of
        None \<Rightarrow> None
      | Some byModel \<Rightarrow> map_of byModel (foldKey modelID))"

section \<open>Polling\<close>

definition priced :: "'w Catalog \<Rightarrow> Provider \<Rightarrow> Model \<Rightarrow> Model" where
  "priced c p m0 =
     (let m = m0\<lparr>md_Provider := p_Name p\<rparr> in
      case priceFor c (p_Kind p) (md_ID m) of
        Some price \<Rightarrow> m\<lparr>md_InputCostPerMTok := pr_Input price, md_OutputCostPerMTok := pr_Output price\<rparr>
      | None \<Rightarrow> m)"

definition add_model :: "'w Catalog \<Rightarrow> Provider \<Rightarrow> Snapshot \<Rightarrow> Model \<Rightarrow> Snapshot" where
  \<comment> \<open>the body of the loop over one provider's models\<close>
  "add_model c p snap m0 =
     (let m = priced c p m0;
          entry = \<lparr> en_Model = m, en_ProviderID = p_ID p \<rparr>;
          snap1 = (if map_of (sn_byID snap) (md_ID m) = None
                   then snap\<lparr>sn_byID := AList.update (md_ID m) entry (sn_byID snap),
                             sn_Models := sn_Models snap @ [entry]\<rparr>
                   else snap);
          qualified = p_Name p @ ''/'' @ md_ID m
      in if map_of (sn_byID snap1) qualified = None
         then snap1\<lparr>sn_byID := AList.update qualified (entry\<lparr>en_Model := m\<lparr>md_ID := qualified\<rparr>\<rparr>)
                                 (sn_byID snap1)\<rparr>
         else snap1)"

fun poll_providers ::
  "(goerr \<Rightarrow> string) \<Rightarrow> 'w Catalog \<Rightarrow> 'w \<Rightarrow> Snapshot \<Rightarrow> Provider list \<Rightarrow> 'w \<times> Snapshot" where
  "poll_providers errText c w snap [] = (w, snap)"
| "poll_providers errText c w snap (p # ps) =
     (if \<not> p_Enabled p \<or> p_Keys p = [] then poll_providers errText c w snap ps
      else case Registry_Get (ct_registry c) (p_Kind p) of
             None \<Rightarrow>
               poll_providers errText c w
                 (snap\<lparr>sn_Errors := AList.update (p_Name p)
                    (errText (Errorf (''no adapter for kind %q'', [FStr (p_Kind p)]))) (sn_Errors snap)\<rparr>) ps
           | Some adapter \<Rightarrow>
               (case ad_ListModels adapter w \<lparr>cr_BaseURL = p_BaseURL p, cr_APIKey = hd (p_Keys p)\<rparr> of
                  (w1, Inl err) \<Rightarrow>
                    poll_providers errText c w1
                      (snap\<lparr>sn_Errors := AList.update (p_Name p) (errText err) (sn_Errors snap)\<rparr>) ps
                | (w1, Inr models) \<Rightarrow>
                    poll_providers errText c w1 (foldl (add_model c p) snap models) ps))"

fun join_with :: "string \<Rightarrow> string list \<Rightarrow> string" where
  "join_with sep [] = []"
| "join_with sep [s] = s"
| "join_with sep (s # t # ss) = s @ sep @ join_with sep (t # ss)"

definition sort_strings :: "string list \<Rightarrow> string list" where
  "sort_strings xs = sort_slice (\<lambda>x y. x < y) xs"

definition joinErrors :: "(string, string) gomap \<Rightarrow> string" where
  "joinErrors errs =
     join_with ''; ''
       (map (\<lambda>name. name @ '': '' @ (case map_of errs name of Some t \<Rightarrow> t | None \<Rightarrow> []))
         (sort_strings (map fst errs)))"

definition entry_less :: "Entry \<Rightarrow> Entry \<Rightarrow> bool" where
  "entry_less x y =
     (if en_Provider x \<noteq> en_Provider y then en_Provider x < en_Provider y else en_ID x < en_ID y)"

definition refresh ::
  "(goerr \<Rightarrow> string) \<Rightarrow> ('w \<Rightarrow> 'w \<times> time) \<Rightarrow> store_reads \<Rightarrow> 'w Catalog \<Rightarrow> 'w \<Rightarrow> string
    \<Rightarrow> 'w \<times> (goerr + Snapshot)" where
  "refresh errText now st c w tenantID =
     (case sr_ListProviders st tenantID of
        Inl err \<Rightarrow> (w, Inl (Wrapf (''catalog: listing providers: %w'', []) err))
      | Inr providers \<Rightarrow>
          (let (w1, t) = now w;
               (w2, snap) = poll_providers errText c w1
                  \<lparr> sn_Models = [], sn_byID = [], sn_FetchedAt = t, sn_Stale = False, sn_Errors = [] \<rparr>
                  providers
           in if sn_Models snap = [] \<and> sn_Errors snap \<noteq> []
              then (w2, Inl (Errorf (''catalog: every provider failed to refresh: %s'',
                                     [FStr (joinErrors (sn_Errors snap))])))
              else (w2, Inr (snap\<lparr>sn_Models := sort_slice entry_less (sn_Models snap)\<rparr>))))"

definition diff :: "Snapshot \<Rightarrow> Snapshot \<Rightarrow> string list \<times> string list" where
  "diff old fresh =
     (let oldIDs = map en_ID (sn_Models old);
          freshIDs = map en_ID (sn_Models fresh)
      in (sort_strings (filter (\<lambda>x. x \<notin> set oldIDs) freshIDs),
          sort_strings (filter (\<lambda>x. x \<notin> set freshIDs) (remdups oldIDs))))"

section \<open>The cache\<close>

definition state_of :: "'w Catalog \<Rightarrow> string \<Rightarrow> Snapshot option" where
  \<comment> \<open>the tenant's state, created empty on first use\<close>
  "state_of c tenantID = (case map_of (ct_perTenant c) tenantID of None \<Rightarrow> None | Some s \<Rightarrow> s)"

definition set_snapshot :: "'w Catalog \<Rightarrow> string \<Rightarrow> Snapshot option \<Rightarrow> 'w Catalog" where
  "set_snapshot c tenantID s = c\<lparr>ct_perTenant := AList.update tenantID s (ct_perTenant c)\<rparr>"

definition reload ::
  "(goerr \<Rightarrow> string) \<Rightarrow> ('w \<Rightarrow> 'w \<times> time) \<Rightarrow> store_reads \<Rightarrow> 'w Catalog \<Rightarrow> 'w \<Rightarrow> string
    \<Rightarrow> 'w \<times> 'w Catalog \<times> (goerr + Snapshot)" where
  "reload errText now st c w tenantID =
     (case refresh errText now st c w tenantID of
        (w1, Inl err) \<Rightarrow>
          (case state_of c tenantID of
             Some s \<Rightarrow> (let stale = s\<lparr>sn_Stale := True\<rparr>
                        in (w1, set_snapshot c tenantID (Some stale), Inr stale))
           | None \<Rightarrow> (w1, set_snapshot c tenantID None, Inl err))
      | (w1, Inr fresh) \<Rightarrow>
          (let c1 = (case state_of c tenantID of
                       Some s \<Rightarrow>
                         if op_OnChange (ct_opts c)
                         then (let (added, removed) = diff s fresh
                               in if added \<noteq> [] \<or> removed \<noteq> []
                                  then c\<lparr>ct_changes := ct_changes c @ [(tenantID, added, removed)]\<rparr>
                                  else c)
                         else c
                     | None \<Rightarrow> c)
           in (w1, set_snapshot c1 tenantID (Some fresh), Inr fresh)))"

definition Catalog_Get ::
  "(goerr \<Rightarrow> string) \<Rightarrow> ('w \<Rightarrow> 'w \<times> time) \<Rightarrow> store_reads \<Rightarrow> 'w Catalog \<Rightarrow> 'w \<Rightarrow> string
    \<Rightarrow> 'w \<times> 'w Catalog \<times> (goerr + Snapshot)" where
  "Catalog_Get errText now st c w tenantID =
     (case state_of c tenantID of
        Some s \<Rightarrow>
          (let (w1, t) = now w
           in if Age s t < op_TTL (ct_opts c) \<and> \<not> sn_Stale s then (w1, c, Inr s)
              else reload errText now st c w1 tenantID)
      | None \<Rightarrow> reload errText now st c w tenantID)"

definition Refresh ::
  "(goerr \<Rightarrow> string) \<Rightarrow> ('w \<Rightarrow> 'w \<times> time) \<Rightarrow> store_reads \<Rightarrow> 'w Catalog \<Rightarrow> 'w \<Rightarrow> string
    \<Rightarrow> 'w \<times> 'w Catalog \<times> (goerr + Snapshot)" where
  "Refresh errText now st c w tenantID = reload errText now st c w tenantID"

definition Invalidate :: "'w Catalog \<Rightarrow> string \<Rightarrow> 'w Catalog" where
  "Invalidate c tenantID = set_snapshot c tenantID None"

record CatalogAge =
  ca_TenantID :: string
  ca_Provider :: string
  ca_Age :: duration

fun provider_ages :: "string \<Rightarrow> duration \<Rightarrow> string list \<Rightarrow> Entry list \<Rightarrow> CatalogAge list" where
  \<comment> \<open>the loop over one snapshot's models; the third argument is \<open>seen\<close>\<close>
  "provider_ages tenantID age seen [] = []"
| "provider_ages tenantID age seen (e # es) =
     (if en_Provider e = [] \<or> en_Provider e \<in> set seen then provider_ages tenantID age seen es
      else \<lparr>ca_TenantID = tenantID, ca_Provider = en_Provider e, ca_Age = age\<rparr> #
             provider_ages tenantID age (en_Provider e # seen) es)"

definition Ages :: "'w Catalog \<Rightarrow> time \<Rightarrow> CatalogAge list" where
  "Ages c now =
     concat (map (\<lambda>(tenantID, s). case s of
                    None \<Rightarrow> []
                  | Some snap \<Rightarrow> provider_ages tenantID (Age snap now) [] (sn_Models snap))
              (ct_perTenant c))"

fun Index_char :: "string \<Rightarrow> char \<Rightarrow> nat option" where
  \<comment> \<open>\<open>strings.Index\<close> of one byte\<close>
  "Index_char [] c = None"
| "Index_char (x # xs) c = (if x = c then Some 0 else map_option Suc (Index_char xs c))"

definition ProviderOf :: "string \<Rightarrow> string \<times> string" where
  "ProviderOf ref =
     (case Index_char ref (CHR ''/'') of
        Some i \<Rightarrow> if i > 0 then (take i ref, drop (i + 1) ref) else ([], ref)
      | None \<Rightarrow> ([], ref))"

section \<open>What the catalog promises\<close>

definition claims :: "'w Catalog \<Rightarrow> Provider \<Rightarrow> Model list \<Rightarrow> (string \<times> Entry) list" where
  \<comment> \<open>the names one provider asks for, in the order it asks: for each model the bare and the qualified id\<close>
  "claims c p ms = concat (map (\<lambda>m0. let m = priced c p m0; e = \<lparr> en_Model = m, en_ProviderID = p_ID p \<rparr>;
       q = p_Name p @ ''/'' @ md_ID m in [(md_ID m, e), (q, e\<lparr>en_Model := m\<lparr>md_ID := q\<rparr>\<rparr>)]) ms)"

fun polled :: "'w Catalog \<Rightarrow> 'w \<Rightarrow> Provider list \<Rightarrow> (Provider \<times> Model list) list" where
  \<comment> \<open>the providers that answered, with what they listed, in registration order\<close>
  "polled c w [] = []"
| "polled c w (p # ps) =
     (if \<not> p_Enabled p \<or> p_Keys p = [] then polled c w ps
      else case Registry_Get (ct_registry c) (p_Kind p) of
             None \<Rightarrow> polled c w ps
           | Some adapter \<Rightarrow>
               (case ad_ListModels adapter w \<lparr>cr_BaseURL = p_BaseURL p, cr_APIKey = hd (p_Keys p)\<rparr> of
                  (w1, Inl err) \<Rightarrow> polled c w1 ps
                | (w1, Inr models) \<Rightarrow> (p, models) # polled c w1 ps))"

definition all_claims :: "'w Catalog \<Rightarrow> (Provider \<times> Model list) list \<Rightarrow> (string \<times> Entry) list" where
  "all_claims c xs = concat (map (\<lambda>(p, ms). claims c p ms) xs)"

definition wf_models :: "Snapshot \<Rightarrow> bool" where
  "wf_models s \<longleftrightarrow> distinct (map en_ID (sn_Models s)) \<and>
     (\<forall>e \<in> set (sn_Models s). map_of (sn_byID s) (en_ID e) = Some e)"

lemma add_model_byID:
  "map_of (sn_byID (add_model c p s m)) k = map_of (sn_byID s @ claims c p [m]) k"
  by (auto simp: add_model_def claims_def Let_def map_add_def split: option.splits)

lemma add_models_byID:
  "map_of (sn_byID (foldl (add_model c p) s ms)) k = map_of (sn_byID s @ claims c p ms) k"
proof (induction ms arbitrary: s)
  case (Cons m ms)
  have "claims c p (m # ms) = claims c p [m] @ claims c p ms" by (simp add: claims_def)
  then show ?case using Cons [of "add_model c p s m"]
    by (simp add: map_add_def add_model_byID split: option.splits)
qed (simp add: claims_def)

lemma poll_byID:
  "map_of (sn_byID (snd (poll_providers errText c w s ps))) k =
   map_of (sn_byID s @ all_claims c (polled c w ps)) k"
proof (induction errText c w s ps rule: poll_providers.induct)
  case (2 errText c w snap p ps)
  then show ?case
    by (auto simp: all_claims_def map_add_def add_models_byID split: option.splits sum.splits prod.splits)
qed (simp add: all_claims_def)

lemma wf_models_add: "wf_models s \<Longrightarrow> wf_models (add_model c p s m)"
  by (auto simp: wf_models_def add_model_def Let_def)

lemma wf_models_adds: "wf_models s \<Longrightarrow> wf_models (foldl (add_model c p) s ms)"
  by (induction ms arbitrary: s) (simp_all add: wf_models_add)

lemma wf_models_poll: "wf_models s \<Longrightarrow> wf_models (snd (poll_providers errText c w s ps))"
proof (induction errText c w s ps rule: poll_providers.induct)
  case (2 errText c w snap p ps)
  have "wf_models (snap\<lparr>sn_Errors := E\<rparr>)" for E using 2(5) by (simp add: wf_models_def)
  with 2 show ?case by (auto simp: wf_models_adds split: option.splits sum.splits prod.splits)
qed simp

lemma refresh_Inr:
  assumes "refresh errText now st c w tid = (w', Inr snap)"
  obtains ps w1 t s0 where "sr_ListProviders st tid = Inr ps" "now w = (w1, t)"
    "poll_providers errText c w1 \<lparr> sn_Models = [], sn_byID = [], sn_FetchedAt = t, sn_Stale = False,
       sn_Errors = [] \<rparr> ps = (w', s0)"
    "snap = s0\<lparr>sn_Models := sort_slice entry_less (sn_Models s0)\<rparr>"
  using assms
  by (auto simp: refresh_def Let_def split: sum.splits prod.splits if_splits)

interpretation el: go_less entry_less
  by unfold_locales (auto simp: entry_less_def split: if_splits)

text \<open>The refreshed catalog is the first claim to every name: looking a reference up gives the entry of
  the earliest provider, in registration order, that answered the poll and listed that bare or
  qualified id, and nothing when none did; the listed models have distinct ids, each is what its own
  id looks up, and they are sorted by provider and then id.\<close>

theorem catalog_first_claim:
  assumes "refresh errText now st c w tid = (w', Inr snap)"
  shows "\<exists>ps w1 t. sr_ListProviders st tid = Inr ps \<and> now w = (w1, t) \<and>
    (\<forall>ref. Lookup snap ref = map_of (all_claims c (polled c w1 ps)) ref) \<and>
    distinct (map en_ID (sn_Models snap)) \<and>
    (\<forall>e \<in> set (sn_Models snap). Lookup snap (en_ID e) = Some e) \<and>
    sorted_wrt (\<lambda>a b. \<not> entry_less b a) (sn_Models snap)"
  using assms
proof (cases rule: refresh_Inr)
  case (1 ps w1 t s0)
  let ?s = "\<lparr> sn_Models = [], sn_byID = [], sn_FetchedAt = t, sn_Stale = False, sn_Errors = [] \<rparr>"
  have s0: "s0 = snd (poll_providers errText c w1 ?s ps)" using 1(3) by simp
  have "Lookup snap ref = map_of (all_claims c (polled c w1 ps)) ref" for ref
    using 1(4) by (simp add: Lookup_def s0 poll_byID)
  moreover have wf: "wf_models s0" unfolding s0 by (rule wf_models_poll) (simp add: wf_models_def)
  moreover have "distinct (map en_ID (sn_Models snap))"
  proof -
    have "mset (map en_ID (sn_Models snap)) = mset (map en_ID (sn_Models s0))" by (simp add: 1(4))
    then show ?thesis using wf unfolding wf_models_def by (metis mset_eq_imp_distinct_iff)
  qed
  moreover have "\<forall>e \<in> set (sn_Models snap). Lookup snap (en_ID e) = Some e"
    using wf by (simp add: 1(4) wf_models_def Lookup_def)
  moreover have "sorted_wrt (\<lambda>a b. \<not> entry_less b a) (sn_Models snap)"
    by (simp add: 1(4) el.sorted_sort_slice)
  ultimately show ?thesis using 1(1,2) by blast
qed

definition example_model :: "string \<Rightarrow> Model" where
  "example_model mid = \<lparr> md_ID = mid, md_Provider = [], md_ContextWindow = 8000, md_MaxOutputTokens = 0,
     md_Capabilities = [''chat''], md_InputCostPerMTok = 2, md_OutputCostPerMTok = 4, md_Deprecated = False \<rparr>"

definition example_adapter :: "Model list \<Rightarrow> Response option \<times> goerr option \<Rightarrow> time Adapter" where
  \<comment> \<open>an adapter whose world is the clock\<close>
  "example_adapter ms res = \<lparr> ad_Kind = ''openai'', ad_ListModels = (\<lambda>w cred. (w + 1, Inr ms)),
     ad_Do = (\<lambda>w cred r. (w + 1, res)) \<rparr>"

definition example_provider :: "string \<Rightarrow> Provider" where
  "example_provider name = \<lparr> p_ID = ''p-'' @ name, p_TenantID = ''t1'', p_Name = name, p_Kind = ''openai'',
     p_BaseURL = ''http://up'', p_Enabled = True, p_KeyStrategy = ''round_robin'',
     p_Keys = [''k1'', ''k2''], p_KeyPrefixes = [], p_CreatedAt = 0 \<rparr>"

definition example_options :: Options where
  "example_options = \<lparr> op_TTL = 100, op_StaleWarnAfter = 0, op_ProviderTimeout = 0, op_Prices = [],
     op_OnChange = True \<rparr>"

definition example_reads :: store_reads where
  "example_reads = \<lparr> sr_ListProviders = (\<lambda>_. Inr [example_provider ''a'', example_provider ''b'']),
     sr_ListAliases = (\<lambda>_. Inr []), sr_ListRoutes = (\<lambda>_. Inr []) \<rparr>"

definition example_clock :: "time \<Rightarrow> time \<times> time" where
  "example_clock w = (w + 1, w)"

definition example_catalog :: "time Catalog" where
  "example_catalog = New [(''openai'', example_adapter [example_model ''m1''] (None, None))] example_options"

definition example_snapshot :: Snapshot where
  "example_snapshot = (case refresh (\<lambda>_. []) example_clock example_reads example_catalog 7 ''t1'' of
     (w, Inr s) \<Rightarrow> s
   | (w, Inl e) \<Rightarrow> \<lparr> sn_Models = [], sn_byID = [], sn_FetchedAt = 0, sn_Stale = True, sn_Errors = [] \<rparr>)"

lemma example_refresh:
  "refresh (\<lambda>_. []) example_clock example_reads example_catalog 7 ''t1'' = (10, Inr example_snapshot)"
  by code_simp

theorem catalog_first_claim_witness:
  "Lookup example_snapshot ''m1'' = map_of (all_claims example_catalog
       (polled example_catalog 8 [example_provider ''a'', example_provider ''b''])) ''m1'' \<and>
   map_option en_Provider (Lookup example_snapshot ''m1'') = Some ''a'' \<and>
   map_option en_Provider (Lookup example_snapshot ''b/m1'') = Some ''b''"
proof -
  have "map_option en_Provider (Lookup example_snapshot ''m1'') = Some ''a''"
    "map_option en_Provider (Lookup example_snapshot ''b/m1'') = Some ''b''" by code_simp+
  then show ?thesis
    using catalog_first_claim [OF example_refresh] by (auto simp: example_reads_def example_clock_def)
qed

text \<open>The catalog prefers stale data to no data, and never fails once it has any: when a tenant has
  a snapshot, \<open>Get\<close> succeeds whatever the providers answer; within the TTL of a fresh snapshot it returns
  that snapshot and does nothing but read the clock; when the poll fails it returns the same models
  and lookups marked stale, keeping the age; and no call for one tenant changes another's snapshot.\<close>

theorem catalog_stale_over_failure:
  assumes "state_of c tid = Some s" and g: "Catalog_Get errText now st c w tid = (w', c', r)"
  shows "(\<exists>snap. r = Inr snap \<and> state_of c' tid = Some snap) \<and>
    (Age s (snd (now w)) < op_TTL (ct_opts c) \<and> \<not> sn_Stale s \<longrightarrow> w' = fst (now w) \<and> c' = c \<and> r = Inr s) \<and>
    (\<not> (Age s (snd (now w)) < op_TTL (ct_opts c) \<and> \<not> sn_Stale s) \<and>
       (\<exists>w2 e. refresh errText now st c (fst (now w)) tid = (w2, Inl e)) \<longrightarrow> r = Inr (s\<lparr>sn_Stale := True\<rparr>)) \<and>
    (\<forall>other. other \<noteq> tid \<longrightarrow> state_of c' other = state_of c other)"
proof (cases "Age s (snd (now w)) < op_TTL (ct_opts c) \<and> \<not> sn_Stale s")
  case True
  then show ?thesis using assms by (auto simp: Catalog_Get_def Let_def split: prod.splits)
next
  case False
  then have "reload errText now st c (fst (now w)) tid = (w', c', r)"
    using assms by (auto simp: Catalog_Get_def Let_def split: prod.splits)
  then show ?thesis using False assms(1)
    by (auto simp: reload_def Let_def set_snapshot_def state_of_def split: prod.splits sum.splits if_splits
        option.splits)
qed

theorem catalog_stale_over_failure_witness:
  "snd (snd (Catalog_Get (\<lambda>_. []) example_clock (example_reads\<lparr>sr_ListProviders := (\<lambda>_. Inl ErrConflict)\<rparr>)
      (set_snapshot example_catalog ''t1'' (Some example_snapshot)) 900 ''t1''))
   = Inr (example_snapshot\<lparr>sn_Stale := True\<rparr>)"
proof -
  let ?st = "example_reads\<lparr>sr_ListProviders := (\<lambda>_. Inl ErrConflict)\<rparr>"
  let ?c = "set_snapshot example_catalog ''t1'' (Some example_snapshot)"
  obtain w' c' r where g: "Catalog_Get (\<lambda>_. []) example_clock ?st ?c 900 ''t1'' = (w', c', r)"
    by (metis prod.exhaust)
  have s: "state_of ?c ''t1'' = Some example_snapshot" by (simp add: state_of_def set_snapshot_def)
  have "\<not> (Age example_snapshot (snd (example_clock 900)) < op_TTL (ct_opts ?c))" by code_simp
  moreover have "\<exists>w2 e. refresh (\<lambda>_. []) example_clock ?st ?c (fst (example_clock 900)) ''t1'' = (w2, Inl e)"
    by (simp add: refresh_def)
  ultimately show ?thesis using catalog_stale_over_failure [OF s g] g by simp
qed

lemma set_sort_strings [simp]: "set (sort_strings xs) = set xs"
  by (simp add: sort_strings_def)

text \<open>A change report is exact: \<open>diff\<close> lists, sorted and without repetition, precisely the model ids
  that are new and precisely those that are gone, so no event is raised for a model that did not
  move, and comparing a snapshot with itself reports nothing.\<close>

theorem diff_exact:
  assumes "distinct (map en_ID (sn_Models fresh))" "diff old fresh = (added, removed)"
  shows "set added = en_ID ` set (sn_Models fresh) - en_ID ` set (sn_Models old) \<and>
    set removed = en_ID ` set (sn_Models old) - en_ID ` set (sn_Models fresh) \<and>
    distinct added \<and> distinct removed \<and>
    sorted_wrt (\<lambda>a b. \<not> b < a) added \<and> sorted_wrt (\<lambda>a b. \<not> b < a) removed \<and> diff fresh fresh = ([], [])"
proof -
  have d: "distinct (sort_strings xs)" if "distinct xs" for xs
    using that unfolding sort_strings_def by (metis mset_eq_imp_distinct_iff mset_sort_slice)
  have "sorted_wrt (\<lambda>a b. \<not> b < a) (sort_strings xs)" for xs
    unfolding sort_strings_def by (rule str_less.sorted_sort_slice)
  moreover have "diff fresh fresh = ([], [])"
    by (auto simp: diff_def Let_def sort_strings_def sort_slice_def filter_empty_conv)
  ultimately show ?thesis
    using assms by (auto simp: diff_def Let_def intro!: d)
qed

theorem diff_exact_witness:
  "diff (example_snapshot\<lparr>sn_Models := []\<rparr>) example_snapshot = ([''m1''], [])"
proof -
  have d: "distinct (map en_ID (sn_Models example_snapshot))"
    and e: "diff (example_snapshot\<lparr>sn_Models := []\<rparr>) example_snapshot = ([''m1''], [])" by code_simp+
  show ?thesis using diff_exact [OF d e] e by simp
qed

end
