(* ===== verification/Breaker.thy ===== *)
theory Breaker
  imports Go_Prelude
begin

text \<open>
  The circuit breaker, \<open>gateway/internal/routing/breaker.go\<close>.

  \<open>Breaker\<close> is the struct with its map of entries; the clock is the argument \<open>now\<close>. The calls of
  the \<open>onChange\<close> callback are kept in order in \<open>fired\<close>. Every method takes the lock for its whole
  body, so each is one atomic step, and a concurrent execution is a sequence of such steps
  (\<open>breaker_op\<close>, \<open>run_ops\<close>, \<open>reach\<close>).

  The lemmas: the breaker of one key never depends on another key (the laws of the locale
  \<open>circuit_breaker\<close>, which the dispatcher rests on); the invariant of every reachable breaker; when
  exactly it trips; that an open breaker costs nothing and admits one probe after its cool-off;
  that the published state agrees with what \<open>Allow\<close> answers.
\<close>

section \<open>State\<close>

datatype State = StateClosed | StateOpen | StateHalfOpen

definition State_String :: "State \<Rightarrow> string" where
  "State_String s =
     (case s of StateClosed \<Rightarrow> ''closed'' | StateOpen \<Rightarrow> ''open'' | StateHalfOpen \<Rightarrow> ''half_open'')"

definition State_Health :: "State \<Rightarrow> string" where
  "State_Health s = (if s = StateHalfOpen then ''half-open'' else State_String s)"

definition Gauge :: "State \<Rightarrow> int" where
  "Gauge s = (case s of StateHalfOpen \<Rightarrow> 1 | StateOpen \<Rightarrow> 2 | _ \<Rightarrow> 0)"

definition BlockRank :: "State \<Rightarrow> int" where
  "BlockRank s = (case s of StateOpen \<Rightarrow> 2 | StateHalfOpen \<Rightarrow> 1 | _ \<Rightarrow> 0)"

record breakerEntry =
  be_failures :: "time list"
  be_state :: State
  be_openedAt :: time
  be_probing :: bool

record Breaker =
  b_entries :: "(string, breakerEntry) gomap"
  b_threshold :: int
  b_window :: duration
  b_openFor :: duration
  b_onChange :: bool \<comment> \<open>the callback is not nil\<close>
  b_fired :: "(string \<times> State \<times> State) list" \<comment> \<open>its calls so far\<close>

definition NewBreaker :: "int \<Rightarrow> duration \<Rightarrow> duration \<Rightarrow> bool \<Rightarrow> Breaker" where
  "NewBreaker threshold window openFor onChange =
     \<lparr> b_entries = [],
       b_threshold = (if threshold < 1 then 5 else threshold),
       b_window = (if window \<le> 0 then 30 * Second else window),
       b_openFor = (if openFor \<le> 0 then 60 * Second else openFor),
       b_onChange = onChange, b_fired = [] \<rparr>"

section \<open>Keys\<close>

definition Key :: "string \<Rightarrow> string \<Rightarrow> string \<Rightarrow> string" where
  "Key tenantID providerName model = tenantID @ ''/'' @ providerName @ ''/'' @ model"

fun SplitN :: "string \<Rightarrow> char \<Rightarrow> nat \<Rightarrow> string list" where
  \<comment> \<open>\<open>strings.SplitN\<close> with a separator of one byte and a positive count\<close>
  "SplitN s c 0 = []"
| "SplitN s c (Suc 0) = [s]"
| "SplitN s c (Suc (Suc n)) =
     (case dropWhile (\<lambda>x. x \<noteq> c) s of
        [] \<Rightarrow> [s]
      | _ # rest \<Rightarrow> takeWhile (\<lambda>x. x \<noteq> c) s # SplitN rest c (Suc n))"

definition SplitKey :: "string \<Rightarrow> string \<times> string \<times> string" where
  "SplitKey key =
     (case SplitN key (CHR ''/'') 3 of
        [tenantID, providerName, model] \<Rightarrow> (tenantID, providerName, model)
      | _ \<Rightarrow> ([], [], key))"

section \<open>Operations\<close>

definition put_entry :: "Breaker \<Rightarrow> string \<Rightarrow> breakerEntry \<Rightarrow> Breaker" where
  "put_entry b key e = b\<lparr>b_entries := AList.update key e (b_entries b)\<rparr>"

definition transition :: "Breaker \<Rightarrow> string \<Rightarrow> breakerEntry \<Rightarrow> State \<Rightarrow> Breaker \<times> breakerEntry" where
  "transition b key e to =
     (let frm = be_state e in
      if frm = to then (b, e)
      else
        let e1 = e\<lparr>be_state := to\<rparr>;
            e2 = (if to = StateClosed then e1\<lparr>be_probing := False\<rparr> else e1);
            b1 = (if b_onChange b then b\<lparr>b_fired := b_fired b @ [(key, frm, to)]\<rparr> else b)
        in (b1, e2))"

definition Allow :: "Breaker \<Rightarrow> time \<Rightarrow> string \<Rightarrow> Breaker \<times> bool" where
  "Allow b now key =
     (case map_of (b_entries b) key of
        None \<Rightarrow> (b, True)
      | Some e \<Rightarrow>
         (case be_state e of
            StateClosed \<Rightarrow> (b, True)
          | StateOpen \<Rightarrow>
              if now - be_openedAt e < b_openFor b then (b, False)
              else
                let (b1, e1) = transition b key e StateHalfOpen
                in (put_entry b1 key (e1\<lparr>be_probing := True\<rparr>), True)
          | StateHalfOpen \<Rightarrow>
              if be_probing e then (b, False)
              else (put_entry b key (e\<lparr>be_probing := True\<rparr>), True)))"

definition State_of :: "Breaker \<Rightarrow> time \<Rightarrow> string \<Rightarrow> State" where
  "State_of b now key =
     (case map_of (b_entries b) key of
        None \<Rightarrow> StateClosed
      | Some e \<Rightarrow>
          if be_state e = StateOpen \<and> now - be_openedAt e \<ge> b_openFor b then StateHalfOpen
          else be_state e)"

record Status =
  st_State :: State
  st_Until :: time

fun snapshot_entries :: "Breaker \<Rightarrow> time \<Rightarrow> (string, breakerEntry) gomap \<Rightarrow> (string, Status) gomap" where
  "snapshot_entries b now [] = []"
| "snapshot_entries b now ((key, e) # es) =
     (let state = (if be_state e = StateOpen \<and> now - be_openedAt e \<ge> b_openFor b
                   then StateHalfOpen else be_state e)
      in if state = StateClosed then snapshot_entries b now es
         else (key, \<lparr> st_State = state,
                      st_Until = (if state = StateOpen then be_openedAt e + b_openFor b else zero_time) \<rparr>)
              # snapshot_entries b now es)"

definition Snapshot :: "Breaker \<Rightarrow> time \<Rightarrow> (string, Status) gomap" where
  "Snapshot b now = snapshot_entries b now (b_entries b)"

definition Success :: "Breaker \<Rightarrow> string \<Rightarrow> Breaker" where
  "Success b key =
     (case map_of (b_entries b) key of
        None \<Rightarrow> b
      | Some e \<Rightarrow>
          let e1 = e\<lparr>be_probing := False, be_failures := []\<rparr>
          in if be_state e1 \<noteq> StateClosed
             then (let (b1, e2) = transition b key e1 StateClosed in put_entry b1 key e2)
             else put_entry b key e1)"

definition Failure :: "Breaker \<Rightarrow> time \<Rightarrow> string \<Rightarrow> Breaker" where
  "Failure b now key =
     (let e = (case map_of (b_entries b) key of
                 None \<Rightarrow> \<lparr> be_failures = [], be_state = StateClosed, be_openedAt = zero_time,
                           be_probing = False \<rparr>
               | Some e \<Rightarrow> e)
      in if be_state e = StateHalfOpen
         then (let (b1, e1) = transition b key (e\<lparr>be_probing := False, be_openedAt := now\<rparr>) StateOpen
               in put_entry b1 key e1)
         else
           let cutoff = now - b_window b;
               e1 = e\<lparr>be_failures := filter (\<lambda>t. cutoff < t) (be_failures e) @ [now]\<rparr>
           in if int (length (be_failures e1)) \<ge> b_threshold b \<and> be_state e1 = StateClosed
              then (let (b1, e2) = transition b key (e1\<lparr>be_openedAt := now\<rparr>) StateOpen
                    in put_entry b1 key e2)
              else put_entry b key e1)"


section \<open>Sequences of operations\<close>

datatype breaker_op = Op_Allow time string | Op_Success string | Op_Failure time string

primrec op_key :: "breaker_op \<Rightarrow> string" where
  "op_key (Op_Allow t k) = k"
| "op_key (Op_Success k) = k"
| "op_key (Op_Failure t k) = k"

primrec op_reports :: "breaker_op \<Rightarrow> bool" where
  \<comment> \<open>the outcome of an upstream call, as opposed to asking for admission\<close>
  "op_reports (Op_Allow t k) = False"
| "op_reports (Op_Success k) = True"
| "op_reports (Op_Failure t k) = True"

primrec apply_op :: "Breaker \<Rightarrow> breaker_op \<Rightarrow> Breaker" where
  "apply_op b (Op_Allow t k) = fst (Allow b t k)"
| "apply_op b (Op_Success k) = Success b k"
| "apply_op b (Op_Failure t k) = Failure b t k"

definition run_ops :: "Breaker \<Rightarrow> breaker_op list \<Rightarrow> Breaker" where
  "run_ops b ops = foldl apply_op b ops"

inductive reach :: "Breaker \<Rightarrow> bool" where
  reach_new: "reach (NewBreaker threshold window openFor onChange)"
| reach_step: "reach b \<Longrightarrow> reach (apply_op b op)"

definition entry_of :: "Breaker \<Rightarrow> string \<Rightarrow> breakerEntry option" where
  "entry_of b k = map_of (b_entries b) k"

definition cur_state :: "Breaker \<Rightarrow> string \<Rightarrow> State" where
  "cur_state b k = (case entry_of b k of None \<Rightarrow> StateClosed | Some e \<Rightarrow> be_state e)"

type_synonym breaker_cfg = "int \<times> duration \<times> duration \<times> bool"

definition cfg_of :: "Breaker \<Rightarrow> breaker_cfg" where
  "cfg_of b = (b_threshold b, b_window b, b_openFor b, b_onChange b)"

section \<open>One shape for every operation\<close>

text \<open>
  Each operation either leaves the breaker alone or replaces one entry and reports the change of
  its state: \<open>set_entry\<close>. The invariants are proved once, for \<open>set_entry\<close>.
\<close>

definition set_entry :: "Breaker \<Rightarrow> string \<Rightarrow> breakerEntry \<Rightarrow> Breaker" where
  "set_entry b k e =
     put_entry (if be_state e \<noteq> cur_state b k \<and> b_onChange b
                then b\<lparr>b_fired := b_fired b @ [(k, cur_state b k, be_state e)]\<rparr> else b) k e"

definition entry_or_new :: "Breaker \<Rightarrow> string \<Rightarrow> breakerEntry" where
  "entry_or_new b k =
     (case entry_of b k of
        None \<Rightarrow> \<lparr> be_failures = [], be_state = StateClosed, be_openedAt = zero_time, be_probing = False \<rparr>
      | Some e \<Rightarrow> e)"

definition fail_entry :: "Breaker \<Rightarrow> time \<Rightarrow> breakerEntry \<Rightarrow> breakerEntry" where
  "fail_entry b now e =
     (if be_state e = StateHalfOpen
      then e\<lparr>be_state := StateOpen, be_openedAt := now, be_probing := False\<rparr>
      else let fs = filter (\<lambda>t. now - b_window b < t) (be_failures e) @ [now]
           in if int (length fs) \<ge> b_threshold b \<and> be_state e = StateClosed
              then e\<lparr>be_failures := fs, be_state := StateOpen, be_openedAt := now\<rparr>
              else e\<lparr>be_failures := fs\<rparr>)"

lemma entry_update_order:
  \<comment> \<open>updates of an entry in the order of its fields\<close>
  "e\<lparr>be_state := s, be_failures := fs\<rparr> = e\<lparr>be_failures := fs, be_state := s\<rparr>"
  "e\<lparr>be_probing := p, be_failures := fs\<rparr> = e\<lparr>be_failures := fs, be_probing := p\<rparr>"
  "e\<lparr>be_openedAt := t, be_state := s\<rparr> = e\<lparr>be_state := s, be_openedAt := t\<rparr>"
  "e\<lparr>be_probing := p, be_state := s\<rparr> = e\<lparr>be_state := s, be_probing := p\<rparr>"
  "e\<lparr>be_probing := p, be_openedAt := t\<rparr> = e\<lparr>be_openedAt := t, be_probing := p\<rparr>"
  by (cases e; simp)+

lemma same_state_update:
  "be_state e = s \<Longrightarrow> e\<lparr>be_state := s, be_probing := p\<rparr> = e\<lparr>be_probing := p\<rparr>"
  "be_state e = s \<Longrightarrow>
   e\<lparr>be_failures := fs, be_state := s, be_probing := p\<rparr> = e\<lparr>be_failures := fs, be_probing := p\<rparr>"
  by (cases e; simp)+

lemma be_state_entry_or_new [simp]: "be_state (entry_or_new b k) = cur_state b k"
  by (simp add: entry_or_new_def cur_state_def split: option.splits)

lemma Failure_set: "Failure b now k = set_entry b k (fail_entry b now (entry_or_new b k))"
  by (simp add: Failure_def set_entry_def fail_entry_def transition_def entry_or_new_def
      cur_state_def entry_of_def Let_def entry_update_order split: option.splits)

lemma Success_set:
  "Success b k =
     (case entry_of b k of
        None \<Rightarrow> b
      | Some e \<Rightarrow> set_entry b k (e\<lparr>be_failures := [], be_state := StateClosed, be_probing := False\<rparr>))"
  by (auto simp: Success_def set_entry_def transition_def cur_state_def entry_of_def Let_def
      put_entry_def same_state_update entry_update_order split: option.splits)

lemma Allow_set:
  "Allow b now k =
     (case entry_of b k of
        None \<Rightarrow> (b, True)
      | Some e \<Rightarrow>
          if be_state e = StateClosed then (b, True)
          else if be_state e = StateOpen \<and> now - be_openedAt e < b_openFor b
                  \<or> be_state e = StateHalfOpen \<and> be_probing e then (b, False)
          else (set_entry b k (e\<lparr>be_state := StateHalfOpen, be_probing := True\<rparr>), True))"
  by (auto simp: Allow_def set_entry_def transition_def cur_state_def entry_of_def Let_def
      same_state_update split: option.splits State.splits)

lemma entry_set_entry [simp]:
  "entry_of (set_entry b k e) k' = (if k' = k then Some e else entry_of b k')"
  by (simp add: set_entry_def put_entry_def entry_of_def)

lemma cfg_set_entry [simp]: "cfg_of (set_entry b k e) = cfg_of b"
  by (simp add: set_entry_def put_entry_def cfg_of_def)

lemma cur_set_entry [simp]:
  "cur_state (set_entry b k e) k' = (if k' = k then be_state e else cur_state b k')"
  by (simp add: cur_state_def)

lemma cfg_eqD:
  "cfg_of b = cfg_of b' \<Longrightarrow> b_threshold b = b_threshold b' \<and> b_window b = b_window b' \<and>
     b_openFor b = b_openFor b' \<and> b_onChange b = b_onChange b'"
  by (simp add: cfg_of_def)

lemma fired_set_entry:
  "b_fired (set_entry b k e) =
     b_fired b @ (if be_state e \<noteq> cur_state b k \<and> b_onChange b
                  then [(k, cur_state b k, be_state e)] else [])"
  by (simp add: set_entry_def put_entry_def)

lemmas op_sets = Allow_set Success_set Failure_set

section \<open>The interface the dispatcher relies on\<close>

locale circuit_breaker =
  fixes view :: "'b \<Rightarrow> string \<Rightarrow> 'e option"
    and cfg :: "'b \<Rightarrow> 'c"
    and allow :: "'b \<Rightarrow> time \<Rightarrow> string \<Rightarrow> 'b \<times> bool"
    and success :: "'b \<Rightarrow> string \<Rightarrow> 'b"
    and failure :: "'b \<Rightarrow> time \<Rightarrow> string \<Rightarrow> 'b"
  assumes allow_frame: "k' \<noteq> k \<Longrightarrow> view (fst (allow b t k)) k' = view b k'"
    and success_frame: "k' \<noteq> k \<Longrightarrow> view (success b k) k' = view b k'"
    and failure_frame: "k' \<noteq> k \<Longrightarrow> view (failure b t k) k' = view b k'"
    and allow_cfg: "cfg (fst (allow b t k)) = cfg b"
    and success_cfg: "cfg (success b k) = cfg b"
    and failure_cfg: "cfg (failure b t k) = cfg b"
    and allow_local:
      "cfg b = cfg b' \<Longrightarrow> view b k = view b' k \<Longrightarrow> snd (allow b t k) = snd (allow b' t k)"
begin

primrec do_op :: "'b \<Rightarrow> breaker_op \<Rightarrow> 'b" where
  "do_op b (Op_Allow t k) = fst (allow b t k)"
| "do_op b (Op_Success k) = success b k"
| "do_op b (Op_Failure t k) = failure b t k"

lemma do_op_frame: "op_key op \<noteq> k \<Longrightarrow> view (do_op b op) k = view b k"
  by (cases op) (simp_all add: allow_frame success_frame failure_frame)

lemma do_op_cfg: "cfg (do_op b op) = cfg b"
  by (cases op) (simp_all add: allow_cfg success_cfg failure_cfg)

lemma do_ops_frame:
  "k \<notin> op_key ` set ops \<Longrightarrow> view (foldl do_op b ops) k = view b k"
  by (induction ops arbitrary: b) (auto simp: do_op_frame)

lemma do_ops_cfg: "cfg (foldl do_op b ops) = cfg b"
  by (induction ops arbitrary: b) (auto simp: do_op_cfg)

text \<open>What happens under other keys never changes the answer for this one.\<close>

lemma answer_frame:
  "k \<notin> op_key ` set ops \<Longrightarrow> snd (allow (foldl do_op b ops) t k) = snd (allow b t k)"
  by (intro allow_local) (simp_all add: do_ops_frame do_ops_cfg)

end

interpretation br: circuit_breaker entry_of cfg_of Allow Success Failure
  by unfold_locales (auto simp: op_sets split: option.splits dest: cfg_eqD)

lemma do_op_eq_apply_op: "br.do_op = apply_op"
proof (intro ext)
  fix b op
  show "br.do_op b op = apply_op b op" by (cases op) simp_all
qed

lemma run_ops_eq: "run_ops b ops = foldl br.do_op b ops"
  by (simp add: run_ops_def do_op_eq_apply_op)

lemma cfg_apply_op [simp]: "cfg_of (apply_op b op) = cfg_of b"
  using br.do_op_cfg [of b op] by (simp add: do_op_eq_apply_op)

section \<open>The invariant\<close>

definition wf_entry :: "int \<Rightarrow> breakerEntry \<Rightarrow> bool" where
  "wf_entry th e \<longleftrightarrow>
     (be_probing e \<longrightarrow> be_state e = StateHalfOpen) \<and>
     (be_state e = StateClosed \<longrightarrow> int (length (be_failures e)) < th)"

fun chained :: "State \<Rightarrow> (State \<times> State) list \<Rightarrow> State \<Rightarrow> bool" where
  \<comment> \<open>a sequence of transitions leads from one state to another, each changes the state,
     and none goes straight from closed to half-open\<close>
  "chained s0 [] s = (s0 = s)"
| "chained s0 ((f, t) # r) s =
     (f = s0 \<and> f \<noteq> t \<and> (f, t) \<noteq> (StateClosed, StateHalfOpen) \<and> chained t r s)"

definition log_of :: "Breaker \<Rightarrow> string \<Rightarrow> (State \<times> State) list" where
  "log_of b k = map snd (filter (\<lambda>x. fst x = k) (b_fired b))"

definition wf_breaker :: "Breaker \<Rightarrow> bool" where
  "wf_breaker b \<longleftrightarrow>
     distinct (map fst (b_entries b)) \<and>
     1 \<le> b_threshold b \<and> 0 < b_window b \<and> 0 < b_openFor b \<and>
     (\<forall>k e. entry_of b k = Some e \<longrightarrow> wf_entry (b_threshold b) e) \<and>
     (b_onChange b \<longrightarrow> (\<forall>k. chained StateClosed (log_of b k) (cur_state b k)))"

lemma chained_snoc:
  "chained s0 (l @ [(f, t)]) s \<longleftrightarrow>
     chained s0 l f \<and> f \<noteq> t \<and> (f, t) \<noteq> (StateClosed, StateHalfOpen) \<and> t = s"
  by (induction l arbitrary: s0) auto

lemma log_set_entry:
  "log_of (set_entry b k e) k' =
     log_of b k' @ (if k' = k \<and> be_state e \<noteq> cur_state b k \<and> b_onChange b
                    then [(cur_state b k, be_state e)] else [])"
  by (simp add: log_of_def fired_set_entry)

lemma fields_set_entry [simp]:
  "b_threshold (set_entry b k e) = b_threshold b" "b_window (set_entry b k e) = b_window b"
  "b_openFor (set_entry b k e) = b_openFor b" "b_onChange (set_entry b k e) = b_onChange b"
  by (simp_all add: set_entry_def put_entry_def)

lemma distinct_set_entry:
  "distinct (map fst (b_entries b)) \<Longrightarrow> distinct (map fst (b_entries (set_entry b k e)))"
  by (auto simp: set_entry_def put_entry_def)

lemma wf_set_entry:
  assumes wf: "wf_breaker b" and e: "wf_entry (b_threshold b) e"
    and legal: "(cur_state b k, be_state e) \<noteq> (StateClosed, StateHalfOpen)"
  shows "wf_breaker (set_entry b k e)"
proof -
  have "chained StateClosed (log_of (set_entry b k e) k') (cur_state (set_entry b k e) k')"
    if "b_onChange b" for k'
    using wf legal that by (auto simp: wf_breaker_def log_set_entry chained_snoc)
  with wf e show ?thesis by (auto simp: wf_breaker_def distinct_set_entry)
qed

lemma wf_breaker_entry: "wf_breaker b \<Longrightarrow> entry_of b k = Some e \<Longrightarrow> wf_entry (b_threshold b) e"
  by (simp add: wf_breaker_def)

lemma wf_threshold: "wf_breaker b \<Longrightarrow> 1 \<le> b_threshold b"
  by (simp add: wf_breaker_def)

lemma wf_fail_entry:
  "wf_entry (b_threshold b) e \<Longrightarrow> wf_entry (b_threshold b) (fail_entry b now e)"
  by (auto simp: wf_entry_def fail_entry_def Let_def)

lemma wf_entry_or_new: "wf_breaker b \<Longrightarrow> wf_entry (b_threshold b) (entry_or_new b k)"
  by (auto simp: entry_or_new_def wf_breaker_def wf_entry_def split: option.splits)

lemma fail_entry_state: "be_state (fail_entry b now e) \<noteq> StateHalfOpen"
  by (cases "be_state e") (auto simp: fail_entry_def Let_def)

lemma wf_Failure: "wf_breaker b \<Longrightarrow> wf_breaker (Failure b now k)"
  unfolding Failure_set
  by (rule wf_set_entry) (auto simp: wf_fail_entry wf_entry_or_new fail_entry_state)

lemma wf_Success: "wf_breaker b \<Longrightarrow> wf_breaker (Success b k)"
  unfolding Success_set
  by (auto split: option.splits intro!: wf_set_entry dest: wf_threshold simp: wf_entry_def)

lemma wf_Allow: "wf_breaker b \<Longrightarrow> wf_breaker (fst (Allow b now k))"
  unfolding Allow_set
  by (auto split: option.splits intro!: wf_set_entry dest: wf_breaker_entry
      simp: wf_entry_def cur_state_def)

lemma wf_apply_op: "wf_breaker b \<Longrightarrow> wf_breaker (apply_op b op)"
  by (cases op) (auto intro: wf_Allow wf_Success wf_Failure)

lemma wf_NewBreaker: "wf_breaker (NewBreaker threshold window openFor onChange)"
  by (simp add: wf_breaker_def NewBreaker_def entry_of_def cur_state_def log_of_def)


section \<open>Tripping\<close>

definition recent :: "duration \<Rightarrow> time list \<Rightarrow> time list" where
  \<comment> \<open>the failures inside the window that ends at the last of them\<close>
  "recent w ts = filter (\<lambda>t. last ts - w < t) ts"

definition trips :: "int \<Rightarrow> duration \<Rightarrow> time list \<Rightarrow> bool" where
  "trips th w ts \<longleftrightarrow> (\<exists>n. 0 < n \<and> n \<le> length ts \<and> th \<le> int (length (recent w (take n ts))))"

definition fail_run :: "Breaker \<Rightarrow> string \<Rightarrow> time list \<Rightarrow> Breaker" where
  "fail_run b k ts = foldl (\<lambda>b t. Failure b t k) b ts"

lemma recent_snoc:
  assumes "sorted (ts @ [t])" "0 < w"
  shows "recent w (ts @ [t]) = filter (\<lambda>x. t - w < x) (recent w ts) @ [t]"
proof -
  have "last ts \<le> t" if "ts \<noteq> []" using assms(1) that by (auto simp: sorted_append)
  then show ?thesis
    using assms(2) by (cases "ts = []") (auto simp: recent_def intro!: filter_cong)
qed

lemma trips_snoc:
  "trips th w (ts @ [t]) \<longleftrightarrow> trips th w ts \<or> th \<le> int (length (recent w (ts @ [t])))"
proof
  assume "trips th w (ts @ [t])"
  then obtain n where n: "0 < n" "n \<le> length (ts @ [t])"
    "th \<le> int (length (recent w (take n (ts @ [t]))))"
    by (auto simp: trips_def)
  show "trips th w ts \<or> th \<le> int (length (recent w (ts @ [t])))"
  proof (cases "n \<le> length ts")
    case True
    with n show ?thesis by (auto simp: trips_def)
  next
    case False
    with n have "n = length (ts @ [t])" by simp
    with n show ?thesis by simp
  qed
next
  assume r: "trips th w ts \<or> th \<le> int (length (recent w (ts @ [t])))"
  show "trips th w (ts @ [t])"
  proof (cases "trips th w ts")
    case True
    then obtain n where "0 < n" "n \<le> length ts" "th \<le> int (length (recent w (take n ts)))"
      by (auto simp: trips_def)
    then show ?thesis unfolding trips_def by (intro exI [of _ n]) auto
  next
    case False
    with r show ?thesis unfolding trips_def by (intro exI [of _ "length (ts @ [t])"]) auto
  qed
qed

lemma cfg_fail_run [simp]: "cfg_of (fail_run b k ts) = cfg_of b"
  by (induction ts rule: rev_induct) (auto simp: fail_run_def Failure_set)

lemma fail_run_entry:
  assumes "wf_breaker b" "entry_of b k = None"
  shows "sorted ts \<Longrightarrow>
    (let e = entry_or_new (fail_run b k ts) k; tr = trips (b_threshold b) (b_window b) ts
     in be_state e = (if tr then StateOpen else StateClosed) \<and>
        (\<not> tr \<longrightarrow> be_failures e = recent (b_window b) ts))"
proof (induction ts rule: rev_induct)
  case Nil
  then show ?case
    using assms by (simp add: fail_run_def entry_or_new_def cur_state_def trips_def recent_def)
next
  case (snoc t ts)
  let ?b = "fail_run b k ts"
  let ?e = "entry_or_new ?b k"
  have w: "0 < b_window b" using assms(1) by (simp add: wf_breaker_def)
  have cfg: "b_threshold ?b = b_threshold b" "b_window ?b = b_window b"
    using cfg_eqD [OF cfg_fail_run [of b k ts]] by auto
  have step: "entry_or_new (fail_run b k (ts @ [t])) k = fail_entry ?b t ?e"
    by (simp add: fail_run_def Failure_set entry_or_new_def)
  have srt: "sorted ts" using snoc.prems by (simp add: sorted_append)
  note IH = snoc.IH [OF srt, unfolded Let_def]
  have fs: "recent (b_window b) (ts @ [t])
      = filter (\<lambda>x. t - b_window b < x) (recent (b_window b) ts) @ [t]"
    by (rule recent_snoc [OF snoc.prems w])
  show ?case
  proof (cases "trips (b_threshold b) (b_window b) ts")
    case True
    with IH have "cur_state ?b k = StateOpen" by simp
    with True show ?thesis
      by (simp only: step) (simp add: trips_snoc fail_entry_def Let_def)
  next
    case False
    with IH have "cur_state ?b k = StateClosed" "be_failures ?e = recent (b_window b) ts" by simp_all
    with False show ?thesis
      by (simp only: step) (simp add: trips_snoc fail_entry_def Let_def fs cfg)
  qed
qed

section \<open>What the breaker promises\<close>

text \<open>C27. Every breaker reachable from \<open>NewBreaker\<close> by any sequence of \<open>Allow\<close>, \<open>Success\<close> and
  \<open>Failure\<close> calls is well formed: a probe is in flight only while half-open, a closed breaker holds
  fewer failures than the threshold, and the callbacks reported for a key form a chain of real
  transitions from closed to its current state.\<close>

theorem breaker_invariant:
  assumes "reach b"
  shows "wf_breaker b"
  using assms
proof (induction rule: reach.induct)
  case reach_new
  show ?case by (rule wf_NewBreaker)
next
  case (reach_step b op)
  then show ?case by (blast intro: wf_apply_op)
qed

theorem breaker_invariant_witness:
  "wf_breaker (apply_op (NewBreaker 1 30 60 True) (Op_Failure 100 ''t/p/m''))"
  by (rule breaker_invariant) (intro reach_step reach_new)

text \<open>C7. A probe is exclusive: once \<open>Allow\<close> has admitted a request to a breaker that was not
  closed, every later \<open>Allow\<close> of that key is refused, whatever the time and whatever happens on
  other keys, until \<open>Success\<close> or \<open>Failure\<close> is reported for that key.\<close>

theorem probe_exclusive:
  assumes "Allow b t k = (b', True)" and "cur_state b k \<noteq> StateClosed"
    and "\<forall>op \<in> set ops. op_reports op \<longrightarrow> op_key op \<noteq> k"
  shows "\<not> snd (Allow (run_ops b' ops) t' k)"
proof -
  have "\<exists>e. entry_of b' k = Some e \<and> be_state e = StateHalfOpen \<and> be_probing e"
    using assms(1,2) by (auto simp: Allow_set cur_state_def split: option.splits if_splits)
  then have "\<exists>e. entry_of (run_ops b' ops) k = Some e \<and> be_state e = StateHalfOpen \<and> be_probing e"
    using assms(3)
  proof (induction ops arbitrary: b')
    case (Cons op ops)
    have "entry_of (apply_op b' op) k = entry_of b' k"
    proof (cases "op_key op = k")
      case True
      then obtain u where "op = Op_Allow u k" using Cons.prems(2) by (cases op) auto
      with Cons.prems(1) show ?thesis by (auto simp: Allow_set)
    next
      case False
      then show ?thesis using br.do_op_frame [of op k b'] by (simp add: do_op_eq_apply_op)
    qed
    with Cons show ?case by (simp add: run_ops_def)
  qed (simp add: run_ops_def)
  then show ?thesis by (auto simp: Allow_set)
qed

theorem probe_exclusive_witness:
  "\<not> snd (Allow (run_ops (fst (Allow (Failure (NewBreaker 1 30 60 True) 100 ''k'') 160 ''k''))
                   [Op_Allow 170 ''k'', Op_Success ''other'']) 999999 ''k'')"
proof -
  let ?b = "Failure (NewBreaker 1 30 60 True) 100 ''k''"
  have "Allow ?b 160 ''k'' = (fst (Allow ?b 160 ''k''), True)" by code_simp
  moreover have "cur_state ?b ''k'' \<noteq> StateClosed" by code_simp
  ultimately show ?thesis
    by (rule probe_exclusive [of ?b 160 "''k''" _ "[Op_Allow 170 ''k'', Op_Success ''other'']" 999999])
      simp
qed

text \<open>The breaker trips exactly when it should: for a key with no history and failures at
  non-decreasing times, the breaker is open after them if and only if at some failure the window
  ending there held at least the threshold of failures, and it is closed otherwise. A slow trickle
  never accumulates into a trip.\<close>

theorem trips_exactly:
  assumes "wf_breaker b" and "entry_of b k = None" and "sorted ts"
  shows "cur_state (fail_run b k ts) k =
           (if \<exists>n. 0 < n \<and> n \<le> length ts \<and>
                 b_threshold b \<le> int (length (recent (b_window b) (take n ts)))
            then StateOpen else StateClosed)"
  using fail_run_entry [OF assms] by (simp add: Let_def trips_def [symmetric])

theorem trips_exactly_witness:
  "cur_state (fail_run (NewBreaker 2 30 60 True) ''k'' [0, 40, 50]) ''k'' = StateOpen"
proof -
  have "\<exists>n. 0 < n \<and> n \<le> length [0 :: time, 40, 50] \<and>
      b_threshold (NewBreaker 2 30 60 True)
      \<le> int (length (recent (b_window (NewBreaker 2 30 60 True)) (take n [0, 40, 50])))"
    by (intro exI [of _ 3]) (simp add: NewBreaker_def recent_def numeral_3_eq_3)
  then show ?thesis
    using trips_exactly [OF wf_NewBreaker, of 2 30 60 True "''k''" "[0, 40, 50]"]
    by (simp add: NewBreaker_def entry_of_def)
qed

text \<open>An open breaker stays shut for its whole cool-off: from the moment it opened until
  \<open>openFor\<close> later, every \<open>Allow\<close> of the key is refused, through any number of refused requests and
  late failures on it and anything at all on other keys; only a success can end it early.\<close>

theorem open_until_cooloff:
  assumes "entry_of b k = Some e" and "be_state e = StateOpen"
    and "\<forall>op \<in> set ops. op_key op = k \<longrightarrow>
          (\<exists>u. op = Op_Failure u k \<or> op = Op_Allow u k \<and> u - be_openedAt e < b_openFor b)"
    and "t - be_openedAt e < b_openFor b"
  shows "\<not> snd (Allow (run_ops b ops) t k)"
proof -
  have "\<exists>e'. entry_of (run_ops b ops) k = Some e' \<and> be_state e' = StateOpen \<and>
      be_openedAt e' = be_openedAt e \<and> b_openFor (run_ops b ops) = b_openFor b"
    using assms(1-3)
  proof (induction ops rule: rev_induct)
    case (snoc op ops)
    let ?c = "run_ops b ops"
    from snoc obtain e' where e': "entry_of ?c k = Some e'" "be_state e' = StateOpen"
      "be_openedAt e' = be_openedAt e" "b_openFor ?c = b_openFor b" by auto
    have o: "b_openFor (apply_op ?c op) = b_openFor ?c"
      using cfg_eqD [OF cfg_apply_op [of ?c op]] by simp
    have "\<exists>e''. entry_of (apply_op ?c op) k = Some e'' \<and> be_state e'' = StateOpen \<and>
        be_openedAt e'' = be_openedAt e"
    proof (cases "op_key op = k")
      case True
      with snoc.prems(3) obtain u where
        "op = Op_Failure u k \<or> op = Op_Allow u k \<and> u - be_openedAt e < b_openFor b" by auto
      with e' show ?thesis
        by (auto simp: Allow_set Failure_set entry_or_new_def fail_entry_def Let_def)
    next
      case False
      with e' show ?thesis using br.do_op_frame [of op k ?c] by (simp add: do_op_eq_apply_op)
    qed
    with o e'(4) show ?case by (simp add: run_ops_def)
  qed (simp add: run_ops_def)
  with assms(4) show ?thesis by (auto simp: Allow_set)
qed

theorem open_until_cooloff_witness:
  "\<not> snd (Allow (run_ops (Failure (NewBreaker 1 30 60 True) 100 ''k'')
                   [Op_Failure 120 ''k'', Op_Allow 130 ''k'', Op_Success ''j'']) 159 ''k'')"
proof -
  let ?b = "Failure (NewBreaker 1 30 60 True) 100 ''k''"
  let ?e = "\<lparr>be_failures = [100], be_state = StateOpen, be_openedAt = 100, be_probing = False\<rparr>"
  have e: "entry_of ?b ''k'' = Some ?e" by code_simp
  have "b_openFor ?b = 60" by code_simp
  then show ?thesis
    by (intro open_until_cooloff [of ?b "''k''" ?e, OF e]) auto
qed

text \<open>C28. An open breaker recovers: once \<open>openFor\<close> has elapsed \<open>Allow\<close> admits a probe; a successful
  probe closes the breaker with an empty history, and a failed one re-opens it for a full cool-off
  from the failure.\<close>

theorem breaker_recovers:
  assumes "entry_of b k = Some e" and "be_state e = StateOpen"
    and "be_openedAt e + b_openFor b \<le> t"
  shows "\<exists>b1. Allow b t k = (b1, True) \<and>
    cur_state (Success b1 k) k = StateClosed \<and>
    snd (Allow (Success b1 k) t' k) \<and>
    be_failures (the (entry_of (Success b1 k) k)) = [] \<and>
    cur_state (Failure b1 t' k) k = StateOpen \<and>
    (t'' - t' < b_openFor b \<longrightarrow> \<not> snd (Allow (Failure b1 t' k) t'' k))"
  using assms
  by (auto simp: Allow_set Success_set Failure_set entry_or_new_def fail_entry_def cur_state_def)

theorem breaker_recovers_witness:
  "\<exists>b1. Allow (Failure (NewBreaker 1 30 60 True) 100 ''k'') 160 ''k'' = (b1, True) \<and>
     cur_state (Success b1 ''k'') ''k'' = StateClosed"
proof -
  let ?b = "Failure (NewBreaker 1 30 60 True) 100 ''k''"
  let ?e = "\<lparr>be_failures = [100], be_state = StateOpen, be_openedAt = 100, be_probing = False\<rparr>"
  have e: "entry_of ?b ''k'' = Some ?e" by code_simp
  have "b_openFor ?b = 60" by code_simp
  then show ?thesis
    using breaker_recovers [OF e, of 160] by auto
qed

text \<open>What the breaker publishes is what it does: \<open>Snapshot\<close> lists exactly the keys whose \<open>State\<close>
  is not closed, with that state and, while open, the instant its cool-off ends; a key reported open
  is refused, a key reported closed is admitted, and a key reported half-open is admitted unless its
  probe is in flight.\<close>

theorem published_state_agrees:
  assumes "wf_breaker b"
  shows "map_of (Snapshot b now) k =
      (case State_of b now k of
         StateClosed \<Rightarrow> None
       | StateOpen \<Rightarrow> Some \<lparr>st_State = StateOpen,
           st_Until = be_openedAt (entry_or_new b k) + b_openFor b\<rparr>
       | StateHalfOpen \<Rightarrow> Some \<lparr>st_State = StateHalfOpen, st_Until = zero_time\<rparr>) \<and>
    snd (Allow b now k) =
      (case State_of b now k of
         StateClosed \<Rightarrow> True | StateOpen \<Rightarrow> False
       | StateHalfOpen \<Rightarrow> \<not> be_probing (entry_or_new b k))"
proof -
  have snap: "map_of (snapshot_entries b now es) k =
      (case map_of es k of
         None \<Rightarrow> None
       | Some e \<Rightarrow> if be_state e = StateClosed then None
                   else if be_state e = StateOpen \<and> now - be_openedAt e < b_openFor b
                   then Some \<lparr>st_State = StateOpen, st_Until = be_openedAt e + b_openFor b\<rparr>
                   else Some \<lparr>st_State = StateHalfOpen, st_Until = zero_time\<rparr>)"
    if "distinct (map fst es)" for es
    using that
  proof (induction es)
    case (Cons x es)
    obtain k' e where x: "x = (k', e)" by (cases x)
    have "map_of es k' = None" using Cons.prems x by (simp add: map_of_eq_None_iff)
    with Cons x show ?case by (cases "be_state e") (auto simp: Let_def)
  qed simp
  have d: "distinct (map fst (b_entries b))" using assms by (simp add: wf_breaker_def)
  show ?thesis
  proof (cases "entry_of b k")
    case None
    then show ?thesis by (simp add: Snapshot_def snap [OF d] State_of_def Allow_set entry_of_def)
  next
    case (Some e)
    then have "be_state e = StateOpen \<Longrightarrow> \<not> be_probing e"
      using wf_breaker_entry [OF assms] by (auto simp: wf_entry_def)
    with Some show ?thesis
      by (cases "be_state e")
        (auto simp: Snapshot_def snap [OF d] State_of_def Allow_set entry_or_new_def entry_of_def)
  qed
qed

theorem published_state_agrees_witness:
  "wf_breaker (NewBreaker 1 30 60 True) \<and> snd (Allow (NewBreaker 1 30 60 True) 5 ''k'')"
proof
  show "snd (Allow (NewBreaker 1 30 60 True) 5 ''k'')"
    using published_state_agrees [OF wf_NewBreaker, of 1 30 60 True 5 "''k''"]
    by (simp add: State_of_def NewBreaker_def)
qed (rule wf_NewBreaker)

text \<open>\<open>SplitKey\<close> reverses \<open>Key\<close> for a tenant id and a provider name without a slash and any
  model id, including one that contains slashes.\<close>

theorem SplitKey_Key:
  assumes "CHR ''/'' \<notin> set tenantID" and "CHR ''/'' \<notin> set providerName"
  shows "SplitKey (Key tenantID providerName model) = (tenantID, providerName, model)"
  using assms by (simp add: SplitKey_def Key_def numeral_3_eq_3 takeWhile_sep)

theorem SplitKey_Key_witness:
  "SplitKey (Key ''ten_1'' ''openai'' ''meta/llama'') = (''ten_1'', ''openai'', ''meta/llama'')"
  by (rule SplitKey_Key) simp_all

end
