(* ===== verification/Resolver.thy ===== *)
theory Resolver
  imports Model_Catalog Breaker
begin

text \<open>
  From the model a caller asked for to the ordered places to try: \<open>gateway/internal/routing/resolve.go\<close>, and
  the health view of the same configuration, \<open>gateway/internal/routing/diagnose.go\<close>.
\<close>

section \<open>Names\<close>

definition AliasNamePattern :: "string \<Rightarrow> bool" where
  \<comment> \<open>\<open>^[a-z][a-z0-9_-]{1,63}$\<close>\<close>
  "AliasNamePattern s =
     (case s of
        [] \<Rightarrow> False
      | c # cs \<Rightarrow> byte_in 97 122 c \<and> 1 \<le> length cs \<and> length cs \<le> 63 \<and>
          list_all (\<lambda>x. byte_in 97 122 x \<or> byte_in 48 57 x \<or> x = CHR ''_'' \<or> x = CHR ''-'') cs)"

definition seeded_alias :: "string \<Rightarrow> string \<Rightarrow> string list \<Rightarrow> Alias" where
  "seeded_alias name tier caps = \<lparr> a_ID = [], a_TenantID = [], a_Name = name, a_Pin = [],
     a_Capabilities = caps, a_MinContextWindow = 0, a_ProviderPreference = [], a_CostTier = tier,
     a_CreatedAt = zero_time \<rparr>"

definition SeededAliases :: "Alias list" where
  "SeededAliases =
     [seeded_alias ''fast'' ''cheapest'' [''chat''], seeded_alias ''balanced'' ''balanced'' [''chat''],
      seeded_alias ''best'' ''best'' [''chat''], seeded_alias ''transcribe'' [] [''transcription'']]"

record Candidate =
  cd_TenantID :: string
  cd_Provider :: string
  cd_ProviderID :: string
  cd_Model :: string
  cd_Entry :: Entry

definition Candidate_Key :: "Candidate \<Rightarrow> string" where
  "Candidate_Key c = Key (cd_TenantID c) (cd_Provider c) (cd_Model c)"

definition ServedBy :: "Candidate \<Rightarrow> string" where
  "ServedBy c = cd_Provider c @ ''/'' @ cd_Model c"

section \<open>References to candidates\<close>

definition entryCandidate :: "Entry \<Rightarrow> Candidate" where
  "entryCandidate e = \<lparr> cd_TenantID = [], cd_Provider = en_Provider e, cd_ProviderID = en_ProviderID e,
     cd_Model = snd (ProviderOf (en_ID e)), cd_Entry = e \<rparr>"

definition hasAll :: "string list \<Rightarrow> string list \<Rightarrow> bool" where
  "hasAll have required \<longleftrightarrow>
     required = [] \<or> list_all (\<lambda>r. ToLower r \<in> set (map ToLower have)) required"

definition alias_matches :: "Alias \<Rightarrow> Entry \<Rightarrow> bool" where
  "alias_matches a e \<longleftrightarrow>
     hasAll (md_Capabilities (en_Model e)) (a_Capabilities a) \<and>
     \<not> (a_MinContextWindow a > 0 \<and> md_ContextWindow (en_Model e) > 0 \<and>
        md_ContextWindow (en_Model e) < a_MinContextWindow a)"

definition prefRank :: "string list \<Rightarrow> (string, nat) gomap" where
  "prefRank pref = foldl (\<lambda>m (i, name). AList.update name i m) [] (enumerate 0 pref)"

definition rankOf :: "Alias \<Rightarrow> Entry \<Rightarrow> nat" where
  "rankOf a e =
     (case map_of (prefRank (a_ProviderPreference a)) (en_Provider e) of
        Some r \<Rightarrow> r
      | None \<Rightarrow> length (a_ProviderPreference a))"

definition match_less :: "Alias \<Rightarrow> Entry \<Rightarrow> Entry \<Rightarrow> bool" where
  "match_less a x y =
     (if rankOf a x \<noteq> rankOf a y then rankOf a x < rankOf a y
      else
        let ci = md_InputCostPerMTok (en_Model x); cj = md_InputCostPerMTok (en_Model y) in
        if a_CostTier a = ''best'' \<and> ci \<noteq> cj then ci > cj
        else if a_CostTier a \<in> {''cheapest'', ''balanced'', []} \<and> ci \<noteq> cj then ci < cj
        else en_ID x < en_ID y)"

definition resolveAlias :: "Alias \<Rightarrow> Snapshot \<Rightarrow> Candidate list" where
  "resolveAlias a snap =
     (let constraints = map entryCandidate
            (sort_slice (match_less a) (filter (alias_matches a) (sn_Models snap)))
      in if a_Pin a \<noteq> []
         then (case Lookup snap (a_Pin a) of
                 Some e \<Rightarrow> [entryCandidate e]
               | None \<Rightarrow> constraints)
         else constraints)"

definition resolveRef :: "string \<Rightarrow> (string, Alias) gomap \<Rightarrow> Snapshot \<Rightarrow> Candidate list" where
  "resolveRef ref aliases snap =
     (case map_of aliases ref of
        Some a \<Rightarrow> resolveAlias a snap
      | None \<Rightarrow> (case Lookup snap ref of Some e \<Rightarrow> [entryCandidate e] | None \<Rightarrow> []))"

definition aliasByName :: "Alias list \<Rightarrow> (string, Alias) gomap" where
  "aliasByName aliases = foldl (\<lambda>m a. AList.update (a_Name a) a m) [] aliases"

section \<open>Resolution\<close>

definition new_maxDepth :: "int \<Rightarrow> int" where
  \<comment> \<open>what \<open>NewResolver\<close> stores\<close>
  "new_maxDepth d = (if d < 1 then 5 else d)"

definition chainFor :: "store_reads \<Rightarrow> string \<Rightarrow> string \<Rightarrow> goerr + string list" where
  "chainFor st tenantID requested =
     (case sr_ListRoutes st tenantID of
        Inl err \<Rightarrow> Inl err
      | Inr routes \<Rightarrow>
          (case find (\<lambda>rt. r_Match rt = requested \<and> r_Chain rt \<noteq> []) routes of
             Some rt \<Rightarrow> Inr (r_Chain rt)
           | None \<Rightarrow> Inr [requested]))"

fun walk_chain ::
  "int \<Rightarrow> string \<Rightarrow> (string, Alias) gomap \<Rightarrow> Snapshot \<Rightarrow> Candidate list \<Rightarrow> string list \<Rightarrow> Candidate list" where
  \<comment> \<open>the loop over the chain; the set \<open>seen\<close> is the \<open>ServedBy\<close> of what is already in \<open>out\<close>\<close>
  "walk_chain maxDepth tenantID aliases snap out [] = out"
| "walk_chain maxDepth tenantID aliases snap out (ref # chain) =
     (if int (length out) \<ge> maxDepth then out
      else case find (\<lambda>cand. ServedBy cand \<notin> set (map ServedBy out)) (resolveRef ref aliases snap) of
             None \<Rightarrow> walk_chain maxDepth tenantID aliases snap out chain
           | Some cand \<Rightarrow>
               walk_chain maxDepth tenantID aliases snap (out @ [cand\<lparr>cd_TenantID := tenantID\<rparr>]) chain)"

definition resolve_in ::
  "store_reads \<Rightarrow> int \<Rightarrow> string \<Rightarrow> string \<Rightarrow> Snapshot \<Rightarrow> goerr + Candidate list" where
  \<comment> \<open>everything after the catalog has answered\<close>
  "resolve_in st maxDepth tenantID requested snap =
     (case sr_ListAliases st tenantID of
        Inl err \<Rightarrow> Inl err
      | Inr aliases \<Rightarrow>
          (case chainFor st tenantID requested of
             Inl err \<Rightarrow> Inl err
           | Inr chain \<Rightarrow>
               (let byName = aliasByName aliases;
                    out = walk_chain maxDepth tenantID byName snap [] chain
                in if out = []
                   then Inl (ApiErr (if map_of byName requested \<noteq> None
                                     then AliasUnresolvable requested else ModelNotFound requested))
                   else Inr out)))"

definition Resolve ::
  "(goerr \<Rightarrow> string) \<Rightarrow> ('w \<Rightarrow> 'w \<times> time) \<Rightarrow> store_reads \<Rightarrow> int \<Rightarrow> 'w Catalog \<Rightarrow> 'w \<Rightarrow> string \<Rightarrow> string
    \<Rightarrow> 'w \<times> 'w Catalog \<times> Snapshot option \<times> (goerr + Candidate list)" where
  "Resolve errText now st maxDepth c w tenantID requested =
     (case Catalog_Get errText now st c w tenantID of
        (w1, c1, Inl err) \<Rightarrow>
          (w1, c1, None, Inl (ApiErr (WithCause
             (Unavailable (''The model catalog is unavailable; no provider could be reached.'', [])) err)))
      | (w1, c1, Inr snap) \<Rightarrow> (w1, c1, Some snap, resolve_in st maxDepth tenantID requested snap))"

fun ValidateChain_from :: "string list \<Rightarrow> string list \<Rightarrow> goerr option" where
  "ValidateChain_from seen [] = None"
| "ValidateChain_from seen (m # ms) =
     (if m \<in> set seen then Some (ApiErr (FallbackDuplicate m)) else ValidateChain_from (m # seen) ms)"

definition ValidateChain :: "string list \<Rightarrow> goerr option" where
  "ValidateChain chain = ValidateChain_from [] chain"

section \<open>Diagnosis\<close>

definition ReasonAliasUnresolvable :: string where
  "ReasonAliasUnresolvable = ''alias_unresolvable''"

definition ReasonFallbackDuplicate :: string where
  "ReasonFallbackDuplicate = ''fallback_duplicate_model''"

definition ReasonPinUnresolvable :: string where
  "ReasonPinUnresolvable = ''pin_unresolvable''"

definition ReasonRuleUnresolvable :: string where
  "ReasonRuleUnresolvable = ''rule_unresolvable''"

record NameState =
  ns_Name :: string
  ns_State :: string
  ns_ResolvesTo :: string
  ns_Reason :: string

record Diagnosis =
  dg_Aliases :: "NameState list"
  dg_Rules :: "NameState list"

definition Degraded :: "Diagnosis \<Rightarrow> bool" where
  "Degraded d \<longleftrightarrow> list_ex (\<lambda>s. ns_Reason s \<noteq> []) (dg_Aliases d) \<or> list_ex (\<lambda>s. ns_Reason s \<noteq> []) (dg_Rules d)"

definition diagnoseAlias :: "Alias \<Rightarrow> Snapshot \<Rightarrow> NameState" where
  "diagnoseAlias a snap =
     (let st = \<lparr> ns_Name = a_Name a, ns_State = ''ok'', ns_ResolvesTo = [], ns_Reason = [] \<rparr> in
      case resolveAlias a snap of
        [] \<Rightarrow> st\<lparr>ns_State := ''degraded'', ns_Reason := ReasonAliasUnresolvable\<rparr>
      | cand # _ \<Rightarrow>
          let st1 = st\<lparr>ns_ResolvesTo := ServedBy cand\<rparr>
          in if a_Pin a \<noteq> [] \<and> Lookup snap (a_Pin a) = None
             then st1\<lparr>ns_State := ''degraded'', ns_Reason := ReasonPinUnresolvable\<rparr>
             else st1)"

definition live_positions :: "(string, Alias) gomap \<Rightarrow> Snapshot \<Rightarrow> string list \<Rightarrow> string list" where
  "live_positions aliases snap chain =
     map (\<lambda>cs. ServedBy (hd cs)) (filter (\<lambda>cs. cs \<noteq> []) (map (\<lambda>ref. resolveRef ref aliases snap) chain))"

fun adjacent_dup :: "string list \<Rightarrow> bool" where
  "adjacent_dup (x # y # ys) = (y = x \<or> adjacent_dup (y # ys))"
| "adjacent_dup _ = False"

definition diagnoseRoute :: "Route \<Rightarrow> (string, Alias) gomap \<Rightarrow> Snapshot \<Rightarrow> NameState" where
  "diagnoseRoute rt aliases snap =
     (let st = \<lparr> ns_Name = r_Match rt, ns_State = ''ok'', ns_ResolvesTo = [], ns_Reason = [] \<rparr>;
          live = live_positions aliases snap (r_Chain rt)
      in if live = [] then st\<lparr>ns_State := ''degraded'', ns_Reason := ReasonRuleUnresolvable\<rparr>
         else
           let st1 = st\<lparr>ns_ResolvesTo := hd live\<rparr>
           in if adjacent_dup live
              then st1\<lparr>ns_State := ''degraded'', ns_Reason := ReasonFallbackDuplicate\<rparr>
              else st1)"

definition name_less :: "NameState \<Rightarrow> NameState \<Rightarrow> bool" where
  "name_less x y \<longleftrightarrow> ns_Name x < ns_Name y"

definition Diagnose ::
  "(goerr \<Rightarrow> string) \<Rightarrow> ('w \<Rightarrow> 'w \<times> time) \<Rightarrow> store_reads \<Rightarrow> 'w Catalog \<Rightarrow> 'w \<Rightarrow> string
    \<Rightarrow> 'w \<times> 'w Catalog \<times> (goerr + Diagnosis)" where
  "Diagnose errText now st c w tenantID =
     (case Catalog_Get errText now st c w tenantID of
        (w1, c1, Inl err) \<Rightarrow> (w1, c1, Inl err)
      | (w1, c1, Inr snap) \<Rightarrow>
          (w1, c1,
           case sr_ListAliases st tenantID of
             Inl err \<Rightarrow> Inl err
           | Inr aliases \<Rightarrow>
               (case sr_ListRoutes st tenantID of
                  Inl err \<Rightarrow> Inl err
                | Inr routes \<Rightarrow>
                    Inr \<lparr> dg_Aliases = sort_slice name_less (map (\<lambda>a. diagnoseAlias a snap) aliases),
                          dg_Rules = sort_slice name_less
                            (map (\<lambda>rt. diagnoseRoute rt (aliasByName aliases) snap) routes) \<rparr>)))"

section \<open>What resolution promises\<close>

definition from_catalog :: "Snapshot \<Rightarrow> Candidate \<Rightarrow> bool" where
  "from_catalog snap c \<longleftrightarrow> (\<exists>e. (e \<in> set (sn_Models snap) \<or> (\<exists>ref. Lookup snap ref = Some e)) \<and>
     c = (entryCandidate e)\<lparr>cd_TenantID := cd_TenantID c\<rparr>)"

lemma ServedBy_tenant [simp]: "ServedBy (c\<lparr>cd_TenantID := t\<rparr>) = ServedBy c"
  by (simp add: ServedBy_def)

lemma from_catalog_entry: "e \<in> set (sn_Models snap) \<Longrightarrow> from_catalog snap (entryCandidate e)"
    "Lookup snap ref = Some e \<Longrightarrow> from_catalog snap (entryCandidate e)"
  by (auto simp: from_catalog_def entryCandidate_def)

lemma from_catalog_tenant [simp]: "from_catalog snap (c\<lparr>cd_TenantID := t\<rparr>) \<longleftrightarrow> from_catalog snap c"
proof
  assume "from_catalog snap (c\<lparr>cd_TenantID := t\<rparr>)"
  then show "from_catalog snap c" unfolding from_catalog_def by (cases c) (force simp: entryCandidate_def)
next
  assume "from_catalog snap c"
  then show "from_catalog snap (c\<lparr>cd_TenantID := t\<rparr>)"
    unfolding from_catalog_def by (cases c) (force simp: entryCandidate_def)
qed

lemma resolveRef_from_catalog: "c \<in> set (resolveRef ref aliases snap) \<Longrightarrow> from_catalog snap c"
  by (auto simp: resolveRef_def resolveAlias_def Let_def intro: from_catalog_entry
      split: option.splits if_splits)

definition good_candidates :: "int \<Rightarrow> string \<Rightarrow> Snapshot \<Rightarrow> Candidate list \<Rightarrow> bool" where
  "good_candidates maxDepth tid snap out \<longleftrightarrow> int (length out) \<le> maxDepth \<and> distinct (map ServedBy out) \<and>
     (\<forall>c \<in> set out. cd_TenantID c = tid \<and> from_catalog snap c)"

lemma walk_chain_good:
  "good_candidates maxDepth tid snap out \<Longrightarrow>
   good_candidates maxDepth tid snap (walk_chain maxDepth tid aliases snap out chain)"
proof (induction maxDepth tid aliases snap out chain rule: walk_chain.induct)
  case (2 maxDepth tid aliases snap out ref chain)
  show ?case
  proof (cases "int (length out) \<ge> maxDepth")
    case False
    show ?thesis
    proof (cases "find (\<lambda>cand. ServedBy cand \<notin> set (map ServedBy out)) (resolveRef ref aliases snap)")
      case None
      then show ?thesis using 2 False by simp
    next
      case (Some c)
      then have "ServedBy c \<notin> set (map ServedBy out)" "c \<in> set (resolveRef ref aliases snap)"
        by (auto simp: find_Some_iff)
      then have "good_candidates maxDepth tid snap (out @ [c\<lparr>cd_TenantID := tid\<rparr>])"
        using 2(3) False resolveRef_from_catalog by (auto simp: good_candidates_def)
      then show ?thesis using 2(2) [OF False Some] False Some by simp
    qed
  qed (use 2 in simp)
qed simp


definition example_candidate :: Candidate where
  "example_candidate = \<lparr> cd_TenantID = ''t1'', cd_Provider = ''a'', cd_ProviderID = ''p-a'', cd_Model = ''m1'',
     cd_Entry = hd (sn_Models example_snapshot) \<rparr>"

lemma example_resolve: "resolve_in example_reads 5 ''t1'' ''m1'' example_snapshot = Inr [example_candidate]"
  by code_simp


interpretation ml: go_less "match_less a" for a
  by unfold_locales (auto simp: match_less_def Let_def split: if_splits)

text \<open>An alias resolves deterministically to the best match first: when its pin is absent or gone, the
  candidates are exactly the catalog models that have every required capability and are not known to
  have a smaller context window than required, ordered by the tenant's provider preference, then the
  cost tier, then the id; and the result does not depend on the order the catalog lists its models in.\<close>

theorem alias_best_first:
  assumes "a_Pin a = [] \<or> Lookup snap (a_Pin a) = None"
    and "distinct (map en_ID (sn_Models snap))"
    and "mset (sn_Models snap2) = mset (sn_Models snap)"
  shows "\<exists>es. resolveAlias a snap = map entryCandidate es \<and>
    mset es = mset (filter (alias_matches a) (sn_Models snap)) \<and>
    sorted_wrt (\<lambda>x y. \<not> match_less a y x) es \<and>
    (a_Pin a = [] \<or> Lookup snap2 (a_Pin a) = None \<longrightarrow> resolveAlias a snap2 = resolveAlias a snap)"
proof -
  let ?f = "\<lambda>s. filter (alias_matches a) (sn_Models s)"
  have m: "mset (?f snap2) = mset (?f snap)" using assms(3) by (metis mset_filter)
  have "x = y" if "x \<in> set (?f snap)" "y \<in> set (?f snap)" "\<not> match_less a x y" "\<not> match_less a y x" for x y
  proof -
    have "en_ID x = en_ID y"
      using that(3,4) by (auto simp: match_less_def Let_def split: if_splits)
    then show "x = y" using assms(2) that(1,2) by (auto simp: distinct_map inj_on_def)
  qed
  then have "sort_slice (match_less a) (?f snap2) = sort_slice (match_less a) (?f snap)"
    by (rule ml.sort_slice_mset [OF m])
  then show ?thesis using assms(1)
    by (intro exI [of _ "sort_slice (match_less a) (?f snap)"])
      (auto simp: resolveAlias_def Let_def ml.sorted_sort_slice split: option.splits)
qed

theorem alias_best_first_witness:
  "\<exists>es. resolveAlias (hd SeededAliases) example_snapshot = map entryCandidate es \<and> length es = 1"
proof -
  have "a_Pin (hd SeededAliases) = []" "distinct (map en_ID (sn_Models example_snapshot))"
    "length (resolveAlias (hd SeededAliases) example_snapshot) = 1" by code_simp+
  then show ?thesis using alias_best_first [of "hd SeededAliases" example_snapshot example_snapshot]
    by (metis length_map)
qed

lemma Index_char_notin: "Index_char s c = None \<longleftrightarrow> c \<notin> set s"
  by (induction s) auto

lemma Index_char_append: "c \<notin> set p \<Longrightarrow> Index_char (p @ c # s) c = Some (length p)"
  by (induction p) auto

lemma Index_char_le: "Index_char s c = Some i \<Longrightarrow> i < length s"
  by (induction s arbitrary: i) (auto split: if_splits)

lemma Index_char_0: "Index_char s c = Some 0 \<longleftrightarrow> (\<exists>r. s = c # r)"
  by (cases s) auto

text \<open>The model name sent upstream: for the qualified name of a provider whose own name has no slash it
  is the provider's own id, whatever slashes that id has. For a bare id it is the id itself exactly
  when the id has no slash after its first byte: an id such as \<open>meta-llama/Llama-3-70b\<close>, listed under
  its bare name, is sent upstream as \<open>Llama-3-70b\<close>, which is not the model that was asked for.\<close>

theorem model_sent_upstream:
  "(p \<noteq> [] \<and> CHR ''/'' \<notin> set p \<and> en_ID e = p @ ''/'' @ mid \<longrightarrow> cd_Model (entryCandidate e) = mid) \<and>
   (cd_Model (entryCandidate e) = en_ID e \<longleftrightarrow> CHR ''/'' \<notin> set (tl (en_ID e)) \<or> hd (en_ID e) = CHR ''/'')"
proof (rule conjI)
  show "p \<noteq> [] \<and> CHR ''/'' \<notin> set p \<and> en_ID e = p @ ''/'' @ mid \<longrightarrow> cd_Model (entryCandidate e) = mid"
    by (auto simp: entryCandidate_def ProviderOf_def Index_char_append)
  show "cd_Model (entryCandidate e) = en_ID e \<longleftrightarrow> CHR ''/'' \<notin> set (tl (en_ID e)) \<or> hd (en_ID e) = CHR ''/''"
  proof (cases "en_ID e")
    case Nil
    then show ?thesis by (simp add: entryCandidate_def ProviderOf_def)
  next
    case (Cons c s)
    show ?thesis
    proof (cases "c = CHR ''/'' \<or> Index_char s (CHR ''/'') = None")
      case True
      then show ?thesis using Cons Index_char_notin [of s "CHR ''/''"]
        by (auto simp: entryCandidate_def ProviderOf_def)
    next
      case False
      then obtain i where i: "Index_char s (CHR ''/'') = Some i" "c \<noteq> CHR ''/''" by auto
      then have "cd_Model (entryCandidate e) = drop (i + 1) s" using Cons
        by (simp add: entryCandidate_def ProviderOf_def)
      then have "length (cd_Model (entryCandidate e)) < length (en_ID e)" using Cons by simp
      moreover have "CHR ''/'' \<in> set s" using i(1) Index_char_notin [of s "CHR ''/''"] by auto
      ultimately show ?thesis using Cons i(2) by auto
    qed
  qed
qed

definition named_entry :: "string \<Rightarrow> Entry" where
  "named_entry mid = \<lparr> en_Model = example_model mid, en_ProviderID = ''p-a'' \<rparr>"

theorem model_sent_upstream_witness:
  "cd_Model (entryCandidate (named_entry ''a/meta-llama/L3'')) = ''meta-llama/L3'' \<and>
   cd_Model (entryCandidate (named_entry ''meta-llama/L3'')) \<noteq> ''meta-llama/L3''"
  using model_sent_upstream [of "''a''" "named_entry ''a/meta-llama/L3''" "''meta-llama/L3''"]
    model_sent_upstream [of "[]" "named_entry ''meta-llama/L3''" "[]"]
  by (simp add: named_entry_def example_model_def)

text \<open>A fallback chain is accepted exactly when it names no model twice; a rejection names a model that is
  repeated.\<close>

theorem validate_chain_exact:
  "(ValidateChain chain = None \<longleftrightarrow> distinct chain) \<and>
   (\<forall>err. ValidateChain chain = Some err \<longrightarrow>
      (\<exists>m. 2 \<le> count_list chain m \<and> err = ApiErr (FallbackDuplicate m)))"
proof -
  have a: "ValidateChain_from seen ms = None \<longleftrightarrow> distinct ms \<and> set seen \<inter> set ms = {}" for seen ms
    by (induction ms arbitrary: seen) auto
  have b: "ValidateChain_from seen ms = Some err \<Longrightarrow> \<exists>m. err = ApiErr (FallbackDuplicate m) \<and>
      1 \<le> count_list ms m \<and> (m \<in> set seen \<or> 2 \<le> count_list ms m)" for seen ms err
  proof (induction ms arbitrary: seen)
    case (Cons x ms)
    show ?case
    proof (cases "x \<in> set seen")
      case True
      then show ?thesis using Cons.prems by (intro exI [of _ x]) simp
    next
      case False
      with Cons.prems Cons.IH [of "x # seen"] obtain m where
        "err = ApiErr (FallbackDuplicate m)" "1 \<le> count_list ms m"
          "m \<in> set (x # seen) \<or> 2 \<le> count_list ms m" by auto
      then show ?thesis by (intro exI [of _ m]) auto
    qed
  qed simp
  show ?thesis unfolding ValidateChain_def
  proof (intro conjI allI impI)
    show "ValidateChain_from [] chain = None \<longleftrightarrow> distinct chain" using a [of "[]" chain] by simp
    show "\<exists>m. 2 \<le> count_list chain m \<and> err = ApiErr (FallbackDuplicate m)"
      if "ValidateChain_from [] chain = Some err" for err
      using b [OF that] by auto
  qed
qed

theorem validate_chain_exact_witness:
  "ValidateChain [''a'', ''b'', ''a''] = Some (ApiErr (FallbackDuplicate ''a'')) \<and> \<not> distinct [''a'', ''b'', ''a'']"
  using validate_chain_exact [of "[''a'', ''b'', ''a'']"] by (simp add: ValidateChain_def)

lemma walk_chain_grows: "\<exists>more. walk_chain d tid aliases snap out chain = out @ more"
proof (induction d tid aliases snap out chain rule: walk_chain.induct)
  case (2 d tid aliases snap out ref chain)
  then show ?case by (auto split: option.splits)
qed simp

lemma walk_chain_live:
  assumes "1 \<le> d"
  shows "map ServedBy (walk_chain d tid aliases snap [] chain) = [] \<longleftrightarrow> live_positions aliases snap chain = []"
    and "live_positions aliases snap chain \<noteq> [] \<Longrightarrow>
      ServedBy (hd (walk_chain d tid aliases snap [] chain)) = hd (live_positions aliases snap chain)"
proof -
  have "(map ServedBy (walk_chain d tid aliases snap [] chain) = [] \<longleftrightarrow> live_positions aliases snap chain = []) \<and>
    (live_positions aliases snap chain \<noteq> [] \<longrightarrow>
      ServedBy (hd (walk_chain d tid aliases snap [] chain)) = hd (live_positions aliases snap chain))"
  proof (induction chain)
    case (Cons ref chain)
    show ?case
    proof (cases "resolveRef ref aliases snap")
      case Nil
      then show ?thesis using Cons assms by (simp add: live_positions_def)
    next
      case (Cons c cs)
      then have w: "walk_chain d tid aliases snap [] (ref # chain) =
          walk_chain d tid aliases snap [c\<lparr>cd_TenantID := tid\<rparr>] chain" using assms by simp
      obtain more where "walk_chain d tid aliases snap [c\<lparr>cd_TenantID := tid\<rparr>] chain =
          [c\<lparr>cd_TenantID := tid\<rparr>] @ more" using walk_chain_grows by blast
      then show ?thesis using Cons w by (simp add: live_positions_def)
    qed
  qed (simp add: live_positions_def)
  then show "map ServedBy (walk_chain d tid aliases snap [] chain) = [] \<longleftrightarrow> live_positions aliases snap chain = []"
    and "live_positions aliases snap chain \<noteq> [] \<Longrightarrow>
      ServedBy (hd (walk_chain d tid aliases snap [] chain)) = hd (live_positions aliases snap chain)" by blast+
qed

text \<open>The health report and the request path agree on a routing rule: for the rule that a request for its
  match would use, the report says \<open>rule_unresolvable\<close> exactly when the request would be refused,
  and otherwise the place it reports is the first candidate the request would try.\<close>

theorem diagnose_agrees:
  assumes "1 \<le> maxDepth" "sr_ListAliases st tid = Inr aliases" "sr_ListRoutes st tid = Inr routes"
    and "find (\<lambda>r. r_Match r = r_Match rt \<and> r_Chain r \<noteq> []) routes = Some rt"
  shows "(ns_Reason (diagnoseRoute rt (aliasByName aliases) snap) = ReasonRuleUnresolvable \<longleftrightarrow>
      (\<exists>err. resolve_in st maxDepth tid (r_Match rt) snap = Inl err)) \<and>
    (\<forall>cands. resolve_in st maxDepth tid (r_Match rt) snap = Inr cands \<longrightarrow>
      ns_ResolvesTo (diagnoseRoute rt (aliasByName aliases) snap) = ServedBy (hd cands))"
proof -
  let ?live = "live_positions (aliasByName aliases) snap (r_Chain rt)"
  let ?out = "walk_chain maxDepth tid (aliasByName aliases) snap [] (r_Chain rt)"
  have c: "chainFor st tid (r_Match rt) = Inr (r_Chain rt)" using assms(3,4) by (simp add: chainFor_def)
  note w = walk_chain_live [OF assms(1), where tid = tid and aliases = "aliasByName aliases"
    and snap = snap and chain = "r_Chain rt"]
  have "ns_Reason (diagnoseRoute rt (aliasByName aliases) snap) = ReasonRuleUnresolvable \<longleftrightarrow> ?live = []"
    by (auto simp: diagnoseRoute_def Let_def ReasonRuleUnresolvable_def ReasonFallbackDuplicate_def)
  moreover have "?live \<noteq> [] \<Longrightarrow> ns_ResolvesTo (diagnoseRoute rt (aliasByName aliases) snap) = hd ?live"
    by (simp add: diagnoseRoute_def Let_def)
  ultimately show ?thesis using w assms(2) c by (auto simp: resolve_in_def Let_def)
qed

definition example_route :: Route where
  "example_route = \<lparr> r_ID = ''r1'', r_TenantID = ''t1'', r_Match = ''smart'', r_Chain = [''gone'', ''b/m1'', ''m1''],
     r_CreatedAt = 0 \<rparr>"

theorem diagnose_agrees_witness:
  "ns_ResolvesTo (diagnoseRoute example_route (aliasByName []) example_snapshot) = ''b/m1''"
proof -
  let ?st = "example_reads\<lparr>sr_ListRoutes := (\<lambda>_. Inr [example_route])\<rparr>"
  have f: "find (\<lambda>r. r_Match r = r_Match example_route \<and> r_Chain r \<noteq> []) [example_route] = Some example_route"
    by code_simp
  have "map_sum (\<lambda>_. ()) (\<lambda>cs. ServedBy (hd cs)) (resolve_in ?st 5 ''t1'' ''smart'' example_snapshot) = Inr ''b/m1''"
    by code_simp
  then obtain cands where "resolve_in ?st 5 ''t1'' ''smart'' example_snapshot = Inr cands"
    "ServedBy (hd cands) = ''b/m1''"
    by (cases "resolve_in ?st 5 ''t1'' ''smart'' example_snapshot") auto
  then show ?thesis
    using diagnose_agrees [of 5 ?st "''t1''" "[]" "[example_route]" example_route example_snapshot] f
    by (simp add: example_reads_def example_route_def)
qed

end
