(* ===== verification/Dispatcher.thy ===== *)
theory Dispatcher
  imports Resolver "HOL-Library.Word"
begin

text \<open>
  The fallback cascade, \<open>gateway/internal/routing/dispatch.go\<close>.

  The dispatcher's own state is the breaker, the key cursors (unsigned 64-bit counters), the cool-downs of
  rate limited keys and, through its resolver, the catalog. The clock, the upstream and everything else
  outside the process is the world \<open>'w\<close>, threaded through every call in the order the code makes them.
  \<open>encoding/json\<close> on the request and on an error body, and the date form of \<open>Retry-After\<close>, are functions of
  the record \<open>codec\<close>. Decoding the JSON text \<open>null\<close> into a map yields a nil map, and assigning to it panics:
  that is the outcome \<open>Panicked\<close>.
\<close>

record codec =
  jc_fields :: "string \<Rightarrow> goerr + (string, string) gomap option"
  jc_string :: "string \<Rightarrow> string"
  jc_object :: "(string, string) gomap \<Rightarrow> goerr + string"
  jc_error :: "string \<Rightarrow> bool \<times> string \<times> string \<times> string"
  jc_ParseTime :: "string \<Rightarrow> time option"

record 'w route_env =
  rt_now :: "'w \<Rightarrow> 'w \<times> time"
  rt_errText :: "goerr \<Rightarrow> string"
  rt_store :: store_reads
  rt_registry :: "'w Registry"
  rt_maxDepth :: int
  rt_codec :: codec

record 'w Dispatcher =
  ds_catalog :: "'w Catalog"
  ds_breaker :: Breaker
  ds_cursors :: "(string, 64 word) gomap"
  ds_cooldowns :: "(string \<times> string, time) gomap"

definition NewDispatcher :: "'w Catalog \<Rightarrow> Breaker \<Rightarrow> 'w Dispatcher" where
  "NewDispatcher c b = \<lparr> ds_catalog = c, ds_breaker = b, ds_cursors = [], ds_cooldowns = [] \<rparr>"

record DispatchAttempt =
  da_Candidate :: Candidate
  da_Failure :: FailureKind
  da_Status :: int
  da_Skipped :: bool
  da_Latency :: duration
  da_Err :: "goerr option"

record DispatchResult =
  dr_Response :: Response
  dr_Candidate :: Candidate
  dr_Depth :: nat
  dr_Attempts :: "DispatchAttempt list"
  dr_Snapshot :: "Snapshot option"

definition CostUSD :: "DispatchResult \<Rightarrow> TokenUsage option \<Rightarrow> rat" where
  "CostUSD r usage =
     (case usage of
        None \<Rightarrow> 0
      | Some u \<Rightarrow>
          (let inp = md_InputCostPerMTok (en_Model (cd_Entry (dr_Candidate r)));
               out = md_OutputCostPerMTok (en_Model (cd_Entry (dr_Candidate r)))
           in if inp = 0 \<and> out = 0 then 0
              else (of_int (tu_PromptTokens u) / 1000000) * inp +
                   (of_int (tu_CompletionTokens u) / 1000000) * out))"

section \<open>The key pool\<close>

definition keyOrder :: "'w Dispatcher \<Rightarrow> Provider \<Rightarrow> 'w Dispatcher \<times> string list" where
  "keyOrder d p =
     (let n = length (p_Keys p) in
      if n < 2 \<or> p_KeyStrategy p = KeyStrategyFailover then (d, p_Keys p)
      else
        let start = (case map_of (ds_cursors d) (p_ID p) of None \<Rightarrow> 0 | Some s \<Rightarrow> s);
            offset = unat start mod n
        in (d\<lparr>ds_cursors := AList.update (p_ID p) (start + 1) (ds_cursors d)\<rparr>,
            map (\<lambda>i. p_Keys p ! ((offset + i) mod n)) [0 ..< n]))"

definition coolKey :: "'w Dispatcher \<Rightarrow> string \<Rightarrow> string \<Rightarrow> time \<Rightarrow> 'w Dispatcher" where
  "coolKey d providerID key until =
     (case map_of (ds_cooldowns d) (providerID, key) of
        Some cur \<Rightarrow>
          if cur > until then d
          else d\<lparr>ds_cooldowns := AList.update (providerID, key) until (ds_cooldowns d)\<rparr>
      | None \<Rightarrow> d\<lparr>ds_cooldowns := AList.update (providerID, key) until (ds_cooldowns d)\<rparr>)"

fun ready_from ::
  "time \<Rightarrow> string \<Rightarrow> (string \<times> string, time) gomap \<Rightarrow> string list \<Rightarrow> (string \<times> string, time) gomap \<times> string list" where
  \<comment> \<open>the loop of \<open>readyKeys\<close>: the cool-downs left and the keys ready\<close>
  "ready_from now providerID cool [] = (cool, [])"
| "ready_from now providerID cool (key # order) =
     (case map_of cool (providerID, key) of
        Some until \<Rightarrow>
          if until > now then ready_from now providerID cool order
          else (let (cool', ready) = ready_from now providerID (AList.delete (providerID, key) cool) order
                in (cool', key # ready))
      | None \<Rightarrow> (let (cool', ready) = ready_from now providerID cool order in (cool', key # ready)))"

definition readyKeys ::
  "'w route_env \<Rightarrow> 'w \<Rightarrow> 'w Dispatcher \<Rightarrow> string \<Rightarrow> string list \<Rightarrow> 'w \<times> 'w Dispatcher \<times> string list" where
  "readyKeys env w d providerID order =
     (if ds_cooldowns d = [] then (w, d, order)
      else
        let (w1, now) = rt_now env w;
            (cool, ready) = ready_from now providerID (ds_cooldowns d) order
        in (w1, d\<lparr>ds_cooldowns := cool\<rparr>, if ready = [] then order else ready))"

definition retryAfter :: "codec \<Rightarrow> http_header \<Rightarrow> time \<Rightarrow> duration" where
  "retryAfter jc h now =
     (let v = TrimSpace (Header_Get h ''Retry-After'') in
      if v = [] then 0
      else case Atoi v of
             Some secs \<Rightarrow> if secs \<le> 0 then 0 else wrap64 (secs * Second)
           | None \<Rightarrow>
               (case jc_ParseTime jc v of
                  Some t \<Rightarrow> (let wait = min (t - now) (2 ^ 63 - 1) in if wait > 0 then wait else 0)
                | None \<Rightarrow> 0))"

section \<open>One candidate\<close>

definition clientError :: "codec \<Rightarrow> Response \<Rightarrow> goerr" where
  "clientError jc resp =
     (let (ok, message, param, code) = jc_error jc (rs_Body resp);
          m = (if ok \<and> message \<noteq> [] then (''%s'', [FStr message])
               else (''The upstream provider rejected the request.'', []))
      in ApiErr (ApiError (rs_StatusCode resp) TypeInvalidRequest
           (if code \<noteq> [] then code else ''invalid_request'') m param None [] 0))"

definition withModel :: "codec \<Rightarrow> string \<Rightarrow> string \<Rightarrow> (goerr + string) option" where
  \<comment> \<open>\<open>None\<close> is the panic of assigning to a nil map\<close>
  "withModel jc body resolved =
     (case jc_fields jc body of
        Inl err \<Rightarrow> Some (Inl err)
      | Inr None \<Rightarrow> None
      | Inr (Some fs) \<Rightarrow> Some (jc_object jc (AList.update ''model'' (jc_string jc resolved) fs)))"

definition new_attempt :: "Candidate \<Rightarrow> DispatchAttempt" where
  "new_attempt cand = \<lparr> da_Candidate = cand, da_Failure = FailNone, da_Status = 0, da_Skipped = False,
     da_Latency = 0, da_Err = None \<rparr>"

definition note_response :: "DispatchAttempt \<Rightarrow> Response option \<Rightarrow> goerr option \<Rightarrow> DispatchAttempt" where
  "note_response a resp err =
     (let a1 = (case resp of
                  Some r \<Rightarrow> a\<lparr>da_Status := rs_StatusCode r, da_Failure := rs_Failure r, da_Latency := rs_Latency r\<rparr>
                | None \<Rightarrow> a)
      in a1\<lparr>da_Err := err\<rparr>)"

definition park_key :: "'w route_env \<Rightarrow> 'w \<Rightarrow> 'w Dispatcher \<Rightarrow> string \<Rightarrow> string \<Rightarrow> Response \<Rightarrow> 'w \<times> 'w Dispatcher" where
  \<comment> \<open>what a 429 does to the key it came back on\<close>
  "park_key env w d providerID key resp =
     (case rs_Header resp of
        None \<Rightarrow> (w, d)
      | Some h \<Rightarrow>
          (let (w1, t) = rt_now env w;
               wait = retryAfter (rt_codec env) h t
           in if wait > 0
              then (let (w2, t2) = rt_now env w1 in (w2, coolKey d providerID key (t2 + wait)))
              else (w1, d)))"

definition err_is :: "goerr option \<Rightarrow> goerr \<Rightarrow> bool" where
  \<comment> \<open>\<open>errors.Is\<close>, false on nil\<close>
  "err_is err t = (case err of None \<Rightarrow> False | Some e \<Rightarrow> errors_Is e t)"

datatype try_result = Got Response | Cascade | Fatal goerr

fun try_keys ::
  "'w route_env \<Rightarrow> 'w Adapter \<Rightarrow> Provider \<Rightarrow> Request \<Rightarrow> 'w \<Rightarrow> 'w Dispatcher \<Rightarrow> DispatchAttempt \<Rightarrow> string list
    \<Rightarrow> 'w \<times> 'w Dispatcher \<times> DispatchAttempt \<times> try_result" where
  "try_keys env adapter p req w d attempt [] = (w, d, attempt, Cascade)"
| "try_keys env adapter p req w d attempt (key # keys) =
     (let (w1, resp, err) = ad_Do adapter w \<lparr>cr_BaseURL = p_BaseURL p, cr_APIKey = key\<rparr> req;
          a = note_response attempt resp err
      in if err_is err ErrResponseTooLarge
         then (w1, d, a, Fatal (ApiErr (WithCause (ResponseTooLarge 0) (the err))))
         else if err \<noteq> None \<and> (resp = None \<or> rs_Failure (the resp) = FailTransport)
         then (w1, d, a\<lparr>da_Failure := FailTransport\<rparr>, Cascade)
         else case resp of
                None \<Rightarrow> (w1, d, a\<lparr>da_Failure := FailTransport\<rparr>, Cascade)
              | Some r \<Rightarrow>
                  (case rs_Failure r of
                     FailNone \<Rightarrow> (w1, d, a, Got r)
                   | FailClient \<Rightarrow> (w1, d, a, Fatal (clientError (rt_codec env) r))
                   | FailRateLimit \<Rightarrow>
                       (let (w2, d2) = park_key env w1 d (p_ID p) key r
                        in try_keys env adapter p req w2 d2 a keys)
                   | _ \<Rightarrow> (w1, d, a, Cascade)))"

definition tryCandidate ::
  "'w route_env \<Rightarrow> 'w Adapter \<Rightarrow> Provider \<Rightarrow> Candidate \<Rightarrow> Request \<Rightarrow> 'w \<Rightarrow> 'w Dispatcher
    \<Rightarrow> 'w \<times> 'w Dispatcher \<times> DispatchAttempt \<times> try_result" where
  "tryCandidate env adapter p cand req w d =
     (let (d1, order) = keyOrder d p;
          (w2, d2, keys) = readyKeys env w d1 (p_ID p) order
      in try_keys env adapter p req w2 d2 (new_attempt cand) keys)"

section \<open>The cascade\<close>

definition failure_label :: "DispatchAttempt \<Rightarrow> string" where
  "failure_label a = (if da_Skipped a then ''breaker_open'' else FailureKind_String (da_Failure a))"

definition renderAttempts :: "DispatchAttempt list \<Rightarrow> Attempt list" where
  "renderAttempts attempts =
     map (\<lambda>a. \<lparr> at_Provider = cd_Provider (da_Candidate a), at_Model = cd_Model (da_Candidate a),
                at_Failure = failure_label a, at_Status = da_Status a \<rparr>) attempts"

definition summarize :: "DispatchAttempt list \<Rightarrow> string" where
  "summarize attempts =
     join_with '', '' (map (\<lambda>a. ServedBy (da_Candidate a) @ ''='' @ failure_label a) attempts)"

datatype outcome = Served DispatchResult | Failed goerr | Panicked

definition exhausted :: "DispatchAttempt list \<Rightarrow> goerr" where
  "exhausted attempts =
     ApiErr (WithCause (WithAttempts (UpstreamExhausted (int (length attempts))) (renderAttempts attempts))
       (Errorf (''no candidate succeeded: %s'', [FStr (summarize attempts)])))"

definition breaker_Allow :: "'w route_env \<Rightarrow> 'w \<Rightarrow> 'w Dispatcher \<Rightarrow> string \<Rightarrow> 'w \<times> 'w Dispatcher \<times> bool" where
  "breaker_Allow env w d key =
     (let (w1, t) = rt_now env w; (b, ok) = Allow (ds_breaker d) t key in (w1, d\<lparr>ds_breaker := b\<rparr>, ok))"

definition breaker_Failure :: "'w route_env \<Rightarrow> 'w \<Rightarrow> 'w Dispatcher \<Rightarrow> string \<Rightarrow> 'w \<times> 'w Dispatcher" where
  "breaker_Failure env w d key =
     (let (w1, t) = rt_now env w in (w1, d\<lparr>ds_breaker := Failure (ds_breaker d) t key\<rparr>))"

definition no_credential :: "Candidate \<Rightarrow> DispatchAttempt" where
  "no_credential cand = (new_attempt cand)\<lparr>da_Failure := FailTransport,
     da_Err := Some (Errorf (''provider %s has no usable credential'', [FStr (cd_Provider cand)]))\<rparr>"

definition no_adapter :: "Candidate \<Rightarrow> Provider \<Rightarrow> DispatchAttempt" where
  "no_adapter cand p = (new_attempt cand)\<lparr>da_Failure := FailTransport,
     da_Err := Some (Errorf (''no adapter for provider kind %q'', [FStr (p_Kind p)]))\<rparr>"

definition usable :: "Provider option \<Rightarrow> bool" where
  "usable p = (case p of None \<Rightarrow> False | Some x \<Rightarrow> p_Enabled x \<and> p_Keys x \<noteq> [])"

fun cascade ::
  "'w route_env \<Rightarrow> (string, Provider) gomap \<Rightarrow> Snapshot option \<Rightarrow> string \<Rightarrow> bool \<Rightarrow> string
    \<Rightarrow> 'w \<Rightarrow> 'w Dispatcher \<Rightarrow> DispatchAttempt list \<Rightarrow> nat \<Rightarrow> Candidate list \<Rightarrow> 'w \<times> 'w Dispatcher \<times> outcome" where
  \<comment> \<open>the loop over the candidates; \<open>depth\<close> is its index\<close>
  "cascade env byID snap body stream path w d attempts depth [] = (w, d, Failed (exhausted attempts))"
| "cascade env byID snap body stream path w0 d0 attempts depth (cand # cands) =
     (let (w, d, ok) = breaker_Allow env w0 d0 (Candidate_Key cand) in
      if \<not> ok
      then cascade env byID snap body stream path w d
             (attempts @ [(new_attempt cand)\<lparr>da_Skipped := True\<rparr>]) (depth + 1) cands
      else if \<not> usable (map_of byID (cd_ProviderID cand))
      then cascade env byID snap body stream path w d (attempts @ [no_credential cand]) (depth + 1) cands
      else
        let p = the (map_of byID (cd_ProviderID cand)) in
        case Registry_Get (rt_registry env) (p_Kind p) of
          None \<Rightarrow>
            cascade env byID snap body stream path w d (attempts @ [no_adapter cand p]) (depth + 1) cands
        | Some adapter \<Rightarrow>
            (case withModel (rt_codec env) body (cd_Model cand) of
               None \<Rightarrow> (w, d, Panicked)
             | Some (Inl err) \<Rightarrow>
                 (w, d, Failed (ApiErr (WithCause (InvalidRequest (''Request body is not valid JSON.'', [])) err)))
             | Some (Inr attemptBody) \<Rightarrow>
                 (case tryCandidate env adapter p cand
                         \<lparr> rq_Model = cd_Model cand, rq_Body = attemptBody, rq_Stream = stream, rq_Path = path \<rparr>
                         w d of
                    (w1, d1, attempt, Fatal err) \<Rightarrow> (w1, d1, Failed err)
                  | (w1, d1, attempt, Got resp) \<Rightarrow>
                      (w1, d1\<lparr>ds_breaker := Success (ds_breaker d1) (Candidate_Key cand)\<rparr>,
                       Served \<lparr> dr_Response = resp, dr_Candidate = cand, dr_Depth = depth,
                                dr_Attempts = attempts @ [attempt], dr_Snapshot = snap \<rparr>)
                  | (w1, d1, attempt, Cascade) \<Rightarrow>
                      (let (w2, d2) = breaker_Failure env w1 d1 (Candidate_Key cand)
                       in cascade env byID snap body stream path w2 d2 (attempts @ [attempt]) (depth + 1) cands))))"

definition providersByID :: "Provider list \<Rightarrow> (string, Provider) gomap" where
  "providersByID providers = foldl (\<lambda>m p. AList.update (p_ID p) p m) [] providers"

definition Dispatch ::
  "'w route_env \<Rightarrow> 'w \<Rightarrow> 'w Dispatcher \<Rightarrow> string \<Rightarrow> string \<Rightarrow> string \<Rightarrow> bool \<Rightarrow> string
    \<Rightarrow> 'w \<times> 'w Dispatcher \<times> outcome" where
  "Dispatch env w d tenantID requested body stream path =
     (case Resolve (rt_errText env) (rt_now env) (rt_store env) (rt_maxDepth env) (ds_catalog d) w tenantID requested of
        (w1, c1, snap, Inl err) \<Rightarrow> (w1, d\<lparr>ds_catalog := c1\<rparr>, Failed err)
      | (w1, c1, snap, Inr candidates) \<Rightarrow>
          (case sr_ListProviders (rt_store env) tenantID of
             Inl err \<Rightarrow> (w1, d\<lparr>ds_catalog := c1\<rparr>, Failed err)
           | Inr providers \<Rightarrow>
               cascade env (providersByID providers) snap body stream path w1 (d\<lparr>ds_catalog := c1\<rparr>) [] 0
                 candidates))"

definition Primary ::
  "'w route_env \<Rightarrow> 'w \<Rightarrow> 'w Dispatcher \<Rightarrow> string \<Rightarrow> string \<Rightarrow> 'w \<times> 'w Dispatcher \<times> (goerr + Candidate)" where
  "Primary env w d tenantID requested =
     (case Resolve (rt_errText env) (rt_now env) (rt_store env) (rt_maxDepth env) (ds_catalog d) w tenantID requested of
        (w1, c1, snap, Inl err) \<Rightarrow> (w1, d\<lparr>ds_catalog := c1\<rparr>, Inl err)
      | (w1, c1, snap, Inr candidates) \<Rightarrow> (w1, d\<lparr>ds_catalog := c1\<rparr>, Inr (hd candidates)))"

end
