(* ===== verification/Telemetry.thy ===== *)
theory Telemetry
  imports Memory_Store "HOL-Library.Sublist"
begin

text \<open>
  The usage pipeline, \<open>gateway/internal/obs/telemetry.go\<close>: a bounded queue between the request path and a
  sink that may be down.

  Requests and the one dispatcher goroutine interleave freely, so the component is a step relation. A step is what
  one goroutine does between two points where it can be overtaken: \<open>Record\<close>, taking a record off the channel,
  one write to the sink, one wait, and the steps of the drain. Where a \<open>select\<close> has several ready cases
  Go chooses any, and so does the relation. What the sink answers is part of the step; \<open>permanent\<close> says
  which errors implement the interface of that name. Metrics and logger are present, as in a running process.
\<close>

section \<open>State\<close>

definition retryBase :: duration where
  "retryBase = 500000000"

definition retryMax :: duration where
  "retryMax = 30 * Second"

definition stallWarnEvery :: duration where
  "stallWarnEvery = 30 * Second"

datatype phase =
    Idle
  | Delivering UsageRecord nat duration   \<comment> \<open>the record, the attempt and the back-off\<close>
  | Waiting UsageRecord nat duration      \<comment> \<open>after a failed attempt\<close>
  | DrainPhase nat                        \<comment> \<open>the records given up so far\<close>
  | Finished

datatype warning = BufferFull nat | NotPersisted string | Stalled string nat nat nat | Discarded nat | Resumed nat nat

record Telemetry =
  te_buffer :: nat
  te_ch :: "UsageRecord list"
  te_stopped :: bool
  te_lastWarned :: time
  te_lastStallWarn :: time
  te_dropped :: nat \<comment> \<open>the counter \<open>TelemetryDropped\<close>\<close>
  te_log :: "warning list"
  te_phase :: phase

definition NewTelemetry :: "int \<Rightarrow> Telemetry" where
  "NewTelemetry buffer = \<lparr> te_buffer = (if buffer < 1 then 1000 else nat buffer), te_ch = [], te_stopped = False,
     te_lastWarned = zero_time, te_lastStallWarn = zero_time, te_dropped = 0, te_log = [], te_phase = Idle \<rparr>"

definition say :: "warning \<Rightarrow> Telemetry \<Rightarrow> Telemetry" where
  "say m t = t\<lparr>te_log := te_log t @ [m]\<rparr>"

definition lost :: "nat \<Rightarrow> Telemetry \<Rightarrow> Telemetry" where
  "lost n t = t\<lparr>te_dropped := te_dropped t + n\<rparr>"

definition warn :: "time \<Rightarrow> time \<Rightarrow> Telemetry \<Rightarrow> Telemetry" where
  \<comment> \<open>the two readings of the clock\<close>
  "warn t1 t2 t =
     (if t1 - te_lastWarned t < 10 * Second then t
      else say (BufferFull (te_buffer t)) (t\<lparr>te_lastWarned := t2\<rparr>))"

definition Record :: "time \<Rightarrow> time \<Rightarrow> UsageRecord \<Rightarrow> Telemetry \<Rightarrow> Telemetry" where
  "Record t1 t2 rec t =
     (if length (te_ch t) < te_buffer t then t\<lparr>te_ch := te_ch t @ [rec]\<rparr>
      else warn t1 t2 (t\<lparr>te_dropped := te_dropped t + 1\<rparr>))"

definition warnStalled :: "time \<Rightarrow> time \<Rightarrow> UsageRecord \<Rightarrow> nat \<Rightarrow> Telemetry \<Rightarrow> Telemetry" where
  "warnStalled t1 t2 rec attempt t =
     (if attempt > 1 \<and> t1 - te_lastStallWarn t < stallWarnEvery then t
      else say (Stalled (u_RequestID rec) attempt (length (te_ch t)) (te_buffer t)) (t\<lparr>te_lastStallWarn := t2\<rparr>))"

definition Close :: "Telemetry \<Rightarrow> Telemetry" where
  \<comment> \<open>closing \<open>stop\<close>; \<open>Close\<close> itself returns when the phase is \<open>Finished\<close>\<close>
  "Close t = t\<lparr>te_stopped := True\<rparr>"

definition delivered :: "(goerr \<Rightarrow> bool) \<Rightarrow> time \<Rightarrow> time \<Rightarrow> UsageRecord \<Rightarrow> nat \<Rightarrow> duration \<Rightarrow> goerr option \<Rightarrow> Telemetry \<Rightarrow> Telemetry" where
  \<comment> \<open>what \<open>deliver\<close>, called with \<open>retry\<close>, does with the sink's answer, and what \<open>run\<close> makes of its result\<close>
  "delivered permanent t1 t2 rec attempt backoff err t =
     (case err of
        None \<Rightarrow> (if attempt > 1 then say (Resumed attempt (length (te_ch t))) t else t)\<lparr>te_phase := Idle\<rparr>
      | Some e \<Rightarrow>
          if permanent e then lost 1 (say (NotPersisted (u_RequestID rec)) t)\<lparr>te_phase := Idle\<rparr>
          else (warnStalled t1 t2 rec attempt t)\<lparr>te_phase := Waiting rec attempt backoff\<rparr>)"

definition drained :: "UsageRecord \<Rightarrow> nat \<Rightarrow> goerr option \<Rightarrow> Telemetry \<Rightarrow> Telemetry" where
  \<comment> \<open>one round of \<open>drain\<close>: a single attempt\<close>
  "drained rec n err t =
     (case err of
        None \<Rightarrow> t\<lparr>te_phase := DrainPhase n\<rparr>
      | Some e \<Rightarrow> (say (NotPersisted (u_RequestID rec)) t)\<lparr>te_phase := DrainPhase (n + 1)\<rparr>)"

section \<open>Steps\<close>

record run =
  rn_state :: Telemetry
  rn_offered :: "UsageRecord list"   \<comment> \<open>every argument of \<open>Record\<close>, in order\<close>
  rn_persisted :: "UsageRecord list" \<comment> \<open>every record the sink accepted, in order\<close>

definition accept :: "UsageRecord \<Rightarrow> goerr option \<Rightarrow> UsageRecord list \<Rightarrow> UsageRecord list" where
  "accept rec err ps = (if err = None then ps @ [rec] else ps)"

inductive tstep :: "(goerr \<Rightarrow> bool) \<Rightarrow> run \<Rightarrow> run \<Rightarrow> bool" for permanent where
  offer: "tstep permanent r (r\<lparr>rn_state := Record t1 t2 rec (rn_state r), rn_offered := rn_offered r @ [rec]\<rparr>)"
| closing: "tstep permanent r (r\<lparr>rn_state := Close (rn_state r)\<rparr>)"
| take: "te_phase t = Idle \<Longrightarrow> te_ch t = rec # q \<Longrightarrow> rn_state r = t \<Longrightarrow>
    tstep permanent r (r\<lparr>rn_state := t\<lparr>te_ch := q, te_phase := Delivering rec 1 retryBase\<rparr>\<rparr>)"
| sink: "te_phase t = Delivering rec n b \<Longrightarrow> rn_state r = t \<Longrightarrow>
    tstep permanent r (r\<lparr>rn_state := delivered permanent t1 t2 rec n b err t,
      rn_persisted := accept rec err (rn_persisted r)\<rparr>)"
| retry: "te_phase t = Waiting rec n b \<Longrightarrow> rn_state r = t \<Longrightarrow>
    tstep permanent r (r\<lparr>rn_state := t\<lparr>te_phase := Delivering rec (n + 1) (min (b * 2) retryMax)\<rparr>\<rparr>)"
| give_up: "te_phase t = Waiting rec n b \<Longrightarrow> te_stopped t \<Longrightarrow> rn_state r = t \<Longrightarrow>
    tstep permanent r (r\<lparr>rn_state := (lost 1 (say (NotPersisted (u_RequestID rec)) t))\<lparr>te_phase := Idle\<rparr>\<rparr>)"
| stop: "te_phase t = Idle \<Longrightarrow> te_stopped t \<Longrightarrow> rn_state r = t \<Longrightarrow>
    tstep permanent r (r\<lparr>rn_state := t\<lparr>te_phase := DrainPhase 0\<rparr>\<rparr>)"
| drain: "te_phase t = DrainPhase n \<Longrightarrow> te_ch t = rec # q \<Longrightarrow> rn_state r = t \<Longrightarrow>
    tstep permanent r (r\<lparr>rn_state := drained rec n err (t\<lparr>te_ch := q\<rparr>),
      rn_persisted := accept rec err (rn_persisted r)\<rparr>)"
| finish: "te_phase t = DrainPhase n \<Longrightarrow> te_ch t = [] \<Longrightarrow> rn_state r = t \<Longrightarrow>
    tstep permanent r (r\<lparr>rn_state := (if n > 0 then say (Discarded n) (lost n t) else t)\<lparr>te_phase := Finished\<rparr>\<rparr>)"

inductive treach :: "(goerr \<Rightarrow> bool) \<Rightarrow> int \<Rightarrow> run \<Rightarrow> bool" for permanent buffer where
  start: "treach permanent buffer \<lparr> rn_state = NewTelemetry buffer, rn_offered = [], rn_persisted = [] \<rparr>"
| step: "treach permanent buffer r \<Longrightarrow> tstep permanent r r' \<Longrightarrow> treach permanent buffer r'"

section \<open>Accounting\<close>

fun in_delivery :: "phase \<Rightarrow> UsageRecord list" where
  "in_delivery (Delivering rec n b) = [rec]"
| "in_delivery (Waiting rec n b) = [rec]"
| "in_delivery p = []"

fun given_up :: "phase \<Rightarrow> nat" where
  \<comment> \<open>given up by the drain and not yet on the counter\<close>
  "given_up (DrainPhase n) = n"
| "given_up p = 0"

definition accounted :: "run \<Rightarrow> bool" where
  "accounted r \<longleftrightarrow>
     (let t = rn_state r in
      length (rn_offered r) = length (rn_persisted r) + length (in_delivery (te_phase t)) + length (te_ch t) +
        te_dropped t + given_up (te_phase t) \<and>
      subseq (rn_persisted r @ in_delivery (te_phase t) @ te_ch t) (rn_offered r) \<and>
      length (te_ch t) \<le> te_buffer t \<and>
      (case te_phase t of Delivering rec n b \<Rightarrow> retryBase \<le> b \<and> b \<le> retryMax
        | Waiting rec n b \<Rightarrow> retryBase \<le> b \<and> b \<le> retryMax | _ \<Rightarrow> True))"

lemma warn_fields [simp]:
  "te_ch (warn t1 t2 t) = te_ch t" "te_dropped (warn t1 t2 t) = te_dropped t" "te_phase (warn t1 t2 t) = te_phase t"
  "te_buffer (warn t1 t2 t) = te_buffer t" "te_stopped (warn t1 t2 t) = te_stopped t"
  "te_ch (warnStalled t1 t2 rec n t) = te_ch t" "te_dropped (warnStalled t1 t2 rec n t) = te_dropped t"
  "te_buffer (warnStalled t1 t2 rec n t) = te_buffer t" "te_stopped (warnStalled t1 t2 rec n t) = te_stopped t"
  by (simp_all add: warn_def warnStalled_def say_def)

lemma subseq_drop_middle: "subseq (xs @ ys @ zs) l \<Longrightarrow> subseq (xs @ zs) l"
  by (rule subseq_order.trans [of _ "xs @ ys @ zs"]) (simp_all add: list_emb_append_mono list_emb_append2)

lemma subseq_drop_one: "subseq (xs @ y # zs) l \<Longrightarrow> subseq (xs @ zs) l"
  using subseq_drop_middle [of xs "[y]" zs l] by simp

lemma subseq_snoc: "subseq (xs @ ys @ zs) l \<Longrightarrow> subseq (xs @ ys @ zs @ [x]) (l @ [x])"
  using list_emb_append_mono [of "(=)" "xs @ ys @ zs" l "[x]" "[x]"] by simp

lemma Record_fields [simp]:
  "te_phase (Record t1 t2 rec t) = te_phase t" "te_buffer (Record t1 t2 rec t) = te_buffer t"
  "te_stopped (Record t1 t2 rec t) = te_stopped t"
  by (simp_all add: Record_def)

lemma accounted_step:
  assumes "tstep permanent r r'" "accounted r"
  shows "accounted r'"
  using assms
proof (cases rule: tstep.cases)
  case (offer rec t1 t2)
  then show ?thesis
    using assms(2) subseq_snoc [of "rn_persisted r" "in_delivery (te_phase (rn_state r))" "te_ch (rn_state r)" "rn_offered r" rec]
      list_emb_prefix [of "(=)" "rn_persisted r @ in_delivery (te_phase (rn_state r)) @ te_ch (rn_state r)" "rn_offered r" "[rec]"]
    by (simp add: accounted_def Let_def) (simp add: Record_def)
next
  case closing
  then show ?thesis using assms(2) by (auto simp: accounted_def Close_def Let_def split: phase.splits)
qed (use assms(2) in \<open>auto simp: accounted_def Let_def delivered_def drained_def accept_def lost_def say_def
      retryBase_def retryMax_def split: option.splits phase.splits intro: subseq_drop_one\<close>)

lemma accounted_reach: "treach permanent buffer r \<Longrightarrow> accounted r"
proof (induction rule: treach.induct)
  case start
  show ?case by (simp add: accounted_def NewTelemetry_def Let_def)
next
  case (step r r')
  then show ?case using accounted_step by blast
qed

lemma buffer_reach: "treach permanent buffer r \<Longrightarrow> te_buffer (rn_state r) = (if buffer < 1 then 1000 else nat buffer)"
proof (induction rule: treach.induct)
  case start
  show ?case by (simp add: NewTelemetry_def)
next
  case (step r r')
  from step.hyps(2) have "te_buffer (rn_state r') = te_buffer (rn_state r)"
    by (cases rule: tstep.cases)
      (auto simp: Close_def delivered_def drained_def lost_def say_def split: option.splits)
  then show ?case using step.IH by simp
qed

text \<open>C18. No usage record is lost without being counted, and none is duplicated or reordered. In every state the
  pipeline can reach, whatever the interleaving of requests, sink failures and shutdown: each record offered to
  it is persisted, in delivery, queued, or on the dropped counter (or among those a drain is about to add
  to it); the persisted records, then the one in delivery, then the queue are in the order they were offered; the
  queue never exceeds the configured buffer; and the back-off stays between its base and its maximum.\<close>

theorem usage_accounted:
  assumes "treach permanent buffer r"
  shows "let t = rn_state r in
    length (rn_offered r) = length (rn_persisted r) + length (in_delivery (te_phase t)) + length (te_ch t) +
      te_dropped t + given_up (te_phase t) \<and>
    subseq (rn_persisted r @ in_delivery (te_phase t) @ te_ch t) (rn_offered r) \<and>
    length (te_ch t) \<le> (if buffer < 1 then 1000 else nat buffer) \<and>
    (\<forall>rec n b. te_phase t \<in> {Delivering rec n b, Waiting rec n b} \<longrightarrow> retryBase \<le> b \<and> b \<le> retryMax)"
  using accounted_reach [OF assms] buffer_reach [OF assms]
  by (auto simp: accounted_def Let_def split: phase.splits)

definition example_usage :: "string \<Rightarrow> UsageRecord" where
  "example_usage rid = \<lparr> u_RequestID = rid, u_ClientRequestID = [], u_TenantID = ''t1'', u_KeyPrefix = ''cg-'',
     u_Provider = ''p'', u_Model = ''m'', u_RequestedModel = ''m'', u_FallbackDepth = 0, u_PromptTokens = 1,
     u_CompletionToken = 1, u_TotalTokens = 2, u_CostUSD = 0, u_ChargeUSD = 0, u_BillingMode = ''passthrough'',
     u_Cached = False, u_Streamed = False, u_StatusCode = 200, u_DurationMS = 3, u_RecordedAt = 5 \<rparr>"

definition example_run :: run where
  \<comment> \<open>a buffer of one: the first record is in delivery, the second queued, the third dropped\<close>
  "example_run = \<lparr> rn_state = \<lparr> te_buffer = 1, te_ch = [example_usage ''b''], te_stopped = False,
     te_lastWarned = 8, te_lastStallWarn = zero_time, te_dropped = 1, te_log = [BufferFull 1],
     te_phase = Delivering (example_usage ''a'') 1 retryBase \<rparr>,
     rn_offered = [example_usage ''a'', example_usage ''b'', example_usage ''c''], rn_persisted = [] \<rparr>"

lemma example_run_reach: "treach permanent 1 example_run"
proof -
  let ?t = "\<lambda>q p. \<lparr> te_buffer = 1, te_ch = q, te_stopped = False, te_lastWarned = zero_time,
     te_lastStallWarn = zero_time, te_dropped = 0, te_log = [], te_phase = p \<rparr>"
  let ?a = "example_usage ''a''" and ?b = "example_usage ''b''" and ?c = "example_usage ''c''"
  let ?D = "Delivering ?a 1 retryBase"
  have "treach permanent 1 \<lparr> rn_state = ?t [] Idle, rn_offered = [], rn_persisted = [] \<rparr>"
    using treach.start [of permanent 1] by (simp add: NewTelemetry_def)
  from treach.step [OF this tstep.offer [where rec = ?a]]
  have "treach permanent 1 \<lparr> rn_state = ?t [?a] Idle, rn_offered = [?a], rn_persisted = [] \<rparr>" by (simp add: Record_def)
  from treach.step [OF this tstep.take [where t = "?t [?a] Idle" and rec = ?a and q = "[]"]]
  have "treach permanent 1 \<lparr> rn_state = ?t [] ?D, rn_offered = [?a], rn_persisted = [] \<rparr>" by simp
  from treach.step [OF this tstep.offer [where rec = ?b]]
  have "treach permanent 1 \<lparr> rn_state = ?t [?b] ?D, rn_offered = [?a, ?b], rn_persisted = [] \<rparr>" by (simp add: Record_def)
  from treach.step [OF this tstep.offer [where rec = ?c and ?t1.0 = 7 and ?t2.0 = 8]]
  show ?thesis by (simp add: Record_def warn_def say_def zero_time_def example_run_def)
qed

theorem usage_accounted_witness:
  "length (rn_offered example_run) = 0 + 1 + 1 + 1 \<and>
   subseq [example_usage ''a'', example_usage ''b''] (rn_offered example_run)"
  using usage_accounted [OF example_run_reach] by (simp add: Let_def example_run_def)

section \<open>The backlog drains\<close>

abbreviation tsteps :: "(goerr \<Rightarrow> bool) \<Rightarrow> run \<Rightarrow> run \<Rightarrow> bool" where
  "tsteps permanent \<equiv> (tstep permanent)\<^sup>*\<^sup>*"

definition settled :: "run \<Rightarrow> run \<Rightarrow> bool" where
  \<comment> \<open>everything held back at \<open>r\<close> is persisted at \<open>r'\<close>\<close>
  "settled r r' \<longleftrightarrow> te_phase (rn_state r') = Idle \<and> te_ch (rn_state r') = [] \<and>
     rn_persisted r' = rn_persisted r @ in_delivery (te_phase (rn_state r)) @ te_ch (rn_state r) \<and>
     te_dropped (rn_state r') = te_dropped (rn_state r) \<and> te_stopped (rn_state r') = te_stopped (rn_state r) \<and>
     rn_offered r' = rn_offered r"

lemma deliver_now:
  assumes "te_phase (rn_state r) = Delivering rec n b"
  shows "\<exists>r'. tstep permanent r r' \<and> te_phase (rn_state r') = Idle \<and> te_ch (rn_state r') = te_ch (rn_state r) \<and>
    rn_persisted r' = rn_persisted r @ [rec] \<and> te_dropped (rn_state r') = te_dropped (rn_state r) \<and>
    te_stopped (rn_state r') = te_stopped (rn_state r) \<and> rn_offered r' = rn_offered r"
  using tstep.sink [OF assms refl, where err = None and permanent = permanent and ?t1.0 = 0 and ?t2.0 = 0]
  by (intro exI conjI, assumption) (simp_all add: delivered_def accept_def say_def)

lemma settle_idle:
  assumes "te_phase (rn_state r) = Idle"
  shows "\<exists>r'. tsteps permanent r r' \<and> settled r r'"
  using assms
proof (induction "te_ch (rn_state r)" arbitrary: r)
  case Nil
  then show ?case by (intro exI [of _ r]) (simp add: settled_def)
next
  case (Cons rec q)
  let ?r1 = "r\<lparr>rn_state := (rn_state r)\<lparr>te_ch := q, te_phase := Delivering rec 1 retryBase\<rparr>\<rparr>"
  have 1: "tstep permanent r ?r1" using tstep.take [OF Cons.prems Cons.hyps(2) [symmetric] refl] .
  obtain r2 where 2: "tstep permanent ?r1 r2" "te_phase (rn_state r2) = Idle" "te_ch (rn_state r2) = q"
    "rn_persisted r2 = rn_persisted r @ [rec]" "te_dropped (rn_state r2) = te_dropped (rn_state r)"
    "te_stopped (rn_state r2) = te_stopped (rn_state r)" "rn_offered r2 = rn_offered r"
    using deliver_now [of ?r1 rec 1 retryBase permanent] by auto
  from Cons.hyps(1) [OF 2(3) [symmetric] 2(2)] obtain r' where r': "tsteps permanent r2 r'" "settled r2 r'" by blast
  have "tsteps permanent r r'" using 1 2(1) r'(1) by (meson converse_rtranclp_into_rtranclp)
  moreover have "settled r r'" using r'(2) 2 Cons.hyps(2) [symmetric] Cons.prems by (simp add: settled_def)
  ultimately show ?case by blast
qed

lemma settle:
  assumes "te_phase (rn_state r) \<noteq> Finished" "\<And>n. te_phase (rn_state r) \<noteq> DrainPhase n"
  shows "\<exists>r'. tsteps permanent r r' \<and> settled r r'"
proof -
  have deliv: "\<exists>r'. tsteps permanent r r' \<and> settled r r'" if d: "te_phase (rn_state r) = Delivering rec n b" for r rec n b
  proof -
    obtain r1 where 1: "tstep permanent r r1" "te_phase (rn_state r1) = Idle" "te_ch (rn_state r1) = te_ch (rn_state r)"
      "rn_persisted r1 = rn_persisted r @ [rec]" "te_dropped (rn_state r1) = te_dropped (rn_state r)"
      "te_stopped (rn_state r1) = te_stopped (rn_state r)" "rn_offered r1 = rn_offered r"
      using deliver_now [OF d] by blast
    obtain r' where "tsteps permanent r1 r'" "settled r1 r'" using settle_idle [OF 1(2)] by blast
    then show ?thesis using 1 d by (intro exI [of _ r']) (auto simp: settled_def intro: converse_rtranclp_into_rtranclp)
  qed
  show ?thesis
  proof (cases "te_phase (rn_state r)")
    case Idle
    then show ?thesis by (rule settle_idle)
  next
    case (Delivering rec n b)
    then show ?thesis by (rule deliv)
  next
    case (Waiting rec n b)
    let ?r1 = "r\<lparr>rn_state := (rn_state r)\<lparr>te_phase := Delivering rec (n + 1) (min (b * 2) retryMax)\<rparr>\<rparr>"
    have 1: "tstep permanent r ?r1" using tstep.retry [OF Waiting refl] .
    obtain r' where "tsteps permanent ?r1 r'" "settled ?r1 r'" using deliv [of ?r1] by auto
    then show ?thesis using 1 Waiting
      by (intro exI [of _ r']) (auto simp: settled_def intro: converse_rtranclp_into_rtranclp)
  qed (use assms in auto)
qed

text \<open>An outage of the sink is survivable: from any state short of shutdown's drain, however many attempts have
  failed, the pipeline can still persist the record in delivery and then the whole queue, in order,
  dropping nothing; and a shutdown begun there then ends with nothing lost.\<close>

theorem backlog_survives_outage:
  assumes "te_phase (rn_state r) \<noteq> Finished" "\<And>n. te_phase (rn_state r) \<noteq> DrainPhase n"
  shows "\<exists>r'. tsteps permanent r r' \<and> te_phase (rn_state r') = Finished \<and>
    rn_persisted r' = rn_persisted r @ in_delivery (te_phase (rn_state r)) @ te_ch (rn_state r) \<and>
    te_dropped (rn_state r') = te_dropped (rn_state r) \<and> te_ch (rn_state r') = []"
proof -
  obtain r1 where 1: "tsteps permanent r r1" "settled r r1" using settle [OF assms] by blast
  let ?r2 = "r1\<lparr>rn_state := Close (rn_state r1)\<rparr>"
  let ?r3 = "?r2\<lparr>rn_state := (rn_state ?r2)\<lparr>te_phase := DrainPhase 0\<rparr>\<rparr>"
  let ?r4 = "?r3\<lparr>rn_state := (rn_state ?r3)\<lparr>te_phase := Finished\<rparr>\<rparr>"
  have "tstep permanent r1 ?r2" by (rule tstep.closing)
  moreover have "tstep permanent ?r2 ?r3"
    by (rule tstep.stop) (use 1(2) in \<open>simp_all add: settled_def Close_def\<close>)
  moreover have "tstep permanent ?r3 ?r4"
    using tstep.finish [of "rn_state ?r3" 0 ?r3 permanent] 1(2) by (simp add: settled_def Close_def)
  ultimately have "tsteps permanent r ?r4" using 1(1) by (meson rtranclp.rtrancl_into_rtrancl)
  then show ?thesis using 1(2) by (intro exI [of _ ?r4]) (simp add: settled_def Close_def)
qed

theorem backlog_survives_outage_witness:
  "\<exists>r'. tsteps (\<lambda>_. False) example_run r' \<and> rn_persisted r' = [example_usage ''a'', example_usage ''b''] \<and>
     te_dropped (rn_state r') = 1"
proof -
  have "te_phase (rn_state example_run) \<noteq> Finished" "\<And>n. te_phase (rn_state example_run) \<noteq> DrainPhase n"
    by (simp_all add: example_run_def)
  from backlog_survives_outage [OF this, of "\<lambda>_. False"] show ?thesis by (auto simp: example_run_def)
qed

section \<open>After the drain\<close>

lemma finished_step:
  assumes "tstep permanent r r'" "te_phase (rn_state r) = Finished"
  shows "te_phase (rn_state r') = Finished \<and> set (te_ch (rn_state r)) \<subseteq> set (te_ch (rn_state r')) \<and>
    rn_persisted r' = rn_persisted r"
  using assms by (cases rule: tstep.cases) (auto simp: Record_def Close_def)

lemma finished_steps:
  assumes "tsteps permanent r r'" "te_phase (rn_state r) = Finished"
  shows "te_phase (rn_state r') = Finished \<and> set (te_ch (rn_state r)) \<subseteq> set (te_ch (rn_state r')) \<and>
    rn_persisted r' = rn_persisted r"
  using assms(1)
proof (induction rule: rtranclp_induct)
  case base
  then show ?case using assms(2) by simp
next
  case (step y z)
  then show ?case using finished_step [of permanent y z] by auto
qed

text \<open>A record offered after the drain has ended, as a stream does that outlives the shutdown timeout, is
  lost in silence while the buffer has room: it is queued, not counted as dropped, and in every later state
  it is still queued and nothing more has been persisted.\<close>

theorem late_records_unreported:
  assumes "te_phase (rn_state r) = Finished" "length (te_ch (rn_state r)) < te_buffer (rn_state r)"
    and "r1 = r\<lparr>rn_state := Record t1 t2 rec (rn_state r), rn_offered := rn_offered r @ [rec]\<rparr>" "tsteps permanent r1 r2"
  shows "te_dropped (rn_state r1) = te_dropped (rn_state r) \<and> te_log (rn_state r1) = te_log (rn_state r) \<and>
    rec \<in> set (te_ch (rn_state r2)) \<and> rn_persisted r2 = rn_persisted r"
  using assms(1-3) finished_steps [OF assms(4)] by (auto simp: Record_def)

theorem late_records_unreported_witness:
  "\<exists>r :: run. te_phase (rn_state r) = Finished \<and> te_dropped (rn_state r) = 0 \<and> rn_offered r = [example_usage ''a''] \<and> rn_persisted r = []"
proof -
  let ?r = "\<lparr> rn_state = (NewTelemetry 10)\<lparr>te_stopped := True, te_phase := Finished\<rparr>, rn_offered = [], rn_persisted = [] \<rparr>"
  let ?r1 = "?r\<lparr>rn_state := Record 1 1 (example_usage ''a'') (rn_state ?r), rn_offered := rn_offered ?r @ [example_usage ''a'']\<rparr>"
  have f: "te_dropped (rn_state ?r1) = te_dropped (rn_state ?r) \<and> te_log (rn_state ?r1) = te_log (rn_state ?r) \<and>
      example_usage ''a'' \<in> set (te_ch (rn_state ?r1)) \<and> rn_persisted ?r1 = rn_persisted ?r"
    by (rule late_records_unreported [where r = ?r and permanent = "\<lambda>_. False"]) (simp_all add: NewTelemetry_def)
  show ?thesis by (rule exI [of _ ?r1]) (use f in \<open>simp add: NewTelemetry_def\<close>)
qed

end
