(* ===== verification/Sse_Relay.thy ===== *)
theory Sse_Relay
  imports Upstream Http_Context "HOL-Library.Sublist"
begin

text \<open>
  Relaying an event stream: \<open>relaySSE\<close>, \<open>usageFromEvent\<close> and \<open>writeStreamError\<close> of
  \<open>gateway/internal/server/chat.go\<close>.

  The upstream is the list of what its connection delivers and when: chunks of bytes, and possibly the end, at
  end of file or with an error. The watchdog is the time of its last reset: a read that would return
  \<open>idle\<close> or more after it finds the body closed. The client is the number of writes it will still accept, or
  \<open>None\<close> for one that stays. Decoding a usage block and encoding an envelope are arguments.
\<close>

section \<open>Reading\<close>

datatype delivery = Chunk time string | Ended time "goerr option" \<comment> \<open>\<open>None\<close> is end of file\<close>

definition newline :: char where
  "newline = CHR 0x0A"

fun split_lines :: "string \<Rightarrow> string list \<times> string" where
  \<comment> \<open>the complete lines, each with its newline, and what is left over: successive \<open>ReadBytes\<close>\<close>
  "split_lines [] = ([], [])"
| "split_lines (ch # s) =
     (case split_lines s of
        (ls, rest) \<Rightarrow>
          if ch = newline then ([ch] # ls, rest)
          else (case ls of [] \<Rightarrow> ([], ch # rest) | l # ls' \<Rightarrow> ((ch # l) # ls', rest)))"

definition usageFromEvent :: "(string \<Rightarrow> goerr + TokenUsage option) \<Rightarrow> string \<Rightarrow> TokenUsage option" where
  "usageFromEvent unmarshal line =
     (let trimmed = TrimSpace line in
      if \<not> HasPrefix trimmed ''data: '' then None
      else
        let payload = TrimSpace (drop 6 trimmed) in
        if payload = [] \<or> payload = ''[DONE]'' then None
        else case unmarshal payload of
               Inl err \<Rightarrow> None
             | Inr None \<Rightarrow> None
             | Inr (Some u) \<Rightarrow> if tu_TotalTokens u = 0 then None else Some u)"

record relay_state =
  rl_last :: time
  rl_pending :: string
  rl_usage :: "TokenUsage option"
  rl_out :: string
  rl_room :: "nat option"

datatype relay_end = Complete | Stall | ClientGone | Broken goerr

definition write_line :: "(string \<Rightarrow> goerr + TokenUsage option) \<Rightarrow> string \<Rightarrow> relay_state \<Rightarrow> relay_state \<times> bool" where
  \<comment> \<open>note the usage, write and flush; \<open>False\<close> when the client is gone\<close>
  "write_line unmarshal line st =
     (let u = usageFromEvent unmarshal line;
          st1 = (if u \<noteq> None then st\<lparr>rl_usage := u\<rparr> else st)
      in case rl_room st1 of
           Some 0 \<Rightarrow> (st1, False)
         | room \<Rightarrow> (st1\<lparr>rl_out := rl_out st1 @ line, rl_room := map_option (\<lambda>n. n - 1) room\<rparr>, True))"

fun write_lines :: "(string \<Rightarrow> goerr + TokenUsage option) \<Rightarrow> string list \<Rightarrow> relay_state \<Rightarrow> relay_state \<times> bool" where
  "write_lines unmarshal [] st = (st, True)"
| "write_lines unmarshal (l # ls) st =
     (case write_line unmarshal l st of
        (st1, True) \<Rightarrow> write_lines unmarshal ls st1
      | (st1, False) \<Rightarrow> (st1, False))"

definition last_read :: "(string \<Rightarrow> goerr + TokenUsage option) \<Rightarrow> relay_end \<Rightarrow> relay_state \<Rightarrow> relay_state \<times> relay_end" where
  \<comment> \<open>a read that returns an error returns what was read before it as well\<close>
  "last_read unmarshal how st =
     (if rl_pending st = [] then (st, how)
      else case write_line unmarshal (rl_pending st) (st\<lparr>rl_pending := []\<rparr>) of
             (st1, True) \<Rightarrow> (st1, how)
           | (st1, False) \<Rightarrow> (st1, ClientGone))"

fun relay_loop ::
  "(string \<Rightarrow> goerr + TokenUsage option) \<Rightarrow> duration \<Rightarrow> relay_state \<Rightarrow> delivery list \<Rightarrow> relay_state \<times> relay_end" where
  "relay_loop unmarshal idle st [] = last_read unmarshal Stall st"
| "relay_loop unmarshal idle st (Ended t err # ds) =
     (if t - rl_last st \<ge> idle then last_read unmarshal Stall st
      else last_read unmarshal (case err of None \<Rightarrow> Complete | Some e \<Rightarrow> Broken e) st)"
| "relay_loop unmarshal idle st (Chunk t bs # ds) =
     (if t - rl_last st \<ge> idle then last_read unmarshal Stall st
      else case split_lines (rl_pending st @ bs) of
             ([], rest) \<Rightarrow> relay_loop unmarshal idle (st\<lparr>rl_pending := rest\<rparr>) ds
           | (ls, rest) \<Rightarrow>
               (case write_lines unmarshal ls st of
                  (st1, False) \<Rightarrow> (st1, ClientGone)
                | (st1, True) \<Rightarrow> relay_loop unmarshal idle (st1\<lparr>rl_last := t, rl_pending := rest\<rparr>) ds))"

definition relaySSE ::
  "(string \<Rightarrow> goerr + TokenUsage option) \<Rightarrow> duration \<Rightarrow> time \<Rightarrow> nat option \<Rightarrow> delivery list \<Rightarrow> relay_state \<times> relay_end" where
  "relaySSE unmarshal idleTimeout now room ds =
     relay_loop unmarshal (if idleTimeout \<le> 0 then 60 * Second else idleTimeout)
       \<lparr> rl_last = now, rl_pending = [], rl_usage = None, rl_out = [], rl_room = room \<rparr> ds"

section \<open>The terminal event\<close>

definition error_frame :: "string \<Rightarrow> string" where
  "error_frame payload =
     ''event: error'' @ [newline] @ ''data: '' @ payload @ [newline, newline] @ ''data: [DONE]'' @ [newline, newline]"

definition writeStreamError ::
  "(Body \<Rightarrow> goerr + string) \<Rightarrow> apiError \<Rightarrow> string \<Rightarrow> string \<Rightarrow> relay_state \<Rightarrow> relay_state" where
  "writeStreamError marshal e code requestID st =
     (case marshal ((Envelope e requestID)\<lparr>bd_Code := code\<rparr>) of
        Inl err \<Rightarrow> st
      | Inr payload \<Rightarrow> if rl_room st = Some 0 then st else st\<lparr>rl_out := rl_out st @ error_frame payload\<rparr>)"

definition finish_relay :: "(Body \<Rightarrow> goerr + string) \<Rightarrow> string \<Rightarrow> relay_state \<times> relay_end \<Rightarrow> relay_state" where
  \<comment> \<open>the switch after \<open>relaySSE\<close> in the stream writer; the read error is the cause of a stall\<close>
  "finish_relay marshal requestID r =
     (case r of
        (st, Complete) \<Rightarrow> st
      | (st, Stall) \<Rightarrow> writeStreamError marshal
          (UpstreamError (''The upstream stopped sending data.'', [])) ''upstream_stream_stalled'' requestID st
      | (st, _) \<Rightarrow> writeStreamError marshal
          (UpstreamError (''The upstream ended the stream before it completed.'', [])) ''upstream_error'' requestID st)"

section \<open>Byte for byte\<close>

fun sent :: "delivery list \<Rightarrow> string" where
  \<comment> \<open>the bytes the upstream sends before its end\<close>
  "sent [] = []"
| "sent (Chunk t bs # ds) = bs @ sent ds"
| "sent (Ended t err # ds) = []"

lemma split_lines_concat: "split_lines s = (ls, rest) \<Longrightarrow> concat ls @ rest = s"
proof (induction s arbitrary: ls rest)
  case (Cons ch s)
  obtain ls' rest' where "split_lines s = (ls', rest')" by fastforce
  then show ?case using Cons.IH [of ls' rest'] Cons.prems by (cases ls') (auto split: if_splits)
qed simp

lemma split_lines_shape:
  "split_lines s = (ls, rest) \<Longrightarrow> newline \<notin> set rest \<and> (\<forall>l \<in> set ls. \<exists>l'. l = l' @ [newline] \<and> newline \<notin> set l')"
proof (induction s arbitrary: ls rest)
  case (Cons ch s)
  obtain ls' rest' where r: "split_lines s = (ls', rest')" by fastforce
  note ih = Cons.IH [OF r]
  show ?case
  proof (cases "ch = newline \<or> ls' = []")
    case True
    then show ?thesis using ih r Cons.prems by (auto split: if_splits list.splits)
  next
    case False
    then obtain l ls2 where l: "ls' = l # ls2" by (cases ls') auto
    then obtain l' where "l = l' @ [newline]" "newline \<notin> set l'" using ih by auto
    then have "ch # l = (ch # l') @ [newline] \<and> newline \<notin> set (ch # l')" using False by auto
    then show ?thesis using ih r l False Cons.prems by auto
  qed
qed simp

lemma write_line_out:
  assumes "write_line u line st = (st', ok)"
  shows "rl_out st' = (if ok then rl_out st @ line else rl_out st)" "rl_room st = None \<Longrightarrow> ok \<and> rl_room st' = None"
    "rl_pending st' = rl_pending st" "\<not> ok \<Longrightarrow> rl_room st' = Some 0" "rl_last st' = rl_last st"
  using assms by (auto simp: write_line_def Let_def split: option.splits nat.splits if_splits)

lemma write_lines_out:
  "write_lines u ls st = (st', ok) \<Longrightarrow>
    (\<exists>done. prefix done (concat ls) \<and> rl_out st' = rl_out st @ done \<and> (ok \<longrightarrow> done = concat ls)) \<and>
    (rl_room st = None \<longrightarrow> ok \<and> rl_room st' = None) \<and> (\<not> ok \<longrightarrow> rl_room st' = Some 0)"
proof (induction ls arbitrary: st)
  case (Cons l ls)
  obtain st1 ok1 where w: "write_line u l st = (st1, ok1)" by fastforce
  note o1 = write_line_out [OF w]
  show ?case
  proof (cases ok1)
    case True
    then have "write_lines u ls st1 = (st', ok)" using Cons.prems w by simp
    from Cons.IH [OF this] True o1 show ?thesis by (auto simp: Cons_prefix_Cons)
  next
    case False
    then show ?thesis using Cons.prems w o1 by auto
  qed
qed simp

lemma last_read_out:
  assumes "last_read u how st = (st', how')"
  shows "\<exists>d. prefix d (rl_pending st) \<and> rl_out st' = rl_out st @ d \<and> (how' \<noteq> ClientGone \<longrightarrow> d = rl_pending st) \<and>
    (how' = how \<or> how' = ClientGone) \<and> (rl_room st = None \<longrightarrow> how' = how \<and> rl_room st' = None)"
proof (cases "rl_pending st = []")
  case True
  then show ?thesis using assms by (auto simp: last_read_def)
next
  case False
  obtain st1 ok where w: "write_line u (rl_pending st) (st\<lparr>rl_pending := []\<rparr>) = (st1, ok)" by fastforce
  show ?thesis using write_line_out(1,2) [OF w] w False assms by (cases ok) (auto simp: last_read_def)
qed

lemma last_read_stall:
  assumes "last_read u Stall st = (st', how)"
  shows "\<exists>d. prefix d (rl_pending st @ x) \<and> rl_out st' = rl_out st @ d \<and>
    (how = Complete \<or> (\<exists>e. how = Broken e) \<longrightarrow> d = rl_pending st @ x) \<and>
    (rl_room st = None \<longrightarrow> how \<noteq> ClientGone \<and> rl_room st' = None)"
proof -
  from last_read_out [OF assms] obtain d where
    "prefix d (rl_pending st) \<and> rl_out st' = rl_out st @ d \<and> (how \<noteq> ClientGone \<longrightarrow> d = rl_pending st) \<and>
     (how = Stall \<or> how = ClientGone) \<and> (rl_room st = None \<longrightarrow> how = Stall \<and> rl_room st' = None)" ..
  then show ?thesis by (intro exI [of _ d]) auto
qed

lemma relay_loop_out:
  assumes "relay_loop u idle st ds = (st', how)"
  shows "\<exists>d. prefix d (rl_pending st @ sent ds) \<and> rl_out st' = rl_out st @ d \<and>
    (how = Complete \<or> (\<exists>e. how = Broken e) \<longrightarrow> d = rl_pending st @ sent ds) \<and>
    (rl_room st = None \<longrightarrow> how \<noteq> ClientGone \<and> rl_room st' = None)"
  using assms
proof (induction u idle st ds rule: relay_loop.induct)
  case (1 u idle st)
  then show ?case using last_read_stall [of u st st' how "[]"] by simp
next
  case (2 u idle st t err ds)
  show ?case
  proof (cases "t - rl_last st \<ge> idle")
    case True
    then show ?thesis using 2 last_read_stall [of u st st' how "[]"] by simp
  next
    case False
    then show ?thesis using 2 last_read_out [of u "case err of None \<Rightarrow> Complete | Some e \<Rightarrow> Broken e" st st' how]
      by (auto split: option.splits)
  qed
next
  case (3 u idle st t bs ds)
  obtain ls rest where sl: "split_lines (rl_pending st @ bs) = (ls, rest)" by fastforce
  have cat: "concat ls @ rest = rl_pending st @ bs" using split_lines_concat [OF sl] .
  show ?case
  proof (cases "t - rl_last st \<ge> idle")
    case True
    then show ?thesis using 3(3) last_read_stall [of u st st' how "sent (Chunk t bs # ds)"] by simp
  next
    case live: False
    show ?thesis
    proof (cases ls)
      case Nil
      then show ?thesis using "3.IH"(1) [OF live sl [symmetric, unfolded Nil]] 3(3) live sl cat by simp
    next
      case (Cons l ls')
      obtain st1 ok where w: "write_lines u ls st = (st1, ok)" by fastforce
      from write_lines_out [OF w, THEN conjunct1] obtain d where
        d0: "prefix d (concat ls) \<and> rl_out st1 = rl_out st @ d \<and> (ok \<longrightarrow> d = concat ls)" ..
      then have d: "prefix d (concat ls)" "rl_out st1 = rl_out st @ d" "ok \<longrightarrow> d = concat ls"
        "rl_room st = None \<longrightarrow> ok \<and> rl_room st1 = None" using write_lines_out [OF w] by simp_all
      show ?thesis
      proof (cases ok)
        case False
        then have "st' = st1" "how = ClientGone" using 3(3) live sl w Cons by auto
        moreover have "prefix d (rl_pending st @ bs @ sent ds)"
          using d(1) cat by (metis append.assoc prefix_append)
        ultimately show ?thesis using d False by auto
      next
        case True
        have r: "relay_loop u idle (st1\<lparr>rl_last := t, rl_pending := rest\<rparr>) ds = (st', how)"
          using 3(3) live sl w Cons True by simp
        have "\<exists>d2. prefix d2 (rest @ sent ds) \<and> rl_out st' = rl_out st1 @ d2 \<and>
            (how = Complete \<or> (\<exists>e. how = Broken e) \<longrightarrow> d2 = rest @ sent ds) \<and>
            (rl_room st1 = None \<longrightarrow> how \<noteq> ClientGone \<and> rl_room st' = None)"
          using "3.IH"(2) [OF live sl [symmetric] Cons w [symmetric, unfolded Cons]] r True by simp
        then obtain d2 where d20: "prefix d2 (rest @ sent ds) \<and> rl_out st' = rl_out st1 @ d2 \<and>
            (how = Complete \<or> (\<exists>e. how = Broken e) \<longrightarrow> d2 = rest @ sent ds) \<and>
            (rl_room st1 = None \<longrightarrow> how \<noteq> ClientGone \<and> rl_room st' = None)" ..
        then have d2: "prefix d2 (rest @ sent ds)" "rl_out st' = rl_out st1 @ d2"
            "how = Complete \<or> (\<exists>e. how = Broken e) \<longrightarrow> d2 = rest @ sent ds"
            "rl_room st1 = None \<longrightarrow> how \<noteq> ClientGone \<and> rl_room st' = None" by simp_all
        have "prefix (concat ls @ d2) (concat ls @ rest @ sent ds)" using d2(1) by simp
        then have "prefix (concat ls @ d2) (rl_pending st @ bs @ sent ds)" using cat by (metis append.assoc)
        moreover have "concat ls @ rest @ sent ds = rl_pending st @ bs @ sent ds" using cat by (metis append.assoc)
        ultimately show ?thesis using d d2 True by (intro exI [of _ "concat ls @ d2"]) auto
      qed
    qed
  qed
qed

text \<open>C20. What the client receives of a stream is, byte for byte and in order, a prefix of what the
  upstream sent: all of it when the upstream reached its end or broke, nothing invented or reordered
  however the stream ends, and only a client that hangs up itself is ever cut off mid-write.\<close>

theorem relay_verbatim:
  assumes "relaySSE u idle now room ds = (st, how)"
  shows "prefix (rl_out st) (sent ds) \<and> (how = Complete \<or> (\<exists>e. how = Broken e) \<longrightarrow> rl_out st = sent ds) \<and>
    (room = None \<longrightarrow> how \<noteq> ClientGone)"
  using relay_loop_out [OF assms [unfolded relaySSE_def]] by auto

theorem relay_verbatim_witness:
  "prefix (rl_out (fst (relaySSE (\<lambda>_. Inr None) 5 0 (Some 1) [Chunk 1 [CHR ''a'', newline, CHR ''b''], Ended 2 None])))
     [CHR ''a'', newline, CHR ''b'']"
proof -
  let ?ds = "[Chunk 1 [CHR ''a'', newline, CHR ''b''], Ended 2 None]"
  obtain st how where "relaySSE (\<lambda>_. Inr None) 5 0 (Some 1) ?ds = (st, how)" by fastforce
  from relay_verbatim [OF this] this show ?thesis by simp
qed

section \<open>Silence\<close>

fun lively :: "duration \<Rightarrow> time \<Rightarrow> delivery list \<Rightarrow> bool" where
  \<comment> \<open>every delivery comes within \<open>idle\<close> of the one before, brings at least one end of line, and the end is clean\<close>
  "lively idle since [] = False"
| "lively idle since (Ended t err # ds) \<longleftrightarrow> t - since < idle \<and> err = None"
| "lively idle since (Chunk t bs # ds) \<longleftrightarrow> t - since < idle \<and> newline \<in> set bs \<and> lively idle t ds"

lemma split_lines_some: "newline \<in> set s \<Longrightarrow> fst (split_lines s) \<noteq> []"
proof -
  assume "newline \<in> set s"
  obtain ls rest where sl: "split_lines s = (ls, rest)" by fastforce
  have "concat ls @ rest = s" "newline \<notin> set rest" using split_lines_concat [OF sl] split_lines_shape [OF sl] by auto
  then show ?thesis using sl \<open>newline \<in> set s\<close> by auto
qed

lemma relay_loop_lively:
  "lively idle (rl_last st) ds \<Longrightarrow> rl_room st = None \<Longrightarrow> snd (relay_loop u idle st ds) = Complete"
proof (induction u idle st ds rule: relay_loop.induct)
  case (1 u idle st)
  then show ?case by simp
next
  case (2 u idle st t err ds)
  then show ?case using last_read_out [of u Complete st "fst (last_read u Complete st)" "snd (last_read u Complete st)"]
    by auto
next
  case (3 u idle st t bs ds)
  then have live: "\<not> t - rl_last st \<ge> idle" by simp
  obtain l ls rest where sl: "split_lines (rl_pending st @ bs) = (l # ls, rest)"
    using split_lines_some [of "rl_pending st @ bs"] 3(3)
    by (cases "split_lines (rl_pending st @ bs)") (auto simp: neq_Nil_conv)
  obtain st1 ok where w: "write_lines u (l # ls) st = (st1, ok)" by fastforce
  then have ok: "ok" "rl_room st1 = None" using write_lines_out [OF w] 3(4) by auto
  have "snd (relay_loop u idle (st1\<lparr>rl_last := t, rl_pending := rest\<rparr>) ds) = Complete"
    using "3.IH"(2) [OF live sl [symmetric] refl w [symmetric]] 3(3) ok by simp
  then show ?case using live sl w ok by simp
qed

text \<open>A stream that keeps producing lines is relayed to its end, however long it lasts: when every delivery
  comes within the idle timeout of the one before and completes a line, and the client stays, the relay
  ends without a stall and the client has every byte.\<close>

theorem live_stream_relayed:
  assumes "0 < idle" "lively idle now ds"
  shows "\<exists>st. relaySSE u idle now None ds = (st, Complete) \<and> rl_out st = sent ds"
proof -
  let ?st = "\<lparr> rl_last = now, rl_pending = [], rl_usage = None, rl_out = [], rl_room = None \<rparr>"
  obtain st how where r: "relay_loop u idle ?st ds = (st, how)" by fastforce
  then have "how = Complete" using relay_loop_lively [of idle ?st ds u] assms by simp
  then show ?thesis using r relay_loop_out [OF r] assms(1) by (auto simp: relaySSE_def)
qed

theorem live_stream_relayed_witness:
  "\<exists>st. relaySSE (\<lambda>_. Inr None) 5 0 None [Chunk 4 [newline], Chunk 8 [CHR ''x'', newline], Ended 9 None] = (st, Complete) \<and>
     rl_out st = [newline, CHR ''x'', newline]"
  using live_stream_relayed [of 5 0 "[Chunk 4 [newline], Chunk 8 [CHR ''x'', newline], Ended 9 None]" "\<lambda>_. Inr None"]
  by simp

section \<open>The terminal event and its framing\<close>

lemma split_lines_append:
  "split_lines a = (la, ra) \<Longrightarrow> split_lines (a @ b) = (la @ fst (split_lines (ra @ b)), snd (split_lines (ra @ b)))"
proof (induction a arbitrary: la ra)
  case (Cons ch a)
  obtain l r where lr: "split_lines a = (l, r)" by fastforce
  note ih = Cons.IH [OF lr]
  show ?case
  proof (cases "ch = newline \<or> l \<noteq> []")
    case True
    then show ?thesis using ih lr Cons.prems by (cases l) (auto simp: split_beta split: if_splits list.splits)
  next
    case False
    then have "ra = ch # r" "la = []" using lr Cons.prems by auto
    then show ?thesis using ih lr False by (simp split: prod.splits)
  qed
qed simp

lemma split_lines_first:
  "newline \<notin> set x \<Longrightarrow> split_lines (x @ newline # y) = ((x @ [newline]) # fst (split_lines y), snd (split_lines y))"
  by (induction x) (auto simp: split_beta)

definition event_line :: string where
  "event_line = ''event: error'' @ [newline]"

lemma frame_lines:
  assumes "newline \<notin> set a" "newline \<notin> set p" "newline \<notin> set d"
  shows "fst (split_lines (a @ newline # p @ newline # newline # d @ newline # newline # [])) =
    [a @ [newline], p @ [newline], [newline], d @ [newline], [newline]]"
  using assms split_lines_first [of "[]"] by (simp add: split_lines_first)

lemma error_frame_lines:
  assumes "newline \<notin> set ra" "newline \<notin> set payload"
  shows "fst (split_lines (ra @ error_frame payload)) =
    [ra @ event_line, (''data: '' @ payload) @ [newline], [newline], ''data: [DONE]'' @ [newline], [newline]]"
proof -
  have "newline \<notin> set (ra @ ''event: error'')" "newline \<notin> set (''data: '' @ payload)" "newline \<notin> set ''data: [DONE]''"
    using assms by (simp_all add: newline_def)
  from frame_lines [OF this] show ?thesis by (simp only: error_frame_def event_line_def append_assoc append_Cons append_Nil)
qed

text \<open>A stream that was cut short announces itself, but not always as an event of its own. When the upstream
  stalls or breaks and the client is still there, the client receives the relayed bytes followed by the error
  frame and the \<open>[DONE]\<close> sentinel; the line \<open>event: error\<close> is a line of what it receives if the relayed bytes
  end at a line boundary, and otherwise it is not (unless the upstream sent that line itself): it is
  glued to the partial line.\<close>

theorem error_event_framing:
  assumes r: "relaySSE u idle now None ds = (st, how)" "how = Stall \<or> (\<exists>e. how = Broken e)"
    and m: "\<And>b. marshal b = Inr payload" "newline \<notin> set payload"
  shows "\<exists>relayed. prefix relayed (sent ds) \<and> rl_out (finish_relay marshal rid (st, how)) = relayed @ error_frame payload \<and>
    (event_line \<in> set (fst (split_lines (relayed @ error_frame payload))) \<longleftrightarrow>
       snd (split_lines relayed) = [] \<or> event_line \<in> set (fst (split_lines relayed)))"
proof -
  have out: "prefix (rl_out st) (sent ds)" and room: "rl_room st = None"
    using relay_loop_out [OF r(1) [unfolded relaySSE_def]] by auto
  have fin: "rl_out (finish_relay marshal rid (st, how)) = rl_out st @ error_frame payload"
    using r(2) m(1) room by (auto simp: finish_relay_def writeStreamError_def)
  obtain la ra where sl: "split_lines (rl_out st) = (la, ra)" by fastforce
  have ra: "newline \<notin> set ra" using split_lines_shape [OF sl] by simp
  have "fst (split_lines (rl_out st @ error_frame payload)) = la @ fst (split_lines (ra @ error_frame payload))"
    using split_lines_append [OF sl] by simp
  moreover have "event_line \<in> set [ra @ event_line, (''data: '' @ payload) @ [newline], [newline],
      ''data: [DONE]'' @ [newline], [newline]] \<longleftrightarrow> ra = []"
    by (simp add: event_line_def newline_def)
  ultimately have "event_line \<in> set (fst (split_lines (rl_out st @ error_frame payload))) \<longleftrightarrow>
      ra = [] \<or> event_line \<in> set la"
    using error_frame_lines [OF ra m(2)] by auto
  then show ?thesis using out fin sl by auto
qed

theorem error_event_framing_witness:
  "\<exists>st. relaySSE (\<lambda>_. Inr None) 5 0 None [Chunk 1 ''data: {'', Ended 2 (Some ErrNotFound)] = (st, Broken ErrNotFound) \<and>
     event_line \<notin> set (fst (split_lines (rl_out (finish_relay (\<lambda>_. Inr ''E'') ''req_1'' (st, Broken ErrNotFound)))))"
proof -
  let ?ds = "[Chunk 1 ''data: {'', Ended 2 (Some ErrNotFound)]"
  have "usageFromEvent (\<lambda>_. Inr None) l = None" for l by (simp add: usageFromEvent_def Let_def)
  then obtain st where r: "relaySSE (\<lambda>_. Inr None) 5 0 None ?ds = (st, Broken ErrNotFound)" and o: "rl_out st = ''data: {''"
    by (simp add: relaySSE_def last_read_def write_line_def newline_def)
  have "newline \<notin> set ''E''" by (simp add: newline_def)
  then obtain relayed where
    "rl_out (finish_relay (\<lambda>_. Inr ''E'') ''req_1'' (st, Broken ErrNotFound)) = relayed @ error_frame ''E''"
    "event_line \<in> set (fst (split_lines (relayed @ error_frame ''E''))) \<longleftrightarrow>
       snd (split_lines relayed) = [] \<or> event_line \<in> set (fst (split_lines relayed))"
    using error_event_framing [OF r, of "\<lambda>_. Inr ''E''" "''E''" "''req_1''"] by auto
  moreover have "rl_out (finish_relay (\<lambda>_. Inr ''E'') ''req_1'' (st, Broken ErrNotFound)) = ''data: {'' @ error_frame ''E''
      \<or> rl_room st = Some 0"
    using o by (simp add: finish_relay_def writeStreamError_def)
  moreover have "rl_room st = None" using relay_loop_out [OF r [unfolded relaySSE_def]] by auto
  moreover have "split_lines ''data: {'' = ([], ''data: {'')" by (simp add: newline_def)
  ultimately show ?thesis using r by auto
qed

end
