(* ===== verification/Health_Report.thy ===== *)
theory Health_Report
  imports Resolver
begin

text \<open>
  The health report of \<open>gateway/internal/server/data.go\<close> and the cache that holds the last one per tenant, which is a
  field of the server.
\<close>

section \<open>The report\<close>

definition healthOK :: string where "healthOK = ''ok''"
definition healthDegraded :: string where "healthDegraded = ''degraded''"
definition healthUnavailable :: string where "healthUnavailable = ''unavailable''"

lemmas health_names = healthOK_def healthDegraded_def healthUnavailable_def

record modelBreaker =
  mb_Model :: string
  mb_Breaker :: string
  mb_BreakerUntil :: string

record catalogHealth =
  cg_Models :: int
  cg_AgeSeconds :: int
  cg_State :: string
  cg_Stale :: bool
  cg_FetchedAt :: string
  cg_Error :: string

record providerHealth =
  ph_Provider :: string
  ph_Enabled :: bool
  ph_Models :: int
  ph_Breaker :: string
  ph_BreakerUntil :: string
  ph_Breakers :: "modelBreaker list"
  ph_AgeSeconds :: int
  ph_Freshness :: string
  ph_Error :: string

record healthReport =
  hp_Status :: string
  hp_Version :: string
  hp_UptimeSeconds :: int
  hp_StoreKind :: string
  hp_Catalog :: catalogHealth
  hp_Providers :: "providerHealth list"
  hp_Aliases :: "NameState list"
  hp_Rules :: "NameState list"
  hp_Quota :: string
  hp_CheckedAt :: string

section \<open>The cache\<close>

record healthCache =
  hk_ttl :: duration
  hk_entries :: "(string, healthReport \<times> time) gomap"

definition health_get :: "time \<Rightarrow> string \<Rightarrow> healthCache \<Rightarrow> healthReport option" where
  "health_get now tid h =
     (if hk_ttl h \<le> 0 then None
      else case map_of (hk_entries h) tid of
             None \<Rightarrow> None
           | Some (r, expires) \<Rightarrow> if now > expires then None else Some r)"

definition health_put :: "time \<Rightarrow> string \<Rightarrow> healthReport \<Rightarrow> healthCache \<Rightarrow> healthCache" where
  "health_put now tid r h =
     (if hk_ttl h \<le> 0 then h else h\<lparr>hk_entries := AList.update tid (r, now + hk_ttl h) (hk_entries h)\<rparr>)"

end
