(* ===== verification/Chat.thy ===== *)
theory Chat
  imports Middleware Quota_Control Response_Cache Dispatcher Telemetry Sse_Relay Health_Report
begin

text \<open>
  Chat completions, \<open>gateway/internal/server/chat.go\<close>: the handler where quotas, the response cache, the
  dispatcher and the usage pipeline meet.

  The server is extended with the components the handler uses. A streamed answer is written after
  the handler has returned, so the handler leaves a \<open>streamJob\<close> with everything its writer captured, and
  \<open>run_stream\<close> is that writer. The dispatcher reads the server's own store. \<open>encoding/json\<close> on the
  shapes the handler decodes and encodes is in the record \<open>chat_env\<close>; a deadline of a context has passed when
  the clock says so. Warnings to the log are not modelled, the request line is.
\<close>

section \<open>The gateway\<close>

record 'w chat_env =
  ch_ge :: "'w genv"
  ch_errText :: "goerr \<Rightarrow> string"
  ch_registry :: "'w Registry"
  ch_codec :: codec
  ch_cacheCodec :: cache_codec
  ch_envelope :: "string \<Rightarrow> goerr + chatEnvelope"
  ch_messages :: "string \<Rightarrow> goerr + string list"
  ch_array :: "string list \<Rightarrow> goerr + string"
  ch_usage :: "string \<Rightarrow> goerr + TokenUsage option"
  ch_body :: "Body \<Rightarrow> goerr + string"
  ch_usageStore :: "'w \<Rightarrow> Memory \<Rightarrow> usage_reads" \<comment> \<open>how a usage read is answered, given the in-process store\<close>

record streamJob =
  sj_requestID :: string
  sj_clientRequestID :: string
  sj_tenantID :: string
  sj_prefix :: string
  sj_result :: DispatchResult
  sj_requested :: string
  sj_started :: time
  sj_idle :: duration
  sj_release :: "nat option"

record 'w Gateway = Server +
  gt_quotas :: quotaCache
  gt_cache :: "Cache option"
  gt_dispatcher :: "'w Dispatcher"
  gt_telemetry :: "Telemetry option"
  gt_emitted :: "emission list"
  gt_streams :: "streamJob list"
  gt_health :: healthCache

type_synonym 'w gateway_handler = "'w \<Rightarrow> 'w Gateway \<Rightarrow> fctx \<Rightarrow> 'w \<times> 'w Gateway \<times> fctx \<times> flow"

abbreviation ch_now :: "'w chat_env \<Rightarrow> 'w \<Rightarrow> 'w \<times> time" where
  "ch_now env \<equiv> ge_now (ch_ge env)"

definition route_env_of :: "'w chat_env \<Rightarrow> 'w Gateway \<Rightarrow> 'w route_env" where
  "route_env_of env s = \<lparr> rt_now = ch_now env, rt_errText = ch_errText env, rt_store = memory_reads (sv_Store s),
     rt_registry = ch_registry env, rt_maxDepth = new_maxDepth (ro_MaxFallbackDepth (cfg_Routing (sv_Config s))),
     rt_codec = ch_codec env \<rparr>"

section \<open>The request as written\<close>

definition lenientBool :: "string \<Rightarrow> goerr + bool" where
  "lenientBool raw =
     (if raw \<in> {''true'', ''1''} then Inr True
      else if raw \<in> {''false'', ''0'', ''null''} then Inr False
      else Inl (Errorf (''expected a boolean, got %s'', [FStr raw])))"

definition systemInstruction :: "Config \<Rightarrow> fctx \<Rightarrow> string" where
  "systemInstruction cfg c =
     (let dep = cfg_SystemInstruction cfg;
          own = (case c_tenant c of Some t \<Rightarrow> t_SystemInstruction t | None \<Rightarrow> [])
      in if dep = [] then own else if own = [] then dep else dep @ [newline, newline] @ own)"

definition prependSystem :: "'w chat_env \<Rightarrow> string \<Rightarrow> string \<Rightarrow> string option" where
  "prependSystem env body txt =
     (if txt = [] then None
      else
        case jc_fields (ch_codec env) body of
          Inl err \<Rightarrow> None
        | Inr doc \<Rightarrow>
            let fs = (case doc of None \<Rightarrow> [] | Some m \<Rightarrow> m) in
            (case ch_messages env (str_at fs ''messages'') of
               Inl err \<Rightarrow> None
             | Inr msgs \<Rightarrow>
                 let head = ''{\"role\":\"system\",\"content\":'' @ jc_string (ch_codec env) txt @ ''}'' in
                 (case ch_array env (head # msgs) of
                    Inl err \<Rightarrow> None
                  | Inr joined \<Rightarrow>
                      (case jc_object (ch_codec env) (AList.update ''messages'' joined fs) of
                         Inl err \<Rightarrow> None | Inr out \<Rightarrow> Some out))))"

section \<open>Headers, outcome and metering\<close>

definition setCacheStatus :: "fctx \<Rightarrow> string \<Rightarrow> fctx" where
  "setCacheStatus c status =
     (c_Set c HeaderCache status)\<lparr>c_outcome := (c_outcome c)\<lparr>oc_CacheStatus := status\<rparr>\<rparr>"

definition applyRoutingHeaders :: "fctx \<Rightarrow> DispatchResult \<Rightarrow> fctx" where
  "applyRoutingHeaders c r =
     (let c1 = c_Set c HeaderServedBy (ServedBy (dr_Candidate r));
          c2 = c_Set c1 HeaderFallbackDepth (Itoa (int (dr_Depth r)))
      in if md_Deprecated (en_Model (cd_Entry (dr_Candidate r))) then c_Set c2 ''X-CogniGate-Deprecation'' ''true'' else c2)"

definition reportOutcome :: "fctx \<Rightarrow> DispatchResult \<Rightarrow> string \<Rightarrow> TokenUsage option \<Rightarrow> fctx" where
  "reportOutcome c r requested usage =
     (let cand = dr_Candidate r;
          o1 = (c_outcome c)\<lparr>oc_Provider := cd_Provider cand, oc_Model := cd_Model cand,
                 oc_FallbackDepth := int (dr_Depth r), oc_UpstreamMS := whole_millis (rs_Latency (dr_Response r))\<rparr>;
          o2 = (if requested \<noteq> cd_Model cand then o1\<lparr>oc_Alias := requested\<rparr> else o1)
      in c\<lparr>c_outcome := (case usage of
             None \<Rightarrow> o2
           | Some u \<Rightarrow> o2\<lparr>oc_PromptTokens := tu_PromptTokens u, oc_CompletionTokens := tu_CompletionTokens u\<rparr>)\<rparr>)"

definition cascadeReason :: "DispatchAttempt \<Rightarrow> string" where
  "cascadeReason a = (if da_Skipped a then ''breaker_open'' else FailureKind_String (da_Failure a))"

definition meterCascade :: "string \<Rightarrow> DispatchResult \<Rightarrow> 'w Gateway \<Rightarrow> 'w Gateway" where
  "meterCascade tenantID r s =
     (if dr_Depth r = 0 \<or> length (dr_Attempts r) < 2 then s
      else foldl (\<lambda>s (frm, to). meter_event ''fallback_cascades''
             [tenantID, cd_Model (da_Candidate frm), cd_Model (da_Candidate to), cascadeReason frm] 1 s)
           s (zip (dr_Attempts r) (tl (dr_Attempts r))))"

definition telemetry_Record :: "'w chat_env \<Rightarrow> UsageRecord \<Rightarrow> 'w \<Rightarrow> 'w Gateway \<Rightarrow> 'w \<times> 'w Gateway" where
  \<comment> \<open>\<open>Telemetry.Record\<close>; the clock is read only to throttle the warning\<close>
  "telemetry_Record env rec w s =
     (case gt_telemetry s of
        None \<Rightarrow> (w, s)
      | Some t \<Rightarrow>
          if length (te_ch t) < te_buffer t then (w, s\<lparr>gt_telemetry := Some (Record 0 0 rec t)\<rparr>)
          else
            let (w1, t1) = ch_now env w;
                (w2, t2) = (if t1 - te_lastWarned t < 10 * Second then (w1, t1) else ch_now env w1)
            in (w2, s\<lparr>gt_telemetry := Some (Record t1 t2 rec t)\<rparr>))"

definition meter_usage :: "string \<Rightarrow> DispatchResult \<Rightarrow> TokenUsage option \<Rightarrow> rat \<Rightarrow> 'w Gateway \<Rightarrow> 'w Gateway" where
  \<comment> \<open>the metrics of \<open>record\<close>\<close>
  "meter_usage tenantID r usage cost s =
     (let p = cd_Provider (dr_Candidate r); m = cd_Model (dr_Candidate r);
          s1 = meter_event ''upstream_duration'' [p, m] (of_int (rs_Latency (dr_Response r)) / of_int Second) s;
          s2 = (case usage of
                  None \<Rightarrow> s1
                | Some u \<Rightarrow> meter_event ''tokens'' [tenantID, p, m, TokenKindCompletion] (of_int (tu_CompletionTokens u))
                    (meter_event ''tokens'' [tenantID, p, m, TokenKindPrompt] (of_int (tu_PromptTokens u)) s1));
          s3 = (if cost > 0 then meter_event ''cost'' [tenantID, p, m] cost s2 else s2)
      in meterCascade tenantID r s3)"

definition counter_panics :: "'w Gateway \<Rightarrow> TokenUsage option \<Rightarrow> bool" where
  \<comment> \<open>the token counters are given what the upstream reported, and a Prometheus counter panics on a negative amount\<close>
  "counter_panics s usage \<longleftrightarrow> sv_metrics s \<noteq> None \<and>
     (case usage of Some u \<Rightarrow> tu_PromptTokens u < 0 \<or> tu_CompletionTokens u < 0 | None \<Rightarrow> False)"

definition metered_until :: "string \<Rightarrow> DispatchResult \<Rightarrow> TokenUsage option \<Rightarrow> 'w Gateway \<Rightarrow> 'w Gateway" where
  \<comment> \<open>what \<open>record\<close> has written when the counter panics\<close>
  "metered_until tenantID r usage s =
     (let p = cd_Provider (dr_Candidate r); m = cd_Model (dr_Candidate r);
          s1 = meter_event ''upstream_duration'' [p, m] (of_int (rs_Latency (dr_Response r)) / of_int Second) s
      in case usage of
           Some u \<Rightarrow> if tu_PromptTokens u < 0 then s1 else meter_event ''tokens'' [tenantID, p, m, TokenKindPrompt] (of_int (tu_PromptTokens u)) s1
         | None \<Rightarrow> s1)"

definition decrease :: string where
  "decrease = ''counter cannot decrease in value''"

definition usage_record ::
  "Config \<Rightarrow> string \<times> string \<times> string \<times> string \<Rightarrow> DispatchResult \<Rightarrow> string \<Rightarrow> TokenUsage option \<Rightarrow> bool \<Rightarrow> int
    \<Rightarrow> duration \<Rightarrow> time \<Rightarrow> UsageRecord" where
  \<comment> \<open>the first argument tuple is request id, client request id, tenant and key prefix\<close>
  "usage_record cfg who r requested usage streamed status elapsed now =
     (let (requestID, clientRequestID, tenantID, prefix) = who; cost = CostUSD r usage in
      \<lparr> u_RequestID = requestID, u_ClientRequestID = clientRequestID, u_TenantID = tenantID, u_KeyPrefix = prefix,
        u_Provider = cd_Provider (dr_Candidate r), u_Model = cd_Model (dr_Candidate r), u_RequestedModel = requested,
        u_FallbackDepth = int (dr_Depth r),
        u_PromptTokens = (case usage of Some u \<Rightarrow> tu_PromptTokens u | None \<Rightarrow> 0),
        u_CompletionToken = (case usage of Some u \<Rightarrow> tu_CompletionTokens u | None \<Rightarrow> 0),
        u_TotalTokens = (case usage of Some u \<Rightarrow> tu_TotalTokens u | None \<Rightarrow> 0),
        u_CostUSD = cost, u_ChargeUSD = Charge (cfg_Billing cfg) cost, u_BillingMode = bl_Mode (cfg_Billing cfg),
        u_Cached = False, u_Streamed = streamed, u_StatusCode = status, u_DurationMS = whole_millis elapsed,
        u_RecordedAt = now \<rparr>)"

definition record_served ::
  "'w chat_env \<Rightarrow> string \<times> string \<times> string \<times> string \<Rightarrow> DispatchResult \<Rightarrow> string \<Rightarrow> TokenUsage option \<Rightarrow> bool \<Rightarrow> int
    \<Rightarrow> duration \<Rightarrow> 'w \<Rightarrow> 'w Gateway \<Rightarrow> 'w \<times> 'w Gateway" where
  "record_served env who r requested usage streamed status elapsed w s =
     (let (w1, now) = ch_now env w;
          s1 = meter_usage (fst (snd (snd who))) r usage (CostUSD r usage) s
      in telemetry_Record env (usage_record (sv_Config s) who r requested usage streamed status elapsed now) w1 s1)"

definition who_of :: "fctx \<Rightarrow> string \<times> string \<times> string \<times> string" where
  "who_of c = (c_requestID c, c_clientRequestID c, TenantID c, keyPrefix c)"

definition meter ::
  "'w chat_env \<Rightarrow> DispatchResult \<Rightarrow> string \<Rightarrow> TokenUsage option \<Rightarrow> bool \<Rightarrow> int \<Rightarrow> duration \<Rightarrow> 'w \<Rightarrow> 'w Gateway \<Rightarrow> fctx
    \<Rightarrow> 'w \<times> 'w Gateway \<times> fctx" where
  "meter env r requested usage streamed status elapsed w s c =
     (let c1 = reportOutcome c r requested usage;
          (w1, s1) = record_served env (who_of c1) r requested usage streamed status elapsed w s
      in (w1, s1, c1))"

definition recordRejection :: "fctx \<Rightarrow> string \<Rightarrow> fctx" where
  "recordRejection c requested = c\<lparr>c_outcome := (c_outcome c)\<lparr>oc_Alias := requested\<rparr>\<rparr>"

definition timeoutAware :: "bool \<Rightarrow> duration \<Rightarrow> goerr \<Rightarrow> goerr" where
  \<comment> \<open>\<open>late\<close>: the context's deadline was exceeded\<close>
  "timeoutAware late budget err =
     (if \<not> late then err
      else if (case err_as err of Some e \<Rightarrow> e_Status e \<noteq> 502 | None \<Rightarrow> False) then err
      else ApiErr (WithCause (GatewayTimeout (of_int budget / of_int Second)) err))"

section \<open>Buffered completions\<close>

definition limits_of :: "'w Gateway \<Rightarrow> fctx \<Rightarrow> effectiveLimits" where
  "limits_of s c = limitsFor (sv_Config s) (c_tenant c)"

definition opContext :: "'w chat_env \<Rightarrow> 'w \<Rightarrow> 'w Gateway \<Rightarrow> fctx \<Rightarrow> 'w \<times> time" where
  \<comment> \<open>the deadline of the context\<close>
  "opContext env w s c = (let (w1, t) = ch_now env w in (w1, t + ef_RequestTimeout (limits_of s c)))"

definition cacheKeyFor ::
  "'w chat_env \<Rightarrow> cachePlan \<Rightarrow> string \<Rightarrow> string \<Rightarrow> string \<Rightarrow> 'w \<Rightarrow> 'w Gateway \<Rightarrow> 'w \<times> 'w Gateway \<times> (string \<times> string) option" where
  \<comment> \<open>the key and the model it names; \<open>None\<close> is the pair of empty strings\<close>
  "cacheKeyFor env plan tenantID requested body w s =
     (if \<not> pl_lookup plan then (w, s, None)
      else
        let (w1, d, r) = Primary (route_env_of env s) w (gt_dispatcher s) tenantID requested;
            s1 = s\<lparr>gt_dispatcher := d\<rparr>
        in case r of
             Inl err \<Rightarrow> (w1, s1, None)
           | Inr primary \<Rightarrow>
               (case Cache_Key (ge_sha256 (ch_ge env)) (ch_cacheCodec env) tenantID (ServedBy primary) body of
                  Inl err \<Rightarrow> (w1, s1, None)
                | Inr key \<Rightarrow> (w1, s1, Some (key, ServedBy primary))))"

definition cache_lookup :: "'w chat_env \<Rightarrow> string \<Rightarrow> 'w \<Rightarrow> 'w Gateway \<Rightarrow> 'w \<times> 'w Gateway \<times> CacheEntry option" where
  "cache_lookup env key w s =
     (case gt_cache s of
        None \<Rightarrow> (w, s, None)
      | Some k \<Rightarrow>
          let (w1, now) = ch_now env w; (k1, e) = Cache_Get now key k in (w1, s\<lparr>gt_cache := Some k1\<rparr>, e))"

definition cache_store ::
  "'w chat_env \<Rightarrow> string \<Rightarrow> string \<Rightarrow> CacheEntry \<Rightarrow> duration \<Rightarrow> 'w \<Rightarrow> 'w Gateway \<Rightarrow> 'w \<times> 'w Gateway" where
  "cache_store env tenantID key e ttl w s =
     (case gt_cache s of
        None \<Rightarrow> (w, s)
      | Some k \<Rightarrow> let (w1, now) = ch_now env w in (w1, s\<lparr>gt_cache := Some (Cache_Put now tenantID key e ttl k)\<rparr>))"

definition send_json :: "fctx \<Rightarrow> string \<Rightarrow> fctx" where
  "send_json c body = (c_Set c ''Content-Type'' ''application/json'')\<lparr>c_status := 200, c_body := RawBody body\<rparr>"

definition cached_record :: "fctx \<Rightarrow> CacheEntry \<Rightarrow> string \<Rightarrow> duration \<Rightarrow> time \<Rightarrow> UsageRecord" where
  "cached_record c entry requested elapsed now =
     \<lparr> u_RequestID = c_requestID c, u_ClientRequestID = c_clientRequestID c, u_TenantID = TenantID c,
       u_KeyPrefix = keyPrefix c, u_Provider = ce_Provider entry, u_Model = ce_Model entry, u_RequestedModel = requested,
       u_FallbackDepth = 0, u_PromptTokens = 0, u_CompletionToken = 0, u_TotalTokens = 0, u_CostUSD = 0, u_ChargeUSD = 0,
       u_BillingMode = [], u_Cached = True, u_Streamed = False, u_StatusCode = 200, u_DurationMS = whole_millis elapsed,
       u_RecordedAt = now \<rparr>"

definition hit_ctx :: "fctx \<Rightarrow> CacheEntry \<Rightarrow> string \<Rightarrow> fctx" where
  "hit_ctx c entry requested =
     (let c1 = setCacheStatus c ''hit'';
          c2 = c_Set (c_Set c1 HeaderServedBy (CacheEntry_ServedBy entry)) HeaderFallbackDepth ''0'';
          o1 = (c_outcome c2)\<lparr>oc_Provider := ce_Provider entry, oc_Model := ce_Model entry\<rparr>
      in c2\<lparr>c_outcome := (if requested \<noteq> ce_Model entry then o1\<lparr>oc_Alias := requested\<rparr> else o1)\<rparr>)"

definition record_hit ::
  "'w chat_env \<Rightarrow> CacheEntry \<Rightarrow> string \<Rightarrow> time \<Rightarrow> fctx \<Rightarrow> 'w \<Rightarrow> 'w Gateway \<Rightarrow> 'w \<times> 'w Gateway" where
  "record_hit env entry requested started c w s =
     (if gt_telemetry s = None then (w, s)
      else let (w1, t1) = ch_now env w; (w2, t2) = ch_now env w1
           in telemetry_Record env (cached_record c entry requested (t1 - started) t2) w2 s)"

definition serveFromCache ::
  "'w chat_env \<Rightarrow> CacheEntry \<Rightarrow> string \<Rightarrow> time \<Rightarrow> 'w gateway_handler" where
  "serveFromCache env entry requested started w s c =
     (let c1 = hit_ctx c entry requested;
          (w1, s1) = record_hit env entry requested started c1 w s
      in (w1, s1, send_json c1 (ce_Body entry), Returned None))"

definition completion ::
  "'w chat_env \<Rightarrow> string \<Rightarrow> string \<Rightarrow> string \<Rightarrow> cachePlan \<Rightarrow> 'w gateway_handler" where
  "completion env tenantID requested body plan w s c =
     (let (w1, deadline) = opContext env w s c;
          (w2, started) = ch_now env w1;
          (w3, s3, key) = cacheKeyFor env plan tenantID requested body w2 s;
          (w4, s4, hit) = (case key of None \<Rightarrow> (w3, s3, None) | Some (k, servedBy) \<Rightarrow> cache_lookup env k w3 s3)
      in case hit of
           Some entry \<Rightarrow> serveFromCache env entry requested started w4 s4 c
         | None \<Rightarrow>
             let (w5, d, out) = Dispatch (route_env_of env s4) w4 (gt_dispatcher s4) tenantID requested body False
                   ''/chat/completions'';
                 s5 = s4\<lparr>gt_dispatcher := d\<rparr>
             in case out of
                  Panicked \<Rightarrow> (w5, s5, c, Panic ''assignment to entry in nil map'')
                | Failed err \<Rightarrow>
                    let c1 = recordRejection c requested; (w6, t) = ch_now env w5
                    in (w6, s5, Fail c1 (timeoutAware (t \<ge> deadline) (ef_RequestTimeout (limits_of s5 c1)) err), Returned None)
                | Served r \<Rightarrow>
                    let c1 = applyRoutingHeaders c r;
                        (w6, t) = ch_now env w5 in
                    if counter_panics s5 (rs_Usage (dr_Response r))
                    then (w6, metered_until (TenantID c1) r (rs_Usage (dr_Response r)) s5,
                          reportOutcome c1 r requested (rs_Usage (dr_Response r)), Panic decrease)
                    else
                    let (w7, s7, c2) = meter env r requested (rs_Usage (dr_Response r)) False 200 (t - started) w6 s5 c1;
                        c3 = (if key = None then c2 else setCacheStatus c2 ''miss'');
                        (w8, s8) = (case key of
                            Some (k, servedBy) \<Rightarrow>
                              if ServedBy (dr_Candidate r) = servedBy
                              then cache_store env tenantID k
                                     \<lparr> ce_Body = rs_Body (dr_Response r), ce_Provider = cd_Provider (dr_Candidate r),
                                       ce_Model = cd_Model (dr_Candidate r) \<rparr> (pl_ttl plan) w7 s7
                              else (w7, s7)
                          | None \<Rightarrow> (w7, s7))
                    in (w8, s8, send_json c3 (rs_Body (dr_Response r)), Returned None))"

section \<open>Streamed completions\<close>

definition stream_ctx :: "fctx \<Rightarrow> DispatchResult \<Rightarrow> string \<Rightarrow> fctx" where
  "stream_ctx c r requested =
     (let c1 = reportOutcome (applyRoutingHeaders c r) r requested None;
          c2 = c_Set (c_Set (c_Set (c_Set c1 ''Content-Type'' ''text/event-stream'') ''Cache-Control'' ''no-cache'')
                 ''Connection'' ''keep-alive'') ''X-Accel-Buffering'' ''no''
      in c2\<lparr>c_status := 200\<rparr>)"

definition stream_job ::
  "string \<Rightarrow> string \<Rightarrow> DispatchResult \<Rightarrow> time \<Rightarrow> duration \<Rightarrow> fctx \<Rightarrow> nat option \<Rightarrow> streamJob" where
  \<comment> \<open>what the writer's closure carries\<close>
  "stream_job tenantID requested r started idle c releaseSlot =
     \<lparr> sj_requestID = c_requestID c, sj_clientRequestID = c_clientRequestID c, sj_tenantID = tenantID,
       sj_prefix = keyPrefix c, sj_result = r, sj_requested = requested, sj_started = started,
       sj_idle = idle, sj_release = releaseSlot \<rparr>"

definition streamCompletion :: "'w chat_env \<Rightarrow> string \<Rightarrow> string \<Rightarrow> string \<Rightarrow> 'w gateway_handler" where
  "streamCompletion env tenantID requested body w s c =
     (let (w1, started) = ch_now env w;
          (w2, d, out) = Dispatch (route_env_of env s) w1 (gt_dispatcher s) tenantID requested body True ''/chat/completions'';
          s2 = s\<lparr>gt_dispatcher := d\<rparr>
      in case out of
           Panicked \<Rightarrow> (w2, s2, c, Panic ''assignment to entry in nil map'')
         | Failed err \<Rightarrow>
             let c1 = recordRejection c requested
             in (w2, s2, Fail c1 (timeoutAware False (ef_RequestTimeout (limits_of s2 c1)) err), Returned None)
         | Served r \<Rightarrow>
             let c3 = stream_ctx c r requested;
                 (c4, releaseSlot) = adoptSlot c3;
                 job = stream_job tenantID requested r started (ef_StreamIdleTimeout (limits_of s2 c3)) c3 releaseSlot
             in (w2, s2\<lparr>gt_streams := gt_streams s2 @ [job]\<rparr>, c4\<lparr>c_body := StreamBody\<rparr>, Returned None))"

definition run_stream ::
  "'w chat_env \<Rightarrow> streamJob \<Rightarrow> nat option \<Rightarrow> delivery list \<Rightarrow> 'w \<Rightarrow> 'w Gateway \<Rightarrow> 'w \<times> 'w Gateway \<times> string \<times> flow" where
  \<comment> \<open>the body stream writer: what the client received, and how it ended. It runs on a goroutine of its own, which nothing
     recovers; the deferred release runs also when it panics\<close>
  "run_stream env job room ds w s =
     (let (w1, t0) = ch_now env w;
          (st, how) = relaySSE (ch_usage env) (sj_idle job) t0 room ds;
          st2 = finish_relay (ch_body env) (sj_requestID job) (st, how);
          (w2, t) = ch_now env w1;
          crash = counter_panics s (rl_usage st);
          (w3, s3) = (if crash then (w2, metered_until (sj_tenantID job) (sj_result job) (rl_usage st) s)
            else record_served env (sj_requestID job, sj_clientRequestID job, sj_tenantID job, sj_prefix job)
              (sj_result job) (sj_requested job) (rl_usage st) True 200 (t - sj_started job) w2 s);
          s4 = (case sj_release job of None \<Rightarrow> s3 | Some p \<Rightarrow> s3\<lparr>sv_limiter := release p (sv_limiter s3)\<rparr>)
      in (w3, s4, rl_out st2, if crash then Panic decrease else Returned None))"

section \<open>The handler\<close>

definition admitted_chat :: "'w chat_env \<Rightarrow> chatEnvelope \<Rightarrow> string \<Rightarrow> 'w gateway_handler" where
  \<comment> \<open>the handler from where the quota has admitted the request\<close>
  "admitted_chat env ev body w s c =
     (let payload = (case prependSystem env body (systemInstruction (sv_Config s) c) of
            Some rewritten \<Rightarrow> rewritten | None \<Rightarrow> body);
          plan = planCache (cfg_Cache (sv_Config s)) (gt_cache s) (c_tenant c) (c_Get c HeaderCache) ev;
          c1 = (if pl_header plan \<noteq> [] then setCacheStatus c (pl_header plan) else c)
      in if env_Stream ev then streamCompletion env (TenantID c1) (env_Model ev) payload w s c1
         else completion env (TenantID c1) (env_Model ev) payload plan w s c1)"

definition usage_quota :: "'w chat_env \<Rightarrow> 'w \<Rightarrow> 'w Gateway \<Rightarrow> quota_reads" where
  \<comment> \<open>the store as the quota code sees it\<close>
  "usage_quota env w s = store_quota_reads (ch_usageStore env w (sv_Store s)) (sv_Store s)"

definition handleChatCompletions :: "'w chat_env \<Rightarrow> 'w gateway_handler" where
  "handleChatCompletions env w s c =
     (let body = c_reqBody c in
      if body = [] then (w, s, fail_with c (InvalidRequest (''A JSON request body is required.'', [])))
      else
        case ch_envelope env body of
          Inl err \<Rightarrow> (w, s, fail_with c (WithCause (InvalidRequest (''Request body is not valid JSON.'', [])) err))
        | Inr ev \<Rightarrow>
            if env_Model ev = []
            then (w, s, fail_with c (WithParam (InvalidRequest (''The \"model\" field is required.'', [])) ''model''))
            else
              let (w1, q, es, verdict) = evaluateQuota (sv_Config s) (usage_quota env w s) (ch_now env) w
                    (requestScope c) (gt_quotas s);
                  s1 = s\<lparr>gt_quotas := q, gt_emitted := gt_emitted s @ es\<rparr>;
                  c1 = c_Set c HeaderQuotaState (qv_State verdict)
              in case qv_Reject verdict of
                   Some e \<Rightarrow> (w1, s1, fail_with (recordRejection c1 (env_Model ev)) e)
                 | None \<Rightarrow> admitted_chat env ev body w1 s1 c1)"

end
