(* ===== verification/Json_Views.thy ===== *)
theory Json_Views
  imports Http_Context Debug_Capture Paging
begin

text \<open>
  What the API shows of a stored value: \<open>encoding/json\<close> on the structs of \<open>gateway/internal/store/types.go\<close> as their
  field tags direct it. A field tagged with a dash is absent, an \<open>omitempty\<close> field is absent at its zero value. The two
  lists this needs never to be null, \<open>Keys\<close> prefixes and \<open>Events\<close>, are built non-nil by their writers.
\<close>

definition omit :: "bool \<Rightarrow> string \<times> jval \<Rightarrow> (string \<times> jval) list" where
  \<comment> \<open>\<open>omitempty\<close>\<close>
  "omit zero kv = (if zero then [] else [kv])"

definition json_strings :: "string list \<Rightarrow> jval" where
  "json_strings xs = JArr (map JStr xs)"

definition TenantLimits_json :: "TenantLimits \<Rightarrow> jval" where
  "TenantLimits_json l = JObj (
     omit (tl_MaxRequestBytes l = 0) (''max_request_bytes'', JInt (tl_MaxRequestBytes l)) @
     omit (tl_RequestTimeoutSeconds l = 0) (''request_timeout_seconds'', JInt (tl_RequestTimeoutSeconds l)) @
     omit (tl_StreamIdleTimeoutSeconds l = 0) (''stream_idle_timeout_seconds'', JInt (tl_StreamIdleTimeoutSeconds l)) @
     omit (tl_MaxConcurrentPerKey l = 0) (''max_concurrent_per_key'', JInt (tl_MaxConcurrentPerKey l)) @
     omit (tl_RequestsPerSecond l = 0) (''requests_per_second'', JInt (tl_RequestsPerSecond l)) @
     omit (tl_BurstCapacity l = 0) (''burst_capacity'', JInt (tl_BurstCapacity l)) @
     omit (tl_RequestsPerMinute l = 0) (''requests_per_minute'', JInt (tl_RequestsPerMinute l)))"

definition TenantCache_json :: "TenantCache \<Rightarrow> jval" where
  "TenantCache_json x = JObj (
     omit (\<not> tc_Enabled x) (''enabled'', JBool (tc_Enabled x)) @ omit (tc_TTLSeconds x = 0) (''ttl_seconds'', JInt (tc_TTLSeconds x)))"

definition TenantDebugCapture_json :: "TenantDebugCapture \<Rightarrow> jval" where
  "TenantDebugCapture_json x = JObj (
     omit (\<not> dc_Enabled x) (''enabled'', JBool (dc_Enabled x)) @ omit (dc_TTLSeconds x = 0) (''ttl_seconds'', JInt (dc_TTLSeconds x)) @
     omit (dc_SampleRate x = 0) (''sample_rate'', JNum (dc_SampleRate x)))"

definition Tenant_fields :: "Tenant \<Rightarrow> (string \<times> jval) list" where
  "Tenant_fields t =
     [(''id'', JStr (t_ID t)), (''name'', JStr (t_Name t)), (''status'', JStr (t_Status t)), (''created_at'', JTime (t_CreatedAt t)),
      (''limits'', TenantLimits_json (t_Limits t)), (''cache'', TenantCache_json (t_Cache t)),
      (''debug_capture'', TenantDebugCapture_json (t_DebugCapture t))] @
     omit (t_SystemInstruction t = []) (''system_instruction'', JStr (t_SystemInstruction t))"

definition APIKey_json :: "APIKey \<Rightarrow> jval" where
  "APIKey_json k = JObj (
     [(''id'', JStr (k_ID k)), (''tenant_id'', JStr (k_TenantID k)), (''plane'', JStr (k_Plane k)), (''name'', JStr (k_Name k)),
      (''prefix'', JStr (k_Prefix k))] @
     omit (k_Scope k = []) (''scope'', JStr (k_Scope k)) @ [(''created_at'', JTime (k_CreatedAt k))] @
     (case k_ExpiresAt k of None \<Rightarrow> [] | Some t \<Rightarrow> [(''expires_at'', JTime t)]) @
     (case k_RevokedAt k of None \<Rightarrow> [] | Some t \<Rightarrow> [(''revoked_at'', JTime t)]))"

definition Provider_json :: "Provider \<Rightarrow> jval" where
  "Provider_json p = JObj
     [(''id'', JStr (p_ID p)), (''tenant_id'', JStr (p_TenantID p)), (''name'', JStr (p_Name p)), (''kind'', JStr (p_Kind p)),
      (''base_url'', JStr (p_BaseURL p)), (''enabled'', JBool (p_Enabled p)), (''key_strategy'', JStr (p_KeyStrategy p)),
      (''key_prefixes'', json_strings (p_KeyPrefixes p)), (''created_at'', JTime (p_CreatedAt p))]"

definition Alias_json :: "Alias \<Rightarrow> jval" where
  "Alias_json a = JObj (
     [(''id'', JStr (a_ID a)), (''tenant_id'', JStr (a_TenantID a)), (''name'', JStr (a_Name a))] @
     omit (a_Pin a = []) (''pin'', JStr (a_Pin a)) @
     omit (a_Capabilities a = []) (''capabilities'', json_strings (a_Capabilities a)) @
     omit (a_MinContextWindow a = 0) (''min_context_window'', JInt (a_MinContextWindow a)) @
     omit (a_ProviderPreference a = []) (''provider_preference'', json_strings (a_ProviderPreference a)) @
     omit (a_CostTier a = []) (''cost_tier'', JStr (a_CostTier a)) @ [(''created_at'', JTime (a_CreatedAt a))])"

definition Route_json :: "Route \<Rightarrow> jval" where
  "Route_json r = JObj
     [(''id'', JStr (r_ID r)), (''tenant_id'', JStr (r_TenantID r)), (''match'', JStr (r_Match r)),
      (''chain'', json_strings (r_Chain r)), (''created_at'', JTime (r_CreatedAt r))]"

definition QuotaLimit_json :: "QuotaLimit \<Rightarrow> jval" where
  "QuotaLimit_json l = JObj [(''cap'', JNum (ql_Cap l)), (''soft_threshold_pct'', JInt (ql_SoftThresholdPct l))]"

definition QuotaWindow_json :: "QuotaWindow \<Rightarrow> jval" where
  "QuotaWindow_json w = JObj (
     (case qw_Tokens w of None \<Rightarrow> [] | Some l \<Rightarrow> [(''tokens'', QuotaLimit_json l)]) @
     (case qw_Cost w of None \<Rightarrow> [] | Some l \<Rightarrow> [(''cost'', QuotaLimit_json l)]) @
     (case qw_Requests w of None \<Rightarrow> [] | Some l \<Rightarrow> [(''requests'', QuotaLimit_json l)]))"

definition Quota_json :: "Quota \<Rightarrow> jval" where
  "Quota_json q = JObj (
     [(''tenant_id'', JStr (q_TenantID q))] @ omit (q_KeyID q = []) (''key_id'', JStr (q_KeyID q)) @
     [(''day'', QuotaWindow_json (q_Day q)), (''month'', QuotaWindow_json (q_Month q)), (''updated_at'', JTime (q_UpdatedAt q))])"

definition Webhook_json :: "Webhook \<Rightarrow> jval" where
  "Webhook_json w = JObj
     [(''id'', JStr (w_ID w)), (''tenant_id'', JStr (w_TenantID w)), (''url'', JStr (w_URL w)),
      (''events'', json_strings (w_Events w)), (''enabled'', JBool (w_Enabled w)), (''created_at'', JTime (w_CreatedAt w))]"

definition farg_json :: "farg \<Rightarrow> jval" where
  "farg_json x = (case x of FStr s \<Rightarrow> JStr s | FInt n \<Rightarrow> JInt n | FFloat r \<Rightarrow> JNum r)"

definition Event_json :: "Event \<Rightarrow> jval" where
  "Event_json e = JObj
     [(''id'', JStr (ev_ID e)), (''type'', JStr (ev_Type e)), (''created'', JTime (ev_Created e)), (''tenant'', JStr (ev_TenantID e)),
      (''data'', JObj (map (\<lambda>(k, v). (k, farg_json v)) (ev_Data e)))]"

definition AuditEntry_json :: "AuditEntry \<Rightarrow> jval" where
  "AuditEntry_json a = JObj (
     [(''id'', JStr (au_ID a)), (''at'', JTime (au_At a)), (''actor'', JStr (au_Actor a)), (''actor_key_id'', JStr (au_ActorKeyID a)),
      (''actor_scope'', JStr (au_ActorScope a)), (''action'', JStr (au_Action a)), (''resource'', JStr (au_Resource a))] @
     omit (au_TenantID a = []) (''tenant_id'', JStr (au_TenantID a)) @ [(''status'', JInt (au_Status a))] @
     omit (au_RequestID a = []) (''request_id'', JStr (au_RequestID a)))"

definition b64_char :: "nat \<Rightarrow> char" where
  "b64_char n = char_of (if n < 26 then 65 + n else if n < 52 then 71 + n else if n < 62 then n - 4 else if n = 62 then 43 else 47)"

fun base64 :: "string \<Rightarrow> string" where
  \<comment> \<open>how \<open>encoding/json\<close> writes a byte slice\<close>
  "base64 [] = []"
| "base64 [a] = [b64_char (byte a div 4), b64_char (byte a mod 4 * 16), CHR ''='', CHR ''='']"
| "base64 [a, b] = [b64_char (byte a div 4), b64_char (byte a mod 4 * 16 + byte b div 16), b64_char (byte b mod 16 * 4), CHR ''='']"
| "base64 (a # b # d # rest) =
     b64_char (byte a div 4) # b64_char (byte a mod 4 * 16 + byte b div 16) #
     b64_char (byte b mod 16 * 4 + byte d div 64) # b64_char (byte d mod 64) # base64 rest"

definition bytes_json :: "string \<Rightarrow> jval" where
  \<comment> \<open>a captured slice of length zero is nil\<close>
  "bytes_json bs = (if bs = [] then JNull else JStr (base64 bs))"

definition CaptureEntry_json :: "CaptureEntry \<Rightarrow> jval" where
  "CaptureEntry_json e = JObj (
     [(''id'', JStr (cp_ID e))] @ omit (cp_RequestID e = []) (''request_id'', JStr (cp_RequestID e)) @
     [(''at'', JTime (cp_At e)), (''expires_at'', JTime (cp_ExpiresAt e))] @
     omit (cp_Model e = []) (''model'', JStr (cp_Model e)) @
     [(''status'', JInt (cp_Status e)), (''request'', bytes_json (cp_Request e)), (''response'', bytes_json (cp_Response e))])"

section \<open>Answers\<close>

definition answer_json :: "int \<Rightarrow> jval \<Rightarrow> fctx \<Rightarrow> fctx" where
  \<comment> \<open>\<open>c.Status(status).JSON(v)\<close>\<close>
  "answer_json status v c = c\<lparr>c_status := status, c_body := JSONBody v\<rparr>"

definition no_content :: "fctx \<Rightarrow> fctx" where
  \<comment> \<open>\<open>c.SendStatus(fiber.StatusNoContent)\<close>\<close>
  "no_content c = c\<lparr>c_status := 204, c_body := NoBody\<rparr>"

definition answer_page :: "'a list \<Rightarrow> ('a \<Rightarrow> string) \<Rightarrow> ('a \<Rightarrow> jval) \<Rightarrow> fctx \<Rightarrow> fctx" where
  \<comment> \<open>\<open>sendPage\<close>\<close>
  "answer_page items idOf view c =
     (case sendPage c items idOf of
        Inl c1 \<Rightarrow> c1
      | Inr p \<Rightarrow> answer_json (c_status c) (JObj [(''object'', JStr ''list''), (''data'', JArr (map view (pg_data p))),
            (''has_more'', JBool (pg_has_more p))]) c)"

section \<open>Secrets\<close>

text \<open>The JSON of a key, a provider and a webhook is a function of what is not secret: replacing the hash, the provider
  credentials or the signing secret by any other value changes nothing of it.\<close>

lemma secrets_not_shown:
  "APIKey_json (k\<lparr>k_Hash := h\<rparr>) = APIKey_json k"
  "Provider_json (p\<lparr>p_Keys := ks\<rparr>) = Provider_json p"
  "Webhook_json (w\<lparr>w_Secret := x\<rparr>) = Webhook_json w"
  by (simp_all add: APIKey_json_def Provider_json_def Webhook_json_def)

end
