(* ===== verification/Data_Plane.thy ===== *)
theory Data_Plane
  imports Chat Json_Views
begin

text \<open>
  The read side of the data plane, \<open>gateway/internal/server/data.go\<close>: models, usage, health and the meta document.

  A response is a value of the JSON type, built field by field as the struct tags of the source direct it; the health
  report, which is cached, is a record first. Iterating over the breaker's snapshot, a Go map, is iterating
  over its entries in some order; what is built from it does not depend on the order. The store is
  the in-memory one, whose reads and \<open>Ping\<close> cannot fail. The version string, the instant the process started and
  whether events are delivered are fields of the record \<open>data_env\<close>.
\<close>

record 'w data_env =
  de_ch :: "'w chat_env"
  de_Version :: string
  de_startedAt :: time
  de_Dev :: bool
  de_Events :: bool

abbreviation de_now :: "'w data_env \<Rightarrow> 'w \<Rightarrow> 'w \<times> time" where
  "de_now env \<equiv> ge_now (ch_ge (de_ch env))"

definition version :: "'w data_env \<Rightarrow> string" where
  "version env = (if de_Version env = [] then ''0.0.0-dev'' else de_Version env)"

definition query_or :: "fctx \<Rightarrow> string \<Rightarrow> string \<Rightarrow> string" where
  \<comment> \<open>\<open>query\<close> with a default\<close>
  "query_or c name def = (if query c name = [] then def else query c name)"

section \<open>Times\<close>

definition timestamp :: "time \<Rightarrow> string" where
  "timestamp t = (if t = zero_time then [] else RFC3339 t)"

definition Unix :: "time \<Rightarrow> int" where
  "Unix t = t div Second"

section \<open>Models\<close>

record modelExtensions =
  mx_Provider :: string
  mx_ContextWindow :: int
  mx_MaxOutputTokens :: int
  mx_Capabilities :: "string list"
  mx_InputCostPerMTok :: rat
  mx_OutputCostPerMTok :: rat
  mx_Deprecated :: bool
  mx_DiscoveredAt :: string
  mx_Alias :: bool
  mx_ResolvesTo :: string

record modelObject =
  mo_ID :: string
  mo_Object :: string
  mo_Created :: int
  mo_OwnedBy :: string
  mo_CogniGate :: modelExtensions

definition modelExtensions_json :: "modelExtensions \<Rightarrow> jval" where
  "modelExtensions_json x = JObj (
     omit (mx_Provider x = []) (''provider'', JStr (mx_Provider x)) @
     omit (mx_ContextWindow x = 0) (''context_window'', JInt (mx_ContextWindow x)) @
     omit (mx_MaxOutputTokens x = 0) (''max_output_tokens'', JInt (mx_MaxOutputTokens x)) @
     omit (mx_Capabilities x = []) (''capabilities'', json_strings (mx_Capabilities x)) @
     omit (mx_InputCostPerMTok x = 0) (''input_cost_per_mtok'', JNum (mx_InputCostPerMTok x)) @
     omit (mx_OutputCostPerMTok x = 0) (''output_cost_per_mtok'', JNum (mx_OutputCostPerMTok x)) @
     omit (\<not> mx_Deprecated x) (''deprecated'', JBool (mx_Deprecated x)) @
     omit (mx_DiscoveredAt x = []) (''discovered_at'', JStr (mx_DiscoveredAt x)) @
     omit (\<not> mx_Alias x) (''alias'', JBool (mx_Alias x)) @
     omit (mx_ResolvesTo x = []) (''resolves_to'', JStr (mx_ResolvesTo x)))"

definition modelObject_json :: "modelObject \<Rightarrow> jval" where
  "modelObject_json o1 = JObj [(''id'', JStr (mo_ID o1)), (''object'', JStr (mo_Object o1)), (''created'', JInt (mo_Created o1)),
     (''owned_by'', JStr (mo_OwnedBy o1)), (''cognigate'', modelExtensions_json (mo_CogniGate o1))]"

definition entryObject :: "Entry \<Rightarrow> time \<Rightarrow> modelObject" where
  "entryObject e fetchedAt =
     (let m = en_Model e in
      \<lparr> mo_ID = md_ID m, mo_Object = ''model'', mo_Created = Unix fetchedAt, mo_OwnedBy = md_Provider m,
        mo_CogniGate = \<lparr> mx_Provider = md_Provider m, mx_ContextWindow = md_ContextWindow m, mx_MaxOutputTokens = md_MaxOutputTokens m,
          mx_Capabilities = md_Capabilities m, mx_InputCostPerMTok = md_InputCostPerMTok m,
          mx_OutputCostPerMTok = md_OutputCostPerMTok m, mx_Deprecated = md_Deprecated m,
          mx_DiscoveredAt = timestamp fetchedAt, mx_Alias = False, mx_ResolvesTo = [] \<rparr> \<rparr>)"

definition bare_alias :: modelExtensions where
  "bare_alias = \<lparr> mx_Provider = [], mx_ContextWindow = 0, mx_MaxOutputTokens = 0, mx_Capabilities = [], mx_InputCostPerMTok = 0,
     mx_OutputCostPerMTok = 0, mx_Deprecated = False, mx_DiscoveredAt = [], mx_Alias = True, mx_ResolvesTo = [] \<rparr>"

definition aliasObject :: "Alias \<Rightarrow> goerr + Candidate list \<Rightarrow> time \<Rightarrow> modelObject" where
  \<comment> \<open>one round of \<open>aliasObjects\<close>, given what the alias resolved to\<close>
  "aliasObject a r fetchedAt =
     \<lparr> mo_ID = a_Name a, mo_Object = ''model'', mo_Created = Unix (a_CreatedAt a), mo_OwnedBy = ''cognigate'',
       mo_CogniGate = (case r of
           Inr (cand # _) \<Rightarrow>
             let m = en_Model (cd_Entry cand) in
             bare_alias\<lparr>mx_ResolvesTo := md_ID m, mx_Provider := md_Provider m, mx_ContextWindow := md_ContextWindow m,
               mx_MaxOutputTokens := md_MaxOutputTokens m, mx_Capabilities := md_Capabilities m,
               mx_InputCostPerMTok := md_InputCostPerMTok m, mx_OutputCostPerMTok := md_OutputCostPerMTok m,
               mx_DiscoveredAt := timestamp fetchedAt\<rparr>
         | _ \<Rightarrow> bare_alias) \<rparr>"

definition resolve_now :: "'w data_env \<Rightarrow> string \<Rightarrow> string \<Rightarrow> 'w \<Rightarrow> 'w Gateway \<Rightarrow> 'w \<times> 'w Gateway \<times> (goerr + Candidate list)" where
  "resolve_now env tid name w s =
     (let re = route_env_of (de_ch env) s in
      case Resolve (rt_errText re) (rt_now re) (rt_store re) (rt_maxDepth re) (ds_catalog (gt_dispatcher s)) w tid name of
        (w1, cat, snap, r) \<Rightarrow> (w1, s\<lparr>gt_dispatcher := (gt_dispatcher s)\<lparr>ds_catalog := cat\<rparr>\<rparr>, r))"

fun alias_objects :: "'w data_env \<Rightarrow> string \<Rightarrow> time \<Rightarrow> Alias list \<Rightarrow> 'w \<Rightarrow> 'w Gateway \<Rightarrow> 'w \<times> 'w Gateway \<times> modelObject list" where
  "alias_objects env tid fetchedAt [] w s = (w, s, [])"
| "alias_objects env tid fetchedAt (a # as) w s =
     (let (w1, s1, r) = resolve_now env tid (a_Name a) w s;
          (w2, s2, rest) = alias_objects env tid fetchedAt as w1 s1
      in (w2, s2, aliasObject a r fetchedAt # rest))"

definition aliasObjects :: "'w data_env \<Rightarrow> string \<Rightarrow> Snapshot \<Rightarrow> 'w \<Rightarrow> 'w Gateway \<Rightarrow> 'w \<times> 'w Gateway \<times> modelObject list" where
  "aliasObjects env tid snap w s = alias_objects env tid (sn_FetchedAt snap) (ListAliases tid (sv_Store s)) w s"

definition catalog_now :: "'w data_env \<Rightarrow> string \<Rightarrow> 'w \<Rightarrow> 'w Gateway \<Rightarrow> 'w \<times> 'w Gateway \<times> (goerr + Snapshot)" where
  "catalog_now env tid w s =
     (case Catalog_Get (ch_errText (de_ch env)) (de_now env) (memory_reads (sv_Store s)) (ds_catalog (gt_dispatcher s)) w tid of
        (w1, cat, r) \<Rightarrow> (w1, s\<lparr>gt_dispatcher := (gt_dispatcher s)\<lparr>ds_catalog := cat\<rparr>\<rparr>, r))"

definition no_catalog :: "goerr \<Rightarrow> apiError" where
  "no_catalog err = WithCause (Unavailable (''The model catalog is unavailable.'', [])) err"

definition object_less :: "modelObject \<Rightarrow> modelObject \<Rightarrow> bool" where
  "object_less x y \<longleftrightarrow> mo_ID x < mo_ID y"

definition handleListModels :: "'w data_env \<Rightarrow> 'w gateway_handler" where
  "handleListModels env w s c =
     (let tid = TenantID c; (w1, s1, r) = catalog_now env tid w s in
      case r of
        Inl err \<Rightarrow> (w1, s1, fail_with c (no_catalog err))
      | Inr snap \<Rightarrow>
          let (w2, s2, as) = aliasObjects env tid snap w1 s1;
              out = sort_slice object_less (map (\<lambda>e. entryObject e (sn_FetchedAt snap)) (sn_Models snap) @ as)
          in (w2, s2, answer_json (c_status c) (JObj [(''object'', JStr ''list''), (''data'', JArr (map modelObject_json out))]) c,
              Returned None))"

fun PathUnescape :: "string \<Rightarrow> string option" where
  \<comment> \<open>\<open>url.PathUnescape\<close>; \<open>None\<close> is its error\<close>
  "PathUnescape [] = Some []"
| "PathUnescape (ch # rest) =
     (if ch \<noteq> CHR ''%'' then map_option ((#) ch) (PathUnescape rest)
      else case rest of
             a # b # rest' \<Rightarrow>
               (case (hex_value a, hex_value b) of
                  (Some x, Some y) \<Rightarrow> map_option ((#) (char_of (x * 16 + y))) (PathUnescape rest')
                | _ \<Rightarrow> None)
           | _ \<Rightarrow> None)"

definition TrimSlashes :: "string \<Rightarrow> string" where
  \<comment> \<open>\<open>strings.Trim(s, "/")\<close>\<close>
  "TrimSlashes x = TrimRightChar (dropWhile (\<lambda>ch. ch = CHR ''/'') x) (CHR ''/'')"

definition handleGetModel :: "'w data_env \<Rightarrow> 'w gateway_handler" where
  "handleGetModel env w s c =
     (let raw = param c ''*'';
          mid = TrimSlashes (case PathUnescape raw of Some d \<Rightarrow> d | None \<Rightarrow> raw)
      in if mid = [] then (w, s, fail_with c (ModelNotFound []))
         else
           let tid = TenantID c; (w1, s1, r) = catalog_now env tid w s in
           case r of
             Inl err \<Rightarrow> (w1, s1, fail_with c (no_catalog err))
           | Inr snap \<Rightarrow>
               (case Lookup snap mid of
                  Some e \<Rightarrow> (w1, s1, answer_json (c_status c) (modelObject_json (entryObject e (sn_FetchedAt snap))) c, Returned None)
                | None \<Rightarrow>
                    let (w2, s2, as) = aliasObjects env tid snap w1 s1 in
                    (case find (\<lambda>o1. mo_ID o1 = mid) as of
                       Some o1 \<Rightarrow> (w2, s2, answer_json (c_status c) (modelObject_json o1) c, Returned None)
                     | None \<Rightarrow> (w2, s2, fail_with c (ModelNotFound mid)))))"

section \<open>Usage\<close>

definition tenantCost :: "Config \<Rightarrow> rat \<Rightarrow> rat option" where
  "tenantCost cfg v = (if HidesCost (cfg_Billing cfg) then None else Some (TenantCost (cfg_Billing cfg) v))"

definition usageWindow :: "fctx \<Rightarrow> time \<Rightarrow> apiError + string \<times> time \<times> time" where
  "usageWindow c now =
     (let window = TrimSpace (query_or c ''window'' ''day'') in
      if window \<notin> {''day'', ''month''}
      then Inl (WithParam (InvalidRequest (''window must be \"day\" or \"month\".'', [])) ''window'')
      else case periodWindow window now of (since, until) \<Rightarrow> Inr (window, since, until))"

record usageLimit =
  ul_Scope :: string
  ul_Window :: string
  ul_Unit :: string
  ul_Cap :: rat
  ul_SoftThresholdPct :: int
  ul_Consumed :: rat
  ul_Remaining :: rat
  ul_ResetsAt :: string
  ul_State :: string

definition usage_row :: "Config \<Rightarrow> slotPosition \<Rightarrow> usageLimit option" where
  \<comment> \<open>the row of one limited slot; \<open>None\<close> when it is left out\<close>
  "usage_row cfg p =
     (if sp_unit p = unitCost \<and> HidesCost (cfg_Billing cfg) then None
      else
        let used = (if sp_unit p = unitCost then TenantCost (cfg_Billing cfg) (sp_used p) else sp_used p);
            remaining = (if sp_cap p - used < 0 then 0 else sp_cap p - used)
        in Some \<lparr> ul_Scope = (if sp_keyLevel p then ''key'' else ''tenant''), ul_Window = sp_window p, ul_Unit = sp_unit p,
                  ul_Cap = sp_cap p, ul_SoftThresholdPct = sp_softPct p, ul_Consumed = used, ul_Remaining = remaining,
                  ul_ResetsAt = RFC3339 (sp_resetsAt p), ul_State = sp_state p \<rparr>)"

fun usage_rows :: "Config \<Rightarrow> slotPosition list \<Rightarrow> string \<times> usageLimit list \<Rightarrow> string \<times> usageLimit list" where
  \<comment> \<open>the loop over the slots: the overall state and the rows so far\<close>
  "usage_rows cfg [] (state, rows) = (state, rows)"
| "usage_rows cfg (p # ps) (state, rows) =
     (if \<not> limited p then usage_rows cfg ps (state, rows)
      else usage_rows cfg ps (worse state (sp_state p),
             case usage_row cfg p of None \<Rightarrow> rows | Some r \<Rightarrow> rows @ [r]))"

definition usageLimit_json :: "usageLimit \<Rightarrow> jval" where
  "usageLimit_json u = JObj [(''scope'', JStr (ul_Scope u)), (''window'', JStr (ul_Window u)), (''unit'', JStr (ul_Unit u)),
     (''cap'', JNum (ul_Cap u)), (''soft_threshold_pct'', JInt (ul_SoftThresholdPct u)), (''consumed'', JNum (ul_Consumed u)),
     (''remaining'', JNum (ul_Remaining u)), (''resets_at'', JStr (ul_ResetsAt u)), (''state'', JStr (ul_State u))]"

definition totals_fields :: "UsageTotals \<Rightarrow> (string \<times> jval) list" where
  \<comment> \<open>the embedded totals, whose own cost is shadowed\<close>
  "totals_fields u = [(''requests'', JInt (ut_Requests u)), (''cached_requests'', JInt (ut_CachedRequests u)),
     (''prompt_tokens'', JInt (ut_PromptTokens u)), (''completion_tokens'', JInt (ut_CompletionTokens u)),
     (''total_tokens'', JInt (ut_TotalTokens u)), (''charge_usd'', JNum (ut_ChargeUSD u))]"

definition cost_field :: "rat option \<Rightarrow> (string \<times> jval) list" where
  "cost_field x = (case x of None \<Rightarrow> [] | Some v \<Rightarrow> [(''cost_usd'', JNum v)])"

definition usage_fields :: "string \<Rightarrow> time \<Rightarrow> time \<Rightarrow> UsageTotals \<Rightarrow> rat option \<Rightarrow> string \<Rightarrow> usageLimit list option \<Rightarrow> (string \<times> jval) list" where
  \<comment> \<open>\<open>usageResponse\<close>; \<open>None\<close> is the nil list of limits\<close>
  "usage_fields window since until totals cost state rows =
     [(''object'', JStr ''usage''), (''window'', JStr window), (''since'', JStr (RFC3339 since)), (''until'', JStr (RFC3339 until))] @
     totals_fields totals @ cost_field cost @
     [(''state'', JStr state), (''limits'', case rows of None \<Rightarrow> JNull | Some rs \<Rightarrow> JArr (map usageLimit_json rs))]"

definition handleUsage :: "'w data_env \<Rightarrow> 'w gateway_handler" where
  "handleUsage env w s c =
     (let (w1, now) = de_now env w in
      case usageWindow c now of
        Inl e \<Rightarrow> (w, s, fail_with c e)
      | Inr (window, since, until) \<Rightarrow>
          (case ur_Usage (ch_usageStore (de_ch env) w1 (sv_Store s)) (TenantID c) since until of
             Inl err \<Rightarrow> (w1, s, fail_with c (From err))
           | Inr totals \<Rightarrow>
               let (w2, t) = de_now env w1 in
               (case quotaSlots (sv_Config s) (usage_quota (de_ch env) w2 s) t (requestScope c) of
                  Inl err \<Rightarrow> (w2, s, fail_with c (From err))
                | Inr slots \<Rightarrow>
                    let (state, rows) = usage_rows (sv_Config s) slots (QuotaOK, [])
                    in (w2, s, answer_json (c_status c) (JObj (usage_fields window since until totals
                          (tenantCost (sv_Config s) (ut_CostUSD totals)) state (Some rows))) c, Returned None))))"

definition maxBreakdownBuckets :: nat where
  "maxBreakdownBuckets = 200"

definition bucket_json :: "UsageBucket \<Rightarrow> rat option \<Rightarrow> jval" where
  \<comment> \<open>\<open>bucketView\<close>\<close>
  "bucket_json b cost = JObj ([(''key'', JStr (ub_Key b))] @ totals_fields (ub_Totals b) @ cost_field cost)"

definition breakdown_json :: "string \<Rightarrow> string \<Rightarrow> time \<Rightarrow> time \<Rightarrow> jval list \<Rightarrow> bool \<Rightarrow> jval" where
  "breakdown_json window groupBy since until rows truncated = JObj
     [(''object'', JStr ''usage_breakdown''), (''window'', JStr window), (''group_by'', JStr groupBy),
      (''since'', JStr (RFC3339 since)), (''until'', JStr (RFC3339 until)), (''data'', JArr rows), (''truncated'', JBool truncated)]"

definition handleUsageBreakdown :: "'w data_env \<Rightarrow> 'w gateway_handler" where
  "handleUsageBreakdown env w s c =
     (let (w1, now) = de_now env w in
      case usageWindow c now of
        Inl e \<Rightarrow> (w, s, fail_with c e)
      | Inr (window, since, until) \<Rightarrow>
          let groupBy = TrimSpace (query_or c ''group_by'' ''model'') in
          if groupBy \<notin> {''model'', ''provider'', ''key'', ''client_request_id''}
          then (w1, s, fail_with c (WithParam (InvalidRequest
                 (''group_by must be one of \"model\", \"provider\", \"key\", \"client_request_id\".'', [])) ''group_by''))
          else case ur_UsageBreakdown (ch_usageStore (de_ch env) w1 (sv_Store s)) (TenantID c) since until groupBy of
                 Inl err \<Rightarrow> (w1, s, fail_with c (From err))
               | Inr buckets \<Rightarrow>
                   let truncated = length buckets > maxBreakdownBuckets;
                       shown = (if truncated then take maxBreakdownBuckets buckets else buckets);
                       rows = map (\<lambda>b. bucket_json b (tenantCost (sv_Config s) (ut_CostUSD (ub_Totals b)))) shown
                   in (w1, s, answer_json (c_status c) (breakdown_json window groupBy since until rows truncated) c, Returned None))"


section \<open>Health\<close>

definition degrade :: "string \<Rightarrow> healthReport \<Rightarrow> healthReport" where
  "degrade to r = (if hp_Status r = healthOK then r\<lparr>hp_Status := to\<rparr> else r)"

definition freshness :: "bool \<Rightarrow> string" where
  "freshness stale = (if stale then ''stale'' else ''fresh'')"

fun reachable :: "string \<Rightarrow> Entry list \<Rightarrow> string list \<Rightarrow> bool" where
  \<comment> \<open>over the models of the snapshot; the last argument is the provider's models with an open breaker\<close>
  "reachable provider [] blocked = False"
| "reachable provider (e # es) blocked =
     (if md_Provider (en_Model e) \<noteq> provider then reachable provider es blocked
      else if snd (ProviderOf (md_ID (en_Model e))) \<notin> set blocked then True
      else reachable provider es blocked)"

definition own_circuits :: "string \<Rightarrow> string \<Rightarrow> (string, Status) gomap \<Rightarrow> (string \<times> Status) list" where
  \<comment> \<open>model and status of the circuits of one tenant and provider\<close>
  "own_circuits tid provider snap =
     map (\<lambda>(key, st). (snd (snd (SplitKey key)), st))
       (filter (\<lambda>(key, st). fst (SplitKey key) = tid \<and> fst (snd (SplitKey key)) = provider) snap)"

definition worse_status :: "Status option \<Rightarrow> Status \<Rightarrow> Status option" where
  "worse_status prev st =
     (case prev of
        None \<Rightarrow> Some st
      | Some p \<Rightarrow>
          if BlockRank (st_State st) > BlockRank (st_State p) \<or> (st_State st = st_State p \<and> st_Until st > st_Until p)
          then Some st else Some p)"

definition worst_of :: "(string \<times> Status) list \<Rightarrow> Status" where
  \<comment> \<open>the entry of \<open>worst\<close>, or the zero status\<close>
  "worst_of circuits =
     (case foldl worse_status None (map snd circuits) of
        None \<Rightarrow> \<lparr> st_State = StateClosed, st_Until = zero_time \<rparr> | Some st \<Rightarrow> st)"

definition breaker_less :: "modelBreaker \<Rightarrow> modelBreaker \<Rightarrow> bool" where
  "breaker_less x y \<longleftrightarrow> mb_Model x < mb_Model y"

definition breaker_rows :: "(string \<times> Status) list \<Rightarrow> modelBreaker list" where
  "breaker_rows circuits = sort_slice breaker_less
     (map (\<lambda>(model, st). \<lparr> mb_Model = model, mb_Breaker = State_Health (st_State st), mb_BreakerUntil = timestamp (st_Until st) \<rparr>) circuits)"

definition open_models :: "(string \<times> Status) list \<Rightarrow> string list" where
  \<comment> \<open>the keys of \<open>blocked[provider]\<close>\<close>
  "open_models circuits = map fst (filter (\<lambda>(model, st). st_State st = StateOpen) circuits)"

definition provider_row :: "(string, Status) gomap \<Rightarrow> Snapshot option \<Rightarrow> string \<Rightarrow> Provider \<Rightarrow> healthReport \<Rightarrow> healthReport" where
  \<comment> \<open>one round of the loop over the providers; the count of usable ones is taken separately\<close>
  "provider_row circuits snap tid p r =
     (let own = own_circuits tid (p_Name p) circuits; st = worst_of own;
          ph = \<lparr> ph_Provider = p_Name p, ph_Enabled = p_Enabled p,
                 ph_Models = (case snap of None \<Rightarrow> 0 | Some sn \<Rightarrow> int (length (filter (\<lambda>e. md_Provider (en_Model e) = p_Name p) (sn_Models sn)))),
                 ph_Breaker = State_Health (st_State st), ph_BreakerUntil = timestamp (st_Until st), ph_Breakers = breaker_rows own,
                 ph_AgeSeconds = cg_AgeSeconds (hp_Catalog r), ph_Freshness = cg_State (hp_Catalog r), ph_Error = [] \<rparr>;
          r1 = (if st_State st \<noteq> StateClosed then degrade healthDegraded r else r);
          (ph2, r2) = (case Option.bind snap (\<lambda>sn. map_of (sn_Errors sn) (p_Name p)) of
              None \<Rightarrow> (ph, r1)
            | Some m \<Rightarrow> (ph\<lparr>ph_Error := m, ph_Freshness := freshness True\<rparr>, degrade healthDegraded r1))
      in r2\<lparr>hp_Providers := hp_Providers r2 @ [ph2]\<rparr>)"

definition provider_usable :: "(string, Status) gomap \<Rightarrow> Snapshot option \<Rightarrow> string \<Rightarrow> Provider \<Rightarrow> bool" where
  "provider_usable circuits snap tid p \<longleftrightarrow> p_Enabled p \<and>
     (case snap of None \<Rightarrow> False | Some sn \<Rightarrow> reachable (p_Name p) (sn_Models sn) (open_models (own_circuits tid (p_Name p) circuits)))"

definition catalog_part :: "Config \<Rightarrow> (goerr \<Rightarrow> string) \<Rightarrow> time \<Rightarrow> goerr + Snapshot \<Rightarrow> healthReport \<Rightarrow> healthReport" where
  "catalog_part cfg errText now r rep =
     (case r of
        Inl err \<Rightarrow> degrade healthDegraded (rep\<lparr>hp_Catalog := (hp_Catalog rep)\<lparr>cg_Error := errText err\<rparr>\<rparr>)
      | Inr snap \<Rightarrow>
          let stale = sn_Stale snap \<or> Age snap now > cc_StaleWarnAfter (cfg_Catalog cfg);
              rep1 = rep\<lparr>hp_Catalog := \<lparr> cg_Models = int (length (sn_Models snap)), cg_AgeSeconds = whole_seconds (Age snap now),
                cg_State = freshness stale, cg_Stale = sn_Stale snap, cg_FetchedAt = timestamp (sn_FetchedAt snap), cg_Error = [] \<rparr>\<rparr>
          in if stale then degrade healthDegraded rep1 else rep1)"

definition empty_report :: "'w data_env \<Rightarrow> time \<Rightarrow> Memory \<Rightarrow> healthReport" where
  "empty_report env now m =
     \<lparr> hp_Status = healthOK, hp_Version = version env,
       hp_UptimeSeconds = whole_seconds (now - de_startedAt env), hp_StoreKind = Memory_Kind m,
       hp_Catalog = \<lparr> cg_Models = 0, cg_AgeSeconds = 0, cg_State = [], cg_Stale = False, cg_FetchedAt = [], cg_Error = [] \<rparr>,
       hp_Providers = [], hp_Aliases = [], hp_Rules = [], hp_Quota = QuotaOK, hp_CheckedAt = RFC3339 now \<rparr>"

definition providers_part :: "(string, Status) gomap \<Rightarrow> goerr + Snapshot \<Rightarrow> string \<Rightarrow> Provider list \<Rightarrow> healthReport \<Rightarrow> healthReport" where
  "providers_part circuits r tid ps rep =
     (let snap = (case r of Inl err \<Rightarrow> None | Inr sn \<Rightarrow> Some sn);
          rep1 = fold (provider_row circuits snap tid) ps rep
      in if snap \<noteq> None \<and> hp_Providers rep1 \<noteq> [] \<and> \<not> (\<exists>p \<in> set ps. provider_usable circuits snap tid p)
         then rep1\<lparr>hp_Status := healthUnavailable\<rparr> else rep1)"

definition buildHealth :: "'w data_env \<Rightarrow> string \<Rightarrow> 'w \<Rightarrow> 'w Gateway \<Rightarrow> 'w \<times> 'w Gateway \<times> healthReport" where
  "buildHealth env tid w s =
     (let (w1, now) = de_now env w;
          rep0 = empty_report env now (sv_Store s);
          (w2, s2, r) = catalog_now env tid w1 s;
          rep1 = catalog_part (sv_Config s) (ch_errText (de_ch env)) now r rep0;
          (w3, t) = de_now env w2;
          rep2 = providers_part (Snapshot (ds_breaker (gt_dispatcher s2)) t) r tid (ListProviders tid (sv_Store s)) rep1;
          (w4, cat, dg) = Diagnose (ch_errText (de_ch env)) (de_now env) (memory_reads (sv_Store s2)) (ds_catalog (gt_dispatcher s2)) w3 tid;
          s3 = s2\<lparr>gt_dispatcher := (gt_dispatcher s2)\<lparr>ds_catalog := cat\<rparr>\<rparr>;
          rep3 = (case dg of
              Inl err \<Rightarrow> rep2
            | Inr d \<Rightarrow> (let x = rep2\<lparr>hp_Aliases := dg_Aliases d, hp_Rules := dg_Rules d\<rparr>
                        in if Degraded d then degrade healthDegraded x else x));
          (w5, q, es, verdict) = evaluateQuota (sv_Config s) (usage_quota (de_ch env) w4 s) (de_now env) w4
            \<lparr> qs_tenantID = tid, qs_keyID = [], qs_keyPrefix = [] \<rparr> (gt_quotas s3);
          rep4 = rep3\<lparr>hp_Quota := qv_State verdict\<rparr>
      in (w5, s3\<lparr>gt_quotas := q, gt_emitted := gt_emitted s3 @ es\<rparr>,
          if qv_State verdict = QuotaHardExceeded then degrade healthDegraded rep4 else rep4))"


definition modelBreaker_json :: "modelBreaker \<Rightarrow> jval" where
  "modelBreaker_json b = JObj ([(''model'', JStr (mb_Model b)), (''breaker'', JStr (mb_Breaker b))] @
     omit (mb_BreakerUntil b = []) (''breaker_until'', JStr (mb_BreakerUntil b)))"

definition catalogHealth_json :: "catalogHealth \<Rightarrow> jval" where
  "catalogHealth_json h = JObj ([(''models'', JInt (cg_Models h)), (''age_seconds'', JInt (cg_AgeSeconds h)),
     (''state'', JStr (cg_State h)), (''stale'', JBool (cg_Stale h))] @
     omit (cg_FetchedAt h = []) (''fetched_at'', JStr (cg_FetchedAt h)) @ omit (cg_Error h = []) (''error'', JStr (cg_Error h)))"

definition providerHealth_json :: "providerHealth \<Rightarrow> jval" where
  "providerHealth_json p = JObj ([(''provider'', JStr (ph_Provider p)), (''enabled'', JBool (ph_Enabled p)),
     (''models'', JInt (ph_Models p)), (''breaker'', JStr (ph_Breaker p))] @
     omit (ph_BreakerUntil p = []) (''breaker_until'', JStr (ph_BreakerUntil p)) @
     omit (ph_Breakers p = []) (''breakers'', JArr (map modelBreaker_json (ph_Breakers p))) @
     [(''catalog'', JObj [(''age_seconds'', JInt (ph_AgeSeconds p)), (''state'', JStr (ph_Freshness p))])] @
     omit (ph_Error p = []) (''error'', JStr (ph_Error p)))"

definition NameState_json :: "NameState \<Rightarrow> jval" where
  "NameState_json n = JObj ([(''name'', JStr (ns_Name n)), (''state'', JStr (ns_State n))] @
     omit (ns_ResolvesTo n = []) (''resolves_to'', JStr (ns_ResolvesTo n)) @ omit (ns_Reason n = []) (''reason'', JStr (ns_Reason n)))"

definition healthReport_json :: "healthReport \<Rightarrow> jval" where
  \<comment> \<open>a nil list of providers is \<open>null\<close>; the store answers, so its \<open>error\<close> is omitted\<close>
  "healthReport_json r = JObj [(''status'', JStr (hp_Status r)),
     (''gateway'', JObj [(''version'', JStr (hp_Version r)), (''uptime_seconds'', JInt (hp_UptimeSeconds r))]),
     (''store'', JObj [(''kind'', JStr (hp_StoreKind r)), (''reachable'', JBool True)]),
     (''catalog'', catalogHealth_json (hp_Catalog r)),
     (''providers'', if hp_Providers r = [] then JNull else JArr (map providerHealth_json (hp_Providers r))),
     (''aliases'', JArr (map NameState_json (hp_Aliases r))), (''rules'', JArr (map NameState_json (hp_Rules r))),
     (''quota'', JObj [(''state'', JStr (hp_Quota r))]), (''checked_at'', JStr (hp_CheckedAt r))]"

definition sendHealth :: "healthReport \<Rightarrow> fctx \<Rightarrow> fctx" where
  "sendHealth r c = answer_json (if hp_Status r = healthUnavailable then 503 else c_status c) (healthReport_json r) c"

definition handleHealth :: "'w data_env \<Rightarrow> 'w gateway_handler" where
  "handleHealth env w s c =
     (let tid = TenantID c; (w1, t) = de_now env w in
      case health_get t tid (gt_health s) of
        Some r \<Rightarrow> (w1, s, sendHealth r c, Returned None)
      | None \<Rightarrow>
          let (w2, s2, r) = buildHealth env tid w1 s; (w3, t2) = de_now env w2
          in (w3, s2\<lparr>gt_health := health_put t2 tid r (gt_health s2)\<rparr>, sendHealth r c, Returned None))"

section \<open>The meta document\<close>

definition apiVersion :: string where
  "apiVersion = ''v1''"

record metaLimits_data =
  ml_MaxRequestBytes :: int
  ml_MaxResponseBytes :: int
  ml_RequestTimeoutSec :: int
  ml_StreamIdleTimeout :: int
  ml_MaxConcurrentPerKey :: int
  ml_MaxFallbackDepth :: int
  ml_RequestsPerSecond :: int
  ml_BurstCapacity :: int
  ml_RequestsPerMinute :: int

definition metaLimits :: "'w Gateway \<Rightarrow> fctx \<Rightarrow> metaLimits_data" where
  "metaLimits s c =
     (let eff = limits_of s c in
      \<lparr> ml_MaxRequestBytes = ef_MaxRequestBytes eff, ml_MaxResponseBytes = lc_MaxResponseBytes (cfg_Limits (sv_Config s)),
        ml_RequestTimeoutSec = whole_seconds (ef_RequestTimeout eff), ml_StreamIdleTimeout = whole_seconds (ef_StreamIdleTimeout eff),
        ml_MaxConcurrentPerKey = ef_MaxConcurrentPerKey eff, ml_MaxFallbackDepth = ro_MaxFallbackDepth (cfg_Routing (sv_Config s)),
        ml_RequestsPerSecond = ef_RequestsPerSecond eff, ml_BurstCapacity = ef_BurstCapacity eff,
        ml_RequestsPerMinute = ef_RequestsPerMinute eff \<rparr>)"

definition metaLimits_json :: "metaLimits_data \<Rightarrow> jval" where
  "metaLimits_json l = JObj [(''max_request_bytes'', JInt (ml_MaxRequestBytes l)), (''max_response_bytes'', JInt (ml_MaxResponseBytes l)),
     (''request_timeout_seconds'', JInt (ml_RequestTimeoutSec l)), (''stream_idle_timeout_seconds'', JInt (ml_StreamIdleTimeout l)),
     (''max_concurrent_per_key'', JInt (ml_MaxConcurrentPerKey l)), (''max_fallback_depth'', JInt (ml_MaxFallbackDepth l)),
     (''requests_per_second'', JInt (ml_RequestsPerSecond l)), (''burst_capacity'', JInt (ml_BurstCapacity l)),
     (''requests_per_minute'', JInt (ml_RequestsPerMinute l))]"

definition capabilities :: "Config \<Rightarrow> string list" where
  "capabilities cfg =
     [''gw-1'', ''gw-2'', ''gw-3'', ''gw-4'', ''gw-5'', ''gw-6'', ''gw-7''] @
     (if mc_Enabled (cfg_Metrics cfg) then [''gw-8''] else []) @ [''gw-9''] @
     (if cf_Enabled (cfg_Cache cfg) then [''gw-12''] else []) @ [''gw-13'', ''gw-14'']"

definition meta_fields :: "'w data_env \<Rightarrow> 'w Gateway \<Rightarrow> fctx \<Rightarrow> string \<Rightarrow> (string \<times> jval) list" where
  \<comment> \<open>the document of \<open>meta\<close> with the given \<open>object\<close>; \<open>encoding/json\<close> writes the keys of a map sorted\<close>
  "meta_fields env s c object =
     (let cfg = sv_Config s in
      [(''name'', JStr ''cognigate''), (''version'', JStr (version env)), (''api_version'', JStr apiVersion),
       (''capabilities'', json_strings (capabilities cfg)),
       (''endpoints'', json_strings [''chat.completions'', ''models'', ''usage'', ''usage.breakdown'', ''health'', ''meta'']),
       (''limits'', metaLimits_json (metaLimits s c)), (''object'', JStr object),
       (''mode'', JStr (if de_Dev env then ''dev'' else ''server'')), (''store'', JStr (Memory_Kind (sv_Store s))),
       (''planes'', JObj [(''admin'', JStr AdminKeyPrefix), (''data'', JStr DataKeyPrefix)]),
       (''features'', JObj [(''aliases'', JBool True), (''circuit_breaker'', JBool True), (''fallback_chains'', JBool True),
          (''metrics'', JBool (mc_Enabled (cfg_Metrics cfg))), (''quota_enforcement'', JBool (qc_Enforcement (cfg_Quotas cfg) = ''on'')),
          (''quotas'', JBool True), (''response_cache'', JBool (cf_Enabled (cfg_Cache cfg))), (''streaming'', JBool True),
          (''webhooks'', JBool (de_Events env))])])"

definition handleMeta :: "'w data_env \<Rightarrow> 'w gateway_handler" where
  "handleMeta env w s c = (w, s, answer_json (c_status c) (JObj (meta_fields env s c ''meta'')) c, Returned None)"

section \<open>Routes\<close>

definition dataRoutes :: "'w data_env \<Rightarrow> (string \<times> string \<times> 'w gateway_handler) list" where
  \<comment> \<open>the routes registered under \<open>/v1\<close>\<close>
  "dataRoutes env =
     [(''POST'', ''/chat/completions'', handleChatCompletions (de_ch env)), (''GET'', ''/models'', handleListModels env),
      (''GET'', ''/models/*'', handleGetModel env), (''GET'', ''/usage'', handleUsage env),
      (''GET'', ''/usage/breakdown'', handleUsageBreakdown env), (''GET'', ''/health'', handleHealth env), (''GET'', ''/meta'', handleMeta env)]"

end
