(* ===== verification/Store_Invariant.thy ===== *)
theory Store_Invariant
  imports Memory_Store
begin

text \<open>
  The invariant of the in-memory store and what its operations promise.

  \<open>wf_memory\<close> says that the maps have one entry per key, that the two key indexes agree, that every key
  and every provider, alias, route and webhook belongs to an existing tenant, that names are unique in
  the sense the code checks them, and that the logs are bounded. \<open>store_reach\<close> is every store a sequence
  of successful writes can produce; new ids and new credential hashes are assumed fresh there, which is
  what 96 random bits and SHA-256 are relied on for. The locale \<open>tenant_collection\<close> carries the part that
  providers, aliases, routes and webhooks share, and \<open>bounded_log\<close> the part that events, audit and usage
  share.
\<close>

section \<open>Collections that belong to a tenant\<close>

definition wf_coll ::
  "(string, Tenant) gomap \<Rightarrow> (string \<Rightarrow> 'a list \<Rightarrow> bool) \<Rightarrow> (string, 'a list) gomap \<Rightarrow> bool" where
  "wf_coll ten P cm \<longleftrightarrow>
     distinct (map fst cm) \<and> (\<forall>tid xs. map_of cm tid = Some xs \<longrightarrow> map_of ten tid \<noteq> None \<and> P tid xs)"

lemma at_nil_update [simp]:
  "at_nil (AList.update k xs cm) k' = (if k' = k then xs else at_nil cm k')"
  by (simp add: at_nil_def)

lemma at_nil_delete [simp]:
  "at_nil (AList.delete k cm) k' = (if k' = k then [] else at_nil cm k')"
  by (simp add: at_nil_def)

lemma wf_coll_update:
  "wf_coll ten P cm \<Longrightarrow> map_of ten tid \<noteq> None \<Longrightarrow> P tid xs \<Longrightarrow> wf_coll ten P (AList.update tid xs cm)"
  by (auto simp: wf_coll_def)

lemma wf_coll_drop_tenant:
  "wf_coll ten P cm \<Longrightarrow> wf_coll (AList.delete tid ten) P (AList.delete tid cm)"
  by (auto simp: wf_coll_def split: if_splits)

lemma wf_coll_put_tenant: "wf_coll ten P cm \<Longrightarrow> wf_coll (AList.update tid t ten) P cm"
  by (auto simp: wf_coll_def)

lemma wf_coll_owner: "wf_coll ten P cm \<Longrightarrow> at_nil cm tid \<noteq> [] \<Longrightarrow> map_of ten tid \<noteq> None"
  by (auto simp: wf_coll_def at_nil_def split: option.splits)

locale tenant_collection =
  fixes P :: "string \<Rightarrow> 'a list \<Rightarrow> bool"
  assumes P_nil: "P tid []"
    and P_drop: "P tid (as @ x # bs) \<Longrightarrow> P tid (as @ bs)"
begin

lemma P_at_nil: "wf_coll ten P cm \<Longrightarrow> P tid (at_nil cm tid)"
  by (auto simp: wf_coll_def at_nil_def P_nil split: option.splits)

lemma wf_remove_first:
  assumes "wf_coll ten P cm" "remove_first Q (at_nil cm tid) = Some xs"
  shows "wf_coll ten P (AList.update tid xs cm)"
proof -
  from remove_first_Some [OF assms(2)] obtain as x bs where
    s: "at_nil cm tid = as @ x # bs" "xs = as @ bs" by blast
  have "P tid xs" using P_at_nil [OF assms(1), of tid] P_drop s by simp
  moreover have "map_of ten tid \<noteq> None" using s by (intro wf_coll_owner [OF assms(1)]) simp
  ultimately show ?thesis by (intro wf_coll_update [OF assms(1)])
qed

lemma wf_replace:
  assumes "wf_coll ten P cm" "find Q (at_nil cm tid) = Some y" "P tid (update_first Q f (at_nil cm tid))"
  shows "wf_coll ten P (AList.update tid (update_first Q f (at_nil cm tid)) cm)"
  using assms(1,2)
  by (intro wf_coll_update [OF assms(1) _ assms(3)] wf_coll_owner [OF assms(1)])
    (auto simp: find_Some_iff)

lemma wf_empty: "wf_coll ten P []"
  by (simp add: wf_coll_def)

end

definition providers_ok :: "string \<Rightarrow> Provider list \<Rightarrow> bool" where
  "providers_ok tid ps \<longleftrightarrow>
     (\<forall>p \<in> set ps. p_TenantID p = tid \<and> p_KeyPrefixes p = map maskProviderKey (p_Keys p)) \<and>
     sorted_wrt (\<lambda>x y. \<not> EqualFold (p_Name x) (p_Name y)) ps"

definition aliases_ok :: "string \<Rightarrow> Alias list \<Rightarrow> bool" where
  "aliases_ok tid xs \<longleftrightarrow> (\<forall>a \<in> set xs. a_TenantID a = tid) \<and> distinct (map a_Name xs)"

definition routes_ok :: "string \<Rightarrow> Route list \<Rightarrow> bool" where
  "routes_ok tid xs \<longleftrightarrow> (\<forall>r \<in> set xs. r_TenantID r = tid) \<and> distinct (map r_Match xs)"

definition webhooks_ok :: "string \<Rightarrow> Webhook list \<Rightarrow> bool" where
  "webhooks_ok tid xs \<longleftrightarrow> (\<forall>w \<in> set xs. w_TenantID w = tid)"

interpretation pc: tenant_collection providers_ok
  by unfold_locales (auto simp: providers_ok_def sorted_wrt_append)

interpretation ac: tenant_collection aliases_ok
  by unfold_locales (auto simp: aliases_ok_def)

interpretation rc: tenant_collection routes_ok
  by unfold_locales (auto simp: routes_ok_def)

interpretation wc: tenant_collection webhooks_ok
  by unfold_locales (auto simp: webhooks_ok_def)

section \<open>The invariant\<close>

definition wf_tenants :: "Memory \<Rightarrow> bool" where
  "wf_tenants m \<longleftrightarrow>
     distinct (map fst (m_tenants m)) \<and> map_of (m_tenants m) [] = None \<and>
     (\<forall>i t. map_of (m_tenants m) i = Some t \<longrightarrow> t_ID t = i \<and> t_Name t \<noteq> []) \<and>
     (\<forall>i t j u. map_of (m_tenants m) i = Some t \<longrightarrow> map_of (m_tenants m) j = Some u \<longrightarrow>
        EqualFold (t_Name t) (t_Name u) \<longrightarrow> i = j)"

definition wf_keys :: "Memory \<Rightarrow> bool" where
  "wf_keys m \<longleftrightarrow>
     distinct (map fst (m_keys m)) \<and> distinct (map fst (m_keysByHash m)) \<and>
     (\<forall>i r. map_of (m_keys m) i = Some r \<longrightarrow>
        r < length (m_keyheap m) \<and> k_ID (m_keyheap m ! r) = i \<and>
        map_of (m_keysByHash m) (k_Hash (m_keyheap m ! r)) = Some r \<and>
        (k_TenantID (m_keyheap m ! r) \<noteq> [] \<longrightarrow>
           map_of (m_tenants m) (k_TenantID (m_keyheap m ! r)) \<noteq> None)) \<and>
     (\<forall>h r. map_of (m_keysByHash m) h = Some r \<longrightarrow>
        r < length (m_keyheap m) \<and> k_Hash (m_keyheap m ! r) = h \<and>
        map_of (m_keys m) (k_ID (m_keyheap m ! r)) = Some r)"

definition wf_logs :: "Memory \<Rightarrow> bool" where
  "wf_logs m \<longleftrightarrow>
     (\<forall>tid. length (at_nil (m_events m) tid) \<le> MaxTenantEvents) \<and>
     (\<forall>tid. length (at_nil (m_usage m) tid) \<le> maxMemoryUsageRecords) \<and>
     length (m_audit m) \<le> maxMemoryAuditEntries"

definition wf_memory :: "Memory \<Rightarrow> bool" where
  "wf_memory m \<longleftrightarrow> wf_tenants m \<and> wf_keys m \<and>
     wf_coll (m_tenants m) providers_ok (m_providers m) \<and>
     wf_coll (m_tenants m) aliases_ok (m_aliases m) \<and>
     wf_coll (m_tenants m) routes_ok (m_routes m) \<and>
     wf_coll (m_tenants m) webhooks_ok (m_webhooks m) \<and> wf_logs m"

inductive store_step :: "(string \<Rightarrow> string) \<Rightarrow> Memory \<Rightarrow> Memory \<Rightarrow> bool" for sha256hex where
  step_CreateTenant: "tid \<noteq> [] \<Longrightarrow> map_of (m_tenants m) tid = None \<Longrightarrow>
    CreateTenant now tid name m = Inr (m', t) \<Longrightarrow> store_step sha256hex m m'"
| step_UpdateTenant: "UpdateTenant tid p m = Inr (m', t) \<Longrightarrow> store_step sha256hex m m'"
| step_DeleteTenant: "DeleteTenant tid m = Inr m' \<Longrightarrow> store_step sha256hex m m'"
| step_CreateAPIKey: "map_of (m_keys m) kid = None \<Longrightarrow>
    map_of (m_keysByHash m) (k_Hash k) = None \<Longrightarrow>
    CreateAPIKey sha256hex now kid token tid plane name scope ex m = Inr (m', k, plaintext) \<Longrightarrow>
    store_step sha256hex m m'"
| step_RevokeAPIKey: "RevokeAPIKey now tid kid m = Inr m' \<Longrightarrow> store_step sha256hex m m'"
| step_CreateProvider: "CreateProvider now pid p m = Inr (m', p') \<Longrightarrow> store_step sha256hex m m'"
| step_UpdateProvider: "UpdateProvider tid pid patch m = Inr (m', p') \<Longrightarrow> store_step sha256hex m m'"
| step_DeleteProvider: "DeleteProvider tid pid m = Inr m' \<Longrightarrow> store_step sha256hex m m'"
| step_UpsertAlias: "UpsertAlias now aid a m = Inr (m', a') \<Longrightarrow> store_step sha256hex m m'"
| step_DeleteAlias: "DeleteAlias tid name m = Inr m' \<Longrightarrow> store_step sha256hex m m'"
| step_UpsertRoute: "UpsertRoute now rid r m = Inr (m', r') \<Longrightarrow> store_step sha256hex m m'"
| step_DeleteRoute: "DeleteRoute tid rid m = Inr m' \<Longrightarrow> store_step sha256hex m m'"
| step_SetQuota: "SetQuota now q m = Inr (m', q') \<Longrightarrow> store_step sha256hex m m'"
| step_DeleteQuota: "DeleteQuota tid kid m = Inr m' \<Longrightarrow> store_step sha256hex m m'"
| step_CreateWebhook: "CreateWebhook now wid w m = Inr (m', w') \<Longrightarrow> store_step sha256hex m m'"
| step_DeleteWebhook: "DeleteWebhook tid wid m = Inr m' \<Longrightarrow> store_step sha256hex m m'"
| step_RecordEvent: "store_step sha256hex m (RecordEvent e m)"
| step_RecordAudit: "store_step sha256hex m (RecordAudit now aid au m)"
| step_RecordUsage: "store_step sha256hex m (RecordUsage rec m)"

inductive store_reach :: "(string \<Rightarrow> string) \<Rightarrow> Memory \<Rightarrow> bool" for sha256hex where
  reach_NewMemory: "store_reach sha256hex (NewMemory dev)"
| reach_store_step: "store_reach sha256hex m \<Longrightarrow> store_step sha256hex m m' \<Longrightarrow> store_reach sha256hex m'"

lemmas wf_parts = wf_memory_def wf_tenants_def wf_keys_def wf_logs_def

section \<open>Every operation keeps the invariant\<close>

lemma wf_tenantsD:
  assumes "wf_tenants m"
  shows "distinct (map fst (m_tenants m))" and "map_of (m_tenants m) [] = None"
    and "map_of (m_tenants m) i = Some t \<Longrightarrow> t_ID t = i \<and> t_Name t \<noteq> []"
    and "map_of (m_tenants m) i = Some t \<Longrightarrow> map_of (m_tenants m) j = Some u \<Longrightarrow>
      ToLower (t_Name t) = ToLower (t_Name u) \<Longrightarrow> i = j"
proof -
  note w = assms [unfolded wf_tenants_def EqualFold_def]
  show "distinct (map fst (m_tenants m))" by (rule w [THEN conjunct1])
  show "map_of (m_tenants m) [] = None" by (rule w [THEN conjunct2, THEN conjunct1])
  show "map_of (m_tenants m) i = Some t \<Longrightarrow> t_ID t = i \<and> t_Name t \<noteq> []"
    by (rule w [THEN conjunct2, THEN conjunct2, THEN conjunct1, rule_format])
  show "map_of (m_tenants m) i = Some t \<Longrightarrow> map_of (m_tenants m) j = Some u \<Longrightarrow>
      ToLower (t_Name t) = ToLower (t_Name u) \<Longrightarrow> i = j"
    by (rule w [THEN conjunct2, THEN conjunct2, THEN conjunct2, rule_format])
qed

lemma wf_tenantsI:
  assumes "m_tenants m = T" "distinct (map fst T)" "map_of T [] = None"
    and "\<And>i t. map_of T i = Some t \<Longrightarrow> t_ID t = i \<and> t_Name t \<noteq> []"
    and "\<And>i t j u. map_of T i = Some t \<Longrightarrow> map_of T j = Some u \<Longrightarrow>
      ToLower (t_Name t) = ToLower (t_Name u) \<Longrightarrow> i = j"
  shows "wf_tenants m"
  unfolding wf_tenants_def EqualFold_def assms(1)
  by (intro conjI allI impI assms(2,3))
    (rule assms(4) [THEN conjunct1] assms(4) [THEN conjunct2] assms(5); assumption)+

lemma wf_tenants_put:
  assumes "wf_tenants m" "tid \<noteq> []" "t_ID t = tid" "t_Name t \<noteq> []"
    and other: "\<And>i u. map_of (m_tenants m) i = Some u \<Longrightarrow> i \<noteq> tid \<Longrightarrow>
      ToLower (t_Name u) \<noteq> ToLower (t_Name t)"
  shows "wf_tenants (m\<lparr>m_tenants := AList.update tid t (m_tenants m)\<rparr>)"
proof (rule wf_tenantsI)
  show "m_tenants (m\<lparr>m_tenants := AList.update tid t (m_tenants m)\<rparr>) =
    AList.update tid t (m_tenants m)" by simp
  have uniq: "map_of (m_tenants m) i = Some a \<Longrightarrow> map_of (m_tenants m) j = Some b \<Longrightarrow>
      ToLower (t_Name a) = ToLower (t_Name b) \<Longrightarrow> i = j" for i j a b
    by (rule wf_tenantsD(4) [OF assms(1)])
  show "i = j"
    if "map_of (AList.update tid t (m_tenants m)) i = Some a"
      "map_of (AList.update tid t (m_tenants m)) j = Some b" "ToLower (t_Name a) = ToLower (t_Name b)"
    for i j a b
    using that uniq [of i a j b] other [of i a] other [of j b] by (auto split: if_splits)
  show "distinct (map fst (AList.update tid t (m_tenants m)))"
    using wf_tenantsD(1) [OF assms(1)] by (rule distinct_update)
  show "map_of (AList.update tid t (m_tenants m)) [] = None"
    using wf_tenantsD(2) [OF assms(1)] assms(2) by simp
  show "t_ID u = i \<and> t_Name u \<noteq> []" if "map_of (AList.update tid t (m_tenants m)) i = Some u" for i u
    using that wf_tenantsD(3) [OF assms(1), of i u] assms(3,4) by (simp split: if_splits)
qed

lemma wf_CreateTenant:
  assumes "wf_memory m" "tid \<noteq> []" "map_of (m_tenants m) tid = None"
    and "CreateTenant now tid name m = Inr (m', t)"
  shows "wf_memory m'"
proof -
  let ?t = "new_tenant tid (TrimSpace name) now"
  have n: "TrimSpace name \<noteq> []"
    and nofold: "\<not> (\<exists>u \<in> set (map snd (m_tenants m)). EqualFold (t_Name u) (TrimSpace name))"
    and m': "m' = m\<lparr>m_tenants := AList.update tid ?t (m_tenants m)\<rparr>"
    using assms(4) by (auto simp: CreateTenant_def Let_def split: if_splits)
  have fresh: "\<not> EqualFold (t_Name u) (TrimSpace name)" if "map_of (m_tenants m) i = Some u" for i u
    using nofold map_of_SomeD [OF that] by force
  have "wf_tenants m'"
    using assms(1-2) n fresh unfolding m'
    by (intro wf_tenants_put) (auto simp: wf_memory_def new_tenant_def EqualFold_def)
  moreover have "wf_keys m'"
    using assms(1) unfolding m' by (simp add: wf_memory_def wf_keys_def)
  ultimately show ?thesis
    using assms(1) unfolding m' by (simp add: wf_memory_def wf_logs_def wf_coll_put_tenant)
qed

lemma patch_tenant_id [simp]: "t_ID (patch_tenant t p) = t_ID t" "t_Name (patch_tenant t p) = t_Name t"
  by (simp_all add: patch_tenant_def Let_def split: option.splits)

lemma UpdateTenant_cases:
  assumes "UpdateTenant tid p m = Inr (m', t')"
  obtains t t1 where "map_of (m_tenants m) tid = Some t" "t_ID t1 = t_ID t" "t' = patch_tenant t1 p"
    "m' = m\<lparr>m_tenants := AList.update tid t' (m_tenants m)\<rparr>"
    "t1 = t \<or> t_Name t1 \<noteq> [] \<and>
       (\<forall>i u. map_of (m_tenants m) i = Some u \<longrightarrow> i \<noteq> tid \<longrightarrow> \<not> EqualFold (t_Name u) (t_Name t1))"
proof -
  from assms obtain t where t: "map_of (m_tenants m) tid = Some t"
    by (auto simp: UpdateTenant_def split: option.splits)
  show thesis
  proof (cases "tp_Name p")
    case None
    with assms t show thesis by (intro that [of t t]) (auto simp: UpdateTenant_def Let_def)
  next
    case (Some name0)
    let ?n = "TrimSpace name0"
    from assms t Some have n: "?n \<noteq> []"
      and f: "\<not> (\<exists>x \<in> set (m_tenants m). fst x \<noteq> tid \<and> EqualFold (t_Name (snd x)) ?n)"
      and r: "t' = patch_tenant (t\<lparr>t_Name := ?n\<rparr>) p"
        "m' = m\<lparr>m_tenants := AList.update tid t' (m_tenants m)\<rparr>"
      by (auto simp: UpdateTenant_def Let_def split: if_splits)
    have "\<not> EqualFold (t_Name u) ?n" if "map_of (m_tenants m) i = Some u" "i \<noteq> tid" for i u
      using f map_of_SomeD [OF that(1)] that(2) by force
    with t n r show thesis by (intro that [of t "t\<lparr>t_Name := ?n\<rparr>"]) auto
  qed
qed

lemma wf_UpdateTenant:
  assumes "wf_memory m" and "UpdateTenant tid p m = Inr (m', t')"
  shows "wf_memory m'"
  using assms(2)
proof (cases rule: UpdateTenant_cases)
  case (1 t t1)
  have wt: "wf_tenants m" using assms(1) by (simp add: wf_memory_def)
  have n: "t_Name t1 \<noteq> []" using wf_tenantsD(3) [OF wt 1(1)] 1(5) by auto
  have f: "ToLower (t_Name u) \<noteq> ToLower (t_Name t1)"
    if "map_of (m_tenants m) i = Some u" "i \<noteq> tid" for i u
    using wf_tenantsD(4) [OF wt that(1) 1(1)] 1(5) that by (auto simp: EqualFold_def)
  have "wf_tenants m'"
  proof (subst 1(4), rule wf_tenants_put [OF wt])
    show "tid \<noteq> []" using wf_tenantsD(2) [OF wt] 1(1) by auto
    show "t_ID t' = tid" using wf_tenantsD(3) [OF wt 1(1)] 1(2,3) by simp
    show "t_Name t' \<noteq> []" using n 1(3) by simp
    show "ToLower (t_Name u) \<noteq> ToLower (t_Name t')"
      if "map_of (m_tenants m) i = Some u" "i \<noteq> tid" for i u
      using f [OF that] 1(3) by simp
  qed
  moreover have "wf_keys m'"
    using assms(1) 1(4) by (simp add: wf_memory_def wf_keys_def)
  ultimately show ?thesis
    using assms(1) 1(4) by (simp add: wf_memory_def wf_logs_def wf_coll_put_tenant)
qed

subsection \<open>Keys\<close>

lemma wf_keysD:
  assumes "wf_keys m"
  shows "distinct (map fst (m_keys m))" and "distinct (map fst (m_keysByHash m))"
    and "map_of (m_keys m) i = Some r \<Longrightarrow> r < length (m_keyheap m) \<and> k_ID (m_keyheap m ! r) = i \<and>
      map_of (m_keysByHash m) (k_Hash (m_keyheap m ! r)) = Some r"
    and "map_of (m_keys m) i = Some r \<Longrightarrow> k_TenantID (m_keyheap m ! r) \<noteq> [] \<Longrightarrow>
      map_of (m_tenants m) (k_TenantID (m_keyheap m ! r)) \<noteq> None"
    and "map_of (m_keysByHash m) h = Some r \<Longrightarrow> r < length (m_keyheap m) \<and> k_Hash (m_keyheap m ! r) = h \<and>
      map_of (m_keys m) (k_ID (m_keyheap m ! r)) = Some r"
  using assms unfolding wf_keys_def by simp_all

lemma wf_keysI:
  assumes "m_keys m = K" "m_keysByHash m = B" "m_keyheap m = H" "m_tenants m = T"
    and "distinct (map fst K)" "distinct (map fst B)"
    and "\<And>i r. map_of K i = Some r \<Longrightarrow> r < length H \<and> k_ID (H ! r) = i \<and> map_of B (k_Hash (H ! r)) = Some r"
    and "\<And>i r. map_of K i = Some r \<Longrightarrow> k_TenantID (H ! r) \<noteq> [] \<Longrightarrow> map_of T (k_TenantID (H ! r)) \<noteq> None"
    and "\<And>h r. map_of B h = Some r \<Longrightarrow> r < length H \<and> k_Hash (H ! r) = h \<and> map_of K (k_ID (H ! r)) = Some r"
  shows "wf_keys m"
  unfolding wf_keys_def assms(1-4) using assms(5-) by simp

lemma map_of_fold_delete:
  "map_of (fold (\<lambda>x. AList.delete (f x)) xs m) k = (if k \<in> f ` set xs then None else map_of m k)"
  by (induction xs arbitrary: m) auto

lemma distinct_fold_delete:
  "distinct (map fst m) \<Longrightarrow> distinct (map fst (fold (\<lambda>x. AList.delete (f x)) xs m))"
  by (induction xs arbitrary: m) (auto simp: distinct_delete)

lemma delete_tenant_keys_fields [simp]:
  "m_tenants (delete_tenant_keys tid m) = m_tenants m" "m_keyheap (delete_tenant_keys tid m) = m_keyheap m"
  "m_providers (delete_tenant_keys tid m) = m_providers m" "m_aliases (delete_tenant_keys tid m) = m_aliases m"
  "m_routes (delete_tenant_keys tid m) = m_routes m" "m_webhooks (delete_tenant_keys tid m) = m_webhooks m"
  "m_quotas (delete_tenant_keys tid m) = m_quotas m" "m_events (delete_tenant_keys tid m) = m_events m"
  "m_usage (delete_tenant_keys tid m) = m_usage m" "m_audit (delete_tenant_keys tid m) = m_audit m"
  "m_dev (delete_tenant_keys tid m) = m_dev m"
  by (simp_all add: delete_tenant_keys_def Let_def)

lemma delete_tenant_keys_indexes:
  assumes "wf_keys m"
  shows "map_of (m_keys (delete_tenant_keys tid m)) i = Some r \<longleftrightarrow>
      map_of (m_keys m) i = Some r \<and> k_TenantID (m_keyheap m ! r) \<noteq> tid" (is ?K)
    and "map_of (m_keysByHash (delete_tenant_keys tid m)) h = Some r \<longleftrightarrow>
      map_of (m_keysByHash m) h = Some r \<and> k_TenantID (m_keyheap m ! r) \<noteq> tid" (is ?B)
    and "distinct (map fst (m_keys (delete_tenant_keys tid m)))"
    and "distinct (map fst (m_keysByHash (delete_tenant_keys tid m)))"
proof -
  let ?mine = "filter (\<lambda>(keyID, r). k_TenantID (m_keyheap m ! r) = tid) (m_keys m)"
  have mine: "(i, r) \<in> set ?mine \<longleftrightarrow> map_of (m_keys m) i = Some r \<and> k_TenantID (m_keyheap m ! r) = tid" for i r
    using wf_keysD(1) [OF assms] by auto
  have K: "m_keys (delete_tenant_keys tid m) = fold (\<lambda>x. AList.delete (fst x)) ?mine (m_keys m)"
    and B: "m_keysByHash (delete_tenant_keys tid m) =
      fold (\<lambda>x. AList.delete (k_Hash (m_keyheap m ! snd x))) ?mine (m_keysByHash m)"
    by (simp_all add: delete_tenant_keys_def Let_def split_def)
  have "i \<in> fst ` set ?mine \<longleftrightarrow> (\<exists>r. map_of (m_keys m) i = Some r \<and> k_TenantID (m_keyheap m ! r) = tid)"
    using mine by force
  then show ?K unfolding K map_of_fold_delete by auto
  have h: "h \<in> (\<lambda>x. k_Hash (m_keyheap m ! snd x)) ` set ?mine \<longleftrightarrow>
      (\<exists>r. map_of (m_keysByHash m) h = Some r \<and> k_TenantID (m_keyheap m ! r) = tid)" for h
  proof
    assume "h \<in> (\<lambda>x. k_Hash (m_keyheap m ! snd x)) ` set ?mine"
    then obtain i r where "(i, r) \<in> set ?mine" "h = k_Hash (m_keyheap m ! r)" by auto
    then show "\<exists>r. map_of (m_keysByHash m) h = Some r \<and> k_TenantID (m_keyheap m ! r) = tid"
      using mine wf_keysD(3) [OF assms] by auto
  next
    assume "\<exists>r. map_of (m_keysByHash m) h = Some r \<and> k_TenantID (m_keyheap m ! r) = tid"
    then obtain r where r: "map_of (m_keysByHash m) h = Some r" "k_TenantID (m_keyheap m ! r) = tid" by blast
    with wf_keysD(5) [OF assms r(1)] have "(k_ID (m_keyheap m ! r), r) \<in> set ?mine"
      using r(2) unfolding mine by blast
    then show "h \<in> (\<lambda>x. k_Hash (m_keyheap m ! snd x)) ` set ?mine"
      using wf_keysD(5) [OF assms r(1)] by (intro image_eqI) auto
  qed
  show ?B unfolding B map_of_fold_delete using h [of h] by auto
  show "distinct (map fst (m_keys (delete_tenant_keys tid m)))"
    unfolding K by (rule distinct_fold_delete [OF wf_keysD(1) [OF assms]])
  show "distinct (map fst (m_keysByHash (delete_tenant_keys tid m)))"
    unfolding B by (rule distinct_fold_delete [OF wf_keysD(2) [OF assms]])
qed

lemma delete_tenant_keys_other_fields:
  "delete_tenant_keys tid (m\<lparr>m_tenants := T\<rparr>) = (delete_tenant_keys tid m)\<lparr>m_tenants := T\<rparr>"
  by (simp add: delete_tenant_keys_def Let_def)

lemma DeleteTenant_fields:
  assumes "DeleteTenant tid m = Inr m'"
  shows "map_of (m_tenants m) tid \<noteq> None" "m_tenants m' = AList.delete tid (m_tenants m)"
    "m_keys m' = m_keys (delete_tenant_keys tid m)"
    "m_keysByHash m' = m_keysByHash (delete_tenant_keys tid m)" "m_keyheap m' = m_keyheap m"
    "m_providers m' = AList.delete tid (m_providers m)" "m_aliases m' = AList.delete tid (m_aliases m)"
    "m_routes m' = AList.delete tid (m_routes m)" "m_webhooks m' = AList.delete tid (m_webhooks m)"
    "m_quotas m' = AList.delete tid (m_quotas m)" "m_usage m' = AList.delete tid (m_usage m)"
    "m_events m' = m_events m" "m_audit m' = m_audit m"
  using assms
  by (auto simp: DeleteTenant_def Let_def delete_tenant_keys_other_fields split: option.splits)

lemma wf_DeleteTenant:
  assumes "wf_memory m" "DeleteTenant tid m = Inr m'"
  shows "wf_memory m'"
proof -
  have wt: "wf_tenants m" and wk: "wf_keys m" using assms(1) by (simp_all add: wf_memory_def)
  note f = DeleteTenant_fields [OF assms(2)] and ix = delete_tenant_keys_indexes [OF wk]
  have "wf_tenants m'"
  proof (rule wf_tenantsI [OF f(2)])
    show "i = j"
      if "map_of (AList.delete tid (m_tenants m)) i = Some a"
        "map_of (AList.delete tid (m_tenants m)) j = Some b" "ToLower (t_Name a) = ToLower (t_Name b)"
      for i a j b
      using wf_tenantsD(4) [OF wt _ _ that(3), of i j] that(1,2) by (simp split: if_splits)
    show "t_ID u = i \<and> t_Name u \<noteq> []" if "map_of (AList.delete tid (m_tenants m)) i = Some u" for i u
      using that wf_tenantsD(3) [OF wt, of i u] by (simp split: if_splits)
  qed (use wf_tenantsD(1,2) [OF wt] in \<open>auto simp: distinct_delete\<close>)
  moreover have "wf_keys m'"
  proof (rule wf_keysI [OF f(3) f(4) f(5) f(2)])
    show "r < length (m_keyheap m) \<and> k_ID (m_keyheap m ! r) = i \<and>
        map_of (m_keysByHash (delete_tenant_keys tid m)) (k_Hash (m_keyheap m ! r)) = Some r"
      if "map_of (m_keys (delete_tenant_keys tid m)) i = Some r" for i r
      using that wf_keysD(3) [OF wk] unfolding ix(1,2) by auto
    show "map_of (AList.delete tid (m_tenants m)) (k_TenantID (m_keyheap m ! r)) \<noteq> None"
      if "map_of (m_keys (delete_tenant_keys tid m)) i = Some r" "k_TenantID (m_keyheap m ! r) \<noteq> []" for i r
      using that wf_keysD(4) [OF wk _ that(2), of i] unfolding ix(1) by simp
    show "r < length (m_keyheap m) \<and> k_Hash (m_keyheap m ! r) = h \<and>
        map_of (m_keys (delete_tenant_keys tid m)) (k_ID (m_keyheap m ! r)) = Some r"
      if "map_of (m_keysByHash (delete_tenant_keys tid m)) h = Some r" for h r
      using that wf_keysD(5) [OF wk] unfolding ix(1,2) by auto
  qed (rule ix(3), rule ix(4))
  ultimately show ?thesis
    using assms(1) f by (simp add: wf_memory_def wf_logs_def wf_coll_drop_tenant)
qed

lemma CreateAPIKey_Inr:
  assumes "CreateAPIKey h now kid token tid plane name scope ex m = Inr (m', k, plaintext)"
  shows "m' = m\<lparr>m_keyheap := m_keyheap m @ [k],
      m_keys := AList.update kid (length (m_keyheap m)) (m_keys m),
      m_keysByHash := AList.update (k_Hash k) (length (m_keyheap m)) (m_keysByHash m)\<rparr>"
    and "k_ID k = kid" "k_TenantID k = tid" "k_Hash k = h plaintext" "k_RevokedAt k = None"
    and "k_ExpiresAt k = ex" "k_Plane k = plane" "k_Scope k = scope"
    and "tid \<noteq> [] \<Longrightarrow> map_of (m_tenants m) tid \<noteq> None"
    and "GenerateAPIKey h plane (m_dev m) token = Some (plaintext, k_Prefix k, h plaintext)"
  using assms generated_shape(2)
  by (auto simp: CreateAPIKey_def Let_def split: if_splits option.splits)

lemma wf_CreateAPIKey:
  assumes "wf_memory m" "map_of (m_keys m) kid = None" "map_of (m_keysByHash m) (k_Hash k) = None"
    and c: "CreateAPIKey h now kid token tid plane name scope ex m = Inr (m', k, plaintext)"
  shows "wf_memory m'"
proof -
  have wk: "wf_keys m" using assms(1) by (simp add: wf_memory_def)
  note d = wf_keysD [OF wk] and a = CreateAPIKey_Inr [OF c]
  let ?n = "length (m_keyheap m)" and ?H = "m_keyheap m @ [k]"
  let ?K = "AList.update kid ?n (m_keys m)" and ?B = "AList.update (k_Hash k) ?n (m_keysByHash m)"
  have old: "r < ?n \<Longrightarrow> ?H ! r = m_keyheap m ! r" for r by (simp add: nth_append)
  have "wf_keys m'"
  proof (rule wf_keysI [where K = ?K and B = ?B and H = ?H and T = "m_tenants m"])
    show "r < length ?H \<and> k_ID (?H ! r) = i \<and> map_of ?B (k_Hash (?H ! r)) = Some r"
      if "map_of ?K i = Some r" for i r
    proof (cases "i = kid")
      case True then show ?thesis using that a(2) by (auto simp: nth_append)
    next
      case False
      then have "map_of (m_keys m) i = Some r" using that by simp
      then show ?thesis using d(3) [of i r] old [of r] assms(3) by auto
    qed
    show "map_of (m_tenants m) (k_TenantID (?H ! r)) \<noteq> None"
      if "map_of ?K i = Some r" "k_TenantID (?H ! r) \<noteq> []" for i r
    proof (cases "i = kid")
      case True then show ?thesis using that a(3,9) by (auto simp: nth_append)
    next
      case False
      then have "map_of (m_keys m) i = Some r" using that by simp
      then show ?thesis using d(3,4) [of i r] old [of r] that(2) by simp
    qed
    show "r < length ?H \<and> k_Hash (?H ! r) = g \<and> map_of ?K (k_ID (?H ! r)) = Some r"
      if "map_of ?B g = Some r" for g r
    proof (cases "g = k_Hash k")
      case True then show ?thesis using that a(2) by (auto simp: nth_append)
    next
      case False
      then have "map_of (m_keysByHash m) g = Some r" using that by simp
      then show ?thesis using d(5) [of g r] old [of r] assms(2) by auto
    qed
  qed (use d(1,2) in \<open>simp_all add: a(1) distinct_update\<close>)
  then show ?thesis using assms(1) unfolding a(1) by (simp add: wf_memory_def wf_logs_def wf_tenants_def)
qed

definition same_identity :: "APIKey \<Rightarrow> APIKey \<Rightarrow> bool" where
  "same_identity k k' \<longleftrightarrow> k_ID k' = k_ID k \<and> k_TenantID k' = k_TenantID k \<and> k_Hash k' = k_Hash k"

lemma wf_keyheap_set:
  assumes "wf_memory m" "same_identity (m_keyheap m ! r) k"
  shows "wf_memory (m\<lparr>m_keyheap := (m_keyheap m)[r := k]\<rparr>)"
proof -
  have wk: "wf_keys m" using assms(1) by (simp add: wf_memory_def)
  note d = wf_keysD [OF wk]
  let ?H = "(m_keyheap m)[r := k]"
  have same: "k_ID (?H ! i) = k_ID (m_keyheap m ! i) \<and> k_TenantID (?H ! i) = k_TenantID (m_keyheap m ! i) \<and>
      k_Hash (?H ! i) = k_Hash (m_keyheap m ! i)" for i
    using assms(2) by (cases "i = r"; cases "r < length (m_keyheap m)") (simp_all add: same_identity_def list_update_beyond)
  have "wf_keys (m\<lparr>m_keyheap := ?H\<rparr>)"
    by (rule wf_keysI [where K = "m_keys m" and B = "m_keysByHash m" and H = ?H and T = "m_tenants m"])
      (use d same in simp_all)
  then show ?thesis using assms(1) by (simp add: wf_memory_def wf_logs_def wf_tenants_def)
qed

lemma wf_RevokeAPIKey:
  assumes "wf_memory m" "RevokeAPIKey now tid kid m = Inr m'"
  shows "wf_memory m'"
  using assms
  by (auto simp: RevokeAPIKey_def Let_def same_identity_def intro!: wf_keyheap_set
      split: option.splits if_splits)

subsection \<open>Collections, quotas and logs\<close>

lemma wf_tenants_cong: "m_tenants m' = m_tenants m \<Longrightarrow> wf_tenants m' = wf_tenants m"
  unfolding wf_tenants_def by (simp only:)

lemma wf_keys_cong:
  "m_tenants m' = m_tenants m \<Longrightarrow> m_keyheap m' = m_keyheap m \<Longrightarrow> m_keys m' = m_keys m \<Longrightarrow>
   m_keysByHash m' = m_keysByHash m \<Longrightarrow> wf_keys m' = wf_keys m"
  unfolding wf_keys_def by (simp only:)

lemma wf_memory_cong:
  assumes "wf_memory m" "m_tenants m' = m_tenants m" "m_keyheap m' = m_keyheap m" "m_keys m' = m_keys m"
    "m_keysByHash m' = m_keysByHash m" "wf_coll (m_tenants m) providers_ok (m_providers m')"
    "wf_coll (m_tenants m) aliases_ok (m_aliases m')" "wf_coll (m_tenants m) routes_ok (m_routes m')"
    "wf_coll (m_tenants m) webhooks_ok (m_webhooks m')" "wf_logs m'"
  shows "wf_memory m'"
  using assms wf_tenants_cong [of m' m] wf_keys_cong [of m' m] by (simp add: wf_memory_def)

lemma wf_put:
  assumes "wf_memory m"
  shows "wf_coll (m_tenants m) providers_ok ps \<Longrightarrow> wf_memory (m\<lparr>m_providers := ps\<rparr>)"
    and "wf_coll (m_tenants m) aliases_ok as \<Longrightarrow> wf_memory (m\<lparr>m_aliases := as\<rparr>)"
    and "wf_coll (m_tenants m) routes_ok rs \<Longrightarrow> wf_memory (m\<lparr>m_routes := rs\<rparr>)"
    and "wf_coll (m_tenants m) webhooks_ok ws \<Longrightarrow> wf_memory (m\<lparr>m_webhooks := ws\<rparr>)"
    and "wf_memory (m\<lparr>m_quotas := qs\<rparr>)"
  by (rule wf_memory_cong [OF assms]; use assms in \<open>simp add: wf_memory_def wf_logs_def\<close>)+

lemma wf_parts_of:
  assumes "wf_memory m"
  shows "wf_coll (m_tenants m) providers_ok (m_providers m)" "wf_coll (m_tenants m) aliases_ok (m_aliases m)"
    "wf_coll (m_tenants m) routes_ok (m_routes m)" "wf_coll (m_tenants m) webhooks_ok (m_webhooks m)"
  using assms by (simp_all add: wf_memory_def)

lemma wf_CreateProvider:
  assumes "wf_memory m" "CreateProvider now pid p m = Inr (m', p')"
  shows "wf_memory m'"
proof -
  let ?ps = "at_nil (m_providers m) (p_TenantID p)"
  from assms(2) have t: "map_of (m_tenants m) (p_TenantID p) \<noteq> None"
    and n: "\<forall>x \<in> set ?ps. \<not> EqualFold (p_Name x) (p_Name p)"
    and m': "m' = m\<lparr>m_providers := AList.update (p_TenantID p) (?ps @ [p']) (m_providers m)\<rparr>"
    and p': "p_TenantID p' = p_TenantID p" "p_Name p' = p_Name p" "p_KeyPrefixes p' = map maskProviderKey (p_Keys p')"
    by (auto simp: CreateProvider_def Let_def split: if_splits)
  have "providers_ok (p_TenantID p) (?ps @ [p'])"
    using pc.P_at_nil [OF wf_parts_of(1) [OF assms(1)], of "p_TenantID p"] n p'
    by (auto simp: providers_ok_def sorted_wrt_append)
  then show ?thesis unfolding m' by (intro wf_put(1) wf_coll_update wf_parts_of assms(1) t)
qed

lemma patch_provider_fields [simp]:
  "p_TenantID (patch_provider patch p) = p_TenantID p" "p_Name (patch_provider patch p) = p_Name p"
  "p_KeyPrefixes p = map maskProviderKey (p_Keys p) \<Longrightarrow>
     p_KeyPrefixes (patch_provider patch p) = map maskProviderKey (p_Keys (patch_provider patch p))"
  by (simp_all add: patch_provider_def Let_def split: option.splits)

lemma providers_ok_update_first:
  "providers_ok tid ps \<Longrightarrow> providers_ok tid (update_first Q (patch_provider patch) ps)"
proof -
  assume ok: "providers_ok tid ps"
  let ?ps = "update_first Q (patch_provider patch) ps"
  have "map p_Name ?ps = map p_Name ps" by (rule map_update_first) simp
  then have "sorted_wrt (\<lambda>x y. \<not> EqualFold (p_Name x) (p_Name y)) ?ps"
    using ok sorted_wrt_map [of "\<lambda>a b. \<not> EqualFold a b" p_Name ?ps]
      sorted_wrt_map [of "\<lambda>a b. \<not> EqualFold a b" p_Name ps]
    unfolding providers_ok_def by simp
  moreover have "\<forall>p \<in> set ?ps. p_TenantID p = tid \<and> p_KeyPrefixes p = map maskProviderKey (p_Keys p)"
    using ok unfolding providers_ok_def by (induction ps) auto
  ultimately show ?thesis unfolding providers_ok_def by blast
qed

lemma wf_UpdateProvider:
  assumes "wf_memory m" "UpdateProvider tid pid patch m = Inr (m', p')"
  shows "wf_memory m'"
proof -
  from assms(2) obtain p where p: "find (provider_named pid) (at_nil (m_providers m) tid) = Some p"
    and m': "m' = m\<lparr>m_providers := AList.update tid (update_first (provider_named pid)
      (patch_provider patch) (at_nil (m_providers m) tid)) (m_providers m)\<rparr>"
    by (auto simp: UpdateProvider_def split: option.splits)
  note c = wf_parts_of(1) [OF assms(1)]
  show ?thesis unfolding m'
    by (intro wf_put(1) assms(1) pc.wf_replace [OF c p] providers_ok_update_first pc.P_at_nil [OF c])
qed

lemma wf_DeleteProvider:
  assumes "wf_memory m" "DeleteProvider tid pid m = Inr m'"
  shows "wf_memory m'"
  using assms(2) pc.wf_remove_first [OF wf_parts_of(1) [OF assms(1)]]
  by (auto simp: DeleteProvider_def intro: wf_put(1) [OF assms(1)] split: option.splits)

lemma wf_UpsertAlias:
  assumes "wf_memory m" "UpsertAlias now aid a m = Inr (m', a')"
  shows "wf_memory m'"
proof -
  let ?xs = "at_nil (m_aliases m) (a_TenantID a)" and ?same = "\<lambda>x. a_Name x = a_Name a"
  note c = wf_parts_of(2) [OF assms(1)]
  have ok: "aliases_ok (a_TenantID a) ?xs" by (rule ac.P_at_nil [OF c])
  have t: "map_of (m_tenants m) (a_TenantID a) \<noteq> None" and n: "a_TenantID a' = a_TenantID a" "a_Name a' = a_Name a"
    using assms(2) by (auto simp: UpsertAlias_def Let_def split: if_splits option.splits)
  show ?thesis
  proof (cases "find ?same ?xs")
    case None
    then have "m' = m\<lparr>m_aliases := AList.update (a_TenantID a) (?xs @ [a']) (m_aliases m)\<rparr>"
      using assms(2) t by (auto simp: UpsertAlias_def Let_def)
    moreover have "aliases_ok (a_TenantID a) (?xs @ [a'])"
      using ok n None by (auto simp: aliases_ok_def find_None_iff)
    ultimately show ?thesis using t by (simp add: wf_put(2) assms(1) wf_coll_update [OF c])
  next
    case (Some e)
    then have "m' = m\<lparr>m_aliases := AList.update (a_TenantID a) (update_first ?same (\<lambda>_. a') ?xs) (m_aliases m)\<rparr>"
      using assms(2) t by (auto simp: UpsertAlias_def Let_def)
    moreover have "aliases_ok (a_TenantID a) (update_first ?same (\<lambda>_. a') ?xs)"
    proof -
      obtain as x bs where "?xs = as @ x # bs" "?same x" "update_first ?same (\<lambda>_. a') ?xs = as @ a' # bs"
        using find_update_split [OF Some] by blast
      then show ?thesis using ok n by (auto simp: aliases_ok_def)
    qed
    ultimately show ?thesis using t by (simp add: wf_put(2) assms(1) wf_coll_update [OF c])
  qed
qed

lemma wf_DeleteAlias:
  assumes "wf_memory m" "DeleteAlias tid name m = Inr m'"
  shows "wf_memory m'"
  using assms(2) ac.wf_remove_first [OF wf_parts_of(2) [OF assms(1)]]
  by (auto simp: DeleteAlias_def intro: wf_put(2) [OF assms(1)] split: option.splits)

lemma wf_UpsertRoute:
  assumes "wf_memory m" "UpsertRoute now rid r m = Inr (m', r')"
  shows "wf_memory m'"
proof -
  let ?xs = "at_nil (m_routes m) (r_TenantID r)" and ?same = "\<lambda>x. r_Match x = r_Match r"
  note c = wf_parts_of(3) [OF assms(1)]
  have ok: "routes_ok (r_TenantID r) ?xs" by (rule rc.P_at_nil [OF c])
  have t: "map_of (m_tenants m) (r_TenantID r) \<noteq> None" and n: "r_TenantID r' = r_TenantID r" "r_Match r' = r_Match r"
    using assms(2) by (auto simp: UpsertRoute_def Let_def split: if_splits option.splits)
  show ?thesis
  proof (cases "find ?same ?xs")
    case None
    then have "m' = m\<lparr>m_routes := AList.update (r_TenantID r) (?xs @ [r']) (m_routes m)\<rparr>"
      using assms(2) t by (auto simp: UpsertRoute_def Let_def)
    moreover have "routes_ok (r_TenantID r) (?xs @ [r'])"
      using ok n None by (auto simp: routes_ok_def find_None_iff)
    ultimately show ?thesis using t by (simp add: wf_put(3) assms(1) wf_coll_update [OF c])
  next
    case (Some e)
    then have "m' = m\<lparr>m_routes := AList.update (r_TenantID r) (update_first ?same (\<lambda>_. r') ?xs) (m_routes m)\<rparr>"
      using assms(2) t by (auto simp: UpsertRoute_def Let_def)
    moreover have "routes_ok (r_TenantID r) (update_first ?same (\<lambda>_. r') ?xs)"
    proof -
      obtain as x bs where "?xs = as @ x # bs" "?same x" "update_first ?same (\<lambda>_. r') ?xs = as @ r' # bs"
        using find_update_split [OF Some] by blast
      then show ?thesis using ok n by (auto simp: routes_ok_def)
    qed
    ultimately show ?thesis using t by (simp add: wf_put(3) assms(1) wf_coll_update [OF c])
  qed
qed

lemma wf_DeleteRoute:
  assumes "wf_memory m" "DeleteRoute tid rid m = Inr m'"
  shows "wf_memory m'"
  using assms(2) rc.wf_remove_first [OF wf_parts_of(3) [OF assms(1)]]
  by (auto simp: DeleteRoute_def intro: wf_put(3) [OF assms(1)] split: option.splits)

lemma wf_CreateWebhook:
  assumes "wf_memory m" "CreateWebhook now wid w m = Inr (m', w')"
  shows "wf_memory m'"
proof -
  let ?ws = "at_nil (m_webhooks m) (w_TenantID w)"
  note c = wf_parts_of(4) [OF assms(1)]
  from assms(2) have t: "map_of (m_tenants m) (w_TenantID w) \<noteq> None" and w': "w_TenantID w' = w_TenantID w"
    and m': "m' = m\<lparr>m_webhooks := AList.update (w_TenantID w) (?ws @ [w']) (m_webhooks m)\<rparr>"
    by (auto simp: CreateWebhook_def Let_def split: if_splits)
  have "webhooks_ok (w_TenantID w) (?ws @ [w'])"
    using wc.P_at_nil [OF c, of "w_TenantID w"] w' by (auto simp: webhooks_ok_def)
  then show ?thesis unfolding m' by (intro wf_put(4) wf_coll_update c assms(1) t)
qed

lemma wf_DeleteWebhook:
  assumes "wf_memory m" "DeleteWebhook tid wid m = Inr m'"
  shows "wf_memory m'"
  using assms(2) wc.wf_remove_first [OF wf_parts_of(4) [OF assms(1)]]
  by (auto simp: DeleteWebhook_def intro: wf_put(4) [OF assms(1)] split: option.splits)

section \<open>Bounded logs\<close>

locale bounded_log =
  fixes entries :: "'s \<Rightarrow> 'a list" and record_one :: "'x \<Rightarrow> 's \<Rightarrow> 's"
    and mine :: "'x \<Rightarrow> bool" and stored :: "'x \<Rightarrow> 'a" and bound :: nat
  assumes record_law:
    "entries (record_one x s) = (if mine x then last_n bound (entries s @ [stored x]) else entries s)"
begin

lemma record_bounded: "length (entries s) \<le> bound \<Longrightarrow> length (entries (record_one x s)) \<le> bound"
  by (simp add: record_law length_last_n)

lemma record_many:
  assumes "length (entries s) \<le> bound"
  shows "entries (fold record_one xs s) = last_n bound (entries s @ map stored (filter mine xs))"
proof (induction xs rule: rev_induct)
  case Nil
  show ?case using assms by (simp add: last_n_def)
next
  case (snoc x xs)
  then show ?case
    by (simp add: record_law last_n_last_n [of bound "entries s @ map stored (filter mine xs)", simplified])
qed

lemma newest_first:
  assumes "length (entries s) \<le> bound"
  shows "rev (entries (fold record_one xs s)) =
    take bound (rev (map stored (filter mine xs)) @ rev (entries s))"
  by (simp only: record_many [OF assms] rev_last_n rev_append)

end

interpretation ev: bounded_log "\<lambda>m. at_nil (m_events m) tid" RecordEvent "\<lambda>e. ev_TenantID e = tid" "\<lambda>e. e"
    MaxTenantEvents for tid
  by unfold_locales (auto simp: RecordEvent_def)

interpretation au: bounded_log m_audit "\<lambda>(now, aid, e). RecordAudit now aid e" "\<lambda>_. True"
    "\<lambda>(now, aid, e). e\<lparr>au_ID := aid, au_At := now\<rparr>" maxMemoryAuditEntries
  by unfold_locales (auto simp: RecordAudit_def)

interpretation us: bounded_log "\<lambda>m. at_nil (m_usage m) tid" RecordUsage "\<lambda>r. u_TenantID r = tid" "\<lambda>r. r"
    maxMemoryUsageRecords for tid
  by unfold_locales (auto simp: RecordUsage_def)

lemma wf_put_log:
  assumes "wf_memory m"
  shows "wf_logs (m\<lparr>m_events := es\<rparr>) \<Longrightarrow> wf_memory (m\<lparr>m_events := es\<rparr>)"
    and "wf_logs (m\<lparr>m_audit := xs\<rparr>) \<Longrightarrow> wf_memory (m\<lparr>m_audit := xs\<rparr>)"
    and "wf_logs (m\<lparr>m_usage := us\<rparr>) \<Longrightarrow> wf_memory (m\<lparr>m_usage := us\<rparr>)"
  by (rule wf_memory_cong [OF assms]; use assms in \<open>simp add: wf_memory_def\<close>)+

lemma wf_RecordEvent: "wf_memory m \<Longrightarrow> wf_memory (RecordEvent e m)"
  unfolding RecordEvent_def
  by (rule wf_put_log(1)) (simp_all add: wf_memory_def wf_logs_def length_last_n)

lemma wf_RecordAudit: "wf_memory m \<Longrightarrow> wf_memory (RecordAudit now aid e m)"
  unfolding RecordAudit_def
  by (rule wf_put_log(2)) (simp_all add: wf_memory_def wf_logs_def length_last_n)

lemma wf_RecordUsage: "wf_memory m \<Longrightarrow> wf_memory (RecordUsage r m)"
  unfolding RecordUsage_def
  by (rule wf_put_log(3)) (simp_all add: wf_memory_def wf_logs_def length_last_n)

lemma wf_SetQuota: "wf_memory m \<Longrightarrow> SetQuota now q m = Inr (m', q') \<Longrightarrow> wf_memory m'"
  by (auto simp: SetQuota_def Let_def intro!: wf_put(5) split: if_splits)

lemma wf_DeleteQuota: "wf_memory m \<Longrightarrow> DeleteQuota tid kid m = Inr m' \<Longrightarrow> wf_memory m'"
  by (auto simp: DeleteQuota_def Let_def intro!: wf_put(5) split: if_splits)

lemma wf_NewMemory: "wf_memory (NewMemory dev)"
  by (simp add: wf_memory_def wf_tenants_def wf_keys_def wf_logs_def NewMemory_def wf_coll_def at_nil_def)

lemmas wf_steps = wf_CreateTenant wf_UpdateTenant wf_DeleteTenant wf_CreateAPIKey wf_RevokeAPIKey
  wf_CreateProvider wf_UpdateProvider wf_DeleteProvider wf_UpsertAlias wf_DeleteAlias wf_UpsertRoute
  wf_DeleteRoute wf_SetQuota wf_DeleteQuota wf_CreateWebhook wf_DeleteWebhook wf_RecordEvent
  wf_RecordAudit wf_RecordUsage

lemma wf_store_step:
  assumes "store_step h m m'" "wf_memory m"
  shows "wf_memory m'"
  using assms(1) by (cases rule: store_step.cases) (use assms(2) in \<open>blast intro: wf_steps\<close>)+

lemma wf_store_reach: "store_reach h m \<Longrightarrow> wf_memory m"
  by (induction rule: store_reach.induct) (auto intro: wf_NewMemory wf_store_step)

end
