(* ===== verification/Events.thy ===== *)
theory Events
  imports Store_Invariant Http_Context Breaker
begin

text \<open>
  Webhook events, \<open>gateway/internal/events/events.go\<close> and \<open>hooks.go\<close>: recording an event, fanning it out to the
  tenant's endpoints, and one endpoint's schedule of attempts.

  \<open>Emit\<close> is one function on the dispatcher and the store. A delivery in progress touches nothing it shares but the
  network and the log, so a whole schedule is one function, \<open>deliver\<close>, of what the endpoint answers to each
  attempt and of the waits that the shutdown cuts short; the queue between them is a step relation with any
  interleaving. The id, the clock, \<open>json.Marshal\<close>, \<open>http.NewRequest\<close>'s verdict on a URL and HMAC-SHA256 in hexadecimal are
  arguments. The in-memory store cannot fail.
\<close>

section \<open>The registry of event types\<close>

definition QuotaThresholdCrossed :: string where "QuotaThresholdCrossed = ''quota.threshold_crossed''"
definition QuotaHardCapReached :: string where "QuotaHardCapReached = ''quota.hard_cap_reached''"
definition BreakerOpened :: string where "BreakerOpened = ''breaker.opened''"
definition BreakerClosed :: string where "BreakerClosed = ''breaker.closed''"
definition CatalogModelAdded :: string where "CatalogModelAdded = ''catalog.model_added''"
definition CatalogModelRemoved :: string where "CatalogModelRemoved = ''catalog.model_removed''"
definition AliasDegraded :: string where "AliasDegraded = ''alias.degraded''"
definition RuleDegraded :: string where "RuleDegraded = ''rule.degraded''"
definition DebugCaptureEnabled :: string where "DebugCaptureEnabled = ''debug_capture.enabled''"
definition DebugCaptureDisabled :: string where "DebugCaptureDisabled = ''debug_capture.disabled''"

definition event_Registry :: "string list" where
  "event_Registry = [QuotaThresholdCrossed, QuotaHardCapReached, BreakerOpened, BreakerClosed, CatalogModelAdded,
     CatalogModelRemoved, AliasDegraded, RuleDegraded, DebugCaptureEnabled, DebugCaptureDisabled]"

lemmas event_types = QuotaThresholdCrossed_def QuotaHardCapReached_def BreakerOpened_def BreakerClosed_def
  CatalogModelAdded_def CatalogModelRemoved_def AliasDegraded_def RuleDegraded_def DebugCaptureEnabled_def
  DebugCaptureDisabled_def

section \<open>The dispatcher\<close>

type_synonym event_data = "(string \<times> farg) list"

record eventEnvelope =
  ee_ID :: string
  ee_Type :: string
  ee_Created :: time
  ee_Tenant :: string
  ee_Data :: event_data

record hookOptions =
  ho_MaxAttempts :: int
  ho_Timeout :: duration
  ho_BaseBackoff :: duration
  ho_Queue :: int
  ho_Workers :: int

record hookDelivery =
  hd_webhook :: Webhook
  hd_body :: string
  hd_eventID :: string
  hd_typ :: string

datatype hook_warning =
    CannotEncode string string                \<comment> \<open>event and type\<close>
  | HookQueueFull string string string int    \<comment> \<open>event, type, webhook and capacity\<close>
  | HookDelivered string string int           \<comment> \<open>event, webhook and attempt\<close>
  | HookGivenUp string string int             \<comment> \<open>event, webhook and attempts\<close>

record EventDispatcher =
  ed_opts :: hookOptions
  ed_queue :: "hookDelivery list"
  ed_stopped :: bool
  ed_log :: "hook_warning list"

definition event_New :: "hookOptions \<Rightarrow> EventDispatcher" where
  "event_New opts =
     \<lparr> ed_opts = \<lparr> ho_MaxAttempts = (if ho_MaxAttempts opts < 1 then 5 else ho_MaxAttempts opts),
         ho_Timeout = (if ho_Timeout opts \<le> 0 then 10 * Second else ho_Timeout opts),
         ho_BaseBackoff = (if ho_BaseBackoff opts \<le> 0 then 5 * Second else ho_BaseBackoff opts),
         ho_Queue = (if ho_Queue opts < 1 then 256 else ho_Queue opts),
         ho_Workers = (if ho_Workers opts < 1 then 8 else ho_Workers opts) \<rparr>,
       ed_queue = [], ed_stopped = False, ed_log = [] \<rparr>"

fun subscribed :: "string list \<Rightarrow> string \<Rightarrow> bool" where
  "subscribed [] typ = False"
| "subscribed (e # es) typ = (if e = typ then True else subscribed es typ)"

definition hook_say :: "hook_warning \<Rightarrow> EventDispatcher \<Rightarrow> EventDispatcher" where
  "hook_say m d = d\<lparr>ed_log := ed_log d @ [m]\<rparr>"

definition offer_hook :: "eventEnvelope \<Rightarrow> string \<Rightarrow> Webhook \<Rightarrow> EventDispatcher \<Rightarrow> EventDispatcher" where
  \<comment> \<open>one round of the loop over the webhooks\<close>
  "offer_hook env body h d =
     (if \<not> w_Enabled h \<or> \<not> subscribed (w_Events h) (ee_Type env) then d
      else if int (length (ed_queue d)) < ho_Queue (ed_opts d)
      then d\<lparr>ed_queue := ed_queue d @
               [\<lparr> hd_webhook = h, hd_body = body, hd_eventID = ee_ID env, hd_typ = ee_Type env \<rparr>]\<rparr>
      else hook_say (HookQueueFull (ee_ID env) (ee_Type env) (w_ID h) (ho_Queue (ed_opts d))) d)"

definition Emit ::
  "(eventEnvelope \<Rightarrow> goerr + string) \<Rightarrow> string \<Rightarrow> time \<Rightarrow> string \<Rightarrow> string \<Rightarrow> event_data \<Rightarrow> EventDispatcher \<Rightarrow> Memory
    \<Rightarrow> EventDispatcher \<times> Memory" where
  "Emit marshal eid now tenantID eventType data d m =
     (let env = \<lparr> ee_ID = eid, ee_Type = eventType, ee_Created = now, ee_Tenant = tenantID, ee_Data = data \<rparr>;
          m1 = RecordEvent \<lparr> ev_ID = eid, ev_Type = eventType, ev_Created = now, ev_TenantID = tenantID, ev_Data = data \<rparr> m;
          hooks = ListWebhooks tenantID m1
      in case marshal env of
           Inl err \<Rightarrow> (hook_say (CannotEncode eid eventType) d, m1)
         | Inr body \<Rightarrow> (fold (offer_hook env body) hooks d, m1))"

definition hook_Close :: "EventDispatcher \<Rightarrow> EventDispatcher" where
  \<comment> \<open>closing \<open>stop\<close>; the workers are seen in the steps below\<close>
  "hook_Close d = d\<lparr>ed_stopped := True\<rparr>"

section \<open>One endpoint's schedule\<close>

definition Sign :: "(string \<Rightarrow> string \<Rightarrow> string) \<Rightarrow> string \<Rightarrow> string \<Rightarrow> string" where
  "Sign hmacHex secret body = ''sha256='' @ hmacHex secret body"

record post =
  po_URL :: string
  po_Headers :: "(string, string) gomap"
  po_Body :: string

definition hook_post :: "(string \<Rightarrow> string \<Rightarrow> string) \<Rightarrow> hookDelivery \<Rightarrow> post" where
  \<comment> \<open>the request an attempt sends\<close>
  "hook_post hmacHex job =
     \<lparr> po_URL = w_URL (hd_webhook job),
       po_Headers = [(''Content-Type'', ''application/json''), (''User-Agent'', ''CogniGate''),
         (''X-CogniGate-Event-Id'', hd_eventID job),
         (''X-CogniGate-Signature'', Sign hmacHex (w_Secret (hd_webhook job)) (hd_body job))],
       po_Body = hd_body job \<rparr>"

definition hook_attempt ::
  "(string \<Rightarrow> bool) \<Rightarrow> (string \<Rightarrow> string \<Rightarrow> string) \<Rightarrow> hookDelivery \<Rightarrow> goerr + int \<Rightarrow> post list \<times> goerr option" where
  \<comment> \<open>what was sent and the error; the third argument is what \<open>Client.Do\<close> returns\<close>
  "hook_attempt validURL hmacHex job answer =
     (if \<not> validURL (w_URL (hd_webhook job)) then ([], Some (Errorf (''parse %q'', [FStr (w_URL (hd_webhook job))])))
      else ([hook_post hmacHex job],
        case answer of
          Inl err \<Rightarrow> Some err
        | Inr status \<Rightarrow>
            if status < 200 \<or> status > 299 then Some (Errorf (''webhook endpoint returned %d'', [FInt status])) else None))"

datatype hook_end = Accepted int | GaveUp int | Abandoned \<comment> \<open>with the attempt\<close>

fun deliver_from ::
  "(int \<Rightarrow> post list \<times> goerr option) \<Rightarrow> (int \<Rightarrow> bool) \<Rightarrow> nat \<Rightarrow> int \<Rightarrow> duration \<Rightarrow> post list \<times> duration list \<times> hook_end" where
  \<comment> \<open>the loop from attempt \<open>k\<close> on with \<open>n\<close> attempts left; \<open>stops k\<close> is the shutdown winning the wait after
     attempt \<open>k\<close>. The second result is the waits\<close>
  "deliver_from attempt stops 0 k backoff = ([], [], GaveUp (k - 1))"
| "deliver_from attempt stops (Suc n) k backoff =
     (case attempt k of
        (ps, None) \<Rightarrow> (ps, [], Accepted k)
      | (ps, Some err) \<Rightarrow>
          if n = 0 then (ps, [], GaveUp k)
          else if stops k then (ps, [], Abandoned)
          else let (qs, waits, how) = deliver_from attempt stops n (k + 1) (backoff * 2)
               in (ps @ qs, backoff # waits, how))"

definition hook_deliver ::
  "(string \<Rightarrow> bool) \<Rightarrow> (string \<Rightarrow> string \<Rightarrow> string) \<Rightarrow> hookOptions \<Rightarrow> hookDelivery \<Rightarrow> (int \<Rightarrow> goerr + int) \<Rightarrow> (int \<Rightarrow> bool)
    \<Rightarrow> post list \<times> duration list \<times> hook_end" where
  "hook_deliver validURL hmacHex opts job answers stops =
     deliver_from (\<lambda>k. hook_attempt validURL hmacHex job (answers k)) stops (nat (ho_MaxAttempts opts)) 1 (ho_BaseBackoff opts)"

definition deliver_log :: "hookDelivery \<Rightarrow> hook_end \<Rightarrow> EventDispatcher \<Rightarrow> EventDispatcher" where
  "deliver_log job how d =
     (case how of
        Accepted k \<Rightarrow> hook_say (HookDelivered (hd_eventID job) (w_ID (hd_webhook job)) k) d
      | GaveUp k \<Rightarrow> hook_say (HookGivenUp (hd_eventID job) (w_ID (hd_webhook job)) k) d
      | Abandoned \<Rightarrow> d)"

section \<open>Hooks\<close>

type_synonym event_emission = "string \<times> string \<times> event_data" \<comment> \<open>tenant, type and data\<close>

definition BreakerHook :: "string \<times> State \<times> State \<Rightarrow> event_emission list" where
  \<comment> \<open>the argument is one call of the callback\<close>
  "BreakerHook x =
     (case x of (key, frm, to) \<Rightarrow>
        if to = StateHalfOpen then []
        else
          let typ = (if to = StateOpen then BreakerOpened else BreakerClosed);
              (tenantID, provider, model) = SplitKey key
          in if tenantID = [] then []
             else [(tenantID, typ, [(''provider'', FStr provider), (''model'', FStr model), (''state'', FStr (State_String to)),
                     (''previous_state'', FStr (State_String frm))])])"

definition CatalogHook :: "string \<Rightarrow> string list \<Rightarrow> string list \<Rightarrow> event_emission list" where
  "CatalogHook tenantID added removed =
     (if tenantID = [] then []
      else map (\<lambda>x. (tenantID, CatalogModelAdded, [(''model'', FStr x)])) added @
           map (\<lambda>x. (tenantID, CatalogModelRemoved, [(''model'', FStr x)])) removed)"


section \<open>Fan-out\<close>

definition deliveries :: "eventEnvelope \<Rightarrow> string \<Rightarrow> Webhook list \<Rightarrow> hookDelivery list" where
  "deliveries env body hooks =
     map (\<lambda>h. \<lparr> hd_webhook = h, hd_body = body, hd_eventID = ee_ID env, hd_typ = ee_Type env \<rparr>)
       (filter (\<lambda>h. w_Enabled h \<and> ee_Type env \<in> set (w_Events h)) hooks)"

lemma subscribed_iff [simp]: "subscribed es typ \<longleftrightarrow> typ \<in> set es"
  by (induction es) auto

lemma offer_all:
  "ed_opts (fold (offer_hook env body) hooks d) = ed_opts d \<and> ed_stopped (fold (offer_hook env body) hooks d) = ed_stopped d \<and>
   ed_queue (fold (offer_hook env body) hooks d) =
     ed_queue d @ take (nat (ho_Queue (ed_opts d)) - length (ed_queue d)) (deliveries env body hooks) \<and>
   length (ed_log (fold (offer_hook env body) hooks d)) =
     length (ed_log d) + (length (deliveries env body hooks) - (nat (ho_Queue (ed_opts d)) - length (ed_queue d)))"
proof (induction hooks arbitrary: d)
  case Nil
  show ?case by (simp add: deliveries_def)
next
  case (Cons h hooks)
  show ?case
  proof (cases "w_Enabled h \<and> ee_Type env \<in> set (w_Events h)")
    case False
    then have "offer_hook env body h d = d" "deliveries env body (h # hooks) = deliveries env body hooks"
      by (auto simp: offer_hook_def deliveries_def)
    then show ?thesis using Cons.IH [of d] by simp
  next
    case True
    let ?job = "\<lparr> hd_webhook = h, hd_body = body, hd_eventID = ee_ID env, hd_typ = ee_Type env \<rparr>"
    have ds: "deliveries env body (h # hooks) = ?job # deliveries env body hooks" using True by (simp add: deliveries_def)
    show ?thesis
    proof (cases "int (length (ed_queue d)) < ho_Queue (ed_opts d)")
      case room: True
      then have o: "offer_hook env body h d = d\<lparr>ed_queue := ed_queue d @ [?job]\<rparr>" using True by (simp add: offer_hook_def)
      have "nat (ho_Queue (ed_opts d)) - length (ed_queue d) = Suc (nat (ho_Queue (ed_opts d)) - Suc (length (ed_queue d)))"
        using room by linarith
      then show ?thesis using Cons.IH [of "d\<lparr>ed_queue := ed_queue d @ [?job]\<rparr>"] by (simp add: o ds)
    next
      case full: False
      let ?d = "hook_say (HookQueueFull (ee_ID env) (ee_Type env) (w_ID h) (ho_Queue (ed_opts d))) d"
      have o: "offer_hook env body h d = ?d" using True full by (simp add: offer_hook_def)
      have "nat (ho_Queue (ed_opts d)) - length (ed_queue d) = 0" using full by linarith
      then show ?thesis using Cons.IH [of ?d] by (simp add: o ds hook_say_def)
    qed
  qed
qed

text \<open>Raising an event never depends on its delivery: it is in the tenant's stored history at once, newest
  first and within the history's bound, whatever the webhooks and the queue are; every enabled endpoint that
  subscribed to its type is queued in order, with the same id and the same body, until the queue is full,
  and each one left out is a line in the log. No other tenant's history changes.\<close>

theorem event_recorded_and_fanned:
  assumes "Emit marshal eid now tid typ data d m = (d', m')"
    and "marshal \<lparr> ee_ID = eid, ee_Type = typ, ee_Created = now, ee_Tenant = tid, ee_Data = data \<rparr> = Inr body"
  shows "ListEvents tid m' = take MaxTenantEvents
      (\<lparr> ev_ID = eid, ev_Type = typ, ev_Created = now, ev_TenantID = tid, ev_Data = data \<rparr> # ListEvents tid m) \<and>
    (\<forall>other. other \<noteq> tid \<longrightarrow> ListEvents other m' = ListEvents other m) \<and>
    (let jobs = deliveries \<lparr> ee_ID = eid, ee_Type = typ, ee_Created = now, ee_Tenant = tid, ee_Data = data \<rparr> body (ListWebhooks tid m);
         room = nat (ho_Queue (ed_opts d)) - length (ed_queue d)
     in ed_queue d' = ed_queue d @ take room jobs \<and> length (ed_log d') = length (ed_log d) + (length jobs - room))"
proof -
  let ?env = "\<lparr> ee_ID = eid, ee_Type = typ, ee_Created = now, ee_Tenant = tid, ee_Data = data \<rparr>"
  let ?e = "\<lparr> ev_ID = eid, ev_Type = typ, ev_Created = now, ev_TenantID = tid, ev_Data = data \<rparr>"
  have m: "m' = RecordEvent ?e m" and d: "d' = fold (offer_hook ?env body) (ListWebhooks tid m) d"
    using assms by (auto simp: Emit_def Let_def RecordEvent_def ListWebhooks_def)
  have "ListEvents tid m' = take MaxTenantEvents (?e # ListEvents tid m)"
    by (simp add: m ListEvents_def RecordEvent_def rev_last_n)
  moreover have "ListEvents other m' = ListEvents other m" if "other \<noteq> tid" for other
    using that by (simp add: m ListEvents_def RecordEvent_def)
  ultimately show ?thesis using offer_all [of ?env body "ListWebhooks tid m" d] by (simp add: d Let_def)
qed

section \<open>The schedule\<close>

lemma deliver_from_posts:
  assumes "\<And>j. set (fst (attempt j)) \<subseteq> {p} \<and> length (fst (attempt j)) \<le> 1"
  shows "deliver_from attempt stops n k b = (ps, waits, how) \<Longrightarrow> set ps \<subseteq> {p} \<and> length ps \<le> n"
proof (induction n arbitrary: k b ps waits how)
  case (Suc n)
  obtain qs err where a: "attempt k = (qs, err)" by fastforce
  have q: "set qs \<subseteq> {p}" "length qs \<le> 1" using assms [of k] a by auto
  obtain rs ws h where r: "deliver_from attempt stops n (k + 1) (b * 2) = (rs, ws, h)" by (metis prod_cases3)
  have "ps = qs \<or> ps = qs @ rs" using Suc.prems a r by (auto split: option.splits if_splits)
  then show ?case using Suc.IH [OF r] q by auto
qed simp

lemma deliver_from_waits:
  "deliver_from attempt stops n k b = (ps, waits, how) \<Longrightarrow>
     waits = map (\<lambda>i. b * 2 ^ i) [0..<length waits] \<and> (n > 0 \<longrightarrow> length waits < n)"
proof (induction n arbitrary: k b ps waits how)
  case (Suc n)
  obtain qs err where a: "attempt k = (qs, err)" by fastforce
  obtain rs ws h where r: "deliver_from attempt stops n (k + 1) (b * 2) = (rs, ws, h)" by (metis prod_cases3)
  note ih = Suc.IH [OF r]
  have "waits = [] \<or> waits = b # ws \<and> n \<noteq> 0" using Suc.prems a r by (auto split: option.splits if_splits)
  then show ?case
  proof
    assume w: "waits = b # ws \<and> n \<noteq> 0"
    have "b # ws = map (\<lambda>i. b * 2 ^ i) [0..<Suc (length ws)]"
      unfolding map_upt_Suc using ih by (simp add: ac_simps)
    then show ?case using w ih by simp
  qed simp
qed simp

lemma deliver_from_accepted:
  "deliver_from attempt stops n k b = (ps, waits, how) \<Longrightarrow>
     how = Accepted j \<longleftrightarrow> j \<in> {k..<k + int n} \<and> snd (attempt j) = None \<and> (\<forall>i \<in> {k..<j}. snd (attempt i) \<noteq> None \<and> \<not> stops i)"
proof (induction n arbitrary: k b ps waits how)
  case (Suc n)
  obtain qs err where a: "attempt k = (qs, err)" by fastforce
  obtain rs ws h where r: "deliver_from attempt stops n (k + 1) (b * 2) = (rs, ws, h)" by (metis prod_cases3)
  note ih = Suc.IH [OF r]
  have range: "{k..<j} = (if k < j then insert k {k + 1..<j} else {})" by auto
  show ?case
  proof (cases err)
    case None
    then have "how = Accepted k" using Suc.prems a by simp
    then show ?thesis using a None by force
  next
    case (Some e)
    show ?thesis
    proof (cases "n = 0 \<or> stops k")
      case True
      then have "how = GaveUp k \<or> how = Abandoned" "n = 0 \<or> how = Abandoned" using Suc.prems a Some by (auto split: if_splits)
      then show ?thesis using a Some True by (auto simp: range)
    next
      case False
      then have "how = h" using Suc.prems a Some r by simp
      moreover have "j \<noteq> k" if "snd (attempt j) = None" using that a Some by auto
      moreover have "{k + 1..<j} = {}" if "\<not> k < j" using that by simp
      ultimately show ?thesis using ih a Some False unfolding range by (cases "k < j") auto
    qed
  qed
qed auto

lemma hook_attempt_posts:
  "set (fst (hook_attempt validURL hmacHex job answer)) \<subseteq> {hook_post hmacHex job} \<and>
   length (fst (hook_attempt validURL hmacHex job answer)) \<le> 1"
  by (simp add: hook_attempt_def)

text \<open>C40. One endpoint's schedule: every request sent is the same signed request; at most \<open>MaxAttempts\<close> are
  sent; the waits between them double from \<open>BaseBackoff\<close>; and the delivery is accepted at attempt \<open>j\<close> exactly when
  \<open>j\<close> is within the attempts, the endpoint answers it with a 2xx, no earlier attempt was accepted
  and the shutdown cut no wait short, which needs a URL that can be dialled at all.\<close>

theorem delivery_schedule:
  assumes "hook_deliver validURL hmacHex (ed_opts (event_New opts)) job answers stops = (ps, waits, how)"
  shows "set ps \<subseteq> {hook_post hmacHex job} \<and> int (length ps) \<le> ho_MaxAttempts (ed_opts (event_New opts)) \<and>
    waits = map (\<lambda>i. ho_BaseBackoff (ed_opts (event_New opts)) * 2 ^ i) [0..<length waits] \<and>
    int (length waits) < ho_MaxAttempts (ed_opts (event_New opts)) \<and>
    (how = Accepted j \<longleftrightarrow> validURL (w_URL (hd_webhook job)) \<and> 1 \<le> j \<and> j \<le> ho_MaxAttempts (ed_opts (event_New opts)) \<and>
       (\<exists>st. answers j = Inr st \<and> 200 \<le> st \<and> st \<le> 299) \<and>
       (\<forall>i. 1 \<le> i \<and> i < j \<longrightarrow> \<not> stops i \<and> (\<forall>st. answers i = Inr st \<longrightarrow> st < 200 \<or> 299 < st)))"
proof -
  let ?o = "ed_opts (event_New opts)"
  let ?a = "\<lambda>k. hook_attempt validURL hmacHex job (answers k)"
  have pos: "0 < ho_MaxAttempts ?o" by (simp add: event_New_def)
  have r: "deliver_from ?a stops (nat (ho_MaxAttempts ?o)) 1 (ho_BaseBackoff ?o) = (ps, waits, how)"
    using assms by (simp add: hook_deliver_def)
  have none: "snd (?a i) = None \<longleftrightarrow> validURL (w_URL (hd_webhook job)) \<and> (\<exists>st. answers i = Inr st \<and> 200 \<le> st \<and> st \<le> 299)" for i
    by (auto simp: hook_attempt_def split: sum.splits)
  have "how = Accepted j \<longleftrightarrow> j \<in> {1..<1 + int (nat (ho_MaxAttempts ?o))} \<and> snd (?a j) = None \<and>
      (\<forall>i \<in> {1..<j}. snd (?a i) \<noteq> None \<and> \<not> stops i)" by (rule deliver_from_accepted [OF r])
  then have acc: "how = Accepted j \<longleftrightarrow> validURL (w_URL (hd_webhook job)) \<and> 1 \<le> j \<and> j \<le> ho_MaxAttempts ?o \<and>
       (\<exists>st. answers j = Inr st \<and> 200 \<le> st \<and> st \<le> 299) \<and>
       (\<forall>i. 1 \<le> i \<and> i < j \<longrightarrow> \<not> stops i \<and> (\<forall>st. answers i = Inr st \<longrightarrow> st < 200 \<or> 299 < st))"
    unfolding none using pos by (auto simp: not_le)
  have "set ps \<subseteq> {hook_post hmacHex job} \<and> length ps \<le> nat (ho_MaxAttempts ?o)"
    using deliver_from_posts [of ?a "hook_post hmacHex job", OF hook_attempt_posts r] .
  then have "set ps \<subseteq> {hook_post hmacHex job}" "int (length ps) \<le> ho_MaxAttempts ?o" using pos by auto
  moreover have "waits = map (\<lambda>i. ho_BaseBackoff ?o * 2 ^ i) [0..<length waits]" "int (length waits) < ho_MaxAttempts ?o"
    using deliver_from_waits [OF r] pos by auto
  ultimately show ?thesis using acc by blast
qed


theorem delivery_schedule_witness:
  "snd (snd (hook_deliver (\<lambda>_. True) (\<lambda>k b. k @ b) (ed_opts (event_New \<lparr> ho_MaxAttempts = 3, ho_Timeout = 0, ho_BaseBackoff = 5,
      ho_Queue = 1, ho_Workers = 1 \<rparr>)) \<lparr> hd_webhook = \<lparr> w_ID = ''wh'', w_TenantID = ''t1'', w_URL = ''http://x'', w_Secret = ''s'',
      w_Events = [], w_Enabled = True, w_CreatedAt = 0 \<rparr>, hd_body = ''b'', hd_eventID = ''e'', hd_typ = ''y'' \<rparr>
      (\<lambda>k. if k < 3 then Inr 500 else Inr 204) (\<lambda>_. False))) = Accepted 3"
proof -
  let ?opts = "\<lparr> ho_MaxAttempts = 3, ho_Timeout = 0, ho_BaseBackoff = 5, ho_Queue = 1, ho_Workers = 1 \<rparr>"
  let ?job = "\<lparr> hd_webhook = \<lparr> w_ID = ''wh'', w_TenantID = ''t1'', w_URL = ''http://x'', w_Secret = ''s'',
      w_Events = [], w_Enabled = True, w_CreatedAt = 0 \<rparr>, hd_body = ''b'', hd_eventID = ''e'', hd_typ = ''y'' \<rparr>"
  obtain ps waits how where r: "hook_deliver (\<lambda>_. True) (\<lambda>k b. k @ b) (ed_opts (event_New ?opts)) ?job
      (\<lambda>k. if k < 3 then Inr 500 else Inr 204) (\<lambda>_. False) = (ps, waits, how)" by (metis prod_cases3)
  have m: "ho_MaxAttempts (ed_opts (event_New ?opts)) = 3" by (simp add: event_New_def)
  have "how = Accepted 3" using delivery_schedule [OF r, of 3] unfolding m by simp
  then show ?thesis using r by simp
qed

theorem event_recorded_and_fanned_witness:
  "length (ed_queue (fst (Emit (\<lambda>e. Inr (ee_ID e)) ''evt_1'' 9 ''t1'' BreakerOpened [] (event_New \<lparr> ho_MaxAttempts = 0, ho_Timeout = 0,
      ho_BaseBackoff = 0, ho_Queue = 1, ho_Workers = 0 \<rparr>)
      ((NewMemory True)\<lparr>m_webhooks := [(''t1'', replicate 2 \<lparr> w_ID = ''wh'', w_TenantID = ''t1'', w_URL = ''http://x'', w_Secret = ''s'',
         w_Events = [BreakerOpened], w_Enabled = True, w_CreatedAt = 0 \<rparr>)]\<rparr>)))) = 1"
proof -
  let ?d = "event_New \<lparr> ho_MaxAttempts = 0, ho_Timeout = 0, ho_BaseBackoff = 0, ho_Queue = 1, ho_Workers = 0 \<rparr>"
  let ?h = "\<lparr> w_ID = ''wh'', w_TenantID = ''t1'', w_URL = ''http://x'', w_Secret = ''s'', w_Events = [BreakerOpened],
      w_Enabled = True, w_CreatedAt = 0 \<rparr>"
  let ?m = "(NewMemory True)\<lparr>m_webhooks := [(''t1'', replicate 2 ?h)]\<rparr>"
  obtain d' m' where e: "Emit (\<lambda>e. Inr (ee_ID e)) ''evt_1'' 9 ''t1'' BreakerOpened [] ?d ?m = (d', m')" by fastforce
  have d: "ho_Queue (ed_opts ?d) = 1" "ed_queue ?d = []" by (simp_all add: event_New_def)
  have w: "ListWebhooks ''t1'' ?m = [?h, ?h]" by (simp add: ListWebhooks_def at_nil_def numeral_2_eq_2)
  have "length (ed_queue d') = 1"
    using event_recorded_and_fanned [OF e refl] unfolding d w by (simp add: deliveries_def Let_def)
  then show ?thesis using e by simp
qed

section \<open>Whose events an endpoint receives\<close>

record hook_run =
  hr_d :: EventDispatcher
  hr_m :: Memory
  hr_raised :: "(eventEnvelope \<times> Webhook list) list" \<comment> \<open>every event and the webhooks its tenant had then\<close>
  hr_posts :: "post list"

inductive hook_step ::
  "(string \<Rightarrow> bool) \<Rightarrow> (string \<Rightarrow> string \<Rightarrow> string) \<Rightarrow> (eventEnvelope \<Rightarrow> goerr + string) \<Rightarrow> hook_run \<Rightarrow> hook_run \<Rightarrow> bool"
  for validURL hmacHex marshal where
  raise_event: "Emit marshal eid now tid typ data (hr_d r) (hr_m r) = (d', m') \<Longrightarrow>
    hook_step validURL hmacHex marshal r (r\<lparr>hr_d := d', hr_m := m', hr_raised := hr_raised r @
      [(\<lparr> ee_ID = eid, ee_Type = typ, ee_Created = now, ee_Tenant = tid, ee_Data = data \<rparr>, ListWebhooks tid (hr_m r))]\<rparr>)"
| change_store: "wf_memory m' \<Longrightarrow> hook_step validURL hmacHex marshal r (r\<lparr>hr_m := m'\<rparr>)"
| work: "ed_queue (hr_d r) = job # q \<Longrightarrow>
    hook_deliver validURL hmacHex (ed_opts (hr_d r)) job answers stops = (ps, waits, how) \<Longrightarrow>
    hook_step validURL hmacHex marshal r (r\<lparr>hr_posts := hr_posts r @ ps,
      hr_d := (deliver_log job how ((hr_d r)\<lparr>ed_queue := q\<rparr>))\<lparr>ed_stopped := ed_stopped (hr_d r) \<or> how = Abandoned\<rparr>\<rparr>)"
| close_hooks: "hook_step validURL hmacHex marshal r (r\<lparr>hr_d := hook_Close (hr_d r)\<rparr>)"

inductive hook_reach ::
  "(string \<Rightarrow> bool) \<Rightarrow> (string \<Rightarrow> string \<Rightarrow> string) \<Rightarrow> (eventEnvelope \<Rightarrow> goerr + string) \<Rightarrow> hookOptions \<Rightarrow> hook_run \<Rightarrow> bool"
  for validURL hmacHex marshal opts where
  hook_start: "wf_memory m \<Longrightarrow>
    hook_reach validURL hmacHex marshal opts \<lparr> hr_d = event_New opts, hr_m = m, hr_raised = [], hr_posts = [] \<rparr>"
| hook_more: "hook_reach validURL hmacHex marshal opts r \<Longrightarrow> hook_step validURL hmacHex marshal r r' \<Longrightarrow>
    hook_reach validURL hmacHex marshal opts r'"

definition genuine ::
  "(eventEnvelope \<Rightarrow> goerr + string) \<Rightarrow> (eventEnvelope \<times> Webhook list) list \<Rightarrow> hookDelivery \<Rightarrow> bool" where
  \<comment> \<open>an event that was raised, for an endpoint its own tenant had registered for it\<close>
  "genuine marshal raised job \<longleftrightarrow> (\<exists>(env, hooks) \<in> set raised. hd_webhook job \<in> set hooks \<and> w_Enabled (hd_webhook job) \<and>
     ee_Type env \<in> set (w_Events (hd_webhook job)) \<and> w_TenantID (hd_webhook job) = ee_Tenant env \<and>
     marshal env = Inr (hd_body job) \<and> hd_eventID job = ee_ID env)"

definition hooks_ok :: "(string \<Rightarrow> string \<Rightarrow> string) \<Rightarrow> (eventEnvelope \<Rightarrow> goerr + string) \<Rightarrow> hook_run \<Rightarrow> bool" where
  "hooks_ok hmacHex marshal r \<longleftrightarrow> wf_memory (hr_m r) \<and> int (length (ed_queue (hr_d r))) \<le> ho_Queue (ed_opts (hr_d r)) \<and>
     (\<forall>job \<in> set (ed_queue (hr_d r)). genuine marshal (hr_raised r) job) \<and>
     (\<forall>p \<in> set (hr_posts r). \<exists>job. genuine marshal (hr_raised r) job \<and> p = hook_post hmacHex job)"

lemma genuine_more: "genuine marshal raised job \<Longrightarrow> genuine marshal (raised @ ext) job"
  by (fastforce simp: genuine_def)

lemma webhooks_owned: "wf_memory m \<Longrightarrow> h \<in> set (ListWebhooks tid m) \<Longrightarrow> w_TenantID h = tid"
  using wc.P_at_nil [of "m_tenants m" "m_webhooks m" tid] by (auto simp: wf_memory_def ListWebhooks_def webhooks_ok_def)

lemma deliver_log_queue [simp]: "ed_queue (deliver_log job how d) = ed_queue d" "ed_opts (deliver_log job how d) = ed_opts d"
  by (simp_all add: deliver_log_def hook_say_def split: hook_end.splits)

lemma hook_deliver_posts: "hook_deliver validURL hmacHex opts job answers stops = (ps, waits, how) \<Longrightarrow> set ps \<subseteq> {hook_post hmacHex job}"
  unfolding hook_deliver_def using deliver_from_posts [of "\<lambda>k. hook_attempt validURL hmacHex job (answers k)", OF hook_attempt_posts] by blast

lemma hooks_ok_step:
  assumes "hook_step validURL hmacHex marshal r r'" "hooks_ok hmacHex marshal r"
  shows "hooks_ok hmacHex marshal r'"
  using assms
proof (cases rule: hook_step.cases)
  case (raise_event eid now tid ty data d' m')
  let ?env = "\<lparr> ee_ID = eid, ee_Type = ty, ee_Created = now, ee_Tenant = tid, ee_Data = data \<rparr>"
  let ?more = "[(?env, ListWebhooks tid (hr_m r))]"
  have wf: "wf_memory (hr_m r)" using assms(2) by (simp add: hooks_ok_def)
  have m: "wf_memory m'" using raise_event(2) wf_RecordEvent [OF wf] by (auto simp: Emit_def Let_def split: sum.splits)
  have old: "genuine marshal (hr_raised r @ ?more) job" if "job \<in> set (ed_queue (hr_d r))" for job
    using assms(2) that genuine_more by (auto simp: hooks_ok_def)
  have posts: "\<exists>job. genuine marshal (hr_raised r @ ?more) job \<and> p = hook_post hmacHex job" if "p \<in> set (hr_posts r)" for p
    using assms(2) that genuine_more by (fastforce simp: hooks_ok_def)
  have q: "int (length (ed_queue d')) \<le> ho_Queue (ed_opts d') \<and> (\<forall>job \<in> set (ed_queue d'). genuine marshal (hr_raised r @ ?more) job)"
  proof (cases "marshal ?env")
    case (Inl err)
    then have "d' = hook_say (CannotEncode eid ty) (hr_d r)" using raise_event(2) by (simp add: Emit_def)
    then show ?thesis using assms(2) old by (simp add: hooks_ok_def hook_say_def)
  next
    case (Inr body)
    then have d: "d' = fold (offer_hook ?env body) (ListWebhooks tid (hr_m r)) (hr_d r)"
      using raise_event(2) by (auto simp: Emit_def Let_def RecordEvent_def ListWebhooks_def)
    let ?n = "nat (ho_Queue (ed_opts (hr_d r))) - length (ed_queue (hr_d r))"
    have e: "ed_opts d' = ed_opts (hr_d r)" "ed_queue d' = ed_queue (hr_d r) @ take ?n (deliveries ?env body (ListWebhooks tid (hr_m r)))"
      using offer_all [of ?env body "ListWebhooks tid (hr_m r)" "hr_d r"] d by auto
    have "genuine marshal (hr_raised r @ ?more) job" if "job \<in> set (deliveries ?env body (ListWebhooks tid (hr_m r)))" for job
      using that webhooks_owned [OF wf, of _ tid] Inr by (auto simp: deliveries_def genuine_def)
    moreover have "set (take ?n (deliveries ?env body (ListWebhooks tid (hr_m r)))) \<subseteq> set (deliveries ?env body (ListWebhooks tid (hr_m r)))"
      by (rule set_take_subset)
    moreover have "int (length (ed_queue (hr_d r))) \<le> ho_Queue (ed_opts (hr_d r))" using assms(2) by (simp add: hooks_ok_def)
    ultimately show ?thesis using old by (auto simp: e)
  qed
  show ?thesis using raise_event(1) m q posts by (simp add: hooks_ok_def)
next
  case (change_store m')
  then show ?thesis using assms(2) by (simp add: hooks_ok_def)
next
  case (work job q answers stops ps waits how)
  have "genuine marshal (hr_raised r) job" using assms(2) work(2) by (simp add: hooks_ok_def)
  moreover have "set ps \<subseteq> {hook_post hmacHex job}" by (rule hook_deliver_posts [OF work(3)])
  ultimately have "\<exists>job. genuine marshal (hr_raised r) job \<and> p = hook_post hmacHex job" if "p \<in> set (hr_posts r @ ps)" for p
    using that assms(2) by (auto simp: hooks_ok_def)
  then show ?thesis using work(1,2) assms(2) by (simp add: hooks_ok_def)
next
  case close_hooks
  then show ?thesis using assms(2) by (simp add: hooks_ok_def hook_Close_def)
qed

text \<open>C19. No endpoint learns of another tenant: whatever events are raised, however the store changes in
  between and however deliveries interleave, every request sent goes to an enabled endpoint that the event's own tenant had
  registered for its type when it was raised; its body is that event's envelope, its id header is the
  event's id, and its signature is over exactly that body under that endpoint's secret. The queue never
  exceeds its bound.\<close>

theorem webhooks_isolated:
  assumes "hook_reach validURL hmacHex marshal opts r"
  shows "int (length (ed_queue (hr_d r))) \<le> ho_Queue (ed_opts (hr_d r)) \<and>
    (\<forall>p \<in> set (hr_posts r). \<exists>env hooks h body. (env, hooks) \<in> set (hr_raised r) \<and> h \<in> set hooks \<and> w_Enabled h \<and>
       ee_Type env \<in> set (w_Events h) \<and> w_TenantID h = ee_Tenant env \<and> marshal env = Inr body \<and>
       po_URL p = w_URL h \<and> po_Body p = body \<and> map_of (po_Headers p) ''X-CogniGate-Event-Id'' = Some (ee_ID env) \<and>
       map_of (po_Headers p) ''X-CogniGate-Signature'' = Some (''sha256='' @ hmacHex (w_Secret h) body))"
proof -
  from assms have ok: "hooks_ok hmacHex marshal r"
  proof (induction rule: hook_reach.induct)
    case (hook_start m)
    then show ?case by (simp add: hooks_ok_def event_New_def)
  next
    case (hook_more r r')
    then show ?case using hooks_ok_step by blast
  qed
  have "\<exists>env hooks h body. (env, hooks) \<in> set (hr_raised r) \<and> h \<in> set hooks \<and> w_Enabled h \<and>
       ee_Type env \<in> set (w_Events h) \<and> w_TenantID h = ee_Tenant env \<and> marshal env = Inr body \<and>
       po_URL p = w_URL h \<and> po_Body p = body \<and> map_of (po_Headers p) ''X-CogniGate-Event-Id'' = Some (ee_ID env) \<and>
       map_of (po_Headers p) ''X-CogniGate-Signature'' = Some (''sha256='' @ hmacHex (w_Secret h) body)"
    if p: "p \<in> set (hr_posts r)" for p
  proof -
    obtain job where g: "genuine marshal (hr_raised r) job" and pj: "p = hook_post hmacHex job" using ok p by (auto simp: hooks_ok_def)
    obtain env hooks where "(env, hooks) \<in> set (hr_raised r)" "hd_webhook job \<in> set hooks" "w_Enabled (hd_webhook job)"
      "ee_Type env \<in> set (w_Events (hd_webhook job))" "w_TenantID (hd_webhook job) = ee_Tenant env"
      "marshal env = Inr (hd_body job)" "hd_eventID job = ee_ID env" using g by (auto simp: genuine_def)
    then show ?thesis by (intro exI [of _ env] exI [of _ hooks] exI [of _ "hd_webhook job"] exI [of _ "hd_body job"])
        (simp add: pj hook_post_def Sign_def)
  qed
  then show ?thesis using ok by (simp add: hooks_ok_def)
qed


definition example_hook :: Webhook where
  "example_hook = \<lparr> w_ID = ''wh_1'', w_TenantID = ''t1'', w_URL = ''https://a.example/h'', w_Secret = ''0123456789abcdef'',
     w_Events = [BreakerOpened], w_Enabled = True, w_CreatedAt = 0 \<rparr>"

definition example_hook_options :: hookOptions where
  "example_hook_options = \<lparr> ho_MaxAttempts = 2, ho_Timeout = 0, ho_BaseBackoff = 0, ho_Queue = 4, ho_Workers = 1 \<rparr>"

definition example_hook_store :: Memory where
  "example_hook_store = (NewMemory True)\<lparr>m_tenants := [(''t1'', new_tenant ''t1'' ''acme'' 5)], m_webhooks := [(''t1'', [example_hook])]\<rparr>"

lemma example_hook_store_wf: "wf_memory example_hook_store"
  by (simp add: example_hook_store_def wf_memory_def wf_tenants_def wf_keys_def wf_logs_def wf_coll_def webhooks_ok_def
      NewMemory_def new_tenant_def at_nil_def example_hook_def)

theorem webhooks_isolated_witness:
  "\<exists>r p. hook_reach (\<lambda>_. True) (\<lambda>k b. k @ b) (\<lambda>e. Inr (ee_Tenant e)) example_hook_options r \<and> hr_posts r = [p] \<and>
     po_URL p = ''https://a.example/h'' \<and> po_Body p = ''t1'' \<and>
     map_of (po_Headers p) ''X-CogniGate-Signature'' = Some ''sha256=0123456789abcdeft1''"
proof -
  let ?env = "\<lparr> ee_ID = ''evt_1'', ee_Type = BreakerOpened, ee_Created = 9, ee_Tenant = ''t1'', ee_Data = [] \<rparr>"
  let ?job = "\<lparr> hd_webhook = example_hook, hd_body = ''t1'', hd_eventID = ''evt_1'', hd_typ = BreakerOpened \<rparr>"
  let ?r0 = "\<lparr> hr_d = event_New example_hook_options, hr_m = example_hook_store, hr_raised = [], hr_posts = [] \<rparr>"
  obtain d m where e: "Emit (\<lambda>e. Inr (ee_Tenant e)) ''evt_1'' 9 ''t1'' BreakerOpened [] (hr_d ?r0) (hr_m ?r0) = (d, m)" by fastforce
  have ws: "ListWebhooks ''t1'' example_hook_store = [example_hook]" by (simp add: example_hook_store_def ListWebhooks_def at_nil_def)

  have d: "ed_queue d = [?job]" "ed_opts d = ed_opts (event_New example_hook_options)"
    using e ws offer_all [of ?env "''t1''" "[example_hook]" "event_New example_hook_options"]
    by (auto simp: Emit_def Let_def RecordEvent_def ListWebhooks_def deliveries_def example_hook_def event_New_def example_hook_options_def)
  define r1 where "r1 = ?r0\<lparr>hr_d := d, hr_m := m, hr_raised := hr_raised ?r0 @ [(?env, ListWebhooks ''t1'' (hr_m ?r0))]\<rparr>"
  have r1: "hook_reach (\<lambda>_. True) (\<lambda>k b. k @ b) (\<lambda>e. Inr (ee_Tenant e)) example_hook_options r1"
    unfolding r1_def by (rule hook_more [OF hook_start [OF example_hook_store_wf] raise_event [OF e]])
  have del: "hook_deliver (\<lambda>_. True) (\<lambda>k b. k @ b) (ed_opts d) ?job (\<lambda>_. Inr 200) (\<lambda>_. False)
      = ([hook_post (\<lambda>k b. k @ b) ?job], [], Accepted 1)"
    by (simp add: d(2) hook_deliver_def event_New_def example_hook_options_def hook_attempt_def numeral_2_eq_2)
  have q: "ed_queue (hr_d r1) = ?job # []" "ed_opts (hr_d r1) = ed_opts d" by (simp_all add: r1_def d)
  define r2 where "r2 = r1\<lparr>hr_posts := hr_posts r1 @ [hook_post (\<lambda>k b. k @ b) ?job],
      hr_d := (deliver_log ?job (Accepted 1) ((hr_d r1)\<lparr>ed_queue := []\<rparr>))\<lparr>ed_stopped := ed_stopped (hr_d r1) \<or> Accepted 1 = Abandoned\<rparr>\<rparr>"
  have r2: "hook_reach (\<lambda>_. True) (\<lambda>k b. k @ b) (\<lambda>e. Inr (ee_Tenant e)) example_hook_options r2"
    unfolding r2_def by (rule hook_more [OF r1 work [OF q(1) del [folded q(2)]]])
  have p: "hr_posts r2 = [hook_post (\<lambda>k b. k @ b) ?job]" and raised: "hr_raised r2 = [(?env, [example_hook])]"
    by (simp_all add: r2_def r1_def ws)
  have "po_URL (hook_post (\<lambda>k b. k @ b) ?job) = ''https://a.example/h'' \<and> po_Body (hook_post (\<lambda>k b. k @ b) ?job) = ''t1'' \<and>
      map_of (po_Headers (hook_post (\<lambda>k b. k @ b) ?job)) ''X-CogniGate-Signature'' = Some ''sha256=0123456789abcdeft1''"
    using webhooks_isolated [OF r2] unfolding p raised by (auto simp: example_hook_def)
  then show ?thesis using r2 p by blast
qed

section \<open>What a shutdown leaves behind\<close>

text \<open>A stopped worker may leave at once, whatever is queued, and \<open>Close\<close> then returns: the deliveries still queued are
  neither made nor logged. Nothing stops \<open>Emit\<close> from queueing more afterwards.\<close>

lemma shutdown_drops_silently:
  assumes "ed_queue d \<noteq> []"
  shows "ed_queue (hook_Close d) = ed_queue d \<and> ed_log (hook_Close d) = ed_log d \<and> ed_stopped (hook_Close d) \<and>
    (Emit marshal eid now tid typ data (hook_Close d) m = (d', m') \<longrightarrow> ed_stopped d' \<and> length (ed_queue d) \<le> length (ed_queue d'))"
proof -
  have "ed_stopped d' \<and> length (ed_queue d) \<le> length (ed_queue d')"
    if "Emit marshal eid now tid typ data (hook_Close d) m = (d', m')"
    using that offer_all [of "\<lparr> ee_ID = eid, ee_Type = typ, ee_Created = now, ee_Tenant = tid, ee_Data = data \<rparr>" _ "ListWebhooks tid m" "hook_Close d"]
    by (auto simp: Emit_def Let_def hook_Close_def hook_say_def RecordEvent_def ListWebhooks_def split: sum.splits)
  then show ?thesis by (simp add: hook_Close_def)
qed

section \<open>Breaker events\<close>

definition breaker_events :: "Breaker \<Rightarrow> event_emission list" where
  "breaker_events b = concat (map BreakerHook (b_fired b))"

text \<open>What a continuing outage publishes: an open circuit whose cool-off has passed admits a probe without
  any event, and when the probe fails the circuit's tenant is sent \<open>breaker.opened\<close> again, with the previous
  state half open. So a provider that stays down raises one such event per cool-off.\<close>

theorem reopen_published_again:
  assumes "entry_of b (Key tid p model) = Some e" "be_state e = StateOpen" "be_openedAt e + b_openFor b \<le> t" "b_onChange b"
    and "tid \<noteq> []" "CHR ''/'' \<notin> set tid" "CHR ''/'' \<notin> set p"
  shows "\<exists>b1. Allow b t (Key tid p model) = (b1, True) \<and> breaker_events b1 = breaker_events b \<and>
    breaker_events (Failure b1 t' (Key tid p model)) = breaker_events b @
      [(tid, BreakerOpened, [(''provider'', FStr p), (''model'', FStr model), (''state'', FStr ''open''),
         (''previous_state'', FStr ''half_open'')])]"
proof -
  let ?k = "Key tid p model"
  have e: "map_of (b_entries b) ?k = Some e" using assms(1) by (simp add: entry_of_def)
  let ?b1 = "put_entry (b\<lparr>b_fired := b_fired b @ [(?k, StateOpen, StateHalfOpen)]\<rparr>) ?k
      (e\<lparr>be_state := StateHalfOpen, be_probing := True\<rparr>)"
  have a: "Allow b t ?k = (?b1, True)" using e assms(2-4) by (simp add: Allow_def transition_def)
  have f: "b_fired (Failure ?b1 t' ?k) = b_fired b @ [(?k, StateOpen, StateHalfOpen), (?k, StateHalfOpen, StateOpen)]"
    using assms(4) by (simp add: Failure_def transition_def put_entry_def)
  have "SplitKey ?k = (tid, p, model)" using assms(6,7) SplitKey_Key by simp
  then show ?thesis using a f assms(5)
    by (intro exI [of _ ?b1]) (simp add: breaker_events_def BreakerHook_def put_entry_def State_String_def)
qed

theorem reopen_published_again_witness:
  "length (breaker_events (Failure (fst (Allow (Failure (NewBreaker 1 30 60 True) 100 (Key ''t1'' ''openai'' ''m1'')) 160
      (Key ''t1'' ''openai'' ''m1''))) 170 (Key ''t1'' ''openai'' ''m1''))) = 2"
proof -
  let ?k = "Key ''t1'' ''openai'' ''m1''" let ?b = "Failure (NewBreaker 1 30 60 True) 100 ?k"
  let ?e = "\<lparr>be_failures = [100], be_state = StateOpen, be_openedAt = 100, be_probing = False\<rparr>"
  have "entry_of ?b ?k = Some ?e" "b_openFor ?b = 60" "b_onChange ?b" "length (breaker_events ?b) = 1" by code_simp+
  then show ?thesis using reopen_published_again [of ?b "''t1''" "''openai''" "''m1''" ?e 160 170] by auto
qed

end
