(* ===== verification/Admin.thy ===== *)
theory Admin
  imports Data_Plane Events
begin

text \<open>
  The control plane, \<open>gateway/internal/server/admin.go\<close>, with \<open>listAudit\<close> of \<open>server/audit.go\<close>, \<open>flushTenantCache\<close> of
  \<open>server/cache.go\<close> and \<open>listCaptures\<close> of \<open>server/capture.go\<close>.

  Every handler is a definition in the order of the source; the checks that several share are combinators: \<open>rooted\<close> and \<open>scoped\<close>
  are the calls of \<open>requireRoot\<close> and \<open>tenantScope\<close> that open a handler, \<open>parsed\<close> the call of \<open>parse\<close>. Fiber's
  \<open>BodyParser\<close> is a decoder per request shape in the record \<open>admin_env\<close>, with \<open>url.Parse\<close> (scheme and host) and the
  random token of a new key. The store is the in-memory one, which observes no deadline and whose reads cannot fail, so the
  contexts and the branches on a failing read are left out. Warnings to the log are not modelled.
\<close>

section \<open>Requests\<close>

record keyReq =
  kq_Name :: string
  kq_Plane :: string
  kq_Scope :: string
  kq_ExpiresAt :: "time option"

record providerReq =
  pq_Name :: string
  pq_Kind :: string
  pq_BaseURL :: string
  pq_Keys :: "string list"
  pq_Enabled :: "bool option"
  pq_KeyStrategy :: string

record aliasReq =
  aq_Pin :: string
  aq_Capabilities :: "string list"
  aq_MinContextWindow :: int
  aq_ProviderPreference :: "string list"
  aq_CostTier :: string

record webhookReq =
  wq_URL :: string
  wq_Secret :: string
  wq_Events :: "string list"
  wq_Enabled :: "bool option"

record 'w admin_env =
  ad_ch :: "'w chat_env"
  ad_token :: "'w \<Rightarrow> 'w \<times> string"
  ad_parseURL :: "string \<Rightarrow> (string \<times> string) option"
  ad_refresh :: "string \<Rightarrow> goerr + string"
  ad_tenant :: "string \<Rightarrow> goerr + string"
  ad_patch :: "string \<Rightarrow> goerr + TenantPatch"
  ad_keyReq :: "string \<Rightarrow> goerr + keyReq"
  ad_adminKey :: "string \<Rightarrow> goerr + string \<times> time option"
  ad_provider :: "string \<Rightarrow> goerr + providerReq"
  ad_providerPatch :: "string \<Rightarrow> goerr + ProviderPatch"
  ad_alias :: "string \<Rightarrow> goerr + aliasReq"
  ad_route :: "string \<Rightarrow> goerr + string \<times> string list"
  ad_quota :: "string \<Rightarrow> goerr + QuotaWindow \<times> QuotaWindow"
  ad_webhook :: "string \<Rightarrow> goerr + webhookReq"

abbreviation ad_ge :: "'w admin_env \<Rightarrow> 'w genv" where
  "ad_ge env \<equiv> ch_ge (ad_ch env)"

section \<open>Authorisation\<close>

definition tenantScope :: "fctx \<Rightarrow> apiError + string" where
  "tenantScope c =
     (let tid = TrimSpace (param c ''tenant'') in
      if tid = [] then Inl (WithParam (InvalidRequest (''A tenant id is required.'', [])) ''tenant'')
      else case c_key c of
             None \<Rightarrow> Inl InvalidAPIKey
           | Some key \<Rightarrow>
               if k_Scope key = ScopeRoot then Inr tid
               else if TrimPrefix (k_Scope key) ''tenant:'' = tid then Inr tid
               else Inl (ResourceNotFound ''tenant'' tid))"

definition requireRoot :: "fctx \<Rightarrow> apiError option" where
  "requireRoot c =
     (case c_key c of
        None \<Rightarrow> Some InsufficientScope
      | Some key \<Rightarrow> if k_Scope key \<noteq> ScopeRoot then Some InsufficientScope else None)"

definition storeErr :: "(goerr \<Rightarrow> string) \<Rightarrow> goerr \<Rightarrow> string \<Rightarrow> string \<Rightarrow> goerr" where
  "storeErr errText err kind rid =
     (if errors_Is err ErrNotFound then ApiErr (WithCause (ResourceNotFound kind rid) err)
      else if errors_Is err ErrConflict then ApiErr (WithCause (Conflict (errText err, [])) err)
      else err)"

definition refused :: "goerr \<Rightarrow> 'w gateway_handler" where
  \<comment> \<open>\<open>return httpx.Fail(c, err)\<close>\<close>
  "refused err w s c = (w, s, Fail c err, Returned None)"

definition store_refused :: "'w admin_env \<Rightarrow> goerr \<Rightarrow> string \<Rightarrow> string \<Rightarrow> 'w gateway_handler" where
  "store_refused env err kind rid = refused (storeErr (ch_errText (ad_ch env)) err kind rid)"

definition bad_request :: "string \<Rightarrow> string \<Rightarrow> 'w gateway_handler" where
  "bad_request text prm = refused (ApiErr (WithParam (InvalidRequest (text, [])) prm))"

definition rooted :: "'w gateway_handler \<Rightarrow> 'w gateway_handler" where
  "rooted h w s c = (case requireRoot c of Some e \<Rightarrow> refused (ApiErr e) w s c | None \<Rightarrow> h w s c)"

definition scoped :: "(string \<Rightarrow> 'w gateway_handler) \<Rightarrow> 'w gateway_handler" where
  "scoped h w s c = (case tenantScope c of Inl e \<Rightarrow> refused (ApiErr e) w s c | Inr tid \<Rightarrow> h tid w s c)"

definition parsed :: "(string \<Rightarrow> goerr + 'a) \<Rightarrow> ('a \<Rightarrow> 'w gateway_handler) \<Rightarrow> 'w gateway_handler" where
  "parsed decode h w s c =
     (case decode (c_reqBody c) of
        Inl err \<Rightarrow> refused (ApiErr (WithCause (InvalidRequest (''Request body is not valid JSON.'', [])) err)) w s c
      | Inr req \<Rightarrow> h req w s c)"

definition answered :: "(fctx \<Rightarrow> fctx) \<Rightarrow> 'w gateway_handler" where
  "answered f w s c = (w, s, f c, Returned None)"

definition set_store :: "Memory \<Rightarrow> 'w Gateway \<Rightarrow> 'w Gateway" where
  "set_store m s = s\<lparr>sv_Store := m\<rparr>"

definition drop_catalog :: "string \<Rightarrow> 'w Gateway \<Rightarrow> 'w Gateway" where
  \<comment> \<open>\<open>s.Catalog.Invalidate(id)\<close>\<close>
  "drop_catalog tid s = s\<lparr>gt_dispatcher := (gt_dispatcher s)\<lparr>ds_catalog := Invalidate (ds_catalog (gt_dispatcher s)) tid\<rparr>\<rparr>"

definition drop_quota :: "string \<Rightarrow> 'w Gateway \<Rightarrow> 'w Gateway" where
  \<comment> \<open>\<open>s.quotas.invalidate(id)\<close>\<close>
  "drop_quota tid s = s\<lparr>gt_quotas := invalidate tid (gt_quotas s)\<rparr>"

definition new_id :: "'w admin_env \<Rightarrow> string \<Rightarrow> 'w \<Rightarrow> 'w \<times> string \<times> time" where
  \<comment> \<open>a new id and the instant it is stamped with\<close>
  "new_id env kind w = (let (w1, i) = ge_NewID (ad_ge env) kind w; (w2, t) = ge_now (ad_ge env) w1 in (w2, i, t))"

section \<open>Catalog\<close>

fun refresh_all :: "'w admin_env \<Rightarrow> string list \<Rightarrow> 'w \<Rightarrow> 'w Gateway \<Rightarrow> 'w \<times> 'w Gateway \<times> jval list" where
  "refresh_all env [] w s = (w, s, [])"
| "refresh_all env (tid # tids) w s =
     (case Refresh (ch_errText (ad_ch env)) (ge_now (ad_ge env)) (memory_reads (sv_Store s)) (ds_catalog (gt_dispatcher s)) w tid of
        (w1, cat, r) \<Rightarrow>
          let s1 = s\<lparr>gt_dispatcher := (gt_dispatcher s)\<lparr>ds_catalog := cat\<rparr>\<rparr>;
              entry = (case r of
                  Inl err \<Rightarrow> JObj [(''error'', JStr (ch_errText (ad_ch env) err)), (''ok'', JBool False), (''tenant'', JStr tid)]
                | Inr snap \<Rightarrow> JObj (omit (sn_Errors snap = []) (''errors'', JObj (map (\<lambda>(k, v). (k, JStr v)) (sn_Errors snap))) @
                    [(''models'', JInt (int (length (sn_Models snap)))), (''ok'', JBool (\<not> sn_Stale snap)),
                     (''stale'', JBool (sn_Stale snap)), (''tenant'', JStr tid)]));
              (w2, s2, rest) = refresh_all env tids w1 s1
          in (w2, s2, entry # rest))"

definition refresh_targets :: "APIKey \<Rightarrow> string \<Rightarrow> Memory \<Rightarrow> apiError + string list" where
  "refresh_targets key tenant m =
     (if k_Scope key = ScopeRoot
      then Inr (if tenant \<noteq> [] then [tenant] else map t_ID (ListTenants m))
      else
        let own = TrimPrefix (k_Scope key) ''tenant:'' in
        if tenant \<noteq> [] \<and> tenant \<noteq> own then Inl (ResourceNotFound ''tenant'' tenant) else Inr [own])"

definition refresh_named :: "'w admin_env \<Rightarrow> string \<Rightarrow> 'w gateway_handler" where
  "refresh_named env tenant0 w s c =
     (let tenant = TrimSpace tenant0 in
      case c_key c of
        None \<Rightarrow> refused (ApiErr InvalidAPIKey) w s c
      | Some key \<Rightarrow>
          (case refresh_targets key tenant (sv_Store s) of
             Inl e \<Rightarrow> refused (ApiErr e) w s c
           | Inr targets \<Rightarrow>
               (case (if tenant = [] then Inr () else map_sum id (\<lambda>_. ()) (GetTenant tenant (sv_Store s))) of
                  Inl err \<Rightarrow> store_refused env err ''tenant'' tenant w s c
                | Inr _ \<Rightarrow>
                    let (w1, s1, rows) = refresh_all env targets w s
                    in answered (answer_json (c_status c) (JObj [(''object'', JStr ''catalog_refresh''), (''refreshed'', JArr rows)]))
                         w1 s1 c)))"

definition refreshCatalog :: "'w admin_env \<Rightarrow> 'w gateway_handler" where
  "refreshCatalog env w s c =
     (if c_reqBody c = [] then refresh_named env [] w s c else parsed (ad_refresh env) (refresh_named env) w s c)"

section \<open>Tenants\<close>

fun seed_aliases :: "'w admin_env \<Rightarrow> string \<Rightarrow> Alias list \<Rightarrow> 'w \<Rightarrow> Memory \<Rightarrow> 'w \<times> Memory" where
  "seed_aliases env tid [] w m = (w, m)"
| "seed_aliases env tid (a # as) w m =
     (let (w1, aid, t) = new_id env ''als'' w
      in seed_aliases env tid as w1
           (case UpsertAlias t aid (a\<lparr>a_TenantID := tid\<rparr>) m of Inl err \<Rightarrow> m | Inr (m1, saved) \<Rightarrow> m1))"

definition seedAliases :: "'w admin_env \<Rightarrow> string \<Rightarrow> 'w \<Rightarrow> Memory \<Rightarrow> 'w \<times> Memory" where
  "seedAliases env tid w m = seed_aliases env tid SeededAliases w m"

definition createTenant :: "'w admin_env \<Rightarrow> 'w gateway_handler" where
  "createTenant env = rooted (parsed (ad_tenant env) (\<lambda>name w s c.
     if TrimSpace name = [] then bad_request ''A tenant name is required.'' ''name'' w s c
     else
       let (w1, tid, t) = new_id env ''ten'' w in
       case CreateTenant t tid name (sv_Store s) of
         Inl err \<Rightarrow> store_refused env err ''tenant'' name w1 s c
       | Inr (m, tenant) \<Rightarrow>
           let (w2, m2) = seedAliases env (t_ID tenant) w1 m
           in answered (answer_json 201 (JObj (Tenant_fields tenant))) w2 (set_store m2 s) c))"

definition listTenants :: "'w gateway_handler" where
  "listTenants = rooted (\<lambda>w s c. answered (answer_page (ListTenants (sv_Store s)) t_ID (\<lambda>t. JObj (Tenant_fields t))) w s c)"

definition getTenant :: "'w admin_env \<Rightarrow> 'w gateway_handler" where
  "getTenant env = scoped (\<lambda>tid w s c.
     case GetTenant tid (sv_Store s) of
       Inl err \<Rightarrow> store_refused env err ''tenant'' tid w s c
     | Inr t \<Rightarrow> answered (answer_json (c_status c) (JObj (Tenant_fields t))) w s c)"

definition emitCaptureChange :: "Config \<Rightarrow> Tenant \<Rightarrow> emission" where
  "emitCaptureChange cfg t =
     (let p = t_DebugCapture t in
      if dc_Enabled p
      then (t_ID t, DebugCaptureEnabled, [(''tenant'', FStr (t_ID t)), (''ttl_seconds'', FInt (whole_seconds (captureTTL cfg p))),
              (''sample_rate'', FFloat (captureSampleRate cfg p))])
      else (t_ID t, DebugCaptureDisabled, [(''tenant'', FStr (t_ID t))]))"

definition patch_refused :: "Config \<Rightarrow> TenantPatch \<Rightarrow> goerr option" where
  \<comment> \<open>the validation of \<open>updateTenant\<close>\<close>
  "patch_refused cfg p =
     (if tp_Name p = None \<and> tp_Status p = None \<and> tp_Limits p = None \<and> tp_Cache p = None \<and> tp_DebugCapture p = None \<and>
         tp_SystemInstruction p = None
      then Some (ApiErr (InvalidRequest
             (''A tenant update must change name, status, limits, cache, debug_capture or system_instruction.'', [])))
      else if (case tp_Status p of None \<Rightarrow> False | Some st \<Rightarrow> st \<notin> {''active'', ''suspended''})
      then Some (ApiErr (WithParam (InvalidRequest (''status must be \"active\" or \"suspended\".'', [])) ''status''))
      else case Option.bind (tp_Limits p) (validateTenantLimits cfg) of
             Some e \<Rightarrow> Some (ApiErr e)
           | None \<Rightarrow>
               (case Option.bind (tp_Cache p) (validateTenantCache (cfg_Cache cfg)) of
                  Some e \<Rightarrow> Some (ApiErr e)
                | None \<Rightarrow> map_option ApiErr (Option.bind (tp_DebugCapture p) (validateTenantDebugCapture cfg))))"

definition msg_json :: "msg \<Rightarrow> jval" where
  \<comment> \<open>the formatted message, as its format and arguments\<close>
  "msg_json m = JArr (JStr (fst m) # map farg_json (snd m))"

definition updateTenant :: "'w admin_env \<Rightarrow> 'w gateway_handler" where
  "updateTenant env = rooted (parsed (ad_patch env) (\<lambda>p w s c.
     case patch_refused (sv_Config s) p of
       Some err \<Rightarrow> refused err w s c
     | None \<Rightarrow>
         let tid = param c ''tenant'';
             was = (case GetTenant tid (sv_Store s) of Inr prev \<Rightarrow> dc_Enabled (t_DebugCapture prev) | Inl err \<Rightarrow> False)
         in case UpdateTenant tid p (sv_Store s) of
              Inl err \<Rightarrow> store_refused env err ''tenant'' tid w s c
            | Inr (m, tenant) \<Rightarrow>
                let s1 = set_store m s;
                    s2 = (if tp_DebugCapture p \<noteq> None \<and> was \<noteq> dc_Enabled (t_DebugCapture tenant)
                          then s1\<lparr>gt_emitted := gt_emitted s1 @ [emitCaptureChange (sv_Config s) tenant]\<rparr> else s1);
                    warnings = captureWarnings (sv_Config s) (t_DebugCapture tenant)
                in answered (answer_json (c_status c) (JObj (Tenant_fields tenant @
                     omit (warnings = []) (''warnings'', JArr (map msg_json warnings))))) w s2 c))"

definition deleteTenant :: "'w admin_env \<Rightarrow> 'w gateway_handler" where
  "deleteTenant env = rooted (\<lambda>w s c.
     let tid = param c ''tenant'' in
     if query c ''confirm'' \<noteq> tid
     then bad_request ''deleting a tenant requires ?confirm=<id> matching the tenant in the path.'' ''confirm'' w s c
     else case DeleteTenant tid (sv_Store s) of
            Inl err \<Rightarrow> store_refused env err ''tenant'' tid w s c
          | Inr m \<Rightarrow>
              let s1 = drop_quota tid (drop_catalog tid (set_store m s));
                  s2 = s1\<lparr>gt_cache := map_option (\<lambda>k. fst (Cache_Flush tid k)) (gt_cache s1),
                          sv_captures := fst (Capture_Flush tid (sv_captures s1))\<rparr>
              in answered no_content w s2 c)"


section \<open>Keys\<close>

definition mintedKey :: "APIKey \<Rightarrow> string \<Rightarrow> fctx \<Rightarrow> fctx" where
  "mintedKey key plaintext = answer_json 201 (JObj [(''key'', APIKey_json key), (''secret'', JStr plaintext),
     (''warning'', JStr ''This is the only time the secret is shown. Store it now; it cannot be retrieved again.'')])"

definition key_scope :: "string \<Rightarrow> keyReq \<Rightarrow> Plane \<Rightarrow> APIKey option \<Rightarrow> apiError + string" where
  \<comment> \<open>the scope a new key gets\<close>
  "key_scope tid req plane caller =
     (let scope = (if plane = PlaneAdmin then ''tenant:'' @ tid else []) in
      if kq_Scope req = ScopeRoot
      then (if plane \<noteq> PlaneAdmin
            then Inl (WithParam (InvalidRequest (''Only an admin-plane key can carry the \"root\" scope.'', [])) ''scope'')
            else if (case caller of Some k \<Rightarrow> k_Scope k \<noteq> ScopeRoot | None \<Rightarrow> True) then Inl InsufficientScope
            else Inr ScopeRoot)
      else if kq_Scope req \<noteq> [] \<and> kq_Scope req \<noteq> scope
      then Inl (WithParam (InvalidRequest
             (''scope must be \"root\" or omitted; a tenant key's scope is derived from its tenant.'', [])) ''scope'')
      else Inr scope)"

definition mint :: "'w admin_env \<Rightarrow> string \<Rightarrow> Plane \<Rightarrow> string \<Rightarrow> string \<Rightarrow> time option \<Rightarrow> 'w \<Rightarrow> Memory
    \<Rightarrow> 'w \<times> (goerr + Memory \<times> APIKey \<times> string)" where
  \<comment> \<open>\<open>s.Store.CreateAPIKey\<close>\<close>
  "mint env tid plane name scope expiresAt w m =
     (let (w1, kid, t) = new_id env ''key'' w; (w2, token) = ad_token env w1
      in (w2, CreateAPIKey (ge_sha256 (ad_ge env)) t kid token tid plane name scope expiresAt m))"

definition past :: "time option \<Rightarrow> time \<Rightarrow> bool" where
  "past expiresAt now \<longleftrightarrow> (case expiresAt of None \<Rightarrow> False | Some t \<Rightarrow> \<not> t > now)"

definition minted :: "'w admin_env \<Rightarrow> string \<Rightarrow> Plane \<Rightarrow> string \<Rightarrow> string \<Rightarrow> time option \<Rightarrow> (goerr \<Rightarrow> goerr) \<Rightarrow> 'w gateway_handler" where
  \<comment> \<open>what follows the checks of \<open>createKey\<close> and \<open>createAdminKey\<close>\<close>
  "minted env tid plane name scope expiresAt failed w s c =
     (let (w1, t) = ge_now (ad_ge env) w in
      if past expiresAt t then bad_request ''expires_at must be in the future.'' ''expires_at'' w1 s c
      else case mint env tid plane name scope expiresAt w1 (sv_Store s) of
             (w2, Inl err) \<Rightarrow> refused (failed err) w2 s c
           | (w2, Inr (m, key, plaintext)) \<Rightarrow> answered (mintedKey key plaintext) w2 (set_store m s) c)"

definition key_plane :: "keyReq \<Rightarrow> Plane" where
  "key_plane req = (if TrimSpace (kq_Plane req) = [] then PlaneData else TrimSpace (kq_Plane req))"

definition createKey :: "'w admin_env \<Rightarrow> 'w gateway_handler" where
  "createKey env = scoped (\<lambda>tid. parsed (ad_keyReq env) (\<lambda>req w s c.
     if key_plane req \<noteq> PlaneData \<and> key_plane req \<noteq> PlaneAdmin
     then bad_request ''plane must be \"data\" or \"admin\".'' ''plane'' w s c
     else case key_scope tid req (key_plane req) (c_key c) of
            Inl e \<Rightarrow> refused (ApiErr e) w s c
          | Inr scope \<Rightarrow>
              minted env tid (key_plane req) (kq_Name req) scope (kq_ExpiresAt req)
                (\<lambda>err. storeErr (ch_errText (ad_ch env)) err ''tenant'' tid) w s c))"

definition createAdminKey :: "'w admin_env \<Rightarrow> 'w gateway_handler" where
  "createAdminKey env = rooted (parsed (ad_adminKey env) (\<lambda>req w s c.
     let name = TrimSpace (fst req) in
     if name = [] then bad_request ''A key name is required.'' ''name'' w s c
     else minted env [] PlaneAdmin name ScopeRoot (snd req) (\<lambda>err. ApiErr (From err)) w s c))"

definition listAdminKeys :: "'w gateway_handler" where
  "listAdminKeys = rooted (\<lambda>w s c. answered (answer_page (ListAPIKeys [] (sv_Store s)) k_ID APIKey_json) w s c)"

definition revoke :: "'w admin_env \<Rightarrow> string \<Rightarrow> 'w gateway_handler" where
  "revoke env tid w s c =
     (let kid = param c ''id''; (w1, t) = ge_now (ad_ge env) w in
      case RevokeAPIKey t tid kid (sv_Store s) of
        Inl err \<Rightarrow> store_refused env err ''key'' kid w1 s c
      | Inr m \<Rightarrow> answered no_content w1 (set_store m s) c)"

definition revokeAdminKey :: "'w admin_env \<Rightarrow> 'w gateway_handler" where
  "revokeAdminKey env = rooted (revoke env [])"

definition listKeys :: "'w gateway_handler" where
  "listKeys = scoped (\<lambda>tid w s c. answered (answer_page (ListAPIKeys tid (sv_Store s)) k_ID APIKey_json) w s c)"

definition revokeKey :: "'w admin_env \<Rightarrow> 'w gateway_handler" where
  "revokeKey env = scoped (revoke env)"

section \<open>Providers\<close>

definition nonEmpty :: "string list \<Rightarrow> string list" where
  "nonEmpty xs = filter (\<lambda>v. v \<noteq> []) (map TrimSpace xs)"

definition absolute_http :: "'w admin_env \<Rightarrow> string \<Rightarrow> bool" where
  "absolute_http env raw =
     (case ad_parseURL env raw of
        None \<Rightarrow> False | Some (scheme, host) \<Rightarrow> host \<noteq> [] \<and> (scheme = ''http'' \<or> scheme = ''https''))"

definition validateBaseURL :: "'w admin_env \<Rightarrow> string \<Rightarrow> apiError option" where
  "validateBaseURL env raw0 =
     (let raw = TrimSpace raw0 in
      if raw = [] then Some (WithParam (InvalidRequest (''A provider base_url is required.'', [])) ''base_url'')
      else if \<not> absolute_http env raw
      then Some (WithParam (InvalidRequest (''base_url must be an absolute http or https URL.'', [])) ''base_url'')
      else None)"

definition strategy_or_default :: "string \<Rightarrow> string" where
  "strategy_or_default x = (if x = [] then KeyStrategyRoundRobin else x)"

definition invalid :: "string \<Rightarrow> string \<Rightarrow> goerr" where
  \<comment> \<open>\<open>apierr.InvalidRequest(text).WithParam(prm)\<close>\<close>
  "invalid text prm = ApiErr (WithParam (InvalidRequest (text, [])) prm)"

definition provider_of :: "'w admin_env \<Rightarrow> string \<Rightarrow> providerReq \<Rightarrow> goerr + Provider" where
  \<comment> \<open>the validation of \<open>createProvider\<close>: the provider it hands to the store\<close>
  "provider_of env tid req =
     (let name = TrimSpace (pq_Name req);
          kind0 = ToLower (TrimSpace (pq_Kind req));
          kind = (if kind0 = [] then KindOpenAI else kind0);
          base = (if TrimSpace (pq_BaseURL req) = []
                  then (case DefaultBaseURL kind of Some u \<Rightarrow> u | None \<Rightarrow> pq_BaseURL req) else pq_BaseURL req);
          keys = nonEmpty (pq_Keys req)
      in if name = [] then Inl (invalid ''A provider name is required.'' ''name'')
         else case validateBaseURL env base of
                Some e \<Rightarrow> Inl (ApiErr e)
              | None \<Rightarrow>
                  if \<not> ValidKeyStrategy (pq_KeyStrategy req)
                  then Inl (invalid ''key_strategy must be \"round_robin\" or \"failover\".'' ''key_strategy'')
                  else if keys = [] then Inl (invalid ''At least one provider API key is required.'' ''keys'')
                  else Inr \<lparr> p_ID = [], p_TenantID = tid, p_Name = name, p_Kind = kind,
                             p_BaseURL = TrimRightChar base (CHR ''/''),
                             p_Enabled = (case pq_Enabled req of Some b \<Rightarrow> b | None \<Rightarrow> True),
                             p_KeyStrategy = strategy_or_default (pq_KeyStrategy req), p_Keys = keys, p_KeyPrefixes = [],
                             p_CreatedAt = zero_time \<rparr>)"

definition createProvider :: "'w admin_env \<Rightarrow> 'w gateway_handler" where
  "createProvider env = scoped (\<lambda>tid. parsed (ad_provider env) (\<lambda>req w s c.
     case provider_of env tid req of
       Inl err \<Rightarrow> refused err w s c
     | Inr p \<Rightarrow>
         let (w1, pid, t) = new_id env ''prv'' w in
         (case CreateProvider t pid p (sv_Store s) of
            Inl err \<Rightarrow> store_refused env err ''provider'' (p_Name p) w1 s c
          | Inr (m, saved) \<Rightarrow>
              answered (answer_json 201 (Provider_json saved)) w1 (drop_catalog tid (set_store m s)) c)))"

definition listProviders :: "'w gateway_handler" where
  "listProviders = scoped (\<lambda>tid w s c. answered (answer_page (ListProviders tid (sv_Store s)) p_ID Provider_json) w s c)"

definition provider_patch :: "'w admin_env \<Rightarrow> ProviderPatch \<Rightarrow> goerr + ProviderPatch" where
  \<comment> \<open>the validation of \<open>updateProvider\<close>: the patch it hands to the store\<close>
  "provider_patch env req =
     (if pp_BaseURL req = None \<and> pp_Enabled req = None \<and> pp_Keys req = None \<and> pp_KeyStrategy req = None
      then Inl (ApiErr (InvalidRequest (''A provider update must change base_url, enabled, keys or key_strategy.'', [])))
      else if (case pp_KeyStrategy req of Some x \<Rightarrow> \<not> ValidKeyStrategy x | None \<Rightarrow> False)
      then Inl (ApiErr (WithParam (InvalidRequest (''key_strategy must be \"round_robin\" or \"failover\".'', [])) ''key_strategy''))
      else case Option.bind (pp_BaseURL req) (validateBaseURL env) of
             Some e \<Rightarrow> Inl (ApiErr e)
           | None \<Rightarrow>
               if (case pp_Keys req of Some ks \<Rightarrow> nonEmpty ks = [] | None \<Rightarrow> False)
               then Inl (ApiErr (WithParam (InvalidRequest (''At least one provider API key is required.'', [])) ''keys''))
               else Inr (req\<lparr>pp_KeyStrategy := map_option strategy_or_default (pp_KeyStrategy req),
                             pp_Keys := map_option nonEmpty (pp_Keys req)\<rparr>))"

definition updateProvider :: "'w admin_env \<Rightarrow> 'w gateway_handler" where
  "updateProvider env = scoped (\<lambda>tid. parsed (ad_providerPatch env) (\<lambda>req w s c.
     let pid = param c ''id'' in
     case provider_patch env req of
       Inl err \<Rightarrow> refused err w s c
     | Inr patch \<Rightarrow>
         (case UpdateProvider tid pid patch (sv_Store s) of
            Inl err \<Rightarrow> store_refused env err ''provider'' pid w s c
          | Inr (m, p) \<Rightarrow>
              answered (answer_json (c_status c) (Provider_json p)) w (drop_catalog tid (set_store m s)) c)))"

definition deleteProvider :: "'w admin_env \<Rightarrow> 'w gateway_handler" where
  "deleteProvider env = scoped (\<lambda>tid w s c.
     let pid = param c ''id'' in
     case DeleteProvider tid pid (sv_Store s) of
       Inl err \<Rightarrow> store_refused env err ''provider'' pid w s c
     | Inr m \<Rightarrow> answered no_content w (drop_catalog tid (set_store m s)) c)"

section \<open>Aliases and routes\<close>

definition alias_of :: "string \<Rightarrow> string \<Rightarrow> aliasReq \<Rightarrow> goerr + Alias" where
  "alias_of tid name req =
     (if aq_CostTier req \<notin> {[], ''cheapest'', ''balanced'', ''best''}
      then Inl (invalid ''cost_tier must be one of \"cheapest\", \"balanced\", \"best\".'' ''cost_tier'')
      else Inr \<lparr> a_ID = [], a_TenantID = tid, a_Name = name, a_Pin = TrimSpace (aq_Pin req),
                 a_Capabilities = aq_Capabilities req, a_MinContextWindow = aq_MinContextWindow req,
                 a_ProviderPreference = aq_ProviderPreference req, a_CostTier = aq_CostTier req, a_CreatedAt = zero_time \<rparr>)"

definition save_alias :: "'w admin_env \<Rightarrow> Alias \<Rightarrow> 'w gateway_handler" where
  \<comment> \<open>the collision check against the catalog, then the write\<close>
  "save_alias env a w s c =
     (case Catalog_Get (ch_errText (ad_ch env)) (ge_now (ad_ge env)) (memory_reads (sv_Store s)) (ds_catalog (gt_dispatcher s)) w (a_TenantID a) of
        (w1, cat, r) \<Rightarrow>
          let s1 = s\<lparr>gt_dispatcher := (gt_dispatcher s)\<lparr>ds_catalog := cat\<rparr>\<rparr> in
          if (case r of Inr snap \<Rightarrow> Lookup snap (a_Name a) \<noteq> None | Inl err \<Rightarrow> False)
          then refused (ApiErr (AliasCollides (a_Name a))) w1 s1 c
          else
            let (w2, aid, t) = new_id env ''als'' w1 in
            (case UpsertAlias t aid a (sv_Store s1) of
               Inl err \<Rightarrow> store_refused env err ''alias'' (a_Name a) w2 s1 c
             | Inr (m, saved) \<Rightarrow> answered (answer_json (c_status c) (Alias_json saved)) w2 (set_store m s1) c))"

definition upsertAlias :: "'w admin_env \<Rightarrow> 'w gateway_handler" where
  "upsertAlias env = scoped (\<lambda>tid w s c.
     let name = TrimSpace (param c ''name'') in
     if \<not> AliasNamePattern name then bad_request ''An alias name must match ^[a-z][a-z0-9_-]{1,63}$.'' ''name'' w s c
     else parsed (ad_alias env) (\<lambda>req.
       case alias_of tid name req of Inl err \<Rightarrow> refused err | Inr a \<Rightarrow> save_alias env a) w s c)"

definition listAliases :: "'w gateway_handler" where
  "listAliases = scoped (\<lambda>tid w s c. answered (answer_page (ListAliases tid (sv_Store s)) a_ID Alias_json) w s c)"

definition deleteAlias :: "'w admin_env \<Rightarrow> 'w gateway_handler" where
  "deleteAlias env = scoped (\<lambda>tid w s c.
     let name = param c ''name'' in
     case DeleteAlias tid name (sv_Store s) of
       Inl err \<Rightarrow> store_refused env err ''alias'' name w s c
     | Inr m \<Rightarrow> answered no_content w (set_store m s) c)"

definition route_of :: "Config \<Rightarrow> string \<Rightarrow> string \<times> string list \<Rightarrow> goerr + Route" where
  "route_of cfg tid req =
     (let mtch = TrimSpace (fst req); chain = nonEmpty (snd req) in
      if mtch = [] then Inl (invalid ''A route match is required.'' ''match'')
      else if chain = [] then Inl (invalid ''A fallback chain needs at least one entry.'' ''chain'')
      else if int (length chain) > ro_MaxFallbackDepth (cfg_Routing cfg)
      then Inl (invalid ''The fallback chain is longer than the configured max_fallback_depth.'' ''chain'')
      else case ValidateChain chain of
             Some err \<Rightarrow> Inl err
           | None \<Rightarrow> Inr \<lparr> r_ID = [], r_TenantID = tid, r_Match = mtch, r_Chain = chain, r_CreatedAt = zero_time \<rparr>)"

definition upsertRoute :: "'w admin_env \<Rightarrow> 'w gateway_handler" where
  "upsertRoute env = scoped (\<lambda>tid. parsed (ad_route env) (\<lambda>req w s c.
     case route_of (sv_Config s) tid req of
       Inl err \<Rightarrow> refused err w s c
     | Inr r \<Rightarrow>
         let (w1, rid, t) = new_id env ''rte'' w in
         (case UpsertRoute t rid r (sv_Store s) of
            Inl err \<Rightarrow> store_refused env err ''route'' (r_Match r) w1 s c
          | Inr (m, saved) \<Rightarrow> answered (answer_json (c_status c) (Route_json saved)) w1 (set_store m s) c)))"

definition listRoutes :: "'w gateway_handler" where
  "listRoutes = scoped (\<lambda>tid w s c. answered (answer_page (ListRoutes tid (sv_Store s)) r_ID Route_json) w s c)"

definition deleteRoute :: "'w admin_env \<Rightarrow> 'w gateway_handler" where
  "deleteRoute env = scoped (\<lambda>tid w s c.
     let rid = param c ''id'' in
     case DeleteRoute tid rid (sv_Store s) of
       Inl err \<Rightarrow> store_refused env err ''route'' rid w s c
     | Inr m \<Rightarrow> answered no_content w (set_store m s) c)"


section \<open>Quotas\<close>

definition quotaTarget :: "Memory \<Rightarrow> fctx \<Rightarrow> apiError + string \<times> string" where
  "quotaTarget m c =
     (case tenantScope c of
        Inl e \<Rightarrow> Inl e
      | Inr tid \<Rightarrow>
          let kid = TrimSpace (param c ''id'') in
          if kid = [] then Inr (tid, [])
          else if \<exists>k \<in> set (ListAPIKeys tid m). k_ID k = kid then Inr (tid, kid)
          else Inl (ResourceNotFound ''key'' kid))"

definition targeted :: "(string \<Rightarrow> string \<Rightarrow> 'w gateway_handler) \<Rightarrow> 'w gateway_handler" where
  "targeted h w s c =
     (case quotaTarget (sv_Store s) c of Inl e \<Rightarrow> refused (ApiErr e) w s c | Inr (tid, kid) \<Rightarrow> h tid kid w s c)"

definition normaliseQuotaLimit :: "Config \<Rightarrow> QuotaLimit option \<Rightarrow> string \<Rightarrow> apiError + QuotaLimit option" where
  "normaliseQuotaLimit cfg limit0 prm =
     (case limit0 of
        None \<Rightarrow> Inr None
      | Some limit \<Rightarrow>
          if ql_Cap limit < 0 then Inl (WithParam (InvalidRequest (''A quota cap must not be negative.'', [])) (prm @ ''.cap''))
          else
            let pct = (if ql_SoftThresholdPct limit = 0 then qc_DefaultSoftThresholdPct (cfg_Quotas cfg) else ql_SoftThresholdPct limit)
            in if pct < 1 \<or> pct > 100
               then Inl (WithParam (InvalidRequest (''soft_threshold_pct must be between 1 and 100.'', [])) (prm @ ''.soft_threshold_pct''))
               else Inr (Some (limit\<lparr>ql_SoftThresholdPct := pct\<rparr>)))"

fun normalise_slots :: "Config \<Rightarrow> (string \<times> QuotaLimit option) list \<Rightarrow> apiError + QuotaLimit option list" where
  "normalise_slots cfg [] = Inr []"
| "normalise_slots cfg ((prm, l) # rest) =
     (case normaliseQuotaLimit cfg l prm of
        Inl e \<Rightarrow> Inl e
      | Inr l1 \<Rightarrow> (case normalise_slots cfg rest of Inl e \<Rightarrow> Inl e | Inr ls \<Rightarrow> Inr (l1 # ls)))"

definition normalise_window :: "Config \<Rightarrow> string \<Rightarrow> QuotaWindow \<Rightarrow> apiError + QuotaWindow" where
  "normalise_window cfg name qw =
     (case normalise_slots cfg [(name @ ''.tokens'', qw_Tokens qw), (name @ ''.cost'', qw_Cost qw), (name @ ''.requests'', qw_Requests qw)] of
        Inr [a, b, d] \<Rightarrow> Inr \<lparr> qw_Tokens = a, qw_Cost = b, qw_Requests = d \<rparr>
      | Inr _ \<Rightarrow> Inr qw
      | Inl e \<Rightarrow> Inl e)"

definition quota_of :: "Config \<Rightarrow> string \<Rightarrow> string \<Rightarrow> QuotaWindow \<times> QuotaWindow \<Rightarrow> goerr + Quota" where
  "quota_of cfg tid kid req =
     (case normalise_window cfg ''day'' (fst req) of
        Inl e \<Rightarrow> Inl (ApiErr e)
      | Inr day \<Rightarrow>
          (case normalise_window cfg ''month'' (snd req) of
             Inl e \<Rightarrow> Inl (ApiErr e)
           | Inr month \<Rightarrow>
               let q = \<lparr> q_TenantID = tid, q_KeyID = kid, q_Day = day, q_Month = month, q_UpdatedAt = zero_time \<rparr> in
               if Quota_Empty q
               then Inl (ApiErr (InvalidRequest
                      (''A quota must configure at least one cap: day or month, in tokens, cost or requests.'', [])))
               else Inr q))"

definition setQuota :: "'w admin_env \<Rightarrow> 'w gateway_handler" where
  "setQuota env = targeted (\<lambda>tid kid. parsed (ad_quota env) (\<lambda>req w s c.
     case quota_of (sv_Config s) tid kid req of
       Inl err \<Rightarrow> refused err w s c
     | Inr q \<Rightarrow>
         let (w1, t) = ge_now (ad_ge env) w in
         (case SetQuota t q (sv_Store s) of
            Inl err \<Rightarrow> store_refused env err ''tenant'' tid w1 s c
          | Inr (m, saved) \<Rightarrow>
              answered (answer_json (c_status c) (Quota_json saved)) w1 (drop_quota tid (set_store m s)) c)))"

definition getQuota :: "'w admin_env \<Rightarrow> 'w gateway_handler" where
  "getQuota env = targeted (\<lambda>tid kid w s c.
     case GetQuota tid kid (sv_Store s) of
       Inl err \<Rightarrow> store_refused env err ''quota'' tid w s c
     | Inr q \<Rightarrow> answered (answer_json (c_status c) (Quota_json q)) w s c)"

definition deleteQuota :: "'w admin_env \<Rightarrow> 'w gateway_handler" where
  "deleteQuota env = targeted (\<lambda>tid kid w s c.
     case DeleteQuota tid kid (sv_Store s) of
       Inl err \<Rightarrow> store_refused env err ''quota'' tid w s c
     | Inr m \<Rightarrow> answered no_content w (drop_quota tid (set_store m s)) c)"

section \<open>Cache, captures, webhooks, events and audit\<close>

definition flushTenantCache :: "'w admin_env \<Rightarrow> 'w gateway_handler" where
  "flushTenantCache env = scoped (\<lambda>tid w s c.
     case GetTenant tid (sv_Store s) of
       Inl err \<Rightarrow> store_refused env err ''tenant'' tid w s c
     | Inr t \<Rightarrow>
         let (k1, n) = (case gt_cache s of None \<Rightarrow> (None, 0) | Some k \<Rightarrow> (case Cache_Flush tid k of (k1, n) \<Rightarrow> (Some k1, n)))
         in answered (answer_json (c_status c) (JObj [(''flushed'', JInt (int n))])) w (s\<lparr>gt_cache := k1\<rparr>) c)"



definition listCaptures :: "'w admin_env \<Rightarrow> 'w gateway_handler" where
  "listCaptures env = scoped (\<lambda>tid w s c.
     case GetTenant tid (sv_Store s) of
       Inl err \<Rightarrow> store_refused env err ''tenant'' tid w s c
     | Inr t \<Rightarrow>
         let (w1, now) = ge_now (ad_ge env) w
         in answered (answer_page (Capture_List tid now (sv_captures s)) cp_ID CaptureEntry_json) w1 s c)"

definition knownEvent :: "string \<Rightarrow> bool" where
  "knownEvent name \<longleftrightarrow> name \<in> set event_Registry"

definition validateWebhookURL :: "'w admin_env \<Rightarrow> string \<Rightarrow> apiError option" where
  "validateWebhookURL env raw0 =
     (let raw = TrimSpace raw0 in
      if raw = [] then Some (WithParam (InvalidRequest (''A webhook url is required.'', [])) ''url'')
      else if \<not> absolute_http env raw
      then Some (WithParam (InvalidRequest (''url must be an absolute http or https URL.'', [])) ''url'')
      else None)"

definition webhook_of :: "'w admin_env \<Rightarrow> string \<Rightarrow> webhookReq \<Rightarrow> goerr + Webhook" where
  "webhook_of env tid req =
     (case validateWebhookURL env (wq_URL req) of
        Some e \<Rightarrow> Inl (ApiErr e)
      | None \<Rightarrow>
          let evs = nonEmpty (wq_Events req) in
          if length (wq_Secret req) < 16
          then Inl (invalid ''A webhook secret of at least 16 characters is required to sign deliveries.'' ''secret'')
          else if evs = [] then Inl (invalid ''Subscribe to at least one event type.'' ''events'')
          else case find (\<lambda>e. \<not> knownEvent e) evs of
                 Some e \<Rightarrow> Inl (invalid (''Unknown event type '' @ e @ ''.'') ''events'')
               | None \<Rightarrow> Inr \<lparr> w_ID = [], w_TenantID = tid, w_URL = wq_URL req, w_Secret = wq_Secret req, w_Events = evs,
                                w_Enabled = (case wq_Enabled req of Some b \<Rightarrow> b | None \<Rightarrow> True), w_CreatedAt = zero_time \<rparr>)"

definition createWebhook :: "'w admin_env \<Rightarrow> 'w gateway_handler" where
  "createWebhook env = scoped (\<lambda>tid. parsed (ad_webhook env) (\<lambda>req w s c.
     case webhook_of env tid req of
       Inl err \<Rightarrow> refused err w s c
     | Inr h \<Rightarrow>
         let (w1, wid, t) = new_id env ''whk'' w in
         (case CreateWebhook t wid h (sv_Store s) of
            Inl err \<Rightarrow> store_refused env err ''tenant'' tid w1 s c
          | Inr (m, saved) \<Rightarrow> answered (answer_json 201 (Webhook_json saved)) w1 (set_store m s) c)))"

definition listWebhooks :: "'w gateway_handler" where
  "listWebhooks = scoped (\<lambda>tid w s c. answered (answer_page (ListWebhooks tid (sv_Store s)) w_ID Webhook_json) w s c)"

definition deleteWebhook :: "'w admin_env \<Rightarrow> 'w gateway_handler" where
  "deleteWebhook env = scoped (\<lambda>tid w s c.
     let wid = param c ''id'' in
     case DeleteWebhook tid wid (sv_Store s) of
       Inl err \<Rightarrow> store_refused env err ''webhook'' wid w s c
     | Inr m \<Rightarrow> answered no_content w (set_store m s) c)"

definition listEvents :: "'w gateway_handler" where
  "listEvents = scoped (\<lambda>tid w s c. answered (answer_page (ListEvents tid (sv_Store s)) ev_ID Event_json) w s c)"

definition listAudit :: "'w gateway_handler" where
  "listAudit = rooted (\<lambda>w s c. answered (answer_page (ListAudit (sv_Store s)) au_ID AuditEntry_json) w s c)"


section \<open>The operator's view of usage and of the deployment\<close>

definition adminMeta :: "'w data_env \<Rightarrow> 'w gateway_handler" where
  "adminMeta dv w s c = answered (answer_json (c_status c) (JObj (meta_fields dv s c ''admin_meta'' @
     [(''scope'', JStr (case c_key c of None \<Rightarrow> [] | Some k \<Rightarrow> k_Scope k)), (''events'', json_strings event_Registry)]))) w s c"

definition margin :: "rat \<Rightarrow> rat \<Rightarrow> rat" where
  \<comment> \<open>formatted with eight decimals and parsed back, which cannot fail\<close>
  "margin charge cost = of_int (round_half_even ((charge - cost) * 10 ^ 8)) / 10 ^ 8"

definition adminUsage :: "'w admin_env \<Rightarrow> 'w gateway_handler" where
  "adminUsage env = scoped (\<lambda>tid w s c.
     let (w1, now) = ge_now (ad_ge env) w in
     case usageWindow c now of
       Inl e \<Rightarrow> refused (ApiErr e) w s c
     | Inr (window, since, until) \<Rightarrow>
         (case ur_Usage (ch_usageStore (ad_ch env) w1 (sv_Store s)) tid since until of
            Inl err \<Rightarrow> refused (ApiErr (From err)) w1 s c
          | Inr totals \<Rightarrow>
              answered (answer_json (c_status c) (JObj (usage_fields window since until totals (Some (ut_CostUSD totals)) [] None @
                [(''margin_usd'', JNum (margin (ut_ChargeUSD totals) (ut_CostUSD totals)))]))) w1 s c))"

definition admin_breakdown :: "'w admin_env \<Rightarrow> string \<Rightarrow> string \<Rightarrow> time \<Rightarrow> time \<Rightarrow> 'w gateway_handler" where
  \<comment> \<open>\<open>adminUsageBreakdown\<close> once the window is known\<close>
  "admin_breakdown env tid window since until w s c =
     (let groupBy = TrimSpace (query_or c ''group_by'' ''model'') in
      if groupBy \<notin> {''model'', ''provider'', ''key''}
      then bad_request ''group_by must be one of \"model\", \"provider\", \"key\".'' ''group_by'' w s c
      else case ur_UsageBreakdown (ch_usageStore (ad_ch env) w (sv_Store s)) tid since until groupBy of
             Inl err \<Rightarrow> refused (ApiErr (From err)) w s c
           | Inr buckets \<Rightarrow>
               answered (answer_json (c_status c) (breakdown_json window groupBy since until
                 (map (\<lambda>b. bucket_json b (Some (ut_CostUSD (ub_Totals b)))) buckets) False)) w s c)"

definition adminUsageBreakdown :: "'w admin_env \<Rightarrow> 'w gateway_handler" where
  "adminUsageBreakdown env = scoped (\<lambda>tid w s c.
     let (w1, now) = ge_now (ad_ge env) w in
     case usageWindow c now of
       Inl e \<Rightarrow> refused (ApiErr e) w s c
     | Inr (window, since, until) \<Rightarrow> admin_breakdown env tid window since until w1 s c)"

section \<open>Routes\<close>

definition root_routes :: "'w admin_env \<Rightarrow> 'w data_env \<Rightarrow> (string \<times> string \<times> 'w gateway_handler) list" where
  \<comment> \<open>the routes that name no tenant, and those on the tenants themselves\<close>
  "root_routes env dv =
     [(''GET'', ''/meta'', adminMeta dv), (''POST'', ''/catalog/refresh'', refreshCatalog env), (''GET'', ''/audit'', listAudit),
      (''POST'', ''/admin-keys'', createAdminKey env), (''GET'', ''/admin-keys'', listAdminKeys),
      (''DELETE'', ''/admin-keys/:id'', revokeAdminKey env),
      (''POST'', ''/tenants'', createTenant env), (''GET'', ''/tenants'', listTenants),
      (''PATCH'', ''/tenants/:tenant'', updateTenant env), (''DELETE'', ''/tenants/:tenant'', deleteTenant env)]"

definition tenant_routes :: "'w admin_env \<Rightarrow> (string \<times> string \<times> 'w gateway_handler) list" where
  \<comment> \<open>the routes that act inside one tenant\<close>
  "tenant_routes env =
     [(''GET'', ''/tenants/:tenant'', getTenant env),
      (''POST'', ''/tenants/:tenant/keys'', createKey env), (''GET'', ''/tenants/:tenant/keys'', listKeys),
      (''DELETE'', ''/tenants/:tenant/keys/:id'', revokeKey env),
      (''POST'', ''/tenants/:tenant/providers'', createProvider env), (''GET'', ''/tenants/:tenant/providers'', listProviders),
      (''PATCH'', ''/tenants/:tenant/providers/:id'', updateProvider env),
      (''DELETE'', ''/tenants/:tenant/providers/:id'', deleteProvider env),
      (''PUT'', ''/tenants/:tenant/aliases/:name'', upsertAlias env), (''GET'', ''/tenants/:tenant/aliases'', listAliases),
      (''DELETE'', ''/tenants/:tenant/aliases/:name'', deleteAlias env),
      (''PUT'', ''/tenants/:tenant/routing-rules'', upsertRoute env), (''GET'', ''/tenants/:tenant/routing-rules'', listRoutes),
      (''DELETE'', ''/tenants/:tenant/routing-rules/:id'', deleteRoute env),
      (''PUT'', ''/tenants/:tenant/quota'', setQuota env), (''GET'', ''/tenants/:tenant/quota'', getQuota env),
      (''DELETE'', ''/tenants/:tenant/quota'', deleteQuota env),
      (''PUT'', ''/tenants/:tenant/keys/:id/quota'', setQuota env), (''GET'', ''/tenants/:tenant/keys/:id/quota'', getQuota env),
      (''DELETE'', ''/tenants/:tenant/keys/:id/quota'', deleteQuota env),
      (''POST'', ''/tenants/:tenant/cache/flush'', flushTenantCache env), (''GET'', ''/tenants/:tenant/captures'', listCaptures env),
      (''POST'', ''/tenants/:tenant/webhooks'', createWebhook env), (''GET'', ''/tenants/:tenant/webhooks'', listWebhooks),
      (''DELETE'', ''/tenants/:tenant/webhooks/:id'', deleteWebhook env), (''GET'', ''/tenants/:tenant/events'', listEvents),
      (''GET'', ''/tenants/:tenant/usage'', adminUsage env), (''GET'', ''/tenants/:tenant/usage/breakdown'', adminUsageBreakdown env)]"

definition adminRoutes :: "'w admin_env \<Rightarrow> 'w data_env \<Rightarrow> (string \<times> string \<times> 'w gateway_handler) list" where
  \<comment> \<open>method, pattern and handler; no two patterns match the same request, so the order does not matter\<close>
  "adminRoutes env dv = root_routes env dv @ tenant_routes env"

end
