(* ===== verification/Store_Theorems.thy ===== *)
theory Store_Theorems
  imports Store_Invariant
begin

text \<open>
  What the in-memory store promises its callers: the invariant over all reachable stores, the life of
  a credential (mint, resolve, revoke), tenant deletion and the isolation of tenants from each other,
  the bounded newest-first logs, and the agreement of the usage breakdown with the usage totals.
\<close>

section \<open>The invariant\<close>

text \<open>C5. Every store that any sequence of successful writes can produce from an empty one is well
  formed: ids are unique and agree with the map keys, no two tenants have names equal under case
  folding, the id index and the hash index of the keys point at the same heap cells, every key,
  provider, alias, route and webhook belongs to an existing tenant, provider names are unique per
  tenant under case folding, alias names and route matches are unique, provider key prefixes are the
  masked keys, and the event, usage and audit logs are within their bounds.\<close>

theorem store_invariant:
  assumes "store_reach sha256hex m"
  shows "wf_memory m"
  using assms by (rule wf_store_reach)

definition example_tenant_store :: Memory where
  "example_tenant_store = (NewMemory True)\<lparr>m_tenants := [(''t1'', new_tenant ''t1'' ''acme'' 5)]\<rparr>"

definition example_key :: APIKey where
  "example_key = \<lparr> k_ID = ''k1'', k_TenantID = ''t1'', k_Plane = PlaneData, k_Name = ''ci'',
     k_Prefix = ''cg-dev-abcdefgh'', k_Hash = rev ''cg-dev-abcdefghijkl'', k_Scope = ''tenant'',
     k_CreatedAt = 6, k_ExpiresAt = None, k_RevokedAt = None \<rparr>"

definition example_store :: Memory where
  "example_store = example_tenant_store\<lparr>m_keyheap := [example_key], m_keys := [(''k1'', 0)],
     m_keysByHash := [(rev ''cg-dev-abcdefghijkl'', 0)]\<rparr>"

lemma example_tenant: "CreateTenant 5 ''t1'' '' acme '' (NewMemory True) =
    Inr (example_tenant_store, new_tenant ''t1'' ''acme'' 5)"
  by code_simp

lemma example_mint: "CreateAPIKey rev 6 ''k1'' ''abcdefghijkl'' ''t1'' PlaneData ''ci'' ''tenant'' None
    example_tenant_store = Inr (example_store, example_key, ''cg-dev-abcdefghijkl'')"
  by code_simp

lemma example_fresh: "map_of (m_keys example_tenant_store) ''k1'' = None"
    "map_of (m_keysByHash example_tenant_store) (k_Hash example_key) = None"
  by code_simp+

lemma example_reach: "store_reach rev example_tenant_store" "store_reach rev example_store"
proof -
  have "store_step rev (NewMemory True) example_tenant_store"
    by (rule step_CreateTenant [OF _ _ example_tenant]) (simp_all add: NewMemory_def)
  then show r: "store_reach rev example_tenant_store" by (intro reach_store_step [OF reach_NewMemory])
  have "store_step rev example_tenant_store example_store"
    by (rule step_CreateAPIKey [OF example_fresh example_mint])
  then show "store_reach rev example_store" by (rule reach_store_step [OF r])
qed

lemmas example_wf = wf_store_reach [OF example_reach(1)] wf_store_reach [OF example_reach(2)]

theorem store_invariant_witness: "wf_memory example_store \<and> m_keys example_store = [(''k1'', 0)]"
  using store_invariant [OF example_reach(2)] by (simp add: example_store_def)

section \<open>The life of a credential\<close>

text \<open>C29. Minting and resolving round-trip: the plaintext returned by a successful \<open>CreateAPIKey\<close>
  resolves, at every instant before its expiry, to the key that was created, together with its tenant
  (none for a root key), and no other credential resolves differently than before.\<close>

theorem mint_resolve:
  assumes "wf_memory m" "map_of (m_keys m) kid = None" "map_of (m_keysByHash m) (k_Hash k) = None"
    and c: "CreateAPIKey h now kid token tid plane name scope ex m = Inr (m', k, plaintext)"
    and "\<forall>e. ex = Some e \<longrightarrow> now' < e"
  shows "ResolveKey h now' plaintext m' = Inr (k, if tid = [] then None else map_of (m_tenants m) tid) \<and>
    (\<forall>other t. h other \<noteq> h plaintext \<longrightarrow> ResolveKey h t other m' = ResolveKey h t other m)"
proof -
  note a = CreateAPIKey_Inr [OF c]
  have wk: "wf_keys m" using assms(1) by (simp add: wf_memory_def)
  have act: "Active k now'" using a(5,6) assms(5) by (auto simp: Active_def split: option.splits)
  have "ResolveKey h t other m' = ResolveKey h t other m" if "h other \<noteq> h plaintext" for other t
    using that a(1,4) wf_keysD(5) [OF wk, of "h other"]
    by (auto simp: ResolveKey_def Let_def nth_append split: option.splits)
  then show ?thesis
    using act a(1,3,4,9) by (auto simp: ResolveKey_def nth_append)
qed

theorem mint_resolve_witness:
  "ResolveKey rev 100 ''cg-dev-abcdefghijkl'' example_store =
     Inr (example_key, Some (new_tenant ''t1'' ''acme'' 5))"
  using mint_resolve [OF example_wf(1) example_fresh example_mint, of 100]
  by (simp add: example_tenant_store_def)

lemma revoked_heap:
  assumes "wf_memory m" "RevokeAPIKey now tid kid m = Inr m'"
  obtains c k' where "map_of (m_keys m) kid = Some c" "k_TenantID (m_keyheap m ! c) = tid"
    "c < length (m_keyheap m)" "k_ID (m_keyheap m ! c) = kid" "m' = m\<lparr>m_keyheap := (m_keyheap m)[c := k']\<rparr>"
    "k_RevokedAt k' \<noteq> None" "k_TenantID k' = tid" "k_ID k' = kid"
    "\<And>g d. map_of (m_keysByHash m) g = Some d \<Longrightarrow> k_ID (m_keyheap m ! d) = kid \<Longrightarrow> d = c"
proof -
  have wk: "wf_keys m" using assms(1) by (simp add: wf_memory_def)
  from assms(2) obtain c where c: "map_of (m_keys m) kid = Some c" and t: "k_TenantID (m_keyheap m ! c) = tid"
    by (auto simp: RevokeAPIKey_def Let_def split: option.splits if_splits)
  have len: "c < length (m_keyheap m)" and idc: "k_ID (m_keyheap m ! c) = kid"
    using wf_keysD(3) [OF wk c] by auto
  have ref: "d = c" if "map_of (m_keysByHash m) g = Some d" "k_ID (m_keyheap m ! d) = kid" for g d
    using wf_keysD(5) [OF wk that(1)] that(2) c by simp
  define k' where "k' = (if k_RevokedAt (m_keyheap m ! c) = None
     then (m_keyheap m ! c)\<lparr>k_RevokedAt := Some now\<rparr> else m_keyheap m ! c)"
  have "m' = m\<lparr>m_keyheap := (m_keyheap m)[c := k']\<rparr>" "k_RevokedAt k' \<noteq> None" "k_TenantID k' = tid" "k_ID k' = kid"
    using assms(2) c t idc by (auto simp: RevokeAPIKey_def k'_def Let_def)
  with c t len idc ref show thesis using that by blast
qed

lemma revoked_unresolved:
  assumes "wf_memory m" "RevokeAPIKey now tid kid m = Inr m'" "ResolveKey h t p m = Inr (k, ten)" "k_ID k = kid"
  shows "ResolveKey h t' p m' = Inl ErrNotFound"
proof -
  obtain c k' where c: "c < length (m_keyheap m)" "m' = m\<lparr>m_keyheap := (m_keyheap m)[c := k']\<rparr>" "k_RevokedAt k' \<noteq> None"
    and ref: "\<And>g d. map_of (m_keysByHash m) g = Some d \<Longrightarrow> k_ID (m_keyheap m ! d) = kid \<Longrightarrow> d = c"
    by (rule revoked_heap [OF assms(1,2)]) blast
  from assms(3) obtain d where d: "map_of (m_keysByHash m) (h p) = Some d" "k = m_keyheap m ! d"
    by (auto simp: ResolveKey_def Let_def split: option.splits if_splits)
  then have "d = c" using ref assms(4) by blast
  then show ?thesis using c d by (simp add: ResolveKey_def Active_def)
qed

text \<open>Revocation is immediate, total and idempotent: after \<open>RevokeAPIKey\<close> succeeds no plaintext at
  any time resolves to the revoked key although resolution goes through the other index, every other
  resolvable key still resolves to the same record and tenant, and revoking again changes nothing,
  so the first revocation time is kept.\<close>

theorem revoke_immediate:
  assumes "wf_memory m" and r: "RevokeAPIKey now tid kid m = Inr m'"
  shows "(\<forall>p t k ten. ResolveKey h t p m' = Inr (k, ten) \<longrightarrow> k_ID k \<noteq> kid) \<and>
    (\<forall>p t k ten. ResolveKey h t p m = Inr (k, ten) \<and> k_ID k \<noteq> kid \<longrightarrow> ResolveKey h t p m' = Inr (k, ten)) \<and>
    RevokeAPIKey later tid kid m' = Inr m'"
proof -
  obtain c k' where c: "map_of (m_keys m) kid = Some c" "k_TenantID (m_keyheap m ! c) = tid"
    and len: "c < length (m_keyheap m)" and idc: "k_ID (m_keyheap m ! c) = kid"
    and m': "m' = m\<lparr>m_keyheap := (m_keyheap m)[c := k']\<rparr>"
    and k': "k_RevokedAt k' \<noteq> None" "k_TenantID k' = tid" "k_ID k' = kid"
    and ref: "\<And>g d. map_of (m_keysByHash m) g = Some d \<Longrightarrow> k_ID (m_keyheap m ! d) = kid \<Longrightarrow> d = c"
    by (rule revoked_heap [OF assms(1) r]) blast
  have dead: "k_ID k \<noteq> kid" if rk: "ResolveKey h t p m' = Inr (k, ten)" for p t k ten
  proof -
    from rk obtain d where d: "map_of (m_keysByHash m) (h p) = Some d" "k = m_keyheap m' ! d" "Active k t"
      by (auto simp: ResolveKey_def m' Let_def split: option.splits if_splits)
    then have "d \<noteq> c" using len k'(1) by (auto simp: m' Active_def)
    then show ?thesis using d(1,2) ref [of "h p" d] by (auto simp: m')
  qed
  have live: "ResolveKey h t p m' = Inr (k, ten)"
    if rk: "ResolveKey h t p m = Inr (k, ten)" "k_ID k \<noteq> kid" for p t k ten
  proof -
    from rk obtain d where d: "map_of (m_keysByHash m) (h p) = Some d" "k = m_keyheap m ! d"
      by (auto simp: ResolveKey_def Let_def split: option.splits if_splits)
    then have "d \<noteq> c" using rk(2) idc by auto
    then have "m_keyheap m' ! d = m_keyheap m ! d" by (simp add: m')
    then show ?thesis using rk(1) d by (simp add: ResolveKey_def Let_def m' split: if_splits)
  qed
  have "RevokeAPIKey later tid kid m' = Inr m'"
    using c len k' by (auto simp: RevokeAPIKey_def m')
  with dead live show ?thesis by blast
qed

theorem revoke_immediate_witness:
  "\<exists>m'. RevokeAPIKey 9 ''t1'' ''k1'' example_store = Inr m' \<and>
     ResolveKey rev 100 ''cg-dev-abcdefghijkl'' m' = Inl ErrNotFound \<and> RevokeAPIKey 10 ''t1'' ''k1'' m' = Inr m'"
proof -
  have r: "RevokeAPIKey 9 ''t1'' ''k1'' example_store =
      Inr (example_store\<lparr>m_keyheap := [example_key\<lparr>k_RevokedAt := Some 9\<rparr>]\<rparr>)" by code_simp
  moreover have "ResolveKey rev 100 ''cg-dev-abcdefghijkl''
      (example_store\<lparr>m_keyheap := [example_key\<lparr>k_RevokedAt := Some 9\<rparr>]\<rparr>) = Inl ErrNotFound" by code_simp
  ultimately show ?thesis using revoke_immediate [OF example_wf(2) r] by blast
qed

section \<open>Tenant deletion\<close>



text \<open>Deleting a tenant does not delete its quotas: \<open>DeleteTenant\<close> deletes the map key \<open>id\<close>, but quotas
  are filed under \<open>id\<close> followed by a zero byte and the key id, so every quota of the tenant is still
  returned by \<open>GetQuota\<close> afterwards, and so is its event log, contrary to the comment that
  everything scoped to the tenant is deleted.\<close>

theorem quotas_survive_deletion:
  assumes "DeleteTenant tid m = Inr m'"
  shows "GetQuota tid kid m' = GetQuota tid kid m \<and> ListEvents tid m' = ListEvents tid m"
proof -
  have "quotaKey tid kid \<noteq> tid" by (simp add: quotaKey_def)
  then show ?thesis using DeleteTenant_fields(10,12) [OF assms] by (simp add: GetQuota_def ListEvents_def)
qed

definition no_window :: QuotaWindow where
  "no_window = \<lparr> qw_Tokens = None, qw_Cost = None, qw_Requests = None \<rparr>"

definition example_quota :: Quota where
  "example_quota = \<lparr> q_TenantID = ''t1'', q_KeyID = [], q_Day = no_window, q_Month = no_window,
     q_UpdatedAt = 7 \<rparr>"

theorem quotas_survive_deletion_witness:
  "\<exists>m m'. SetQuota 7 example_quota example_store = Inr (m, example_quota) \<and> DeleteTenant ''t1'' m = Inr m' \<and>
     GetQuota ''t1'' [] m' = Inr example_quota"
proof -
  let ?m = "example_store\<lparr>m_quotas := [(''t1'' @ [CHR 0x00], example_quota)]\<rparr>"
  let ?m' = "NewMemory True\<lparr>m_keyheap := [example_key], m_quotas := [(''t1'' @ [CHR 0x00], example_quota)]\<rparr>"
  have s: "SetQuota 7 example_quota example_store = Inr (?m, example_quota)" by code_simp
  have d: "DeleteTenant ''t1'' ?m = Inr ?m'" by code_simp
  have g: "GetQuota ''t1'' [] ?m = Inr example_quota" by code_simp
  show ?thesis using s d g quotas_survive_deletion [OF d, of "[]"] by auto
qed

section \<open>Listing and logs\<close>

text \<open>The event log of a tenant is bounded and newest first: after any sequence of recorded events,
  of any tenants, \<open>ListEvents\<close> is the first \<open>MaxTenantEvents\<close> entries of the tenant's own new events in
  reverse order followed by what it listed before, so only the oldest events are dropped and no
  tenant's events can push out another's.\<close>

theorem events_newest_first:
  assumes "wf_memory m"
  shows "ListEvents tid (fold RecordEvent es m) =
    take MaxTenantEvents (rev (filter (\<lambda>e. ev_TenantID e = tid) es) @ ListEvents tid m)"
proof -
  have "length (at_nil (m_events m) tid) \<le> MaxTenantEvents"
    using assms by (simp add: wf_memory_def wf_logs_def)
  from ev.newest_first [OF this, of es] show ?thesis by (simp add: ListEvents_def)
qed

theorem events_newest_first_witness:
  "ListEvents ''t1'' (fold RecordEvent [] example_store) = []"
  using events_newest_first [OF example_wf(2), of "''t1''" "[]"]
  by (simp add: ListEvents_def at_nil_def example_store_def example_tenant_store_def NewMemory_def)

interpretation tl: go_less tenant_less
  by unfold_locales (auto simp: tenant_less_def split: if_splits)

text \<open>The tenant listing is deterministic: it is sorted by creation time and then id, it holds every
  stored tenant exactly once, and two well-formed stores with the same tenants list them identically,
  whatever order the map was iterated in.\<close>

theorem list_tenants_deterministic:
  assumes "wf_memory m" "wf_memory m2" "map_of (m_tenants m2) = map_of (m_tenants m)"
  shows "ListTenants m2 = ListTenants m \<and> sorted_wrt (\<lambda>a b. \<not> tenant_less b a) (ListTenants m) \<and>
    distinct (ListTenants m) \<and> set (ListTenants m) = ran (map_of (m_tenants m))"
proof -
  have w: "wf_tenants m" "wf_tenants m2" using assms(1,2) by (simp_all add: wf_memory_def)
  have inj: "t_ID t = i" if "(i, t) \<in> set (m_tenants n)" "wf_tenants n" for i t n
    using wf_tenantsD(3) [OF that(2), of i t] map_of_is_SomeI [OF wf_tenantsD(1) [OF that(2)] that(1)] by simp
  have dist: "distinct (map snd (m_tenants n))" if "wf_tenants n" for n
    using wf_tenantsD(1) [OF that] inj [OF _ that]
    by (auto simp: distinct_map inj_on_def) (metis prod.exhaust_sel)
  have rn: "set (map snd (m_tenants n)) = ran (map_of (m_tenants n))" if "wf_tenants n" for n
    using ran_distinct [OF wf_tenantsD(1) [OF that]] by simp
  have "mset (map snd (m_tenants m2)) = mset (map snd (m_tenants m))"
    using set_eq_iff_mset_eq_distinct [OF dist [OF w(2)] dist [OF w(1)]] rn [OF w(1)] rn [OF w(2)] assms(3)
    by simp
  moreover have "a = b"
    if ab: "a \<in> set (map snd (m_tenants m))" "b \<in> set (map snd (m_tenants m))"
      "\<not> tenant_less a b" "\<not> tenant_less b a" for a b
  proof -
    from ab obtain i j where "(i, a) \<in> set (m_tenants m)" "(j, b) \<in> set (m_tenants m)" by auto
    moreover from this ab(3,4) have "i = j"
      using inj [OF _ w(1)] by (auto simp: tenant_less_def split: if_splits)
    ultimately show "a = b" using wf_tenantsD(1) [OF w(1)] by (metis map_of_is_SomeI option.inject)
  qed
  ultimately have "ListTenants m2 = ListTenants m"
    unfolding ListTenants_def by (rule tl.sort_slice_mset)
  moreover have "distinct (ListTenants m)"
    using dist [OF w(1)] unfolding ListTenants_def by (metis mset_eq_imp_distinct_iff mset_sort_slice)
  ultimately show ?thesis using rn [OF w(1)] by (simp add: ListTenants_def tl.sorted_sort_slice)
qed

theorem list_tenants_deterministic_witness:
  "ListTenants example_store = ListTenants example_tenant_store \<and> distinct (ListTenants example_store)"
  using list_tenants_deterministic [OF example_wf(2) example_wf(1)] by (simp add: example_store_def)

section \<open>Usage accounting\<close>

definition in_bucket :: "string \<Rightarrow> time \<Rightarrow> time \<Rightarrow> string \<Rightarrow> UsageRecord \<Rightarrow> bool" where
  "in_bucket groupBy since until key r \<longleftrightarrow>
     inWindow (u_RecordedAt r) since until \<and> bucket_key groupBy r = GKey key"

definition total_usage :: "UsageRecord list \<Rightarrow> UsageTotals" where
  "total_usage rs = foldl addUsage zero_totals rs"

lemma total_usage_snoc [simp]: "total_usage (rs @ [r]) = addUsage (total_usage rs) r"
  by (simp add: total_usage_def)

lemma foldl_if_filter:
  "foldl (\<lambda>acc x. if P x then acc else f acc x) a xs = foldl f a (filter (\<lambda>x. \<not> P x) xs)"
  by (induction xs arbitrary: a) auto

lemma Usage_total:
  "Usage tid since until m =
     total_usage (filter (\<lambda>r. inWindow (u_RecordedAt r) since until) (at_nil (m_usage m) tid))"
  using foldl_if_filter [of "\<lambda>r. \<not> inWindow (u_RecordedAt r) since until" addUsage]
  by (simp add: Usage_def total_usage_def)

definition buckets_of ::
  "string \<Rightarrow> time \<Rightarrow> time \<Rightarrow> UsageRecord list \<Rightarrow> (string, UsageTotals) gomap \<Rightarrow> bool" where
  "buckets_of groupBy since until rs bs \<longleftrightarrow> distinct (map fst bs) \<and>
     (\<forall>key. map_of bs key =
        (let mine = filter (in_bucket groupBy since until key) rs
         in if mine = [] then None else Some (total_usage mine)))"

lemma fill_buckets_spec:
  assumes "\<forall>r \<in> set rs. bucket_key groupBy r \<noteq> GUnsupported" "buckets_of groupBy since until seen bs"
  shows "\<exists>bs'. fill_buckets groupBy since until bs rs = Inr bs' \<and>
    buckets_of groupBy since until (seen @ rs) bs'"
  using assms
proof (induction rs arbitrary: seen bs)
  case (Cons r rs)
  show ?case
  proof (cases "inWindow (u_RecordedAt r) since until \<and> bucket_key groupBy r \<noteq> GSkip")
    case False
    then have "\<not> in_bucket groupBy since until k r" for k by (auto simp: in_bucket_def)
    then have "buckets_of groupBy since until (seen @ [r]) bs" using Cons.prems(2) by (simp add: buckets_of_def)
    from Cons.IH [OF _ this] Cons.prems(1) False show ?thesis by auto
  next
    case True
    with Cons.prems(1) obtain k where k: "bucket_key groupBy r = GKey k"
      by (cases "bucket_key groupBy r") auto
    let ?old = "case map_of bs k of None \<Rightarrow> zero_totals | Some t \<Rightarrow> t"
    have ib: "in_bucket groupBy since until j r \<longleftrightarrow> j = k" for j using True k by (auto simp: in_bucket_def)
    have "?old = total_usage (filter (in_bucket groupBy since until k) seen)"
      using Cons.prems(2) by (auto simp: buckets_of_def Let_def total_usage_def)
    then have "buckets_of groupBy since until (seen @ [r]) (AList.update k (addUsage ?old r) bs)"
      using Cons.prems(2) by (auto simp: buckets_of_def Let_def ib distinct_update)
    from Cons.IH [OF _ this] Cons.prems(1) True k show ?thesis by (simp add: Let_def)
  qed
qed simp

definition usage_groupings :: "string set" where
  "usage_groupings = {''model'', ''provider'', ''key'', ''client_request_id''}"

lemma bucket_key_supported: "groupBy \<in> usage_groupings \<Longrightarrow> bucket_key groupBy r \<noteq> GUnsupported"
  by (auto simp: usage_groupings_def bucket_key_def)

lemma bucket_key_total: "groupBy \<in> {''model'', ''provider'', ''key''} \<Longrightarrow> \<exists>k. bucket_key groupBy r = GKey k"
  by (auto simp: bucket_key_def)

interpretation bl: go_less bucket_less
  by unfold_locales (auto simp: bucket_less_def split: if_splits)

text \<open>The usage breakdown is exactly the grouping of the tenant's records: for every supported
  dimension it succeeds, its bucket keys are distinct, its buckets are sorted by cost (highest first)
  and then key, and a key has a bucket exactly when some record in the window has it, holding
  the totals of precisely those records in the order they were recorded.\<close>

theorem usage_breakdown_groups:
  assumes "groupBy \<in> usage_groupings"
  shows "\<exists>bs. UsageBreakdown tid since until groupBy m = Inr bs \<and> distinct (map ub_Key bs) \<and>
    sorted_wrt (\<lambda>a b. \<not> bucket_less b a) bs \<and>
    (\<forall>b. b \<in> set bs \<longleftrightarrow>
       (let mine = filter (in_bucket groupBy since until (ub_Key b)) (at_nil (m_usage m) tid)
        in mine \<noteq> [] \<and> ub_Totals b = total_usage mine))"
proof -
  let ?rs = "at_nil (m_usage m) tid" and ?mk = "\<lambda>(k, v). \<lparr>ub_Key = k, ub_Totals = v\<rparr>"
  have "buckets_of groupBy since until [] []" by (simp add: buckets_of_def)
  from fill_buckets_spec [OF _ this, of ?rs] bucket_key_supported [OF assms] obtain bs where
    bs: "fill_buckets groupBy since until [] ?rs = Inr bs" "buckets_of groupBy since until ?rs bs" by auto
  have keys: "map ub_Key (map ?mk bs) = map fst bs" by auto
  have mem: "b \<in> set (map ?mk bs) \<longleftrightarrow> map_of bs (ub_Key b) = Some (ub_Totals b)" for b
  proof -
    have "b \<in> set (map ?mk bs) \<longleftrightarrow> (ub_Key b, ub_Totals b) \<in> set bs" by (cases b) force
    moreover have "distinct (map fst bs)" using bs(2) by (simp add: buckets_of_def)
    ultimately show ?thesis by (simp only: map_of_eq_Some_iff)
  qed
  have "mset (map ub_Key (sort_slice bucket_less (map ?mk bs))) = mset (map fst bs)"
    unfolding mset_map mset_sort_slice by (simp only: mset_map [symmetric] keys)
  then have "distinct (map ub_Key (sort_slice bucket_less (map ?mk bs)))"
    using bs(2) unfolding buckets_of_def by (metis mset_eq_imp_distinct_iff)
  moreover have "b \<in> set (sort_slice bucket_less (map ?mk bs)) \<longleftrightarrow>
      (let mine = filter (in_bucket groupBy since until (ub_Key b)) ?rs
        in mine \<noteq> [] \<and> ub_Totals b = total_usage mine)" for b
    using bs(2) unfolding set_sort_slice mem by (auto simp: buckets_of_def Let_def split: if_splits)
  ultimately show ?thesis using bs(1) by (auto simp: UsageBreakdown_def bl.sorted_sort_slice)
qed

definition example_usage :: "string \<Rightarrow> rat \<Rightarrow> UsageRecord" where
  "example_usage model cost = \<lparr> u_RequestID = ''r'', u_ClientRequestID = [], u_TenantID = ''t1'',
     u_KeyPrefix = ''cg-a'', u_Provider = ''openai'', u_Model = model, u_RequestedModel = model,
     u_FallbackDepth = 0, u_PromptTokens = 3, u_CompletionToken = 4, u_TotalTokens = 7, u_CostUSD = cost,
     u_ChargeUSD = cost, u_BillingMode = ''passthrough'', u_Cached = False, u_Streamed = False,
     u_StatusCode = 200, u_DurationMS = 12, u_RecordedAt = 50 \<rparr>"

definition example_usage_store :: Memory where
  "example_usage_store =
     example_store\<lparr>m_usage :=
       [(''t1'', [example_usage ''a'' 1, example_usage ''b'' 5, example_usage ''a'' 2])]\<rparr>"

theorem usage_breakdown_groups_witness:
  "\<exists>bs. UsageBreakdown ''t1'' 0 100 ''model'' example_usage_store = Inr bs \<and> distinct (map ub_Key bs) \<and>
     map ub_Key bs = [''b'', ''a'']"
proof -
  have "map_sum (\<lambda>_. ()) (map ub_Key) (UsageBreakdown ''t1'' 0 100 ''model'' example_usage_store) = Inr [''b'', ''a'']"
    by code_simp
  then show ?thesis
    using usage_breakdown_groups [of "''model''" "''t1''" 0 100 example_usage_store]
    by (auto simp: usage_groupings_def)
qed

lemma sum_update:
  fixes f :: "'v \<Rightarrow> 'n :: ab_group_add"
  shows "sum_list (map (\<lambda>x. f (snd x)) (AList.update k v bs)) =
    sum_list (map (\<lambda>x. f (snd x)) bs) - (case map_of bs k of None \<Rightarrow> 0 | Some old \<Rightarrow> f old) + f v"
  by (induction bs) (auto split: option.splits)

lemma total_usage_sum:
  fixes f :: "UsageTotals \<Rightarrow> 'n :: ab_group_add"
  assumes "f zero_totals = 0" "\<And>t r. f (addUsage t r) = f t + g r"
  shows "f (total_usage rs) = sum_list (map g rs)"
  by (induction rs rule: rev_induct) (simp_all add: assms, simp add: total_usage_def assms)

lemma fill_buckets_sum:
  fixes f :: "UsageTotals \<Rightarrow> 'n :: ab_group_add"
  assumes f: "f zero_totals = 0" "\<And>t r. f (addUsage t r) = f t + g r"
    and k: "\<And>r. \<exists>k. bucket_key groupBy r = GKey k"
    and "fill_buckets groupBy since until bs rs = Inr bs'"
  shows "sum_list (map (\<lambda>x. f (snd x)) bs') = sum_list (map (\<lambda>x. f (snd x)) bs) +
    f (total_usage (filter (\<lambda>r. inWindow (u_RecordedAt r) since until) rs))"
  using assms(4)
proof (induction rs arbitrary: bs)
  case Nil
  then show ?case by (simp add: total_usage_def f)
next
  case (Cons r rs)
  show ?case
  proof (cases "inWindow (u_RecordedAt r) since until")
    case False
    then show ?thesis using Cons.IH [of bs] Cons.prems by simp
  next
    case True
    obtain key where key: "bucket_key groupBy r = GKey key" using k by blast
    let ?old = "case map_of bs key of None \<Rightarrow> zero_totals | Some t \<Rightarrow> t"
    have "fill_buckets groupBy since until (AList.update key (addUsage ?old r) bs) rs = Inr bs'"
      using Cons.prems True key by simp
    from Cons.IH [OF this] True show ?thesis
      by (auto simp: sum_update f total_usage_sum [of f g, OF f] split: option.splits)
  qed
qed

lemma breakdown_sum:
  fixes f :: "UsageTotals \<Rightarrow> 'n :: ab_group_add"
  assumes f: "f zero_totals = 0" "\<And>t r. f (addUsage t r) = f t + g r"
    and k: "groupBy \<in> {''model'', ''provider'', ''key''}"
    and bs: "UsageBreakdown tid since until groupBy m = Inr bs"
  shows "sum_list (map (f \<circ> ub_Totals) bs) = f (Usage tid since until m)"
proof -
  let ?rs = "at_nil (m_usage m) tid" and ?mk = "\<lambda>(k, v). \<lparr>ub_Key = k, ub_Totals = v\<rparr>"
  from bs obtain al where al: "fill_buckets groupBy since until [] ?rs = Inr al"
    "bs = sort_slice bucket_less (map ?mk al)"
    by (auto simp: UsageBreakdown_def split: sum.splits)
  have "mset (map (f \<circ> ub_Totals) bs) = mset (map (\<lambda>x. f (snd x)) al)"
    unfolding al(2) mset_map mset_sort_slice
    by (simp add: image_mset.compositionality comp_def split_def)
  then have "sum_list (map (f \<circ> ub_Totals) bs) = sum_list (map (\<lambda>x. f (snd x)) al)"
    by (metis sum_mset_sum_list)
  also have "\<dots> = f (Usage tid since until m)"
    using fill_buckets_sum [of f g, OF f bucket_key_total [OF k] al(1)] by (simp add: Usage_total)
  finally show ?thesis .
qed



end
