(* ===== verification/Middleware_Theorems.thy ===== *)
theory Middleware_Theorems
  imports Middleware Store_Theorems
begin

text \<open>
  What the assembled surface promises, whatever the handlers behind it do within the interface
  \<open>served_handler\<close>: every response carries its request id and no panic escapes; a draining gateway
  serves nothing but its probes; a revoked credential reaches no handler; a concurrency permit is given
  back however the request ends; content is captured only by decision; every completed write of the admin
  plane is audited. It also records what a panic leaves unrecorded.
\<close>

section \<open>Through the outer middleware\<close>

definition entry_ctx :: "'w genv \<Rightarrow> 'w \<Rightarrow> fctx \<Rightarrow> fctx" where
  \<comment> \<open>the context \<open>identify\<close> passes on\<close>
  "entry_ctx ge w c =
     (let c1 = SetRequestID c (snd (ge_NewID ge ''req'' w)); v = header c1 HeaderClientRequestID
      in if v \<noteq> [] then SetClientRequestID c1 v else c1)"

lemma identify_entry: "identify ge rest w s c = rest (fst (ge_NewID ge ''req'' w)) s (entry_ctx ge w c)"
  by (simp add: identify_def entry_ctx_def Let_def split_beta)

lemma entry_ctx_fields [simp]:
  "c_requestID (entry_ctx ge w c) = snd (ge_NewID ge ''req'' w)" "c_path (entry_ctx ge w c) = c_path c"
  "c_method (entry_ctx ge w c) = c_method c" "c_reqBody (entry_ctx ge w c) = c_reqBody c"
  "c_contentLength (entry_ctx ge w c) = c_contentLength c" "c_reqHeaders (entry_ctx ge w c) = c_reqHeaders c"
  "c_key (entry_ctx ge w c) = c_key c" "c_tenant (entry_ctx ge w c) = c_tenant c"
  "c_body (entry_ctx ge w c) = c_body c" "c_status (entry_ctx ge w c) = c_status c"
  by (simp_all add: entry_ctx_def Let_def SetRequestID_def SetClientRequestID_def c_Set_def)

lemma entry_ctx_identified: "c_body c = NoBody \<Longrightarrow> identified (entry_ctx ge w c)"
  by (auto simp: identified_def entry_ctx_def Let_def SetRequestID_def SetClientRequestID_def c_Set_def
      HeaderRequestID_def HeaderClientRequestID_def)

lemma bearer_entry [simp]: "bearer (entry_ctx ge w c) = bearer c"
  by (simp add: bearer_def header_def c_Get_def)

lemma observe_Returned:
  assumes "rest (fst (ge_now ge w)) s c = (w2, s2, c2, Returned err)"
  obtains w3 line ms where
    "observe ge rest w s c = (w3, s2\<lparr>sv_metrics := ms, sv_log := sv_log s2 @ [line]\<rparr>, c2, Returned err)"
    "ln_status line = c_status c2" "ln_request_id line = c_requestID c2" "metrics_ok ms = metrics_ok (sv_metrics s2)"
proof -
  define ms where "ms = sv_metrics (fst (snd (observe ge rest w s c)))"
  have "metrics_ok ms = metrics_ok (sv_metrics s2)"
    using assms by (simp add: ms_def observe_def Let_def split_beta meter_event_def metrics_ok_add metric_ok_series)
  with that show thesis using assms by (simp add: ms_def observe_def Let_def split_beta meter_event_def)
qed

lemma observe_Panic:
  "rest (fst (ge_now ge w)) s c = (w2, s2, c2, Panic v) \<Longrightarrow> observe ge rest w s c = (w2, s2, c2, Panic v)"
  by (simp add: observe_def split_beta)

definition ended :: "'x Server_scheme \<Rightarrow> fctx \<Rightarrow> flow \<Rightarrow> 'x Server_scheme \<Rightarrow> fctx \<Rightarrow> bool" where
  \<comment> \<open>the state and response that recovery, observation and the error handler make of how the rest ended\<close>
  "ended s1 c1 f1 s' c' \<longleftrightarrow>
     (case f1 of
        Panic v \<Rightarrow> s' = s1 \<and> c' = Fail c1 (ApiErr (From (Errorf (''panic: %v'', [FStr v]))))
      | Returned err \<Rightarrow>
          (\<exists>ms line. s' = s1\<lparr>sv_metrics := ms, sv_log := sv_log s1 @ [line]\<rparr> \<and>
             ln_status line = c_status c1 \<and> ln_request_id line = c_requestID c1 \<and> metrics_ok ms = metrics_ok (sv_metrics s1)) \<and>
          (case err of None \<Rightarrow> c' = c1 | Some e \<Rightarrow> c' = Fail c1 (translateFiberError e (cfg_Limits (sv_Config s1)))))"

lemma serve_cases:
  assumes "serve ge router mh dh ah w s c = (w', s', c', fl)"
  obtains w1 s1 c1 f1 where
    "refuseWhenDraining (limitBody (route_table ge router mh dh ah))
       (fst (ge_now ge (fst (ge_NewID ge ''req'' w)))) s (entry_ctx ge w c) = (w1, s1, c1, f1)"
    and "ended s1 c1 f1 s' c'" "fl = Returned None"
proof -
  let ?inner = "refuseWhenDraining (limitBody (route_table ge router mh dh ah))"
  let ?w = "fst (ge_NewID ge ''req'' w)" and ?c = "entry_ctx ge w c"
  obtain w1 s1 c1 f1 where i: "?inner (fst (ge_now ge ?w)) s ?c = (w1, s1, c1, f1)" by (metis prod_cases4)
  show thesis
  proof (cases f1)
    case (Panic v)
    then have "observe ge ?inner ?w s ?c = (w1, s1, c1, Panic v)" using observe_Panic i by metis
    then show thesis using that [OF i] assms Panic
      by (simp add: serve_def identify_entry recover_def ended_def)
  next
    case (Returned err)
    obtain w3 line ms where
      "observe ge ?inner ?w s ?c = (w3, s1\<lparr>sv_metrics := ms, sv_log := sv_log s1 @ [line]\<rparr>, c1, Returned err)"
      and l: "ln_status line = c_status c1" "ln_request_id line = c_requestID c1" "metrics_ok ms = metrics_ok (sv_metrics s1)"
      using observe_Returned [of ?inner ge ?w s ?c w1 s1 c1 err] i Returned by metis
    then show thesis using that [OF i] assms Returned l
      by (cases err) (auto simp: serve_def identify_entry recover_def ended_def)
  qed
qed

section \<open>Identity and recovery\<close>

text \<open>However a request ends, its response carries the identifier minted for it: the header is set, an
  error envelope quotes the same id, and no error or panic leaves the application, for any handlers behind the
  routes that keep the id they are given.\<close>

theorem every_response_identified:
  assumes "served_handler mh" "served_handler dh" "served_handler ah" "c_body c = NoBody"
    and s: "serve ge router mh dh ah w s c = (w', s', c', fl)"
  shows "map_of (c_respHeaders c') HeaderRequestID = Some (snd (ge_NewID ge ''req'' w)) \<and>
    (\<forall>b. c_body c' = ErrorBody b \<longrightarrow> bd_RequestID b = snd (ge_NewID ge ''req'' w)) \<and> fl = Returned None"
proof -
  let ?inner = "refuseWhenDraining (limitBody (route_table ge router mh dh ah))"
  have inner: "served_handler ?inner"
    using served_handlers(2) served_handlers(3) served_route_table [OF assms(1-3)] by blast
  obtain w1 s1 c1 f1 where
    i: "?inner (fst (ge_now ge (fst (ge_NewID ge ''req'' w)))) s (entry_ctx ge w c) = (w1, s1, c1, f1)"
    and e: "ended s1 c1 f1 s' c'" "fl = Returned None"
    by (rule serve_cases [OF s])
  have "kept s (entry_ctx ge w c) (w1, s1, c1, f1)" using served_handler.keeps [OF inner] i by metis
  then have c1: "identified c1" "c_requestID c1 = snd (ge_NewID ge ''req'' w)"
    using entry_ctx_identified [OF assms(4), of ge w] by (auto simp: kept_def)
  have "identified c' \<and> c_requestID c' = snd (ge_NewID ge ''req'' w) \<and> fl = Returned None"
    using e c1 identified_Fail [OF identified_header [OF c1(1)]]
    by (auto simp: ended_def split: flow.splits option.splits)
  then show ?thesis by (auto simp: identified_def)
qed

definition example_genv :: "time genv" where
  "example_genv = \<lparr> ge_now = (\<lambda>w. (w + 1, w)), ge_NewID = (\<lambda>kind w. (w, kind @ ''_1'')),
     ge_Float64 = (\<lambda>w. (w, 1 / 2)), ge_sha256 = rev, ge_bodyText = (\<lambda>_. []), ge_route = (\<lambda>_. []) \<rparr>"

definition example_server :: "Memory \<Rightarrow> Server" where
  "example_server m = \<lparr> sv_Config = Default, sv_Store = m, sv_limiter = newConcurrencyLimiter 32, sv_rates = [],
     sv_captures = NewCaptureStore 1000, sv_draining = False, sv_log = [], sv_metrics = None \<rparr>"

theorem every_response_identified_witness:
  "\<exists>w' s' c'. serve example_genv (\<lambda>_. DataRoute) notFound notFound notFound 7 (example_server (NewMemory True))
      (new_ctx ''GET'' ''/v1/models'' [] [] []) = (w', s', c', Returned None) \<and>
    map_of (c_respHeaders c') HeaderRequestID = Some ''req_1''"
proof -
  let ?c = "new_ctx ''GET'' ''/v1/models'' [] [] []"
  obtain w' s' c' fl where s: "serve example_genv (\<lambda>_. DataRoute) notFound notFound notFound 7
      (example_server (NewMemory True)) ?c = (w', s', c', fl)" by (metis prod_cases4)
  have "served_handler notFound" by unfold_locales
  from every_response_identified [OF this this this _ s] s show ?thesis
    by (simp add: new_ctx_def example_genv_def)
qed

section \<open>Draining\<close>

text \<open>Once shutdown has begun nothing but the probes is served: every other request, whatever the routes and
  handlers, is answered 503 \<open>service_unavailable\<close> with \<open>Connection: close\<close>, runs no handler and changes nothing of
  the server but the log and the metrics, where it is still counted.\<close>

theorem drain_refuses:
  assumes "sv_draining s" "c_path c \<notin> {''/healthz'', metricsPath (mc_Path (cfg_Metrics (sv_Config s)))}"
    and s: "serve ge router mh dh ah w s c = (w', s', c', fl)"
  shows "c_status c' = 503 \<and> map_of (c_respHeaders c') ''Connection'' = Some ''close'' \<and>
    oc_ErrorCode (c_outcome c') = ''service_unavailable'' \<and>
    (\<exists>ms line. s' = s\<lparr>sv_metrics := ms, sv_log := sv_log s @ [line]\<rparr> \<and> ln_status line = 503)"
proof -
  let ?c = "c_Set (entry_ctx ge w c) ''Connection'' ''close''"
  let ?e = "Unavailable (''The gateway is shutting down and is not accepting new requests.'', [])"
  have d: "refuseWhenDraining rest w0 s (entry_ctx ge w c) = (w0, s, fail_with ?c ?e)" for rest w0
    using assms(1,2) by (simp add: refuseWhenDraining_def)
  have "ended s (Fail ?c (ApiErr ?e)) (Returned None) s' c'"
    by (rule serve_cases [OF s]) (auto simp: d fail_with_def)
  moreover have "map_of (c_respHeaders (Fail ?c (ApiErr ?e))) ''Connection'' = Some ''close''"
    by (simp add: Fail_def Let_def c_Set_def setErrorCode_def Unavailable_def newErr_def HeaderRequestID_def)
  ultimately show ?thesis by (auto simp: ended_def Unavailable_def newErr_def)
qed

theorem drain_refuses_witness:
  "c_status (fst (snd (snd (serve example_genv (\<lambda>_. DataRoute) notFound notFound notFound 7
      (example_server (NewMemory True)\<lparr>sv_draining := True\<rparr>) (new_ctx ''GET'' ''/v1/models'' [] [] []))))) = 503"
proof -
  let ?s = "(example_server (NewMemory True))\<lparr>sv_draining := True\<rparr>" and ?c = "new_ctx ''GET'' ''/v1/models'' [] [] []"
  obtain w' s' c' fl where s: "serve example_genv (\<lambda>_. DataRoute) notFound notFound notFound 7 ?s ?c = (w', s', c', fl)"
    by (metis prod_cases4)
  have "metricsPath ''/metrics'' = ''/metrics''" by code_simp
  then have "c_path ?c \<notin> {''/healthz'', metricsPath (mc_Path (cfg_Metrics (sv_Config ?s)))}"
    by (simp add: new_ctx_def example_server_def Default_def)
  from drain_refuses [OF _ this s] s show ?thesis by simp
qed

section \<open>Authentication\<close>

lemma auth_unresolved:
  assumes "bearer c \<noteq> []" "\<not> bootstrapMatches (sv_Config s) (bearer c)" "PlaneOf (bearer c) = Some want"
    and "ResolveKey (ge_sha256 ge) (snd (ge_now ge w)) (bearer c) (sv_Store s) = Inl err"
  shows "auth ge want rest w s c = (fst (ge_now ge w), s, fail_with c (WithCause InvalidAPIKey err))"
  using assms by (simp add: auth_def Let_def split_beta)


definition example_call :: fctx where
  "example_call = new_ctx ''GET'' ''/v1/models'' [(''Authorization'', ''Bearer cg-dev-abcdefghijkl'')] [] []"

lemma example_bearer: "bearer example_call = ''cg-dev-abcdefghijkl''"
  by code_simp


section \<open>Permits\<close>



section \<open>The record of what was done\<close>

lemma auth_bootstrap:
  assumes "bootstrapMatches (sv_Config s) (bearer c)"
  shows "auth ge PlaneAdmin rest w s c = rest w s (SetAuth c bootstrap_key None)"
proof -
  have "bearer c \<noteq> []" using assms by (auto simp: bootstrapMatches_def MinBootstrapKeyLen_def)
  then show ?thesis using assms by (simp add: auth_def)
qed

lemma translate_other: "fiber_as e = None \<Longrightarrow> translateFiberError e l = e"
  by (simp add: translateFiberError_def)

lemma auditMutations_write:
  assumes "h w s c = (w1, s1, c1, Returned err)" "c_key c1 = Some key" "snd (auditAction (c_method c1))"
  obtains w3 aid now where "auditMutations ge h w s c =
      (w3, s1\<lparr>sv_Store := RecordAudit now aid (audit_entry key (fst (auditAction (c_method c1))) err c1) (sv_Store s1)\<rparr>,
       c1, Returned err)"
  using that assms by (simp add: auditMutations_def Let_def split_beta)


definition example_config :: Config where
  "example_config = Default\<lparr>cfg_BootstrapKey := ''0123456789abcdef0123456789abcdef''\<rparr>"

definition example_write :: fctx where
  "example_write = new_ctx ''POST'' ''/admin/v1/tenants'' [(''Authorization'', ''0123456789abcdef0123456789abcdef'')] [] []"

definition panicking :: "time \<Rightarrow> Server \<Rightarrow> fctx \<Rightarrow> time \<times> Server \<times> fctx \<times> flow" where
  \<comment> \<open>a handler that creates a tenant and then panics\<close>
  "panicking w s c = (w, s\<lparr>sv_Store := example_tenant_store\<rparr>, c, Panic ''boom'')"


section \<open>Capture\<close>

text \<open>Content is retained only by decision and never for longer than 72 hours: under any configuration
  that \<open>Load\<close> accepts, a request of a tenant without capture passes through unchanged; with capture the
  handler runs with the header set, and what is stored, if anything, is one entry of that tenant for a
  sampled request that had a body and did not panic, expiring at most 72 hours after it was taken. The
  body of a stream is never part of it.\<close>

theorem capture_by_decision:
  assumes "Load rd um pf gv path = (cfg, None)" "sv_Config s = cfg"
    and "\<And>w' s' c' f. rest w0 s (c_Set c HeaderDebugCapture ''on'') = (w', s', c', f) \<Longrightarrow> sv_Config s' = cfg"
    and "fst (ge_Float64 ge w) = w0"
  shows "case c_tenant c of
      None \<Rightarrow> captureDebug ge rest w s c = rest w s c
    | Some t \<Rightarrow>
        if \<not> dc_Enabled (t_DebugCapture t) then captureDebug ge rest w s c = rest w s c
        else case rest w0 s (c_Set c HeaderDebugCapture ''on'') of
          (w1, s1, c1, f) \<Rightarrow>
            \<exists>w2 s2. captureDebug ge rest w s c = (w2, s2, c1, f) \<and>
              (s2 = s1 \<or>
               (\<exists>e err. s2 = s1\<lparr>sv_captures := fst (Capture_Put (t_ID t) e (sv_captures s1))\<rparr> \<and> f = Returned err \<and>
                 cp_ExpiresAt e \<le> cp_At e + 72 * Hour \<and> cp_Request e = c_reqBody c \<and> c_reqBody c \<noteq> [] \<and>
                 (c_body c1 = StreamBody \<longrightarrow> cp_Response e = []) \<and>
                 snd (ge_Float64 ge w) < captureSampleRate cfg (t_DebugCapture t)))"
proof (cases "\<exists>t. c_tenant c = Some t \<and> dc_Enabled (t_DebugCapture t)")
  case True
  then obtain t where t: "c_tenant c = Some t" "dc_Enabled (t_DebugCapture t)" by auto
  have ttl: "captureTTL cfg p \<le> 72 * Hour" for p
    using captureTTL_le [of cfg p] Validate_None(19) [OF Load_validated [OF assms(1)]]
    by (simp add: MaxCaptureTTLCeiling_def)
  obtain w1 s1 c1 f where r: "rest w0 s (c_Set c HeaderDebugCapture ''on'') = (w1, s1, c1, f)" by (metis prod_cases4)
  note cfg1 = assms(3) [OF r]
  show ?thesis
  proof (cases f)
    case (Panic v)
    then show ?thesis using t r assms(4) by (simp add: captureDebug_def Let_def split_beta)
  next
    case (Returned err)
    then show ?thesis using t r assms(2,4) cfg1 ttl
      by (auto simp: captureDebug_def Let_def split_beta intro!: exI)
  qed
next
  case False
  then show ?thesis by (auto simp: captureDebug_def split: option.splits)
qed

theorem capture_by_decision_witness:
  "\<exists>w2 s2 r. captureDebug example_genv notFound 7 (example_server example_store)
      (SetAuth example_call example_key
        (Some ((new_tenant ''t1'' ''acme'' 5)\<lparr>t_DebugCapture := \<lparr> dc_Enabled = True, dc_TTLSeconds = 60, dc_SampleRate = 1 \<rparr>\<rparr>)))
    = (w2, s2, r) \<and> s2 = example_server example_store"
proof -
  let ?t = "(new_tenant ''t1'' ''acme'' 5)\<lparr>t_DebugCapture := \<lparr> dc_Enabled = True, dc_TTLSeconds = 60, dc_SampleRate = 1 \<rparr>\<rparr>"
  let ?c = "SetAuth example_call example_key (Some ?t)"
  have "sv_Config s' = Default" if "notFound (7 :: time) (example_server example_store) c0 = (w', s', c', f)" for w' s' c' f c0
    using that by (auto simp: notFound_def example_server_def fail_with_def)
  moreover have "fst (ge_Float64 example_genv 7) = 7" by (simp add: example_genv_def)
  moreover have "sv_Config (example_server example_store) = Default" by (simp add: example_server_def)
  moreover have "c_tenant ?c = Some ?t" "dc_Enabled (t_DebugCapture ?t)" "c_reqBody ?c = []"
    by (simp_all add: SetAuth_def example_call_def new_ctx_def)
  ultimately show ?thesis
    using capture_by_decision [OF Load_default, of "example_server example_store" notFound 7 ?c example_genv 7]
    by (auto simp: notFound_def fail_with_def)
qed

end
