(* ===== verification/Dispatch_Theorems.thy ===== *)
theory Dispatch_Theorems
  imports Dispatcher
begin

text \<open>
  What the cascade promises: the key pool is walked fairly and completely, cool-downs only ever grow, the
  candidates are tried in order and every failure before the serving one was a retryable one, a
  failure the caller caused stops at once, only the credentials of the provider at hand are presented,
  and nothing done for one tenant moves another tenant's circuit. It also records where a half-open
  probe is never reported.
\<close>

section \<open>The key pool\<close>

lemma rotation: "map (\<lambda>i. xs ! ((k + i) mod length xs)) [0 ..< length xs] = rotate k xs"
  by (rule nth_equalityI) (simp_all add: nth_rotate)

definition round_robin :: "Provider \<Rightarrow> bool" where
  "round_robin p \<longleftrightarrow> 2 \<le> length (p_Keys p) \<and> p_KeyStrategy p \<noteq> KeyStrategyFailover"

definition cursor :: "'w Dispatcher \<Rightarrow> string \<Rightarrow> 64 word" where
  "cursor d pid = (case map_of (ds_cursors d) pid of None \<Rightarrow> 0 | Some s \<Rightarrow> s)"

lemma keyOrder_rotate:
  "snd (keyOrder d p) = (if round_robin p then rotate (unat (cursor d (p_ID p))) (p_Keys p) else p_Keys p)"
proof (cases "round_robin p")
  case True
  then have "snd (keyOrder d p) = rotate (unat (cursor d (p_ID p)) mod length (p_Keys p)) (p_Keys p)"
    using rotation [of "p_Keys p" "unat (cursor d (p_ID p)) mod length (p_Keys p)"]
    by (simp add: keyOrder_def cursor_def round_robin_def Let_def)
  then show ?thesis using True rotate_conv_mod by metis
next
  case False
  then show ?thesis by (auto simp: keyOrder_def round_robin_def Let_def)
qed

lemma keyOrder_cursor:
  "cursor (fst (keyOrder d p)) (p_ID p) = cursor d (p_ID p) + (if round_robin p then 1 else 0)"
  by (auto simp: keyOrder_def cursor_def round_robin_def Let_def)

lemma keyOrder_other [simp]:
  "ds_breaker (fst (keyOrder d p)) = ds_breaker d" "ds_cooldowns (fst (keyOrder d p)) = ds_cooldowns d"
  "ds_catalog (fst (keyOrder d p)) = ds_catalog d"
  by (simp_all add: keyOrder_def Let_def)

primrec starts :: "'w Dispatcher \<Rightarrow> Provider \<Rightarrow> nat \<Rightarrow> string list" where
  \<comment> \<open>the first key of each of the next requests to a provider\<close>
  "starts d p 0 = []"
| "starts d p (Suc n) = hd (snd (keyOrder d p)) # starts (fst (keyOrder d p)) p n"

lemma starts_nth:
  assumes "round_robin p" "unat (cursor d (p_ID p)) + n < 2 ^ 64" "i < n"
  shows "starts d p n ! i = p_Keys p ! ((unat (cursor d (p_ID p)) + i) mod length (p_Keys p))"
  using assms(2,3)
proof (induction n arbitrary: d i)
  case (Suc n)
  let ?c = "cursor d (p_ID p)" and ?d = "fst (keyOrder d p)"
  have ne: "p_Keys p \<noteq> []" using assms(1) by (auto simp: round_robin_def)
  have c: "unat (cursor ?d (p_ID p)) = unat ?c + 1"
    using Suc.prems(1) assms(1) by (simp add: keyOrder_cursor unat_word_ariths)
  show ?case
  proof (cases i)
    case 0
    then show ?thesis using ne assms(1) by (simp add: keyOrder_rotate hd_rotate_conv_nth)
  next
    case (Suc j)
    then show ?thesis using Suc.IH [of ?d j] Suc.prems c by simp
  qed
qed simp

lemma length_starts [simp]: "length (starts d p n) = n"
  by (induction n arbitrary: d) simp_all

text \<open>The key pool is used completely and fairly: every request walks all keys of the provider, each
  exactly as often as the pool holds it; with the failover strategy always from the first; with round
  robin, as many consecutive requests as there are keys start at every key exactly once.\<close>

theorem key_pool_fair:
  assumes "unat (cursor d (p_ID p)) + length (p_Keys p) < 2 ^ 64"
  shows "mset (snd (keyOrder d p)) = mset (p_Keys p) \<and>
    (p_KeyStrategy p = KeyStrategyFailover \<longrightarrow> snd (keyOrder d p) = p_Keys p) \<and>
    (round_robin p \<longrightarrow> mset (starts d p (length (p_Keys p))) = mset (p_Keys p))"
proof -
  have "starts d p (length (p_Keys p)) = rotate (unat (cursor d (p_ID p))) (p_Keys p)" if "round_robin p"
    using starts_nth [OF that assms] by (intro nth_equalityI) (simp_all add: nth_rotate)
  moreover have "mset (rotate k xs) = mset xs" for k and xs :: "string list"
    by (metis append_take_drop_id mset_append rotate_drop_take union_commute)
  ultimately show ?thesis by (simp add: keyOrder_rotate) (simp add: round_robin_def)
qed

theorem key_pool_fair_witness:
  "mset (starts (NewDispatcher example_catalog (NewBreaker 3 60 30 True)) (example_provider ''a'') 2) = {#''k1'', ''k2''#}"
proof -
  let ?d = "NewDispatcher example_catalog (NewBreaker 3 60 30 True)" and ?p = "example_provider ''a''"
  have "cursor ?d (p_ID ?p) = 0" "length (p_Keys ?p) = 2" "mset (p_Keys ?p) = {#''k1'', ''k2''#}" "round_robin ?p"
    by (simp_all add: NewDispatcher_def cursor_def example_provider_def round_robin_def KeyStrategyFailover_def)
  then show ?thesis using key_pool_fair [of ?d ?p] by (simp del: starts.simps)
qed

section \<open>Cool-downs\<close>

definition cooling :: "time \<Rightarrow> string \<Rightarrow> (string \<times> string, time) gomap \<Rightarrow> string \<Rightarrow> bool" where
  "cooling now pid cool key \<longleftrightarrow> (case map_of cool (pid, key) of None \<Rightarrow> False | Some until \<Rightarrow> now < until)"

lemma ready_from_spec:
  "snd (ready_from now pid cool order) = filter (\<lambda>k. \<not> cooling now pid cool k) order \<and>
   (\<forall>x. map_of (fst (ready_from now pid cool order)) x =
      (if x \<in> Pair pid ` set order \<and> \<not> cooling now pid cool (snd x) then None else map_of cool x))"
proof (induction now pid cool order rule: ready_from.induct)
  case (2 now pid cool key order)
  show ?case
  proof (cases "map_of cool (pid, key)")
    case None
    then show ?thesis using 2(1) by (auto simp: cooling_def split_def split: option.splits)
  next
    case (Some until)
    show ?thesis
    proof (cases "now < until")
      case True
      then show ?thesis using 2(2) Some by (auto simp: cooling_def)
    next
      case False
      let ?c = "AList.delete (pid, key) cool"
      have "cooling now pid ?c k = cooling now pid cool k" for k
        using Some False by (simp add: cooling_def)
      then show ?thesis using 2(3) [OF Some False] Some False by (auto simp: cooling_def split_def)
    qed
  qed
qed simp

lemma readyKeys_keys:
  "snd (snd (readyKeys env w d pid order)) =
    (let ready = filter (\<lambda>k. \<not> cooling (snd (rt_now env w)) pid (ds_cooldowns d) k) order
     in if ready = [] then order else ready)"
  using ready_from_spec [of "snd (rt_now env w)" pid "ds_cooldowns d" order]
  by (auto simp: readyKeys_def Let_def cooling_def split_def)

text \<open>Cool-downs skip exactly the parked keys and never starve a request: the keys tried are those of
  the order whose Retry-After window has passed, in order, or all of them when every one is parked;
  looking never forgets a window still running; and parking a key keeps the later of the two
  deadlines, so a short window cannot shorten a long one.\<close>

theorem cooldowns_respected:
  assumes "readyKeys env w d pid order = (w', d', keys)"
  shows "keys = (let ready = filter (\<lambda>k. \<not> cooling (snd (rt_now env w)) pid (ds_cooldowns d) k) order
      in if ready = [] then order else ready) \<and>
    (order \<noteq> [] \<longrightarrow> keys \<noteq> []) \<and>
    (\<forall>x u. map_of (ds_cooldowns d) x = Some u \<and> snd (rt_now env w) < u \<longrightarrow> map_of (ds_cooldowns d') x = Some u) \<and>
    map_of (ds_cooldowns (coolKey d pid key until)) (pid, key) =
      Some (case map_of (ds_cooldowns d) (pid, key) of None \<Rightarrow> until | Some u \<Rightarrow> max u until)"
proof -
  have k: "keys = (let ready = filter (\<lambda>k. \<not> cooling (snd (rt_now env w)) pid (ds_cooldowns d) k) order
      in if ready = [] then order else ready)"
    using readyKeys_keys [of env w d pid order] assms by simp
  moreover have "map_of (ds_cooldowns d') x = Some u"
    if "map_of (ds_cooldowns d) x = Some u" "snd (rt_now env w) < u" for x u
  proof -
    let ?c = "fst (ready_from (snd (rt_now env w)) pid (ds_cooldowns d) order)"
    have "\<not> (x \<in> Pair pid ` set order \<and> \<not> cooling (snd (rt_now env w)) pid (ds_cooldowns d) (snd x))"
      using that by (auto simp: cooling_def)
    then have "map_of ?c x = Some u"
      using that(1) ready_from_spec [of "snd (rt_now env w)" pid "ds_cooldowns d" order] by presburger
    moreover have "ds_cooldowns d' = (if ds_cooldowns d = [] then [] else ?c)"
      using assms by (auto simp: readyKeys_def Let_def split_def split: if_splits)
    ultimately show ?thesis using that(1) by auto
  qed
  moreover have "order \<noteq> [] \<longrightarrow> keys \<noteq> []" unfolding k by (simp add: Let_def)
  ultimately show ?thesis by (auto simp: coolKey_def max_def split: option.splits)
qed
definition example_codec :: codec where
  "example_codec = \<lparr> jc_fields = (\<lambda>b. Inr (Some [(''q'', b)])), jc_string = (\<lambda>s. s),
     jc_object = (\<lambda>fs. Inr (concat (map snd fs))), jc_error = (\<lambda>b. (True, ''bad'', [], [])),
     jc_ParseTime = (\<lambda>_. None) \<rparr>"

definition example_env :: "Response option \<times> goerr option \<Rightarrow> time route_env" where
  "example_env res = \<lparr> rt_now = example_clock, rt_errText = (\<lambda>_. []), rt_store = example_reads,
     rt_registry = [(''openai'', example_adapter [example_model ''m1''] res)], rt_maxDepth = 5,
     rt_codec = example_codec \<rparr>"

definition example_dispatcher :: "time Dispatcher" where
  "example_dispatcher = NewDispatcher example_catalog (NewBreaker 3 60 30 True)"

theorem cooldowns_respected_witness:
  "snd (snd (readyKeys (example_env (None, None)) 50
      (coolKey example_dispatcher ''p-a'' ''k1'' 90) ''p-a'' [''k1'', ''k2''])) = [''k2'']"
proof -
  let ?d = "coolKey example_dispatcher ''p-a'' ''k1'' 90"
  obtain w' d' keys where r: "readyKeys (example_env (None, None)) 50 ?d ''p-a'' [''k1'', ''k2''] = (w', d', keys)"
    by (metis prod.exhaust)
  have f: "filter (\<lambda>k. \<not> cooling (snd (rt_now (example_env (None, None)) 50)) ''p-a'' (ds_cooldowns ?d) k) [''k1'', ''k2'']
      = [''k2'']" by code_simp
  show ?thesis using cooldowns_respected [OF r] r unfolding f by (simp add: Let_def)
qed

text \<open>A Retry-After in seconds is honoured exactly as long as it fits: for a positive number of seconds
  the wait is that many seconds exactly when they are at most 9223372036; above that the
  multiplication overflows 64 bits and the wait is some other duration, possibly none at all.\<close>

theorem retry_after_exact:
  assumes "Atoi (TrimSpace (Header_Get h ''Retry-After'')) = Some secs" "0 < secs"
  shows "retryAfter jc h now = secs * Second \<longleftrightarrow> secs \<le> 9223372036"
proof -
  have "TrimSpace (Header_Get h ''Retry-After'') \<noteq> []"
    using assms(1) by (auto simp: Atoi_def)
  then have r: "retryAfter jc h now = wrap64 (secs * Second)" using assms by (simp add: retryAfter_def Let_def)
  show ?thesis
  proof
    assume "secs \<le> 9223372036"
    then show "retryAfter jc h now = secs * Second"
      unfolding r using assms(2) by (intro wrap64_id) simp_all
  next
    assume "retryAfter jc h now = secs * Second"
    then show "secs \<le> 9223372036" using wrap64_range [of "secs * Second"] r by simp
  qed
qed

theorem retry_after_exact_witness:
  "retryAfter example_codec [(''Retry-After'', ['' 30 ''])] 0 = 30 * Second \<and>
   retryAfter example_codec [(''Retry-After'', [''9223372037''])] 0 \<noteq> 9223372037 * Second"
proof -
  have "Atoi (TrimSpace (Header_Get [(''Retry-After'', ['' 30 ''])] ''Retry-After'')) = Some 30" by code_simp
  moreover have "Atoi (TrimSpace (Header_Get [(''Retry-After'', [''9223372037''])] ''Retry-After'')) = Some 9223372037"
    by code_simp
  ultimately show ?thesis
    using retry_after_exact [of "[(''Retry-After'', ['' 30 ''])]" 30 example_codec 0]
      retry_after_exact [of "[(''Retry-After'', [''9223372037''])]" 9223372037 example_codec 0]
    by simp
qed

section \<open>One candidate\<close>

lemma coolKey_other [simp]: "ds_breaker (coolKey d p k t) = ds_breaker d" "ds_catalog (coolKey d p k t) = ds_catalog d"
  by (simp_all add: coolKey_def split: option.splits)

lemma park_key_other:
  "park_key env w d pid key r = (w', d') \<Longrightarrow> ds_breaker d' = ds_breaker d \<and> ds_catalog d' = ds_catalog d"
  by (auto simp: park_key_def Let_def split: option.splits prod.splits if_splits)

lemma readyKeys_other:
  "readyKeys env w d pid order = (w', d', ks) \<Longrightarrow> ds_breaker d' = ds_breaker d \<and> ds_catalog d' = ds_catalog d"
  by (auto simp: readyKeys_def Let_def split: prod.splits if_splits)

lemma note_response_fields [simp]:
  "da_Candidate (note_response a resp err) = da_Candidate a" "da_Skipped (note_response a resp err) = da_Skipped a"
  "da_Failure (note_response a (Some r) err) = rs_Failure r"
  by (simp_all add: note_response_def Let_def split: option.splits)

definition kept :: "'w Dispatcher \<Rightarrow> DispatchAttempt \<Rightarrow> 'w Dispatcher \<Rightarrow> DispatchAttempt \<Rightarrow> bool" where
  "kept d a d' a' \<longleftrightarrow> ds_breaker d' = ds_breaker d \<and> ds_catalog d' = ds_catalog d \<and>
     da_Candidate a' = da_Candidate a \<and> da_Skipped a' = da_Skipped a"

lemma try_keys_step:
  "try_keys env ad p req w d a (key # keys) =
    (case ad_Do ad w \<lparr>cr_BaseURL = p_BaseURL p, cr_APIKey = key\<rparr> req of
       (w1, resp, err) \<Rightarrow>
         if err_is err ErrResponseTooLarge
         then (w1, d, note_response a resp err, Fatal (ApiErr (WithCause (ResponseTooLarge 0) (the err))))
         else if err \<noteq> None \<and> (resp = None \<or> rs_Failure (the resp) = FailTransport) \<or> resp = None
         then (w1, d, (note_response a resp err)\<lparr>da_Failure := FailTransport\<rparr>, Cascade)
         else if rs_Failure (the resp) = FailNone then (w1, d, note_response a resp err, Got (the resp))
         else if rs_Failure (the resp) = FailClient
         then (w1, d, note_response a resp err, Fatal (clientError (rt_codec env) (the resp)))
         else if rs_Failure (the resp) = FailRateLimit
         then (case park_key env w1 d (p_ID p) key (the resp) of
                 (w2, d2) \<Rightarrow> try_keys env ad p req w2 d2 (note_response a resp err) keys)
         else (w1, d, note_response a resp err, Cascade))"
  by (auto simp: Let_def split: prod.splits option.splits FailureKind.splits)

lemma try_keys_kept:
  assumes "try_keys env ad p req w d a keys = (w', d', a', r)"
  shows "kept d a d' a'"
  using assms
proof (induction keys arbitrary: w d a)
  case (Cons key keys)
  obtain w1 resp err where o: "ad_Do ad w \<lparr>cr_BaseURL = p_BaseURL p, cr_APIKey = key\<rparr> req = (w1, resp, err)"
    by (metis prod_cases3)
  obtain w2 d2 where pk: "park_key env w1 d (p_ID p) key (the resp) = (w2, d2)" by fastforce
  have IH: "kept d2 (note_response a resp err) d' a'"
    if "try_keys env ad p req w2 d2 (note_response a resp err) keys = (w', d', a', r)"
    by (rule Cons.IH [OF that])
  show ?case using Cons.prems IH park_key_other [OF pk] unfolding try_keys_step o prod.case pk
    by (auto simp: kept_def split: if_splits)
qed (simp add: kept_def)

lemma try_keys_result:
  assumes "try_keys env ad p req w d a keys = (w', d', a', r)" "keys \<noteq> [] \<or> Retryable (da_Failure a)"
  shows "(r = Cascade \<longrightarrow> Retryable (da_Failure a')) \<and> (\<forall>resp. r = Got resp \<longrightarrow> rs_Failure resp = FailNone)"
  using assms
proof (induction keys arbitrary: w d a)
  case (Cons key keys)
  obtain w1 resp err where o: "ad_Do ad w \<lparr>cr_BaseURL = p_BaseURL p, cr_APIKey = key\<rparr> req = (w1, resp, err)"
    by (metis prod_cases3)
  obtain w2 d2 where pk: "park_key env w1 d (p_ID p) key (the resp) = (w2, d2)" by fastforce
  note IH = Cons.IH [of w2 d2 "note_response a resp err"]
  show ?case
  proof (cases "rs_Failure (the resp)")
    case FailRateLimit
    then show ?thesis using Cons.prems(1) IH unfolding try_keys_step o prod.case pk
      by (cases resp) (auto simp: Retryable_def split: if_splits)
  qed (use Cons.prems(1) in \<open>unfold try_keys_step o prod.case pk, cases resp; auto simp: Retryable_def split: if_splits\<close>)+
qed auto

lemma tryCandidate_spec:
  assumes "tryCandidate env ad p cand req w d = (w', d', a, r)" "p_Keys p \<noteq> []"
  shows "ds_breaker d' = ds_breaker d \<and> ds_catalog d' = ds_catalog d \<and> da_Candidate a = cand \<and> \<not> da_Skipped a \<and>
    (r = Cascade \<longrightarrow> Retryable (da_Failure a)) \<and> (\<forall>resp. r = Got resp \<longrightarrow> rs_Failure resp = FailNone)"
proof -
  obtain d1 order where ko: "keyOrder d p = (d1, order)" by fastforce
  obtain w2 d2 keys where rk: "readyKeys env w d1 (p_ID p) order = (w2, d2, keys)" by (metis prod_cases3)
  have t: "try_keys env ad p req w2 d2 (new_attempt cand) keys = (w', d', a, r)"
    using assms(1) by (simp add: tryCandidate_def ko rk)
  have "order \<noteq> []" using keyOrder_rotate [of d p] assms(2) ko by (auto split: if_splits)
  then have "keys \<noteq> []" using readyKeys_keys [of env w d1 "p_ID p" order] rk by (auto simp: Let_def split: if_splits)
  moreover have "ds_breaker d1 = ds_breaker d \<and> ds_catalog d1 = ds_catalog d" using keyOrder_other ko by (metis fst_conv)
  ultimately show ?thesis
    using try_keys_result [OF t] try_keys_kept [OF t] readyKeys_other [OF rk]
    by (auto simp: kept_def new_attempt_def)
qed

section \<open>The order of the cascade\<close>

definition request_caused :: "codec \<Rightarrow> goerr \<Rightarrow> bool" where
  "request_caused jc err \<longleftrightarrow>
     (\<exists>e. err = ApiErr (WithCause (InvalidRequest (''Request body is not valid JSON.'', [])) e)) \<or>
     (\<exists>e. err = ApiErr (WithCause (ResponseTooLarge 0) e)) \<or>
     (\<exists>r. rs_Failure r = FailClient \<and> err = clientError jc r)"

lemma try_keys_fatal:
  "try_keys env ad p req w d a keys = (w', d', a', Fatal err) \<Longrightarrow> request_caused (rt_codec env) err"
proof (induction keys arbitrary: w d a)
  case (Cons key keys)
  obtain w1 resp err' where o: "ad_Do ad w \<lparr>cr_BaseURL = p_BaseURL p, cr_APIKey = key\<rparr> req = (w1, resp, err')"
    by (metis prod_cases3)
  obtain w2 d2 where pk: "park_key env w1 d (p_ID p) key (the resp) = (w2, d2)" by fastforce
  show ?case using Cons.prems Cons.IH [of w2 d2 "note_response a resp err'"]
    unfolding try_keys_step o prod.case pk by (auto simp: request_caused_def split: if_splits)
qed simp

lemma tryCandidate_fatal:
  "tryCandidate env ad p cand req w d = (w', d', a, Fatal err) \<Longrightarrow> request_caused (rt_codec env) err"
  by (auto simp: tryCandidate_def split: prod.splits dest: try_keys_fatal)

definition tried :: "Candidate list \<Rightarrow> DispatchAttempt list \<Rightarrow> bool" where
  "tried cands ats \<longleftrightarrow> map da_Candidate ats = cands \<and> (\<forall>a \<in> set ats. da_Skipped a \<or> Retryable (da_Failure a))"

lemma tried_simps [simp]:
  "tried [] ats \<longleftrightarrow> ats = []" "tried (c # cs) (a # ats) \<longleftrightarrow> da_Candidate a = c \<and> (da_Skipped a \<or> Retryable (da_Failure a)) \<and> tried cs ats"
  by (auto simp: tried_def)

definition outcome_ok ::
  "codec \<Rightarrow> string \<Rightarrow> DispatchAttempt list \<Rightarrow> nat \<Rightarrow> Candidate list \<Rightarrow> outcome \<Rightarrow> bool" where
  "outcome_ok jc body attempts depth cands out =
     (case out of
        Served r \<Rightarrow>
          \<exists>pre c post ats a. cands = pre @ c # post \<and> tried pre ats \<and> dr_Depth r = depth + length pre \<and>
            dr_Candidate r = c \<and> dr_Attempts r = attempts @ ats @ [a] \<and> da_Candidate a = c \<and> \<not> da_Skipped a \<and>
            rs_Failure (dr_Response r) = FailNone
      | Failed err \<Rightarrow> (\<exists>ats. tried cands ats \<and> err = exhausted (attempts @ ats)) \<or> request_caused jc err
      | Panicked \<Rightarrow> jc_fields jc body = Inr None)"

lemma outcome_ok_Cons:
  assumes "outcome_ok jc body (attempts @ [a]) (Suc depth) cands out"
    and "da_Candidate a = c" "da_Skipped a \<or> Retryable (da_Failure a)"
  shows "outcome_ok jc body attempts depth (c # cands) out"
proof (cases out)
  case (Served r)
  with assms(1) obtain pre c' post ats b where
    r: "cands = pre @ c' # post" "tried pre ats" "dr_Depth r = Suc depth + length pre" "dr_Candidate r = c'"
    "dr_Attempts r = (attempts @ [a]) @ ats @ [b]" "da_Candidate b = c'" "\<not> da_Skipped b"
    "rs_Failure (dr_Response r) = FailNone"
    by (auto simp: outcome_ok_def)
  have "c # cands = (c # pre) @ c' # post" "tried (c # pre) (a # ats)" "dr_Depth r = depth + length (c # pre)"
    "dr_Attempts r = attempts @ (a # ats) @ [b]" using r assms(2,3) by simp_all
  then show ?thesis unfolding outcome_ok_def Served outcome.case using r(4,6,7,8) by blast
next
  case (Failed err)
  show ?thesis
  proof (cases "request_caused jc err")
    case True
    then show ?thesis by (simp add: outcome_ok_def Failed)
  next
    case False
    with assms(1) Failed obtain ats where "tried cands ats" "err = exhausted ((attempts @ [a]) @ ats)"
      by (auto simp: outcome_ok_def)
    then have "tried (c # cands) (a # ats) \<and> err = exhausted (attempts @ a # ats)" using assms(2,3) by simp
    then show ?thesis unfolding outcome_ok_def Failed outcome.case by blast
  qed
next
  case Panicked
  then show ?thesis using assms(1) by (simp add: outcome_ok_def)
qed

lemma withModel_panic: "withModel jc body m = None \<longleftrightarrow> jc_fields jc body = Inr None"
  by (auto simp: withModel_def split: sum.splits option.splits)

lemma cascade_outcome:
  "cascade env byID snap body stream path w d attempts depth cands = (w', d', out) \<Longrightarrow>
   outcome_ok (rt_codec env) body attempts depth cands out"
proof (induction cands arbitrary: w d attempts depth)
  case Nil
  then show ?case by (auto simp: outcome_ok_def)
next
  case (Cons cand cands)
  obtain w0 d0 ok where al: "breaker_Allow env w d (Candidate_Key cand) = (w0, d0, ok)" by (metis prod_cases3)
  note IH = outcome_ok_Cons [OF Cons.IH]
  show ?case
  proof (cases "ok \<and> usable (map_of byID (cd_ProviderID cand))")
    case False
    then show ?thesis using Cons.prems al
      by (auto simp: Let_def new_attempt_def no_credential_def Retryable_def split: if_splits elim!: IH)
  next
    case True
    then obtain p where p: "map_of byID (cd_ProviderID cand) = Some p" "p_Keys p \<noteq> []"
      by (auto simp: usable_def split: option.splits)
    show ?thesis
    proof (cases "Registry_Get (rt_registry env) (p_Kind p)")
      case None
      then show ?thesis using Cons.prems al True p(1)
        by (auto simp: Let_def new_attempt_def no_adapter_def Retryable_def elim!: IH)
    next
      case (Some ad)
      let ?req = "\<lambda>b. \<lparr> rq_Model = cd_Model cand, rq_Body = b, rq_Stream = stream, rq_Path = path \<rparr>"
      show ?thesis
      proof (cases "withModel (rt_codec env) body (cd_Model cand)")
        case None
        then have "out = Panicked" using Cons.prems al True p(1) Some by (simp add: Let_def)
        then show ?thesis using None by (simp add: outcome_ok_def withModel_panic)
      next
        case wm: (Some res)
        show ?thesis
        proof (cases res)
          case (Inl e)
          then show ?thesis using Cons.prems al True p(1) Some wm
            by (auto simp: Let_def outcome_ok_def request_caused_def)
        next
          case (Inr b)
          obtain w1 d1 a r where t: "tryCandidate env ad p cand (?req b) w0 d0 = (w1, d1, a, r)"
            by (metis prod_cases4)
          note ts = tryCandidate_spec [OF t p(2)]
          show ?thesis
          proof (cases r)
            case (Got resp)
            then show ?thesis using Cons.prems al True p(1) Some wm Inr t ts
              by (auto simp: Let_def outcome_ok_def intro!: exI [of _ "[]"])
          next
            case Cascade
            then show ?thesis using Cons.prems al True p(1) Some wm Inr t ts
              by (auto simp: Let_def split: prod.splits elim!: IH)
          next
            case (Fatal e)
            then show ?thesis using Cons.prems al True p(1) Some wm Inr t tryCandidate_fatal
              by (fastforce simp: Let_def outcome_ok_def)
          qed
        qed
      qed
    qed
  qed
qed

text \<open>C6. The cascade is ordered, complete and stops where it must. When a request is served, the serving
  candidate answered successfully, its depth is its position in the plan, and every earlier
  candidate was tried or skipped in order and failed in a way that permits a retry. When the
  request fails, either every candidate of the plan was tried or skipped that way and the error lists
  exactly these attempts, or the failure is one the request caused itself (a body that is not JSON, an
  oversized response, a provider's own 4xx). It panics only on a body that decodes to a nil map.\<close>

theorem cascade_ordered:
  assumes "cascade env byID snap body stream path w d [] 0 cands = (w', d', out)"
  shows "case out of
      Served r \<Rightarrow> dr_Depth r < length cands \<and> dr_Candidate r = cands ! dr_Depth r \<and>
        (\<exists>ats a. dr_Attempts r = ats @ [a] \<and> tried (take (dr_Depth r) cands) ats \<and>
           da_Candidate a = dr_Candidate r \<and> \<not> da_Skipped a) \<and>
        rs_Failure (dr_Response r) = FailNone
    | Failed err \<Rightarrow> (\<exists>ats. tried cands ats \<and> err = exhausted ats) \<or> request_caused (rt_codec env) err
    | Panicked \<Rightarrow> jc_fields (rt_codec env) body = Inr None"
proof (cases out)
  case (Served r)
  with cascade_outcome [OF assms] obtain pre c post ats a where
    "cands = pre @ c # post" "tried pre ats" "dr_Depth r = length pre" "dr_Candidate r = c"
    "dr_Attempts r = ats @ [a]" "da_Candidate a = c" "\<not> da_Skipped a" "rs_Failure (dr_Response r) = FailNone"
    by (auto simp: outcome_ok_def)
  then show ?thesis unfolding Served outcome.case by simp
qed (use cascade_outcome [OF assms] in \<open>simp_all add: outcome_ok_def\<close>)

definition example_response :: "int \<Rightarrow> Response" where
  "example_response status = \<lparr> rs_StatusCode = status, rs_Header = None, rs_Body = ''x'', rs_Stream = None,
     rs_Usage = None, rs_Failure = Classify status, rs_Latency = 0 \<rparr>"

abbreviation example_byID :: "(string, Provider) gomap" where
  "example_byID \<equiv> providersByID [example_provider ''a'', example_provider ''b'']"

theorem cascade_ordered_witness:
  "\<exists>w' d' r. cascade (example_env (Some (example_response 200), None)) example_byID None ''b'' False ''/c'' 0
      example_dispatcher [] 0 [example_candidate] = (w', d', Served r) \<and> dr_Depth r = 0 \<and>
      dr_Candidate r = example_candidate"
proof -
  let ?c = "cascade (example_env (Some (example_response 200), None)) example_byID None ''b'' False ''/c'' 0
      example_dispatcher [] 0 [example_candidate]"
  obtain w' d' out where c: "?c = (w', d', out)" by (metis prod_cases3)
  have "(case snd (snd ?c) of Served r \<Rightarrow> True | _ \<Rightarrow> False)" by code_simp
  then obtain r where "out = Served r" using c by (cases out) auto
  then show ?thesis using cascade_ordered [OF c] c by auto
qed

section \<open>Failures the request caused\<close>

lemma cascade_fatal:
  assumes "breaker_Allow env w d (Candidate_Key cand) = (w0, d0, True)"
    and "map_of byID (cd_ProviderID cand) = Some p" "p_Enabled p" "p_Keys p \<noteq> []"
    and "Registry_Get (rt_registry env) (p_Kind p) = Some ad"
    and "withModel (rt_codec env) body (cd_Model cand) = Some (Inr b)"
    and "tryCandidate env ad p cand
      \<lparr> rq_Model = cd_Model cand, rq_Body = b, rq_Stream = stream, rq_Path = path \<rparr> w0 d0 = (w1, d1, a, Fatal err)"
  shows "cascade env byID snap body stream path w d ats depth (cand # cands) = (w1, d1, Failed err)"
  using assms by (simp add: usable_def)

text \<open>A failure the request caused stops the cascade at once and is surfaced unchanged: no later candidate is
  tried, the world is the one right after that exchange, and the breaker is exactly as admission left
  it, so the provider is not held responsible for the caller's mistake.\<close>

theorem request_failure_stops:
  assumes "breaker_Allow env w d (Candidate_Key cand) = (w0, d0, True)"
    and "map_of byID (cd_ProviderID cand) = Some p" "p_Enabled p" "p_Keys p \<noteq> []"
    and "Registry_Get (rt_registry env) (p_Kind p) = Some ad"
    and "withModel (rt_codec env) body (cd_Model cand) = Some (Inr b)"
    and t: "tryCandidate env ad p cand
      \<lparr> rq_Model = cd_Model cand, rq_Body = b, rq_Stream = stream, rq_Path = path \<rparr> w0 d0 = (w1, d1, a, Fatal err)"
  shows "cascade env byID snap body stream path w d ats depth (cand # cands) = (w1, d1, Failed err) \<and>
    request_caused (rt_codec env) err \<and> ds_breaker d1 = ds_breaker d0"
  using cascade_fatal [OF assms] tryCandidate_spec [OF t assms(4)] tryCandidate_fatal [OF t] by blast

definition example_bad_env :: "time route_env" where
  "example_bad_env = example_env (Some (example_response 400), None)"

definition example_open_dispatcher :: "time Dispatcher" where
  \<comment> \<open>the circuit of the example candidate is open since time 0 and its cool-off of 30 has passed at 100\<close>
  "example_open_dispatcher = example_dispatcher\<lparr>ds_breaker := (NewBreaker 3 60 30 True)\<lparr>b_entries :=
     [(Candidate_Key example_candidate,
       \<lparr> be_failures = [], be_state = StateOpen, be_openedAt = 0, be_probing = False \<rparr>)]\<rparr>\<rparr>"

definition example_adapter_bad :: "time Adapter" where
  "example_adapter_bad = example_adapter [example_model ''m1''] (Some (example_response 400), None)"

lemma example_bad:
  "map_of example_byID (cd_ProviderID example_candidate) = Some (example_provider ''a'')"
  "p_Enabled (example_provider ''a'')" "p_Keys (example_provider ''a'') \<noteq> []"
  "Registry_Get (rt_registry example_bad_env) (p_Kind (example_provider ''a'')) = Some example_adapter_bad"
  "withModel (rt_codec example_bad_env) ''b'' (cd_Model example_candidate) = Some (Inr ''bm1'')"
proof -
  show "Registry_Get (rt_registry example_bad_env) (p_Kind (example_provider ''a'')) = Some example_adapter_bad"
    by (simp add: Registry_Get_def example_bad_env_def example_env_def example_provider_def example_adapter_bad_def)
qed code_simp+

abbreviation example_request :: Request where
  "example_request \<equiv> \<lparr> rq_Model = cd_Model example_candidate, rq_Body = ''bm1'', rq_Stream = False, rq_Path = ''/c'' \<rparr>"

lemma example_bad_try:
  assumes "ds_cooldowns d = []"
  shows "\<exists>w1 d1 a. tryCandidate example_bad_env example_adapter_bad (example_provider ''a'') example_candidate
    example_request w d = (w1, d1, a, Fatal (clientError example_codec (example_response 400)))"
proof -
  obtain d1 order where ko: "keyOrder d (example_provider ''a'') = (d1, order)" by fastforce
  have "order \<noteq> []" using keyOrder_rotate [of d "example_provider ''a''"] ko
    by (auto simp: example_provider_def split: if_splits)
  then obtain k ks where o: "order = k # ks" by (cases order) auto
  have "ds_cooldowns d1 = []" using keyOrder_other(2) [of d "example_provider ''a''"] ko assms by simp
  then show ?thesis
    by (simp add: tryCandidate_def ko o readyKeys_def example_adapter_bad_def example_adapter_def err_is_def
        example_response_def Classify_def example_bad_env_def example_env_def)
qed

theorem request_failure_stops_witness:
  "\<exists>w1 d1. cascade example_bad_env example_byID None ''b'' False ''/c'' 100 example_dispatcher [] 0
     [example_candidate, example_candidate] = (w1, d1, Failed (clientError example_codec (example_response 400)))"
proof -
  obtain w0 d0 ok where al: "breaker_Allow example_bad_env 100 example_dispatcher (Candidate_Key example_candidate)
      = (w0, d0, ok)" by (metis prod_cases3)
  then have ok: "ok" and c: "ds_cooldowns d0 = []"
    by (auto simp: breaker_Allow_def example_dispatcher_def NewDispatcher_def NewBreaker_def Allow_def Let_def split: prod.splits)
  obtain w1 d1 a where "tryCandidate example_bad_env example_adapter_bad (example_provider ''a'') example_candidate
    example_request w0 d0 = (w1, d1, a, Fatal (clientError example_codec (example_response 400)))"
    using example_bad_try [OF c] by blast
  from request_failure_stops [OF al [unfolded ok [THEN eqTrueI]] example_bad this] show ?thesis by blast
qed

text \<open>A half-open probe that ends in a failure the request caused is never reported back to the breaker:
  the circuit stays half-open with its probe outstanding, and no later request, at any time, is
  admitted for that provider and model.\<close>

theorem probe_never_reported:
  assumes al: "breaker_Allow env w d (Candidate_Key cand) = (w0, d0, True)"
    and e: "entry_of (ds_breaker d) (Candidate_Key cand) = Some e" "be_state e \<noteq> StateClosed"
    and p: "map_of byID (cd_ProviderID cand) = Some p" "p_Enabled p" "p_Keys p \<noteq> []"
    and r: "Registry_Get (rt_registry env) (p_Kind p) = Some ad"
    and m: "withModel (rt_codec env) body (cd_Model cand) = Some (Inr b)"
    and t: "tryCandidate env ad p cand
      \<lparr> rq_Model = cd_Model cand, rq_Body = b, rq_Stream = stream, rq_Path = path \<rparr> w0 d0 = (w1, d1, a, Fatal err)"
  shows "cascade env byID snap body stream path w d ats depth (cand # cands) = (w1, d1, Failed err) \<and>
    cur_state (ds_breaker d1) (Candidate_Key cand) = StateHalfOpen \<and>
    (\<forall>later. Allow (ds_breaker d1) later (Candidate_Key cand) = (ds_breaker d1, False))"
proof -
  have b1: "ds_breaker d1 = ds_breaker d0" using tryCandidate_spec [OF t p(3)] by simp
  obtain b where "Allow (ds_breaker d) (snd (rt_now env w)) (Candidate_Key cand) = (b, True)" "ds_breaker d0 = b"
    using al by (auto simp: breaker_Allow_def Let_def split: prod.splits)
  then have "ds_breaker d0 =
      set_entry (ds_breaker d) (Candidate_Key cand) (e\<lparr>be_state := StateHalfOpen, be_probing := True\<rparr>)"
    using e by (auto simp: Allow_set split: if_splits)
  then have "entry_of (ds_breaker d0) (Candidate_Key cand) = Some (e\<lparr>be_state := StateHalfOpen, be_probing := True\<rparr>)"
    by simp
  then show ?thesis
    using cascade_fatal [OF al p r m t] by (simp add: b1 cur_state_def Allow_set)
qed

theorem probe_never_reported_witness:
  "\<exists>w1 d1. cascade example_bad_env example_byID None ''b'' False ''/c'' 100 example_open_dispatcher [] 0
      [example_candidate] = (w1, d1, Failed (clientError example_codec (example_response 400))) \<and>
     (\<forall>later. Allow (ds_breaker d1) later (Candidate_Key example_candidate) = (ds_breaker d1, False))"
proof -
  let ?e = "\<lparr> be_failures = [], be_state = StateOpen, be_openedAt = 0, be_probing = False \<rparr>"
  have e: "entry_of (ds_breaker example_open_dispatcher) (Candidate_Key example_candidate) = Some ?e"
    by (simp add: example_open_dispatcher_def entry_of_def)
  have c: "ds_cooldowns example_open_dispatcher = []" and f: "b_openFor (ds_breaker example_open_dispatcher) = 30"
    by (simp_all add: example_open_dispatcher_def example_dispatcher_def NewDispatcher_def NewBreaker_def)
  obtain w0 d0 ok where al: "breaker_Allow example_bad_env 100 example_open_dispatcher (Candidate_Key example_candidate)
      = (w0, d0, ok)" by (metis prod_cases3)
  then have ok: "ok" and c0: "ds_cooldowns d0 = []"
    using e c f by (auto simp: breaker_Allow_def Allow_set example_bad_env_def example_env_def example_clock_def Let_def)
  obtain w1 d1 a where "tryCandidate example_bad_env example_adapter_bad (example_provider ''a'') example_candidate
    example_request w0 d0 = (w1, d1, a, Fatal (clientError example_codec (example_response 400)))"
    using example_bad_try [OF c0] by blast
  from probe_never_reported [OF al [unfolded ok [THEN eqTrueI]] e _ example_bad this] show ?thesis by auto
qed

section \<open>Isolation\<close>

lemma breaker_Allow_frame:
  "breaker_Allow env w d k = (w', d', ok) \<Longrightarrow> k' \<noteq> k \<Longrightarrow>
   entry_of (ds_breaker d') k' = entry_of (ds_breaker d) k' \<and> cfg_of (ds_breaker d') = cfg_of (ds_breaker d) \<and>
   ds_catalog d' = ds_catalog d"
  using br.allow_frame [of k' k "ds_breaker d" "snd (rt_now env w)"] br.allow_cfg [of "ds_breaker d" "snd (rt_now env w)" k]
  by (auto simp: breaker_Allow_def Let_def split: prod.splits)

lemma breaker_Failure_frame:
  "breaker_Failure env w d k = (w', d') \<Longrightarrow> k' \<noteq> k \<Longrightarrow>
   entry_of (ds_breaker d') k' = entry_of (ds_breaker d) k' \<and> cfg_of (ds_breaker d') = cfg_of (ds_breaker d) \<and>
   ds_catalog d' = ds_catalog d"
  using br.failure_frame [of k' k "ds_breaker d"] br.failure_cfg [of "ds_breaker d" _ k]
  by (auto simp: breaker_Failure_def Let_def split: prod.splits)

definition unmoved :: "string \<Rightarrow> 'w Dispatcher \<Rightarrow> 'w Dispatcher \<Rightarrow> bool" where
  "unmoved k d d' \<longleftrightarrow> entry_of (ds_breaker d') k = entry_of (ds_breaker d) k \<and>
     cfg_of (ds_breaker d') = cfg_of (ds_breaker d) \<and> ds_catalog d' = ds_catalog d"

lemma unmoved_trans: "unmoved k d d1 \<Longrightarrow> unmoved k d1 d2 \<Longrightarrow> unmoved k d d2"
  by (simp add: unmoved_def)

lemma cascade_unmoved:
  assumes "k \<notin> Candidate_Key ` set cands"
    and "cascade env byID snap body stream path w d attempts depth cands = (w', d', out)"
  shows "unmoved k d d'"
  using assms
proof (induction cands arbitrary: w d attempts depth)
  case Nil
  then show ?case by (simp add: unmoved_def)
next
  case (Cons cand cands)
  have k: "k \<noteq> Candidate_Key cand" "k \<notin> Candidate_Key ` set cands" using Cons.prems(1) by auto
  obtain w0 d0 ok where al: "breaker_Allow env w d (Candidate_Key cand) = (w0, d0, ok)" by (metis prod_cases3)
  have d0: "unmoved k d d0" using breaker_Allow_frame [OF al k(1)] by (simp add: unmoved_def)
  note IH = unmoved_trans [OF d0 Cons.IH [OF k(2)]]
  show ?case
  proof (cases "ok \<and> usable (map_of byID (cd_ProviderID cand)) \<and>
      (\<exists>ad. Registry_Get (rt_registry env) (p_Kind (the (map_of byID (cd_ProviderID cand)))) = Some ad)")
    case False
    then show ?thesis using Cons.prems(2) al by (auto simp: Let_def split: if_splits option.splits elim!: IH)
  next
    case True
    then obtain p ad where p: "map_of byID (cd_ProviderID cand) = Some p" "p_Keys p \<noteq> []"
      "Registry_Get (rt_registry env) (p_Kind p) = Some ad"
      by (auto simp: usable_def split: option.splits)
    have tr: "unmoved k d d1" if "tryCandidate env ad p cand req w0 d0 = (w1, d1, a, r)" for req w1 d1 a r
      using tryCandidate_spec [OF that p(2)] d0 by (simp add: unmoved_def)
    have got: "unmoved k d (d1\<lparr>ds_breaker := Success (ds_breaker d1) (Candidate_Key cand)\<rparr>)"
      if "tryCandidate env ad p cand req w0 d0 = (w1, d1, a, r)" for req w1 d1 a r
      using tr [OF that] br.success_frame [OF k(1)] br.success_cfg by (simp add: unmoved_def)
    have failed: "unmoved k d d2"
      if "tryCandidate env ad p cand req w0 d0 = (w1, d1, a, r)"
        "breaker_Failure env w1 d1 (Candidate_Key cand) = (w2, d2)" for req w1 d1 a r w2 d2
      using tr [OF that(1)] breaker_Failure_frame [OF that(2) k(1)] by (simp add: unmoved_def)
    show ?thesis using Cons.prems(2) al True p d0 tr got unmoved_trans [OF failed Cons.IH [OF k(2)]]
      by (auto simp: Let_def split: option.splits sum.splits prod.splits try_result.splits)
  qed
qed

lemma Key_tenant:
  assumes "CHR ''/'' \<notin> set t" "CHR ''/'' \<notin> set t'" "Key t p m = Key t' p' m'"
  shows "t = t'"
  using assms append_sep_inject [OF assms(1,2)] by (auto simp: Key_def)

lemma reload_other:
  "reload errText now st c w tid = (w', c', r) \<Longrightarrow> other \<noteq> tid \<Longrightarrow> state_of c' other = state_of c other"
  by (auto simp: reload_def Let_def set_snapshot_def state_of_def split: prod.splits sum.splits if_splits option.splits)

lemma Catalog_Get_other:
  "Catalog_Get errText now st c w tid = (w', c', r) \<Longrightarrow> other \<noteq> tid \<Longrightarrow> state_of c' other = state_of c other"
  by (auto simp: Catalog_Get_def Let_def reload_other split: prod.splits option.splits if_splits)

lemma Resolve_spec:
  assumes "Resolve errText now st maxDepth c w tid requested = (w1, c1, snap, r)" "1 \<le> maxDepth"
  shows "(other \<noteq> tid \<longrightarrow> state_of c1 other = state_of c other) \<and>
    (\<forall>cands. r = Inr cands \<longrightarrow> (\<forall>cand \<in> set cands. cd_TenantID cand = tid))"
proof -
  obtain w2 c2 g where g: "Catalog_Get errText now st c w tid = (w2, c2, g)" by (metis prod_cases3)
  show ?thesis
  proof (cases g)
    case (Inl e)
    then show ?thesis using assms g Catalog_Get_other [OF g, of other] by (auto simp: Resolve_def)
  next
    case (Inr s)
    then have r: "c1 = c2" "r = resolve_in st maxDepth tid requested s" using assms(1) g by (auto simp: Resolve_def)
    have "\<forall>cand \<in> set cands. cd_TenantID cand = tid" if "r = Inr cands" for cands
    proof -
      have "good_candidates maxDepth tid s []" using assms(2) by (simp add: good_candidates_def)
      from walk_chain_good [OF this] that show ?thesis
        by (auto simp: r(2) resolve_in_def Let_def good_candidates_def split: sum.splits if_splits)
    qed
    then show ?thesis using Catalog_Get_other [OF g, of other] r(1) by auto
  qed
qed

text \<open>C31. Tenants are isolated in routing: whatever a request of one tenant does, succeed, fail, trip circuits or
  refresh its catalog, it leaves every circuit of another tenant as it was, gives the same
  admission answer for it at every time, and leaves that tenant's catalog snapshot alone. Tenant ids
  have no slash, which is what the generated ids guarantee.\<close>

theorem dispatch_tenant_isolation:
  assumes "1 \<le> rt_maxDepth env" "CHR ''/'' \<notin> set tid" "CHR ''/'' \<notin> set other" "other \<noteq> tid"
    and d: "Dispatch env w d tid requested body stream path = (w', d', out)"
  shows "entry_of (ds_breaker d') (Key other p m) = entry_of (ds_breaker d) (Key other p m) \<and>
    snd (Allow (ds_breaker d') t (Key other p m)) = snd (Allow (ds_breaker d) t (Key other p m)) \<and>
    state_of (ds_catalog d') other = state_of (ds_catalog d) other"
proof -
  obtain w1 c1 snap r where r: "Resolve (rt_errText env) (rt_now env) (rt_store env) (rt_maxDepth env)
      (ds_catalog d) w tid requested = (w1, c1, snap, r)" by (metis prod_cases4)
  note rs = Resolve_spec [OF r assms(1), of other]
  let ?k = "Key other p m"
  have "unmoved ?k (d\<lparr>ds_catalog := c1\<rparr>) d'"
  proof (cases r)
    case (Inl e)
    then show ?thesis using d r by (simp add: Dispatch_def unmoved_def)
  next
    case (Inr cands)
    have "?k \<notin> Candidate_Key ` set cands"
      using rs Inr assms(2-4) Key_tenant [OF assms(3,2)] by (auto simp: Candidate_Key_def)
    then show ?thesis using d r Inr
      by (auto simp: Dispatch_def unmoved_def split: sum.splits dest: cascade_unmoved)
  qed
  then have u: "entry_of (ds_breaker d') ?k = entry_of (ds_breaker d) ?k"
      "cfg_of (ds_breaker d') = cfg_of (ds_breaker d)" "ds_catalog d' = c1"
    by (simp_all add: unmoved_def)
  then have "snd (Allow (ds_breaker d') t ?k) = snd (Allow (ds_breaker d) t ?k)"
    by (intro br.allow_local)
  then show ?thesis using u rs assms(4) by simp
qed

theorem dispatch_tenant_isolation_witness:
  "\<exists>w' d' out. Dispatch example_bad_env 100 example_open_dispatcher ''t1'' ''m1'' ''b'' False ''/c'' = (w', d', out) \<and>
     entry_of (ds_breaker d') (Key ''t2'' ''a'' ''m1'') = None"
proof -
  obtain w' d' out where d: "Dispatch example_bad_env 100 example_open_dispatcher ''t1'' ''m1'' ''b'' False ''/c''
      = (w', d', out)" by (metis prod_cases3)
  have "entry_of (ds_breaker example_open_dispatcher) (Key ''t2'' ''a'' ''m1'') = None" by code_simp
  then show ?thesis
    using dispatch_tenant_isolation [OF _ _ _ _ d, of "''t2''" "''a''" "''m1''" 0] d
    by (auto simp: example_bad_env_def example_env_def)
qed

section \<open>Credentials\<close>

definition pool_step :: "'w route_env \<Rightarrow> (string, Provider) gomap \<Rightarrow> ('w \<Rightarrow> bool) \<Rightarrow> bool" where
  \<comment> \<open>the clock, and any exchange that presents a key of an enabled provider to that provider's own
     address, preserve a property of the world\<close>
  "pool_step env byID P \<longleftrightarrow>
     (\<forall>w. P w \<longrightarrow> P (fst (rt_now env w))) \<and>
     (\<forall>w pid p ad key req. P w \<and> map_of byID pid = Some p \<and> p_Enabled p \<and> key \<in> set (p_Keys p) \<and>
        Registry_Get (rt_registry env) (p_Kind p) = Some ad \<longrightarrow>
        P (fst (ad_Do ad w \<lparr>cr_BaseURL = p_BaseURL p, cr_APIKey = key\<rparr> req)))"

lemma park_key_world: "pool_step env byID P \<Longrightarrow> P w \<Longrightarrow> P (fst (park_key env w d pid key r))"
  by (auto simp: park_key_def pool_step_def Let_def split_def split: option.splits)

lemma try_keys_world:
  assumes "pool_step env byID P" "map_of byID pid = Some p" "p_Enabled p"
    "Registry_Get (rt_registry env) (p_Kind p) = Some ad"
  shows "P w \<Longrightarrow> set keys \<subseteq> set (p_Keys p) \<Longrightarrow> P (fst (try_keys env ad p req w d a keys))"
proof (induction keys arbitrary: w d a)
  case (Cons key keys)
  obtain w1 resp err where o: "ad_Do ad w \<lparr>cr_BaseURL = p_BaseURL p, cr_APIKey = key\<rparr> req = (w1, resp, err)"
    by (metis prod_cases3)
  have "P (fst (ad_Do ad w \<lparr>cr_BaseURL = p_BaseURL p, cr_APIKey = key\<rparr> req))"
    using assms Cons.prems unfolding pool_step_def by (metis list.set_intros(1) subsetD)
  then have w1: "P w1" by (simp add: o)
  obtain w2 d2 where pk: "park_key env w1 d (p_ID p) key (the resp) = (w2, d2)" by fastforce
  have "P w2" using park_key_world [OF assms(1) w1, of d "p_ID p" key "the resp"] pk by simp
  then show ?case using w1 Cons unfolding try_keys_step o prod.case pk by auto
qed simp

lemma tryCandidate_world:
  assumes "pool_step env byID P" "map_of byID pid = Some p" "p_Enabled p"
    "Registry_Get (rt_registry env) (p_Kind p) = Some ad" "P w"
  shows "P (fst (tryCandidate env ad p cand req w d))"
proof -
  obtain d1 order where ko: "keyOrder d p = (d1, order)" by fastforce
  obtain w2 d2 keys where rk: "readyKeys env w d1 (p_ID p) order = (w2, d2, keys)" by (metis prod_cases3)
  have "set order = set (p_Keys p)" using keyOrder_rotate [of d p] ko by (auto split: if_splits)
  then have "set keys \<subseteq> set (p_Keys p)"
    using readyKeys_keys [of env w d1 "p_ID p" order] rk by (auto simp: Let_def split: if_splits)
  moreover have "P w2" using rk assms(1,5)
    by (auto simp: readyKeys_def pool_step_def Let_def split_def split: if_splits)
  ultimately show ?thesis using try_keys_world [OF assms(1-4)] by (simp add: tryCandidate_def ko rk)
qed

text \<open>Credentials never leave their pool: any property of the world that is preserved by the clock and by
  exchanges presenting a key of an enabled provider of the tenant to that provider's own base URL is
  preserved by the whole cascade. So no key is ever sent to another provider's address, and no key of a
  disabled provider is sent at all.\<close>

theorem only_pool_credentials:
  assumes "pool_step env byID P" "P w"
  shows "P (fst (cascade env byID snap body stream path w d attempts depth cands))"
  using assms(2)
proof (induction cands arbitrary: w d attempts depth)
  case (Cons cand cands)
  obtain w0 d0 ok where al: "breaker_Allow env w d (Candidate_Key cand) = (w0, d0, ok)" by (metis prod_cases3)
  have w0: "P w0" using al assms(1) Cons.prems
    by (auto simp: breaker_Allow_def pool_step_def Let_def split_def)
  note IH = Cons.IH
  have fl: "P (fst (breaker_Failure env w1 d1 k))" if "P w1" for w1 d1 k
    using that assms(1) by (auto simp: breaker_Failure_def pool_step_def Let_def split_def)
  show ?case
  proof (cases "ok \<and> usable (map_of byID (cd_ProviderID cand)) \<and>
      (\<exists>ad. Registry_Get (rt_registry env) (p_Kind (the (map_of byID (cd_ProviderID cand)))) = Some ad)")
    case False
    then show ?thesis using al IH [OF w0] by (auto simp: Let_def split: option.splits)
  next
    case True
    then obtain p ad where p: "map_of byID (cd_ProviderID cand) = Some p" "p_Enabled p"
      "Registry_Get (rt_registry env) (p_Kind p) = Some ad"
      by (auto simp: usable_def split: option.splits)
    have w1: "P w1" if "tryCandidate env ad p cand req w0 d0 = (w1, d1, a, r)" for req w1 d1 a r
      using tryCandidate_world [OF assms(1) p w0, of cand req d0] that by simp
    have "P (fst (cascade env byID snap body stream path w2 d2 ats n cands))"
      if "tryCandidate env ad p cand req w0 d0 = (w1, d1, a, r)"
        "breaker_Failure env w1 d1 (Candidate_Key cand) = (w2, d2)" for req w1 d1 a r w2 d2 ats n
      using fl [OF w1 [OF that(1)], of d1 "Candidate_Key cand"] that(2) IH by simp
    then show ?thesis using al True p w0 w1
      by (auto simp: Let_def split: option.splits sum.splits prod.splits try_result.splits)
  qed
qed simp

definition logging_adapter :: "(time \<times> Credential list) Adapter" where
  "logging_adapter = \<lparr> ad_Kind = ''openai'', ad_ListModels = (\<lambda>w cred. (w, Inr [])),
     ad_Do = (\<lambda>w cred r. ((fst w, cred # snd w), Some (example_response 429), None)) \<rparr>"

definition logging_env :: "(time \<times> Credential list) route_env" where
  "logging_env = \<lparr> rt_now = (\<lambda>w. (w, fst w)), rt_errText = (\<lambda>_. []), rt_store = example_reads,
     rt_registry = [(''openai'', logging_adapter)], rt_maxDepth = 5, rt_codec = example_codec \<rparr>"

theorem only_pool_credentials_witness:
  "list_all (\<lambda>c. cr_BaseURL c = ''http://up'' \<and> cr_APIKey c \<in> {''k1'', ''k2''})
     (snd (fst (cascade logging_env [(''p-a'', example_provider ''a'')] None ''b'' False ''/c'' (0, [])
      (NewDispatcher (New [] example_options) (NewBreaker 3 60 30 True)) [] 0 [example_candidate])))"
proof -
  let ?P = "\<lambda>w :: time \<times> Credential list.
    list_all (\<lambda>c. cr_BaseURL c = ''http://up'' \<and> cr_APIKey c \<in> {''k1'', ''k2''}) (snd w)"
  have "pool_step logging_env [(''p-a'', example_provider ''a'')] ?P"
    by (auto simp: pool_step_def logging_env_def logging_adapter_def example_provider_def Registry_Get_def
        split: if_splits)
  then show ?thesis by (rule only_pool_credentials) simp
qed

section \<open>Over an adapter that keeps its contract\<close>

context http_adapter
begin

lemma try_keys_statuses:
  assumes "ad_Do ad = exchange"
  shows "try_keys env ad p req w d a keys = (w', d', a', r) \<Longrightarrow>
    (\<forall>resp. r = Got resp \<longrightarrow> 200 \<le> rs_StatusCode resp \<and> rs_StatusCode resp < 300) \<and>
    (\<forall>err. r = Fatal err \<longrightarrow> (\<exists>e. err = ApiErr (WithCause (ResponseTooLarge 0) e)) \<or>
       (\<exists>resp. err = clientError (rt_codec env) resp \<and>
          400 \<le> rs_StatusCode resp \<and> rs_StatusCode resp < 500 \<and> rs_StatusCode resp \<noteq> 429))"
proof (induction keys arbitrary: w d a)
  case (Cons key keys)
  obtain w1 resp err where o: "exchange w \<lparr>cr_BaseURL = p_BaseURL p, cr_APIKey = key\<rparr> req = (w1, resp, err)"
    by (metis prod_cases3)
  obtain w2 d2 where pk: "park_key env w1 d (p_ID p) key (the resp) = (w2, d2)" by fastforce
  note IH = Cons.IH [of w2 d2 "note_response a resp err"]
  show ?case
  proof (cases err)
    case None
    then obtain x where x: "resp = Some x" using o never_silent by (cases resp) auto
    note st = success_status [OF o [unfolded None x]] client_status [OF o [unfolded None x]]
    show ?thesis using Cons.prems IH st unfolding try_keys_step assms o prod.case pk
      by (auto simp: None x err_is_def split: if_splits)
  next
    case (Some e)
    show ?thesis
    proof (cases resp)
      case None
      then show ?thesis using Cons.prems unfolding try_keys_step assms o prod.case
        by (auto simp: Some err_is_def split: if_splits)
    next
      case x: (Some x)
      from failed [OF o [unfolded Some x]] show ?thesis
        using Cons.prems unfolding try_keys_step assms o prod.case
        by (auto simp: Some x err_is_def split: if_splits)
    qed
  qed
qed simp

end

text \<open>Through the OpenAI adapter a candidate serves a request only with a 2xx answer, and ends it only with the
  provider's own 4xx other than 429, or because the response exceeded the size limit; every
  other answer moves on to the next key or the next candidate.\<close>

theorem openai_candidate_statuses:
  assumes "tryCandidate env (NewOpenAI uenv mx) p cand req w d = (w', d', a, r)"
  shows "(\<forall>resp. r = Got resp \<longrightarrow> 200 \<le> rs_StatusCode resp \<and> rs_StatusCode resp < 300) \<and>
    (\<forall>err. r = Fatal err \<longrightarrow> (\<exists>e. err = ApiErr (WithCause (ResponseTooLarge 0) e)) \<or>
       (\<exists>resp. err = clientError (rt_codec env) resp \<and>
          400 \<le> rs_StatusCode resp \<and> rs_StatusCode resp < 500 \<and> rs_StatusCode resp \<noteq> 429))"
proof -
  have ad: "ad_Do (NewOpenAI uenv mx) = OpenAI_Do uenv mx" by (simp add: NewOpenAI_def)
  show ?thesis using assms
    by (auto simp: tryCandidate_def split: prod.splits dest!: oa.try_keys_statuses [OF ad])
qed

theorem openai_candidate_statuses_witness:
  "\<exists>w' d' a resp. tryCandidate (example_env (None, None)) (NewOpenAI example_upstream 100) (example_provider ''a'')
      example_candidate example_chat 0 example_dispatcher = (w', d', a, Got resp) \<and> rs_StatusCode resp < 300"
proof -
  let ?t = "tryCandidate (example_env (None, None)) (NewOpenAI example_upstream 100) (example_provider ''a'')
      example_candidate example_chat 0 example_dispatcher"
  obtain w' d' a r where t: "?t = (w', d', a, r)" by (metis prod_cases4)
  have "(case snd (snd (snd ?t)) of Got x \<Rightarrow> True | _ \<Rightarrow> False)" by code_simp
  then obtain resp where "r = Got resp" using t by (cases r) auto
  then show ?thesis using openai_candidate_statuses [OF t] t by auto
qed

end
