(* ===== verification/Chat_Theorems.thy ===== *)
theory Chat_Theorems
  imports Chat Middleware_Theorems Dispatch_Theorems
begin

text \<open>
  What a chat completion promises: it is a handler the middleware can rely on, every answer is metered exactly once
  and no refusal is, a refused request reaches no provider, a cached answer is attributed to the model its
  key names, and a stream holds its concurrency permit exactly until its writer ends.
\<close>

section \<open>What each step leaves alone\<close>

lemma meter_event_frame [simp]:
  "sv_limiter (meter_event a b x s) = sv_limiter s" "sv_Config (meter_event a b x s) = sv_Config s"
  "sv_Store (meter_event a b x s) = sv_Store s" "sv_draining (meter_event a b x s) = sv_draining s"
  "gt_cache (meter_event a b x g) = gt_cache g" "gt_dispatcher (meter_event a b x g) = gt_dispatcher g"
  "gt_quotas (meter_event a b x g) = gt_quotas g" "gt_telemetry (meter_event a b x g) = gt_telemetry g"
  "gt_streams (meter_event a b x g) = gt_streams g" "gt_emitted (meter_event a b x g) = gt_emitted g"
  by (simp_all add: meter_event_def)

lemma foldl_frame:
  assumes "\<And>s x. f (g s x) = f s"
  shows "f (foldl g s xs) = f s"
  using assms by (induction xs arbitrary: s) simp_all

lemma meterCascade_frame [simp]:
  "sv_limiter (meterCascade t r s) = sv_limiter s" "sv_Config (meterCascade t r s) = sv_Config s"
  "sv_Store (meterCascade t r s) = sv_Store s" "sv_draining (meterCascade t r s) = sv_draining s"
  "gt_cache (meterCascade t r s) = gt_cache s" "gt_dispatcher (meterCascade t r s) = gt_dispatcher s"
  "gt_quotas (meterCascade t r s) = gt_quotas s" "gt_telemetry (meterCascade t r s) = gt_telemetry s"
  "gt_streams (meterCascade t r s) = gt_streams s" "gt_emitted (meterCascade t r s) = gt_emitted s"
  by (auto simp: meterCascade_def intro!: foldl_frame split: prod.splits)

lemma meter_usage_frame [simp]:
  "sv_limiter (meter_usage t r u x s) = sv_limiter s" "sv_Config (meter_usage t r u x s) = sv_Config s"
  "sv_Store (meter_usage t r u x s) = sv_Store s" "sv_draining (meter_usage t r u x s) = sv_draining s"
  "gt_cache (meter_usage t r u x s) = gt_cache s" "gt_dispatcher (meter_usage t r u x s) = gt_dispatcher s"
  "gt_quotas (meter_usage t r u x s) = gt_quotas s" "gt_telemetry (meter_usage t r u x s) = gt_telemetry s"
  "gt_streams (meter_usage t r u x s) = gt_streams s" "gt_emitted (meter_usage t r u x s) = gt_emitted s"
  by (simp_all add: meter_usage_def Let_def split: option.splits)

lemma metered_until_frame [simp]:
  "sv_limiter (metered_until t r u s) = sv_limiter s" "sv_Config (metered_until t r u s) = sv_Config s"
  "sv_Store (metered_until t r u s) = sv_Store s" "sv_draining (metered_until t r u s) = sv_draining s"
  "gt_cache (metered_until t r u s) = gt_cache s" "gt_telemetry (metered_until t r u s) = gt_telemetry s"
  "gt_streams (metered_until t r u s) = gt_streams s"
  by (simp_all add: metered_until_def Let_def split: option.splits)

lemma meter_event_ok:
  "metrics_ok (sv_metrics (meter_event series labels x s)) \<longleftrightarrow>
     metrics_ok (sv_metrics s) \<and> (sv_metrics s \<noteq> None \<longrightarrow> metric_ok (series, labels, x))"
  by (simp add: meter_event_def metrics_ok_add)

lemma meter_event_off [simp]: "sv_metrics (meter_event series labels x s) = None \<longleftrightarrow> sv_metrics s = None"
  by (simp add: meter_event_def)

lemma meterCascade_ok: "metrics_ok (sv_metrics (meterCascade t r s)) \<longleftrightarrow> metrics_ok (sv_metrics s)"
  by (auto simp: meterCascade_def meter_event_ok metric_ok_series split: prod.splits
      intro!: foldl_frame [where f = "\<lambda>s. metrics_ok (sv_metrics s)"])

lemma meter_usage_ok:
  "\<not> counter_panics s u \<Longrightarrow> metrics_ok (sv_metrics (meter_usage t r u x s)) \<longleftrightarrow> metrics_ok (sv_metrics s)"
  by (auto simp: meter_usage_def Let_def meterCascade_ok meter_event_ok metric_ok_series counter_panics_def split: option.splits)

lemma metered_until_ok: "metrics_ok (sv_metrics (metered_until t r u s)) \<longleftrightarrow> metrics_ok (sv_metrics s)"
  by (auto simp: metered_until_def Let_def meter_event_ok metric_ok_series split: option.splits)

definition untouched :: "'w Gateway \<Rightarrow> 'w Gateway \<Rightarrow> bool" where
  \<comment> \<open>what no step of a completion changes\<close>
  "untouched s s' \<longleftrightarrow> sv_limiter s' = sv_limiter s \<and> sv_Config s' = sv_Config s \<and> sv_Store s' = sv_Store s \<and>
     sv_draining s' = sv_draining s \<and> metrics_ok (sv_metrics s') = metrics_ok (sv_metrics s)"

lemma untouched_trans [trans]: "untouched s1 s2 \<Longrightarrow> untouched s2 s3 \<Longrightarrow> untouched s1 s3"
  by (simp add: untouched_def)

lemma telemetry_Record_frame:
  assumes "telemetry_Record env rec w s = (w', s')"
  shows "untouched s s'" "gt_cache s' = gt_cache s" "gt_dispatcher s' = gt_dispatcher s" "gt_quotas s' = gt_quotas s"
    "gt_streams s' = gt_streams s" "gt_telemetry s = None \<Longrightarrow> gt_telemetry s' = None"
  using assms by (auto simp: telemetry_Record_def untouched_def Let_def split: option.splits if_splits prod.splits)

lemma telemetry_row:
  assumes "telemetry_Record env rec w s = (w', s')" "gt_telemetry s = Some t" "length (te_ch t) < te_buffer t"
  shows "gt_telemetry s' = Some (t\<lparr>te_ch := te_ch t @ [rec]\<rparr>)"
  using assms by (auto simp: telemetry_Record_def Record_def)

lemma record_served_frame:
  assumes "record_served env who r requested u streamed status elapsed w s = (w', s')"
  shows "\<not> counter_panics s u \<Longrightarrow> untouched s s'" "gt_cache s' = gt_cache s" "gt_dispatcher s' = gt_dispatcher s" "gt_quotas s' = gt_quotas s"
    "gt_streams s' = gt_streams s"
  using assms meter_usage_ok [of s u "fst (snd (snd who))" r "CostUSD r u"] telemetry_Record_frame
    [of env "usage_record (sv_Config s) who r requested u streamed status elapsed (snd (ch_now env w))" "fst (ch_now env w)"
        "meter_usage (fst (snd (snd who))) r u (CostUSD r u) s" w' s']
  by (simp_all add: record_served_def untouched_def split_beta Let_def)

lemma record_served_row:
  assumes "record_served env who r requested u streamed status elapsed w s = (w', s')"
    and "gt_telemetry s = Some t" "length (te_ch t) < te_buffer t"
  shows "\<exists>now. gt_telemetry s' = Some (t\<lparr>te_ch := te_ch t @ [usage_record (sv_Config s) who r requested u streamed status elapsed now]\<rparr>)"
proof -
  have "telemetry_Record env (usage_record (sv_Config s) who r requested u streamed status elapsed (snd (ch_now env w)))
      (fst (ch_now env w)) (meter_usage (fst (snd (snd who))) r u (CostUSD r u) s) = (w', s')"
    using assms(1) by (simp add: record_served_def split_beta Let_def)
  from telemetry_row [OF this, of t] assms(2,3) show ?thesis by auto
qed

lemma cacheKeyFor_frame:
  assumes "cacheKeyFor env plan tid requested body w s = (w', s', key)"
  shows "\<exists>d. s' = s\<lparr>gt_dispatcher := d\<rparr>"
proof (cases "pl_lookup plan")
  case False
  then have "s' = s\<lparr>gt_dispatcher := gt_dispatcher s\<rparr>" using assms by (simp add: cacheKeyFor_def)
  then show ?thesis ..
next
  case True
  then show ?thesis using assms
    by (auto simp: cacheKeyFor_def Let_def split: prod.splits sum.splits)
qed

lemma cache_lookup_frame:
  assumes "cache_lookup env key w s = (w', s', e)"
  shows "\<exists>k. s' = s\<lparr>gt_cache := k\<rparr>"
proof (cases "gt_cache s")
  case None
  then have "s' = s\<lparr>gt_cache := None\<rparr>" using assms by (simp add: cache_lookup_def)
  then show ?thesis ..
next
  case (Some k)
  then show ?thesis using assms by (auto simp: cache_lookup_def Let_def split: prod.splits)
qed

lemma cache_store_frame:
  assumes "cache_store env tid key e ttl w s = (w', s')"
  shows "\<exists>k. s' = s\<lparr>gt_cache := k\<rparr>"
proof (cases "gt_cache s")
  case None
  then have "s' = s\<lparr>gt_cache := None\<rparr>" using assms by (simp add: cache_store_def)
  then show ?thesis ..
next
  case (Some k)
  then show ?thesis using assms by (auto simp: cache_store_def Let_def split: prod.splits)
qed

definition same_request :: "fctx \<Rightarrow> fctx \<Rightarrow> bool" where
  "same_request c c' \<longleftrightarrow> (identified c \<longrightarrow> identified c') \<and> c_requestID c' = c_requestID c \<and>
     c_clientRequestID c' = c_clientRequestID c \<and> c_key c' = c_key c \<and> c_tenant c' = c_tenant c"

lemma same_request_refl [simp]: "same_request c c"
  by (simp add: same_request_def)

lemma same_request_trans: "same_request c1 c2 \<Longrightarrow> same_request c2 c3 \<Longrightarrow> same_request c1 c3"
  by (simp add: same_request_def)

lemma same_request_who: "same_request c c' \<Longrightarrow> who_of c' = who_of c \<and> TenantID c' = TenantID c"
  by (simp add: same_request_def who_of_def TenantID_def keyPrefix_def)

lemma same_request_Set: "name \<noteq> HeaderRequestID \<Longrightarrow> same_request c (c_Set c name v)"
  by (simp add: same_request_def) (simp add: c_Set_def)

lemma same_request_outcome: "same_request c (c\<lparr>c_outcome := out\<rparr>)"
  by (simp add: same_request_def identified_def)

lemma same_request_status: "same_request c (c\<lparr>c_status := n\<rparr>)"
  by (simp add: same_request_def identified_def)

lemma same_request_stream: "same_request c (c\<lparr>c_slot := x, c_body := StreamBody\<rparr>)"
  by (simp add: same_request_def identified_def)

lemma same_request_Fail: "same_request c (Fail c e)"
  by (auto simp: same_request_def intro: identified_Fail identified_header)
    (auto simp: Fail_def Let_def c_Set_def setErrorCode_def)

lemma same_request_body: "(\<And>b. body \<noteq> ErrorBody b) \<Longrightarrow> same_request c (c\<lparr>c_status := st, c_body := body\<rparr>)"
  by (simp add: same_request_def identified_def)

lemmas header_names = HeaderRequestID_def HeaderServedBy_def HeaderFallbackDepth_def HeaderQuotaState_def HeaderCache_def
  HeaderDebugCapture_def HeaderClientRequestID_def HeaderRetryAfter_def

lemma same_request_steps:
  "same_request c (setCacheStatus c v)" "same_request c (applyRoutingHeaders c r)"
  "same_request c (reportOutcome c r requested u)" "same_request c (recordRejection c requested)"
  "same_request c (send_json c body)"
proof -
  show "same_request c (setCacheStatus c v)"
    unfolding setCacheStatus_def
    by (rule same_request_trans [OF same_request_Set same_request_outcome]) (simp add: header_names)
  show "same_request c (applyRoutingHeaders c r)"
    by (auto simp: applyRoutingHeaders_def Let_def header_names intro!: same_request_trans [OF same_request_Set same_request_Set]
        same_request_trans [OF same_request_trans [OF same_request_Set same_request_Set] same_request_Set])
  show "same_request c (reportOutcome c r requested u)"
    by (simp add: reportOutcome_def Let_def same_request_outcome)
  show "same_request c (recordRejection c requested)"
    by (simp add: recordRejection_def same_request_outcome)
  show "same_request c (send_json c body)"
    unfolding send_json_def by (rule same_request_trans [OF same_request_Set same_request_body]) (simp_all add: header_names)
qed

section \<open>The ways a completion ends\<close>

definition looked :: "'w Gateway \<Rightarrow> 'w Gateway \<Rightarrow> bool" where
  \<comment> \<open>the cache was looked into at most\<close>
  "looked s s' \<longleftrightarrow> (\<forall>k. gt_cache s = Some k \<longrightarrow>
     gt_cache s' = Some k \<or> (\<exists>now key. gt_cache s' = Some (fst (Cache_Get now key k))))"

lemma lookup_frame:
  assumes "(case key of None \<Rightarrow> (w3, s3, None) | Some (k, sb) \<Rightarrow> cache_lookup env k w3 s3) = (w4, s4, hit)"
  shows "untouched s3 s4" "gt_telemetry s4 = gt_telemetry s3" "gt_streams s4 = gt_streams s3"
    "gt_dispatcher s4 = gt_dispatcher s3" "looked s3 s4"
proof -
  show "looked s3 s4"
    using assms by (auto simp: looked_def cache_lookup_def Let_def split: option.splits prod.splits) (metis fst_conv)
  have "\<exists>k. s4 = s3\<lparr>gt_cache := k\<rparr>"
  proof (cases key)
    case None
    then have "s4 = s3\<lparr>gt_cache := gt_cache s3\<rparr>" using assms by simp
    then show ?thesis ..
  next
    case (Some a)
    then show ?thesis using assms cache_lookup_frame by (cases a) fastforce
  qed
  then show "untouched s3 s4" "gt_telemetry s4 = gt_telemetry s3" "gt_streams s4 = gt_streams s3"
    "gt_dispatcher s4 = gt_dispatcher s3" by (auto simp: untouched_def)
qed

lemma completion_cases:
  assumes "completion env tid requested body plan w s c = (w', s', c', fl)"
  obtains (hit) w2 w3 s3 k sb w4 s4 entry started where
      "cacheKeyFor env plan tid requested body w2 s = (w3, s3, Some (k, sb))"
      "cache_lookup env k w3 s3 = (w4, s4, Some entry)" "untouched s s4" "gt_telemetry s4 = gt_telemetry s"
      "gt_streams s4 = gt_streams s" "looked s s4" "serveFromCache env entry requested started w4 s4 c = (w', s', c', fl)"
  | (panicked) v where "untouched s s'" "gt_telemetry s' = gt_telemetry s" "gt_streams s' = gt_streams s"
      "looked s s'" "same_request c c'" "fl = Panic v"
  | (failed) err where "untouched s s'" "gt_telemetry s' = gt_telemetry s" "gt_streams s' = gt_streams s"
      "looked s s'" "c' = Fail (recordRejection c requested) err" "fl = Returned None"
  | (served) w2 w3 s3 key s5 r t started w6 w7 s7 w4 d4 w5 d5 where
      "cacheKeyFor env plan tid requested body w2 s = (w3, s3, key)" "untouched s s5"
      "gt_telemetry s5 = gt_telemetry s" "gt_streams s5 = gt_streams s" "looked s s5"
      "record_served env (who_of c) r requested (rs_Usage (dr_Response r)) False 200 (t - started) w6 s5 = (w7, s7)" "\<not> counter_panics s5 (rs_Usage (dr_Response r))"
      "(case key of
          Some (k, sb) \<Rightarrow>
            if ServedBy (dr_Candidate r) = sb
            then cache_store env tid k \<lparr> ce_Body = rs_Body (dr_Response r), ce_Provider = cd_Provider (dr_Candidate r),
                   ce_Model = cd_Model (dr_Candidate r) \<rparr> (pl_ttl plan) w7 s7
            else (w7, s7)
        | None \<Rightarrow> (w7, s7)) = (w', s')"
      "same_request c c'" "c_body c' = RawBody (rs_Body (dr_Response r))" "c_status c' = 200" "fl = Returned None"
      "Dispatch (route_env_of env s) w4 d4 tid requested body False ''/chat/completions'' = (w5, d5, Served r)"
proof -
  obtain w1 deadline where o: "opContext env w s c = (w1, deadline)" by fastforce
  obtain w2 started where n: "ch_now env w1 = (w2, started)" by fastforce
  obtain w3 s3 key where k: "cacheKeyFor env plan tid requested body w2 s = (w3, s3, key)" by (metis prod_cases3)
  have u3: "untouched s s3" "gt_telemetry s3 = gt_telemetry s" "gt_streams s3 = gt_streams s" "gt_cache s3 = gt_cache s"
    using cacheKeyFor_frame [OF k] by (auto simp: untouched_def)
  obtain w4 s4 found where l: "(case key of None \<Rightarrow> (w3, s3, None) | Some (k, sb) \<Rightarrow> cache_lookup env k w3 s3) = (w4, s4, found)"
    by (metis prod_cases3)
  note lf = lookup_frame [OF l]
  have u4: "untouched s s4" "gt_telemetry s4 = gt_telemetry s" "gt_streams s4 = gt_streams s" "looked s s4"
    using u3 lf untouched_trans [OF u3(1) lf(1)] by (auto simp: looked_def)
  show thesis
  proof (cases found)
    case (Some entry)
    then obtain kk sb where key: "key = Some (kk, sb)" using l by (cases key) auto
    have "serveFromCache env entry requested started w4 s4 c = (w', s', c', fl)"
      using assms o n k l Some by (simp add: completion_def)
    then show thesis using hit k l u4 key Some by auto
  next
    case None
    obtain w5 d out where d: "Dispatch (route_env_of env s4) w4 (gt_dispatcher s4) tid requested body False
        ''/chat/completions'' = (w5, d, out)" by (metis prod_cases3)
    let ?s5 = "s4\<lparr>gt_dispatcher := d\<rparr>"
    have u5: "untouched s ?s5" "gt_telemetry ?s5 = gt_telemetry s" "gt_streams ?s5 = gt_streams s" "looked s ?s5"
      using u4 by (auto simp: untouched_def looked_def)
    show thesis
    proof (cases out)
      case Panicked
      then have "s' = ?s5" "c' = c" "fl = Panic ''assignment to entry in nil map''"
        using assms o n k l None d by (simp_all add: completion_def)
      then show thesis using panicked [of "''assignment to entry in nil map''"] u5 by simp
    next
      case (Failed err)
      obtain w6 t where "ch_now env w5 = (w6, t)" by fastforce
      then have "s' = ?s5" "fl = Returned None"
        "c' = Fail (recordRejection c requested) (timeoutAware (t \<ge> deadline)
           (ef_RequestTimeout (limits_of ?s5 (recordRejection c requested))) err)"
        using assms o n k l None d Failed by (auto simp: completion_def Let_def)
      then show thesis using failed u5 by blast
    next
      case (Served r)
      obtain w6 t where t: "ch_now env w5 = (w6, t)" by fastforce
      let ?c2 = "reportOutcome (applyRoutingHeaders c r) r requested (rs_Usage (dr_Response r))"
      have c2: "same_request c ?c2" using same_request_trans [OF same_request_steps(2,3)] .
      show thesis
      proof (cases "counter_panics ?s5 (rs_Usage (dr_Response r))")
        case True
        then have p: "s' = metered_until (TenantID (applyRoutingHeaders c r)) r (rs_Usage (dr_Response r)) ?s5" "c' = ?c2" "fl = Panic decrease"
          using assms o n k l None d Served t by (auto simp: completion_def Let_def)
        have "untouched ?s5 s'" unfolding p(1) by (simp add: untouched_def metered_until_ok)
        then have "untouched s s'" using u5(1) untouched_trans by blast
        moreover have "gt_telemetry s' = gt_telemetry s" "gt_streams s' = gt_streams s" "looked s s'" using u5 p(1) by (simp_all add: looked_def)
        ultimately show thesis using panicked c2 p by simp
      next
      case calm: False
      obtain w7 s7 where m: "record_served env (who_of ?c2) r requested (rs_Usage (dr_Response r)) False 200
          (t - started) w6 ?s5 = (w7, s7)" by fastforce
      let ?st = "case key of
          Some (k, sb) \<Rightarrow>
            if ServedBy (dr_Candidate r) = sb
            then cache_store env tid k \<lparr> ce_Body = rs_Body (dr_Response r), ce_Provider = cd_Provider (dr_Candidate r),
                   ce_Model = cd_Model (dr_Candidate r) \<rparr> (pl_ttl plan) w7 s7
            else (w7, s7)
        | None \<Rightarrow> (w7, s7)"
      obtain w8 s8 where st: "?st = (w8, s8)" by fastforce
      have r: "w' = w8" "s' = s8" "fl = Returned None"
        "c' = send_json (if key = None then ?c2 else setCacheStatus ?c2 ''miss'') (rs_Body (dr_Response r))"
        using assms o n k l None d Served t m st calm
        by (simp_all add: completion_def Let_def meter_def split: if_splits)
      have "same_request c (if key = None then ?c2 else setCacheStatus ?c2 ''miss'')"
        using c2 same_request_trans [OF c2 same_request_steps(1)] by simp
      then have sr: "same_request c c'" unfolding r(4) by (rule same_request_trans) (rule same_request_steps(5))
      have m': "record_served env (who_of c) r requested (rs_Usage (dr_Response r)) False 200
          (t - started) w6 ?s5 = (w7, s7)" using m same_request_who [OF c2] by simp
      have st': "?st = (w', s')" using st r(1,2) by simp
      have b: "c_body c' = RawBody (rs_Body (dr_Response r))" "c_status c' = 200" using r(4) by (simp_all add: send_json_def)
      have "route_env_of env s4 = route_env_of env s" using u4(1) by (simp add: route_env_of_def untouched_def)
      then have "Dispatch (route_env_of env s) w4 (gt_dispatcher s4) tid requested body False ''/chat/completions'' = (w5, d, Served r)"
        using d Served by simp
      then show thesis by (rule served [OF k u5 m' calm st' sr b r(3)])
      qed
    qed
  qed
qed

lemma same_request_hit: "same_request c (hit_ctx c entry requested)"
proof -
  have s: "same_request c (c_Set (c_Set (setCacheStatus c ''hit'') HeaderServedBy x) HeaderFallbackDepth ''0'')" for x
    by (rule same_request_trans [OF same_request_trans [OF same_request_steps(1) same_request_Set] same_request_Set])
      (simp_all add: header_names)
  show ?thesis unfolding hit_ctx_def Let_def by (rule same_request_trans [OF s same_request_outcome])
qed

lemma record_hit_spec:
  assumes "record_hit env entry requested started c w s = (w', s')"
  shows "untouched s s'" "gt_cache s' = gt_cache s" "gt_streams s' = gt_streams s"
    "gt_telemetry s = Some t \<Longrightarrow> length (te_ch t) < te_buffer t \<Longrightarrow>
       \<exists>elapsed now. gt_telemetry s' = Some (t\<lparr>te_ch := te_ch t @ [cached_record c entry requested elapsed now]\<rparr>)"
proof -
  obtain w1 t1 where a: "ch_now env w = (w1, t1)" by fastforce
  obtain w2 t2 where b: "ch_now env w1 = (w2, t2)" by fastforce
  have r: "if gt_telemetry s = None then s' = s
      else telemetry_Record env (cached_record c entry requested (t1 - started) t2) w2 s = (w', s')"
    using assms a b by (auto simp: record_hit_def)
  note f = telemetry_Record_frame [of env "cached_record c entry requested (t1 - started) t2" w2 s w' s']
  show "untouched s s'" "gt_cache s' = gt_cache s" "gt_streams s' = gt_streams s"
    using r f(1,2,5) by (auto simp: untouched_def split: if_splits)
  show "\<exists>elapsed now. gt_telemetry s' = Some (t\<lparr>te_ch := te_ch t @ [cached_record c entry requested elapsed now]\<rparr>)"
    if "gt_telemetry s = Some t" "length (te_ch t) < te_buffer t"
    using r that telemetry_row [of env "cached_record c entry requested (t1 - started) t2" w2 s w' s' t] by auto
qed

lemma serveFromCache_spec:
  assumes "serveFromCache env entry requested started w s c = (w', s', c', fl)"
  shows "untouched s s'" "gt_cache s' = gt_cache s" "gt_streams s' = gt_streams s" "same_request c c'"
    "c_body c' = RawBody (ce_Body entry)" "c_status c' = 200" "fl = Returned None"
    "map_of (c_respHeaders c') HeaderCache = Some ''hit''"
    "map_of (c_respHeaders c') HeaderServedBy = Some (CacheEntry_ServedBy entry)"
    "gt_telemetry s = Some t \<Longrightarrow> length (te_ch t) < te_buffer t \<Longrightarrow>
       \<exists>elapsed now. gt_telemetry s' = Some (t\<lparr>te_ch := te_ch t @ [cached_record c entry requested elapsed now]\<rparr>)"
proof -
  let ?c1 = "hit_ctx c entry requested"
  have h: "record_hit env entry requested started ?c1 w s = (w', s')"
    and c': "c' = send_json ?c1 (ce_Body entry)" and fl: "fl = Returned None"
    using assms by (auto simp: serveFromCache_def Let_def split: prod.splits)
  note r = record_hit_spec [OF h]
  have "cached_record ?c1 entry requested e n = cached_record c entry requested e n" for e n
    using same_request_who [OF same_request_hit [of c entry requested]] by (simp add: cached_record_def who_of_def)
  then show "gt_telemetry s = Some t \<Longrightarrow> length (te_ch t) < te_buffer t \<Longrightarrow>
       \<exists>elapsed now. gt_telemetry s' = Some (t\<lparr>te_ch := te_ch t @ [cached_record c entry requested elapsed now]\<rparr>)"
    using r(4) by simp
  show "untouched s s'" "gt_cache s' = gt_cache s" "gt_streams s' = gt_streams s" using r(1-3) by auto
  show "same_request c c'" using c' same_request_trans [OF same_request_hit same_request_steps(5)] by simp
  show "c_body c' = RawBody (ce_Body entry)" "c_status c' = 200" "fl = Returned None"
    using c' fl by (simp_all add: send_json_def)
  show "map_of (c_respHeaders c') HeaderCache = Some ''hit''"
    "map_of (c_respHeaders c') HeaderServedBy = Some (CacheEntry_ServedBy entry)"
    by (simp_all add: c' send_json_def hit_ctx_def Let_def c_Set_def setCacheStatus_def header_names)
qed

lemma stream_ctx_spec:
  "same_request c (stream_ctx c r requested)" "c_slot (stream_ctx c r requested) = c_slot c"
  "c_status (stream_ctx c r requested) = 200"
proof -
  let ?c1 = "reportOutcome (applyRoutingHeaders c r) r requested None"
  let ?c2 = "c_Set (c_Set (c_Set (c_Set ?c1 ''Content-Type'' ''text/event-stream'') ''Cache-Control'' ''no-cache'')
               ''Connection'' ''keep-alive'') ''X-Accel-Buffering'' ''no''"
  have c1: "same_request c ?c1" using same_request_trans [OF same_request_steps(2,3)] .
  have "same_request c ?c2"
    by (rule same_request_trans [OF same_request_trans [OF same_request_trans [OF same_request_trans [OF c1
          same_request_Set] same_request_Set] same_request_Set] same_request_Set]) (simp_all add: HeaderRequestID_def)
  then show "same_request c (stream_ctx c r requested)"
    unfolding stream_ctx_def Let_def by (rule same_request_trans) (rule same_request_status)
  show "c_slot (stream_ctx c r requested) = c_slot c" "c_status (stream_ctx c r requested) = 200"
    by (simp_all add: stream_ctx_def reportOutcome_def applyRoutingHeaders_def Let_def)
qed

lemma streamCompletion_cases:
  assumes "streamCompletion env tid requested body w s c = (w', s', c', fl)"
  obtains (panicked) v where "untouched s s'" "gt_telemetry s' = gt_telemetry s" "gt_streams s' = gt_streams s"
      "c' = c" "fl = Panic v"
  | (failed) err where "untouched s s'" "gt_telemetry s' = gt_telemetry s" "gt_streams s' = gt_streams s"
      "c' = Fail (recordRejection c requested) err" "fl = Returned None"
  | (served) job where "untouched s s'" "gt_telemetry s' = gt_telemetry s" "gt_streams s' = gt_streams s @ [job]"
      "same_request c c'" "c_body c' = StreamBody" "c_status c' = 200" "fl = Returned None"
      "c_slot c' = map_option (sl_adopted_update (\<lambda>_. True)) (c_slot c)" "sj_release job = map_option sl_release (c_slot c)"
      "sj_requestID job = c_requestID c" "sj_clientRequestID job = c_clientRequestID c" "sj_tenantID job = tid"
      "sj_prefix job = keyPrefix c" "sj_requested job = requested"
proof -
  obtain w1 started where n: "ch_now env w = (w1, started)" by fastforce
  obtain w2 d out where d: "Dispatch (route_env_of env s) w1 (gt_dispatcher s) tid requested body True
      ''/chat/completions'' = (w2, d, out)" by (metis prod_cases3)
  let ?s2 = "s\<lparr>gt_dispatcher := d\<rparr>"
  have u: "untouched s ?s2" by (simp add: untouched_def)
  show thesis
  proof (cases out)
    case Panicked
    then have "s' = ?s2" "c' = c" "fl = Panic ''assignment to entry in nil map''"
      using assms n d by (simp_all add: streamCompletion_def)
    then show thesis using panicked u by simp
  next
    case (Failed err)
    then have "s' = ?s2" "fl = Returned None" "\<exists>e. c' = Fail (recordRejection c requested) e"
      using assms n d by (auto simp: streamCompletion_def Let_def)
    then show thesis using failed u by auto
  next
    case (Served r)
    let ?c3 = "stream_ctx c r requested"
    have sr: "same_request c ?c3" and slot: "c_slot ?c3 = c_slot c" and st: "c_status ?c3 = 200"
      using stream_ctx_spec by auto
    obtain c4 rel where a: "adoptSlot ?c3 = (c4, rel)" by fastforce
    have c4: "c4 = ?c3\<lparr>c_slot := map_option (sl_adopted_update (\<lambda>_. True)) (c_slot c)\<rparr>"
      "rel = map_option sl_release (c_slot c)"
      using a slot by (auto simp: adoptSlot_def slot_take_def split: option.splits)
    define job where "job = stream_job tid requested r started (ef_StreamIdleTimeout (limits_of ?s2 ?c3)) ?c3 rel"
    have "s' = ?s2\<lparr>gt_streams := gt_streams ?s2 @ [job]\<rparr> \<and> c' = c4\<lparr>c_body := StreamBody\<rparr> \<and> fl = Returned None"
      using assms n d Served a by (auto simp: streamCompletion_def job_def Let_def)
    then have res: "s' = ?s2\<lparr>gt_streams := gt_streams ?s2 @ [job]\<rparr>" "c' = c4\<lparr>c_body := StreamBody\<rparr>" "fl = Returned None"
      by auto
    have "same_request c c'" unfolding res(2) c4(1) by (rule same_request_trans [OF sr same_request_stream])
    moreover have "sj_requestID job = c_requestID c" "sj_clientRequestID job = c_clientRequestID c" "sj_prefix job = keyPrefix c"
      "sj_tenantID job = tid" "sj_requested job = requested" "sj_release job = map_option sl_release (c_slot c)"
      using sr c4(2) by (simp_all add: job_def stream_job_def same_request_def keyPrefix_def)
    moreover have "untouched s s'" "gt_telemetry s' = gt_telemetry s" "gt_streams s' = gt_streams s @ [job]"
      by (simp_all add: res(1) untouched_def)
    moreover have "c_body c' = StreamBody" "c_status c' = 200"
      "c_slot c' = map_option (sl_adopted_update (\<lambda>_. True)) (c_slot c)"
      using st by (simp_all add: res(2) c4(1))
    ultimately show thesis using served [of job] res(3) by blast
  qed
qed

lemma admitted_chat_cases:
  assumes "admitted_chat env ev body w s c = res"
  obtains payload plan c1 where "same_request c c1" "c_slot c1 = c_slot c"
    "(if env_Stream ev then streamCompletion env (TenantID c1) (env_Model ev) payload w s c1
      else completion env (TenantID c1) (env_Model ev) payload plan w s c1) = res"
proof -
  define plan where "plan = planCache (cfg_Cache (sv_Config s)) (gt_cache s) (c_tenant c) (c_Get c HeaderCache) ev"
  define c1 where "c1 = (if pl_header plan \<noteq> [] then setCacheStatus c (pl_header plan) else c)"
  have "same_request c c1" using same_request_steps(1) by (simp add: c1_def)
  moreover have "c_slot c1 = c_slot c" by (simp add: c1_def setCacheStatus_def)
  ultimately show thesis
    using that assms unfolding admitted_chat_def Let_def plan_def [symmetric] c1_def [symmetric] by blast
qed

lemma handleChat_cases:
  assumes "handleChatCompletions env w s c = (w', s', c', fl)"
  obtains (refused) c1 e where "same_request c c1" "c' = Fail c1 (ApiErr e)" "fl = Returned None" "untouched s s'"
      "gt_telemetry s' = gt_telemetry s" "gt_streams s' = gt_streams s" "gt_dispatcher s' = gt_dispatcher s"
      "gt_cache s' = gt_cache s"
  | (buffered) w1 s1 c1 model payload plan where "completion env (TenantID c) model payload plan w1 s1 c1 = (w', s', c', fl)"
      "same_request c c1" "untouched s s1" "gt_telemetry s1 = gt_telemetry s" "gt_streams s1 = gt_streams s"
      "gt_cache s1 = gt_cache s" "c_slot c1 = c_slot c"
  | (streamed) w1 s1 c1 model payload where "streamCompletion env (TenantID c) model payload w1 s1 c1 = (w', s', c', fl)"
      "same_request c c1" "untouched s s1" "gt_telemetry s1 = gt_telemetry s" "gt_streams s1 = gt_streams s"
      "gt_cache s1 = gt_cache s" "c_slot c1 = c_slot c"
proof (cases "c_reqBody c = []")
  case True
  then show thesis using refused [OF same_request_refl] assms
    by (auto simp: handleChatCompletions_def fail_with_def untouched_def)
next
  case body: False
  show thesis
  proof (cases "ch_envelope env (c_reqBody c)")
    case (Inl err)
    then show thesis using refused [OF same_request_refl] assms body
      by (auto simp: handleChatCompletions_def fail_with_def untouched_def)
  next
    case (Inr ev)
    show thesis
    proof (cases "env_Model ev = []")
      case True
      then show thesis using refused [OF same_request_refl] assms body Inr
        by (auto simp: handleChatCompletions_def fail_with_def untouched_def)
    next
      case model: False
      obtain w1 q es v where q: "evaluateQuota (sv_Config s) (usage_quota env w s) (ch_now env) w
          (requestScope c) (gt_quotas s) = (w1, q, es, v)" by (metis prod_cases4)
      let ?s1 = "s\<lparr>gt_quotas := q, gt_emitted := gt_emitted s @ es\<rparr>" and ?c1 = "c_Set c HeaderQuotaState (qv_State v)"
      have u: "untouched s ?s1" by (simp add: untouched_def)
      have c1: "same_request c ?c1" by (rule same_request_Set) (simp add: header_names)
      show thesis
      proof (cases "qv_Reject v")
        case (Some e)
        have "s' = ?s1 \<and> c' = Fail (recordRejection ?c1 (env_Model ev)) (ApiErr e) \<and> fl = Returned None"
          using assms body Inr model q Some by (simp add: handleChatCompletions_def fail_with_def)
        then show thesis using refused [OF same_request_trans [OF c1 same_request_steps(4)], of "env_Model ev" e] u by simp
      next
        case None
        have adm: "admitted_chat env ev (c_reqBody c) w1 ?s1 ?c1 = (w', s', c', fl)"
          using assms body Inr model q None by (simp add: handleChatCompletions_def)
        obtain payload plan c2 where c2: "same_request ?c1 c2" "c_slot c2 = c_slot ?c1"
          and r: "(if env_Stream ev then streamCompletion env (TenantID c2) (env_Model ev) payload w1 ?s1 c2
            else completion env (TenantID c2) (env_Model ev) payload plan w1 ?s1 c2) = (w', s', c', fl)"
          by (rule admitted_chat_cases [OF adm])
        note c2' = same_request_trans [OF c1 c2(1)]
        have slot: "c_slot c2 = c_slot c" using c2(2) by simp
        have tid: "TenantID c2 = TenantID c" using same_request_who [OF c2'] by simp
        show thesis
        proof (cases "env_Stream ev")
          case True
          then have "streamCompletion env (TenantID c) (env_Model ev) payload w1 ?s1 c2 = (w', s', c', fl)" using r tid by simp
          from streamed [OF this c2' u] slot show thesis by simp
        next
          case False
          then have "completion env (TenantID c) (env_Model ev) payload plan w1 ?s1 c2 = (w', s', c', fl)" using r tid by simp
          from buffered [OF this c2' u] slot show thesis by simp
        qed
      qed
    qed
  qed
qed

lemma rejected_same_request: "same_request c (Fail (recordRejection c requested) err)"
  by (rule same_request_trans [OF same_request_steps(4) same_request_Fail])

lemma served_store_frame:
  assumes "(case key of
      Some (k, sb) \<Rightarrow> if ServedBy (dr_Candidate r) = sb then cache_store env tid k e ttl w7 s7 else (w7, s7)
    | None \<Rightarrow> (w7, s7)) = (w', s')"
  shows "untouched s7 s'" "gt_telemetry s' = gt_telemetry s7" "gt_streams s' = gt_streams s7"
proof -
  have "s' = s7 \<or> (\<exists>k. s' = s7\<lparr>gt_cache := k\<rparr>)"
  proof (cases "(w7, s7) = (w', s')")
    case False
    then obtain k where "cache_store env tid k e ttl w7 s7 = (w', s')"
      using assms by (auto split: option.splits if_splits)
    from cache_store_frame [OF this] show ?thesis ..
  qed simp
  then show "untouched s7 s'" "gt_telemetry s' = gt_telemetry s7" "gt_streams s' = gt_streams s7"
    by (auto simp: untouched_def)
qed

lemma completion_frame:
  assumes "completion env tid requested body plan w s c = (w', s', c', fl)"
  shows "untouched s s' \<and> same_request c c'"
using assms
proof (cases rule: completion_cases)
  case (hit w2 w3 s3 k sb w4 s4 entry started)
  then show ?thesis using serveFromCache_spec(1,4) [OF hit(7)] untouched_trans by blast
next
  case (panicked v)
  then show ?thesis by simp
next
  case (failed err)
  then show ?thesis by (simp add: rejected_same_request)
next
  case (served w2 w3 s3 key s5 r t started w6 w7 s7 w4 d4 w5 d5)
  then show ?thesis
    using untouched_trans [OF served(2) untouched_trans [OF record_served_frame(1) [OF served(6,7)] served_store_frame(1) [OF served(8)]]]
    by simp
qed

lemma streamCompletion_frame:
  assumes "streamCompletion env tid requested body w s c = (w', s', c', fl)"
  shows "untouched s s' \<and> same_request c c'"
  using assms by (cases rule: streamCompletion_cases) (simp_all add: rejected_same_request)

lemma handleChat_frame:
  assumes "handleChatCompletions env w s c = (w', s', c', fl)"
  shows "untouched s s' \<and> same_request c c'"
using assms
proof (cases rule: handleChat_cases)
  case (refused c1 e)
  then show ?thesis using same_request_trans [OF refused(1) same_request_Fail] by simp
next
  case (buffered w1 s1 c1 model payload plan)
  then show ?thesis using completion_frame [OF buffered(1)] untouched_trans [of s s1 s'] same_request_trans [of c c1 c'] by simp
next
  case (streamed w1 s1 c1 model payload)
  then show ?thesis using streamCompletion_frame [OF streamed(1)] untouched_trans [of s s1 s'] same_request_trans [of c c1 c'] by simp
qed

interpretation chat: served_handler "handleChatCompletions env" for env
proof
  fix s c w
  obtain w' s' c' fl where r: "handleChatCompletions env w s c = (w', s', c', fl)" by (metis prod_cases4)
  then show "Middleware.kept s c (handleChatCompletions env w s c)"
    using handleChat_frame [OF r] by (auto simp: Middleware.kept_def untouched_def same_request_def)
qed

section \<open>Metering\<close>

definition answer_row :: "Config \<Rightarrow> fctx \<Rightarrow> UsageRecord \<Rightarrow> bool" where
  \<comment> \<open>a row for this request: a replayed answer costs nothing, any other is charged by the billing mode\<close>
  "answer_row cfg c rec \<longleftrightarrow> u_RequestID rec = c_requestID c \<and> u_TenantID rec = TenantID c \<and> u_KeyPrefix rec = keyPrefix c \<and>
     u_StatusCode rec = 200 \<and>
     (if u_Cached rec then u_TotalTokens rec = 0 \<and> u_CostUSD rec = 0 \<and> u_ChargeUSD rec = 0
      else u_ChargeUSD rec = Charge (cfg_Billing cfg) (u_CostUSD rec))"

lemma usage_record_row: "answer_row cfg c (usage_record cfg (who_of c) r requested u streamed 200 elapsed now)"
  by (simp add: answer_row_def usage_record_def who_of_def Let_def)

lemma cached_record_row: "answer_row cfg c (cached_record c entry requested elapsed now)"
  by (simp add: answer_row_def cached_record_def)

lemma answer_row_same: "same_request c c1 \<Longrightarrow> answer_row cfg c1 rec = answer_row cfg c rec"
  by (simp add: answer_row_def same_request_def TenantID_def keyPrefix_def)

definition metered :: "Config \<Rightarrow> fctx \<Rightarrow> Telemetry \<Rightarrow> 'w Gateway \<Rightarrow> 'w Gateway \<Rightarrow> fctx \<Rightarrow> flow \<Rightarrow> bool" where
  "metered cfg c t s s' c' fl \<longleftrightarrow>
     (case fl of
        Panic v \<Rightarrow> gt_telemetry s' = Some t \<and> gt_streams s' = gt_streams s
      | Returned err \<Rightarrow> err = None \<and>
          (case c_body c' of
             RawBody b \<Rightarrow> c_status c' = 200 \<and> gt_streams s' = gt_streams s \<and>
               (\<exists>rec. gt_telemetry s' = Some (t\<lparr>te_ch := te_ch t @ [rec]\<rparr>) \<and> answer_row cfg c rec \<and> \<not> u_Streamed rec)
           | StreamBody \<Rightarrow> c_status c' = 200 \<and> gt_telemetry s' = Some t \<and>
               (\<exists>job. gt_streams s' = gt_streams s @ [job] \<and> sj_requestID job = c_requestID c \<and>
                 sj_tenantID job = TenantID c \<and> sj_prefix job = keyPrefix c)
           | ErrorBody b \<Rightarrow> gt_telemetry s' = Some t \<and> gt_streams s' = gt_streams s
           | _ \<Rightarrow> False))"

lemma completion_metered:
  assumes "completion env tid requested body plan w s c = (w', s', c', fl)" "gt_telemetry s = Some t"
    "length (te_ch t) < te_buffer t" "tid = TenantID c"
  shows "metered (sv_Config s) c t s s' c' fl"
  using assms(1)
proof (cases rule: completion_cases)
  case (hit w2 w3 s3 k sb w4 s4 entry started)
  note h = serveFromCache_spec [OF hit(7)]
  have "gt_telemetry s4 = Some t" using hit(4) assms(2) by simp
  from h(10) [OF this assms(3)] obtain e n where
    "gt_telemetry s' = Some (t\<lparr>te_ch := te_ch t @ [cached_record c entry requested e n]\<rparr>)" by blast
  moreover have "\<not> u_Streamed (cached_record c entry requested e n)" by (simp add: cached_record_def)
  ultimately show ?thesis using h(3,5,6,7) hit(5) cached_record_row by (auto simp: metered_def)
next
  case (panicked v)
  then show ?thesis using assms(2) by (simp add: metered_def)
next
  case (failed err)
  then show ?thesis using assms(2) by (simp add: metered_def)
next
  case (served w2 w3 s3 key s5 r tm started w6 w7 s7 w4 d4 w5 d5)
  note f = served_store_frame [OF served(8)]
  have "gt_telemetry s5 = Some t" using served(3) assms(2) by simp
  from record_served_row [OF served(6) this assms(3)] obtain n where
    row: "gt_telemetry s7 = Some (t\<lparr>te_ch := te_ch t @ [usage_record (sv_Config s5) (who_of c) r requested
       (rs_Usage (dr_Response r)) False 200 (tm - started) n]\<rparr>)" by blast
  have "sv_Config s5 = sv_Config s" using served(2) by (simp add: untouched_def)
  moreover have "gt_streams s' = gt_streams s" using f(3) record_served_frame(5) [OF served(6)] served(4) by simp
  moreover define rec where "rec = usage_record (sv_Config s) (who_of c) r requested (rs_Usage (dr_Response r)) False 200
      (tm - started) n"
  moreover have "\<not> u_Streamed rec" "answer_row (sv_Config s) c rec"
    by (simp_all add: rec_def usage_record_row) (simp add: usage_record_def who_of_def Let_def)
  ultimately show ?thesis using f(2) row served(10-12) by (auto simp: metered_def)
qed

lemma streamCompletion_metered:
  assumes "streamCompletion env tid requested body w s c = (w', s', c', fl)" "gt_telemetry s = Some t" "tid = TenantID c"
  shows "metered cfg c t s s' c' fl"
  using assms(1) by (cases rule: streamCompletion_cases) (simp_all add: metered_def assms(2,3))

lemma metered_same:
  assumes "same_request c c1" "gt_streams s1 = gt_streams s" "metered cfg c1 t s1 s' c' fl"
  shows "metered cfg c t s s' c' fl"
  using assms same_request_who [OF assms(1)]
  by (auto simp: metered_def answer_row_same who_of_def split: flow.splits respBody.splits)


definition stream_usage :: "'w chat_env \<Rightarrow> streamJob \<Rightarrow> nat option \<Rightarrow> delivery list \<Rightarrow> 'w \<Rightarrow> TokenUsage option" where
  \<comment> \<open>the usage the upstream reported in the stream\<close>
  "stream_usage env job room ds w = rl_usage (fst (relaySSE (ch_usage env) (sj_idle job) (snd (ch_now env w)) room ds))"

definition given_back :: "streamJob \<Rightarrow> concurrencyLimiter \<Rightarrow> concurrencyLimiter" where
  "given_back job l = (case sj_release job of None \<Rightarrow> l | Some p \<Rightarrow> release p l)"

lemma run_stream_cases:
  assumes "run_stream env job room ds w s = (w', s', out, fl)"
  obtains (crashed) "counter_panics s (stream_usage env job room ds w)" "fl = Panic decrease"
      "s' = (metered_until (sj_tenantID job) (sj_result job) (stream_usage env job room ds w) s)\<lparr>sv_limiter := given_back job (sv_limiter s)\<rparr>"
  | (settled) e w2 w3 s3 where "\<not> counter_panics s (stream_usage env job room ds w)" "fl = Returned None"
      "record_served env (sj_requestID job, sj_clientRequestID job, sj_tenantID job, sj_prefix job) (sj_result job) (sj_requested job)
         (stream_usage env job room ds w) True 200 e w2 s = (w3, s3)" "s' = s3\<lparr>sv_limiter := given_back job (sv_limiter s3)\<rparr>"
proof -
  have eta: "x\<lparr>sv_limiter := sv_limiter x\<rparr> = x" for x :: "'w Gateway" by simp
  show thesis
  proof (cases "counter_panics s (stream_usage env job room ds w)")
    case True
    then show thesis using assms crashed
      by (auto simp: run_stream_def stream_usage_def given_back_def Let_def split: prod.splits option.splits)
  next
    case False
    then show thesis using assms settled
      by (auto simp: run_stream_def stream_usage_def given_back_def Let_def eta split: prod.splits option.splits)
  qed
qed


section \<open>Whose answer the cache replays\<close>

definition honest :: "(string \<Rightarrow> string) \<Rightarrow> Cache \<Rightarrow> bool" where
  \<comment> \<open>every item was filed under a key that names its own tenant and the model that produced it\<close>
  "honest sha k \<longleftrightarrow> wf_cache k \<and> (\<forall>it \<in> set (cached k). CHR 0x00 \<notin> set (it_tenant it) \<and>
     (\<exists>canon. it_key it = sha (it_tenant it @ CHR 0x00 # CacheEntry_ServedBy (it_entry it) @ CHR 0x00 # canon)))"

lemma spec_get_subset: "set (fst (spec_get now key xs)) \<subseteq> set xs"
  by (auto simp: spec_get_def Let_def find_Some_iff split: option.splits if_splits)

lemma Cache_Get_spec:
  assumes "wf_cache k"
  shows "wf_cache (fst (Cache_Get now key k))" "cached (fst (Cache_Get now key k)) = fst (spec_get now key (cached k))"
    "snd (Cache_Get now key k) = snd (spec_get now key (cached k))"
  using Cache_Get_refines [OF assms, of now key "fst (Cache_Get now key k)" "snd (Cache_Get now key k)"]
  by (auto simp: prod_eq_iff)

lemma honest_get: "honest sha k \<Longrightarrow> honest sha (fst (Cache_Get now key k))"
  using Cache_Get_spec(1,2) [of k now key] spec_get_subset [of now key "cached k"] by (auto simp: honest_def)

lemma honest_looked: "looked s s' \<Longrightarrow> gt_cache s = Some k \<Longrightarrow> honest sha k \<Longrightarrow> \<exists>k'. gt_cache s' = Some k' \<and> honest sha k'"
  using honest_get by (auto simp: looked_def)

lemma spec_put_subset: "set (spec_put m it xs) \<subseteq> insert it (set xs)"
proof -
  obtain n where "spec_put m it xs = take n (it # filter (\<lambda>x. it_key x \<noteq> it_key it) xs)"
    using fit_take by (auto simp: spec_put_def)
  then show ?thesis using set_take_subset [of n "it # filter (\<lambda>x. it_key x \<noteq> it_key it) xs"] by auto
qed

lemma honest_put:
  assumes "honest sha k" "CHR 0x00 \<notin> set tid"
    and "key = sha (tid @ CHR 0x00 # CacheEntry_ServedBy e @ CHR 0x00 # canon)"
  shows "honest sha (Cache_Put now tid key e ttl k)"
proof -
  let ?it = "\<lparr> it_key = key, it_tenant = tid, it_entry = e, it_expires = now + ttl, it_size = entry_size key e \<rparr>"
  have wf: "wf_cache k" using assms(1) by (simp add: honest_def)
  have "set (cached (Cache_Put now tid key e ttl k)) \<subseteq> insert ?it (set (cached k))"
    using Cache_Put_refines [OF wf, of now tid key e ttl] spec_put_subset [of "rc_maxBytes k" ?it "cached k"] by auto
  then have "it = ?it \<or> it \<in> set (cached k)" if "it \<in> set (cached (Cache_Put now tid key e ttl k))" for it using that by blast
  moreover have "CHR 0x00 \<notin> set (it_tenant ?it) \<and>
     (\<exists>canon. it_key ?it = sha (it_tenant ?it @ CHR 0x00 # CacheEntry_ServedBy (it_entry ?it) @ CHR 0x00 # canon))"
    using assms(2,3) by auto
  moreover have "wf_cache (Cache_Put now tid key e ttl k)" using Cache_Put_refines [OF wf] by simp
  ultimately show ?thesis using assms(1) unfolding honest_def by metis
qed

lemma cacheKeyFor_key:
  assumes "cacheKeyFor env plan tid requested body w s = (w', s', Some (key, sb))"
  shows "\<exists>canon. key = ge_sha256 (ch_ge env) (tid @ CHR 0x00 # sb @ CHR 0x00 # canon)"
  using assms by (auto simp: cacheKeyFor_def Cache_Key_def Let_def split: if_splits sum.splits prod.splits)

lemma honest_hit:
  assumes "honest sha k" "CHR 0x00 \<notin> set tid" "inj sha" "key = sha (tid @ CHR 0x00 # rest)"
    and "snd (Cache_Get now key k) = Some entry"
  shows "\<exists>it \<in> set (cached k). it_entry it = entry \<and> it_tenant it = tid \<and> now < it_expires it"
proof -
  have "wf_cache k" using assms(1) by (simp add: honest_def)
  then have "snd (spec_get now key (cached k)) = Some entry" using Cache_Get_spec(3) [of k now key] assms(5) by simp
  then obtain it where f: "find (\<lambda>it. it_key it = key) (cached k) = Some it" and e: "it_entry it = entry" "now < it_expires it"
    by (auto simp: spec_get_def Let_def split: option.splits if_splits)
  have it: "it \<in> set (cached k)" "it_key it = key" using f by (auto simp: find_Some_iff)
  obtain c2 where "it_key it = sha (it_tenant it @ CHR 0x00 # c2)" and z: "CHR 0x00 \<notin> set (it_tenant it)"
    using assms(1) it(1) by (auto simp: honest_def)
  then have "tid @ CHR 0x00 # rest = it_tenant it @ CHR 0x00 # c2" using assms(3,4) it(2) by (simp add: inj_eq)
  then have "it_tenant it = tid" using append_sep_inject [OF assms(2) z] by simp
  then show ?thesis using it(1) e by blast
qed

lemma cache_lookup_hit:
  assumes "cache_lookup env key w s = (w', s', Some entry)"
  obtains k now where "gt_cache s = Some k" "snd (Cache_Get now key k) = Some entry"
  using assms by (auto simp: cache_lookup_def Let_def split: option.splits prod.splits) (metis snd_conv)

definition rightful :: "'w chat_env \<Rightarrow> 'w Gateway \<Rightarrow> string \<Rightarrow> Cache \<Rightarrow> fctx \<Rightarrow> flow \<Rightarrow> bool" where
  \<comment> \<open>a buffered answer is an upstream's answer to this tenant's dispatch, or a live item this tenant filed\<close>
  "rightful env s tid k c' fl \<longleftrightarrow> (\<forall>b. fl = Returned None \<and> c_body c' = RawBody b \<longrightarrow>
     (\<exists>w d model payload w' d' r. Dispatch (route_env_of env s) w d tid model payload False ''/chat/completions'' = (w', d', Served r) \<and>
        b = rs_Body (dr_Response r)) \<or>
     (\<exists>it \<in> set (cached k). b = ce_Body (it_entry it) \<and> it_tenant it = tid \<and>
        map_of (c_respHeaders c') HeaderServedBy = Some (CacheEntry_ServedBy (it_entry it))))"

lemma cache_store_honest:
  assumes "(case key of
      Some (k, sb) \<Rightarrow> if ServedBy (dr_Candidate r) = sb then cache_store env tid k
          \<lparr> ce_Body = b, ce_Provider = cd_Provider (dr_Candidate r), ce_Model = cd_Model (dr_Candidate r) \<rparr> ttl w7 s7 else (w7, s7)
    | None \<Rightarrow> (w7, s7)) = (w', s')"
    and "\<And>k sb. key = Some (k, sb) \<Longrightarrow> \<exists>canon. k = sha (tid @ CHR 0x00 # sb @ CHR 0x00 # canon)"
    and "gt_cache s7 = Some k7" "honest sha k7" "CHR 0x00 \<notin> set tid"
  shows "\<exists>k'. gt_cache s' = Some k' \<and> honest sha k'"
proof (cases "(w7, s7) = (w', s')")
  case True
  then show ?thesis using assms(3,4) by simp
next
  case False
  let ?e = "\<lparr> ce_Body = b, ce_Provider = cd_Provider (dr_Candidate r), ce_Model = cd_Model (dr_Candidate r) \<rparr>"
  obtain k sb where k: "key = Some (k, sb)" "ServedBy (dr_Candidate r) = sb" "cache_store env tid k ?e ttl w7 s7 = (w', s')"
    using assms(1) False by (auto split: option.splits if_splits)
  obtain now where "gt_cache s' = Some (Cache_Put now tid k ?e ttl k7)"
    using k(3) assms(3) by (auto simp: cache_store_def Let_def split: prod.splits)
  moreover obtain canon where "k = sha (tid @ CHR 0x00 # CacheEntry_ServedBy ?e @ CHR 0x00 # canon)"
    using assms(2) [OF k(1)] k(2) by (auto simp: CacheEntry_ServedBy_def ServedBy_def)
  ultimately show ?thesis using honest_put [OF assms(4,5)] by blast
qed


lemma completion_rightful:
  assumes "completion env tid requested body plan w s c = (w', s', c', fl)" "gt_cache s = Some k"
    and "honest (ge_sha256 (ch_ge env)) k" "inj (ge_sha256 (ch_ge env))" "CHR 0x00 \<notin> set tid"
  shows "(\<exists>k'. gt_cache s' = Some k' \<and> honest (ge_sha256 (ch_ge env)) k') \<and> rightful env s tid k c' fl"
  using assms(1)
proof (cases rule: completion_cases)
  case (hit w2 w3 s3 key sb w4 s4 entry started)
  note h = serveFromCache_spec [OF hit(7)]
  have "gt_cache s3 = Some k" using cacheKeyFor_frame [OF hit(1)] assms(2) by auto
  then obtain now where g: "snd (Cache_Get now key k) = Some entry" using cache_lookup_hit [OF hit(2)] by auto
  obtain canon where "key = ge_sha256 (ch_ge env) (tid @ CHR 0x00 # sb @ CHR 0x00 # canon)"
    using cacheKeyFor_key [OF hit(1)] by blast
  from honest_hit [OF assms(3,5,4) this g] obtain it where "it \<in> set (cached k)" "it_entry it = entry" "it_tenant it = tid" by blast
  then have "rightful env s tid k c' fl" using h(5,9) by (auto simp: rightful_def)
  then show ?thesis using honest_looked [OF hit(6) assms(2,3)] h(2) by simp
next
  case (panicked v)
  then show ?thesis using honest_looked [OF panicked(4) assms(2,3)] by (simp add: rightful_def)
next
  case (failed err)
  then show ?thesis using honest_looked [OF failed(4) assms(2,3)] by (simp add: rightful_def)
next
  case (served w2 w3 s3 key s5 r tm started w6 w7 s7 w4 d4 w5 d5)
  obtain k5 where "gt_cache s5 = Some k5" "honest (ge_sha256 (ch_ge env)) k5" using honest_looked [OF served(5) assms(2,3)] by blast
  then have "\<exists>k'. gt_cache s' = Some k' \<and> honest (ge_sha256 (ch_ge env)) k'"
    using cache_store_honest [OF served(8) cacheKeyFor_key] served(1) record_served_frame(2) [OF served(6)] assms(5)
    by fastforce
  moreover have "rightful env s tid k c' fl" using served(10,13) unfolding rightful_def by (metis respBody.inject(3))
  ultimately show ?thesis ..
qed


lemma streamCompletion_cache:
  assumes "streamCompletion env tid requested body w s c = (w', s', c', fl)"
  shows "gt_cache s' = gt_cache s"
  using assms by (auto simp: streamCompletion_def Let_def split: prod.splits outcome.splits)

lemma rightful_route:
  assumes "untouched s s1"
  shows "rightful env s1 tid k c' fl = rightful env s tid k c' fl"
proof -
  have "route_env_of env s1 = route_env_of env s" using assms by (simp add: route_env_of_def untouched_def)
  then show ?thesis by (simp add: rightful_def)
qed


section \<open>Over quota\<close>

text \<open>The inputs of the witnesses below: a codec of the simplest kind, a provider that answers, a tenant's request.\<close>

definition example_chat_env :: "time chat_env" where
  "example_chat_env = \<lparr> ch_ge = example_genv, ch_errText = (\<lambda>_. []),
     ch_registry = [(''openai'', example_adapter [example_model ''m1''] (None, None))], ch_codec = example_codec,
     ch_cacheCodec = example_cc, ch_envelope = (\<lambda>b. Inr \<lparr> env_Model = b, env_Stream = False, env_Temperature = Absent,
       env_TopP = Absent, env_N = Absent \<rparr>), ch_messages = (\<lambda>_. Inr []), ch_array = (\<lambda>xs. Inr (concat xs)),
     ch_usage = (\<lambda>_. Inr None), ch_body = (\<lambda>_. Inr []), ch_usageStore = (\<lambda>_. memory_usage) \<rparr>"

definition example_gateway :: "time Gateway" where
  "example_gateway = Server.extend (example_server (NewMemory False))
     (Gateway.fields (newQuotaCache 0) (Some (NewCache 1000 100)) example_dispatcher (Some (NewTelemetry 10)) [] [] \<lparr> hk_ttl = 0, hk_entries = [] \<rparr>)"

definition example_chat_call :: fctx where
  "example_chat_call = (new_ctx ''POST'' ''/v1/chat/completions'' [] [] ''m1'')\<lparr>c_tenant := Some (new_tenant ''t1'' ''acme'' 5)\<rparr>"

lemmas example_chat = example_chat_env_def example_gateway_def example_chat_call_def example_server_def
  Server.defs Gateway.defs


definition example_job :: streamJob where
  "example_job = \<lparr> sj_requestID = ''req_1'', sj_clientRequestID = [], sj_tenantID = ''t1'', sj_prefix = ''cg-1'',
     sj_result = \<lparr> dr_Response = example_response 200, dr_Candidate = example_candidate, dr_Depth = 0, dr_Attempts = [], dr_Snapshot = None \<rparr>,
     sj_requested = ''m1'', sj_started = 3, sj_idle = 60 * Second, sj_release = Some 0 \<rparr>"



definition example_over :: "time Gateway" where
  "example_over = example_gateway\<lparr>gt_quotas := (newQuotaCache 0)\<lparr>qc_entries :=
     [(cacheKey (requestScope example_chat_call), \<lparr> qe_state = QuotaHardExceeded, qe_binding = example_slot, qe_expires = 100 \<rparr>)]\<rparr>\<rparr>"

text \<open>A request the quota refuses costs nothing: when the evaluation of its scope rejects, the handler answers
  with that error and status 429 and the state the evaluation found, and the dispatcher, its breakers and cooldowns, the response cache, the
  usage queue, the streams and the store are all exactly as before.\<close>

theorem over_quota_never_dispatched:
  assumes "c_reqBody c \<noteq> []" "ch_envelope env (c_reqBody c) = Inr ev" "env_Model ev \<noteq> []"
    and "evaluateQuota (sv_Config s) (usage_quota env w s) (ch_now env) w (requestScope c) (gt_quotas s) = (w1, q, es, v)"
    and "qv_Reject v = Some e"
  shows "\<exists>c'. handleChatCompletions env w s c = (w1, s\<lparr>gt_quotas := q, gt_emitted := gt_emitted s @ es\<rparr>, c', Returned None) \<and>
    c_status c' = e_Status e \<and> e_Status e = 429 \<and> qv_State v = QuotaHardExceeded \<and>
    map_of (c_respHeaders c') HeaderQuotaState = Some (qv_State v) \<and> oc_ErrorCode (c_outcome c') = e_Code e"
proof -
  have v: "e_Status e = 429" "qv_State v = QuotaHardExceeded"
    using assms(4,5)
    by (auto simp: evaluateQuota_def verdict_of_def BudgetExceeded_def QuotaExceeded_def newErr_def Let_def
        split: if_splits sum.splits prod.splits)
  let ?c1 = "recordRejection (c_Set c HeaderQuotaState (qv_State v)) (env_Model ev)"
  have "map_of (c_respHeaders (Fail ?c1 (ApiErr e))) HeaderQuotaState = Some (qv_State v)"
    by (simp add: Fail_def recordRejection_def Let_def c_Set_def setErrorCode_def header_names)
  moreover have "handleChatCompletions env w s c = (w1, s\<lparr>gt_quotas := q, gt_emitted := gt_emitted s @ es\<rparr>, Fail ?c1 (ApiErr e), Returned None)"
    using assms by (simp add: handleChatCompletions_def fail_with_def)
  ultimately show ?thesis using v by simp
qed


theorem over_quota_never_dispatched_witness:
  "\<exists>w' s' c'. handleChatCompletions example_chat_env 7 example_over example_chat_call = (w', s', c', Returned None) \<and>
     c_status c' = 429 \<and> gt_dispatcher s' = example_dispatcher \<and> gt_telemetry s' = Some (NewTelemetry 10)"
proof -
  define scope where "scope = requestScope example_chat_call"
  obtain w1 q es v where q: "evaluateQuota (sv_Config example_over) (usage_quota example_chat_env 7 example_over)
      (ch_now example_chat_env) 7 scope (gt_quotas example_over) = (w1, q, es, v)" by (metis prod_cases4)
  have t: "qs_tenantID scope = ''t1''"
    by (simp add: scope_def requestScope_def example_chat TenantID_def new_tenant_def new_ctx_def Let_def)
  have v: "qv_Reject v \<noteq> None"
  proof -
    let ?entry = "\<lparr> qe_state = QuotaHardExceeded, qe_binding = example_slot, qe_expires = 100 \<rparr>"
    have f: "fresh_entry (gt_quotas example_over) (cacheKey scope) 7 = Some ?entry"
      by (simp add: example_over_def scope_def fresh_entry_def)
    have n: "ch_now example_chat_env x = (x + 1, x)" for x by (simp add: example_chat_env_def example_genv_def)
    have "qc_Enforcement (cfg_Quotas (sv_Config example_over)) = ''on''" by (simp add: example_over_def example_chat Default_def)
    then show ?thesis using q t by (auto simp: evaluateQuota_def quota_get_def n f verdict_of_def)
  qed
  then obtain e where e: "qv_Reject v = Some e" by blast
  have b: "c_reqBody example_chat_call \<noteq> []" "ch_envelope example_chat_env (c_reqBody example_chat_call) =
      Inr \<lparr> env_Model = ''m1'', env_Stream = False, env_Temperature = Absent, env_TopP = Absent, env_N = Absent \<rparr>"
    by (simp_all add: example_chat new_ctx_def)
  from over_quota_never_dispatched [OF b _ q [unfolded scope_def] e] show ?thesis
    by (auto simp: example_over_def example_chat)
qed

end
