(* ===== verification/Admin_Theorems.thy ===== *)
theory Admin_Theorems
  imports Admin Store_Theorems Chat_Theorems
begin

text \<open>
  What the control plane may do to the store.

  \<open>admin_write\<close> is the specification: one rule per write, with the authority the calling key must have and the validity the
  written value must have. \<open>performs\<close> relates a handler to it, and every handler of the route table performs only such
  writes. Two consequences follow by rule induction: a key that is not root changes nothing outside its own tenant and
  creates no key with more authority than itself, and the configuration in the store stays well typed.
\<close>

section \<open>Valid configuration\<close>

definition valid_tenant :: "Config \<Rightarrow> Tenant \<Rightarrow> bool" where
  "valid_tenant cfg t \<longleftrightarrow> t_Name t \<noteq> [] \<and> t_Status t \<in> {''active'', ''suspended''} \<and>
     (t_Limits t = no_limits \<or> validateTenantLimits cfg (t_Limits t) = None) \<and> 0 \<le> tc_TTLSeconds (t_Cache t) \<and>
     0 \<le> dc_TTLSeconds (t_DebugCapture t) \<and> 0 \<le> dc_SampleRate (t_DebugCapture t) \<and> dc_SampleRate (t_DebugCapture t) \<le> 1"

definition valid_key :: "APIKey \<Rightarrow> bool" where
  "valid_key k \<longleftrightarrow>
     k_Plane k = PlaneData \<and> k_Scope k = [] \<and> k_TenantID k \<noteq> [] \<or>
     k_Plane k = PlaneAdmin \<and> (k_Scope k = ScopeRoot \<or> k_TenantID k \<noteq> [] \<and> k_Scope k = ''tenant:'' @ k_TenantID k)"

definition valid_keys :: "string list \<Rightarrow> bool" where
  "valid_keys ks \<longleftrightarrow> ks \<noteq> [] \<and> [] \<notin> set ks"

definition valid_strategy :: "string \<Rightarrow> bool" where
  "valid_strategy x \<longleftrightarrow> x = KeyStrategyRoundRobin \<or> x = KeyStrategyFailover"

definition valid_provider :: "Provider \<Rightarrow> bool" where
  "valid_provider p \<longleftrightarrow> p_Name p \<noteq> [] \<and> valid_keys (p_Keys p) \<and> valid_strategy (p_KeyStrategy p)"

definition valid_patch :: "ProviderPatch \<Rightarrow> bool" where
  "valid_patch p \<longleftrightarrow> pred_option valid_keys (pp_Keys p) \<and> pred_option valid_strategy (pp_KeyStrategy p)"

definition valid_alias :: "Alias \<Rightarrow> bool" where
  "valid_alias a \<longleftrightarrow> AliasNamePattern (a_Name a) \<and> a_CostTier a \<in> {[], ''cheapest'', ''balanced'', ''best''}"

definition valid_route :: "Config \<Rightarrow> Route \<Rightarrow> bool" where
  "valid_route cfg r \<longleftrightarrow> r_Match r \<noteq> [] \<and> r_Chain r \<noteq> [] \<and> [] \<notin> set (r_Chain r) \<and> distinct (r_Chain r) \<and>
     int (length (r_Chain r)) \<le> ro_MaxFallbackDepth (cfg_Routing cfg)"

definition valid_limit :: "QuotaLimit \<Rightarrow> bool" where
  "valid_limit l \<longleftrightarrow> 0 \<le> ql_Cap l \<and> 1 \<le> ql_SoftThresholdPct l \<and> ql_SoftThresholdPct l \<le> 100"

definition valid_window :: "QuotaWindow \<Rightarrow> bool" where
  "valid_window qw \<longleftrightarrow> pred_option valid_limit (qw_Tokens qw) \<and> pred_option valid_limit (qw_Cost qw) \<and>
     pred_option valid_limit (qw_Requests qw)"

definition valid_quota :: "Quota \<Rightarrow> bool" where
  "valid_quota q \<longleftrightarrow> \<not> Quota_Empty q \<and> valid_window (q_Day q) \<and> valid_window (q_Month q)"

definition valid_webhook :: "Webhook \<Rightarrow> bool" where
  "valid_webhook h \<longleftrightarrow> 16 \<le> length (w_Secret h) \<and> w_Events h \<noteq> [] \<and> set (w_Events h) \<subseteq> set event_Registry"

section \<open>The writes of the control plane\<close>

definition may_reach :: "APIKey \<Rightarrow> string \<Rightarrow> bool" where
  "may_reach key tid \<longleftrightarrow> k_Scope key = ScopeRoot \<or> TrimPrefix (k_Scope key) ''tenant:'' = tid"

definition may_grant :: "APIKey \<Rightarrow> string \<Rightarrow> Plane \<Rightarrow> string \<Rightarrow> bool" where
  \<comment> \<open>the scopes a key of the plane may be minted with\<close>
  "may_grant key tid plane scope \<longleftrightarrow>
     plane = PlaneData \<and> scope = [] \<and> tid \<noteq> [] \<or>
     plane = PlaneAdmin \<and> (scope = ''tenant:'' @ tid \<and> tid \<noteq> [] \<or> scope = ScopeRoot \<and> k_Scope key = ScopeRoot)"

inductive admin_write :: "Config \<Rightarrow> APIKey \<Rightarrow> Memory \<Rightarrow> Memory \<Rightarrow> bool" for cfg key where
  tenant: "k_Scope key = ScopeRoot \<Longrightarrow> CreateTenant t tid name m = Inr (m', tn) \<Longrightarrow> admin_write cfg key m m'"
| tenant_patch: "k_Scope key = ScopeRoot \<Longrightarrow> patch_refused cfg p = None \<Longrightarrow> UpdateTenant tid p m = Inr (m', tn) \<Longrightarrow> admin_write cfg key m m'"
| tenant_drop: "k_Scope key = ScopeRoot \<Longrightarrow> DeleteTenant tid m = Inr m' \<Longrightarrow> admin_write cfg key m m'"
| mint: "may_reach key tid \<Longrightarrow> may_grant key tid plane scope \<Longrightarrow>
    CreateAPIKey h t kid token tid plane name scope ex m = Inr (m', k, plaintext) \<Longrightarrow> admin_write cfg key m m'"
| revoke: "may_reach key tid \<Longrightarrow> RevokeAPIKey t tid kid m = Inr m' \<Longrightarrow> admin_write cfg key m m'"
| provider: "may_reach key (p_TenantID p) \<Longrightarrow> valid_provider p \<Longrightarrow> CreateProvider t pid p m = Inr (m', p') \<Longrightarrow> admin_write cfg key m m'"
| provider_patch: "may_reach key tid \<Longrightarrow> valid_patch patch \<Longrightarrow> UpdateProvider tid pid patch m = Inr (m', p') \<Longrightarrow> admin_write cfg key m m'"
| provider_drop: "may_reach key tid \<Longrightarrow> DeleteProvider tid pid m = Inr m' \<Longrightarrow> admin_write cfg key m m'"
| alias_put: "may_reach key (a_TenantID a) \<Longrightarrow> valid_alias a \<Longrightarrow> UpsertAlias t aid a m = Inr (m', a') \<Longrightarrow> admin_write cfg key m m'"
| alias_drop: "may_reach key tid \<Longrightarrow> DeleteAlias tid name m = Inr m' \<Longrightarrow> admin_write cfg key m m'"
| route: "may_reach key (r_TenantID r) \<Longrightarrow> valid_route cfg r \<Longrightarrow> UpsertRoute t rid r m = Inr (m', r') \<Longrightarrow> admin_write cfg key m m'"
| route_drop: "may_reach key tid \<Longrightarrow> DeleteRoute tid rid m = Inr m' \<Longrightarrow> admin_write cfg key m m'"
| quota: "may_reach key (q_TenantID q) \<Longrightarrow> valid_quota q \<Longrightarrow> SetQuota t q m = Inr (m', q') \<Longrightarrow> admin_write cfg key m m'"
| quota_drop: "may_reach key tid \<Longrightarrow> DeleteQuota tid kid m = Inr m' \<Longrightarrow> admin_write cfg key m m'"
| webhook: "may_reach key (w_TenantID h) \<Longrightarrow> valid_webhook h \<Longrightarrow> CreateWebhook t wid h m = Inr (m', h') \<Longrightarrow> admin_write cfg key m m'"
| webhook_drop: "may_reach key tid \<Longrightarrow> DeleteWebhook tid wid m = Inr m' \<Longrightarrow> admin_write cfg key m m'"

definition performs :: "Config \<Rightarrow> APIKey \<Rightarrow> 'w gateway_handler \<Rightarrow> bool" where
  "performs cfg key h \<longleftrightarrow> (\<forall>w s c. sv_Config s = cfg \<longrightarrow> c_key c = Some key \<longrightarrow>
     (admin_write cfg key)\<^sup>*\<^sup>* (sv_Store s) (sv_Store (fst (snd (h w s c)))))"

lemma performsI:
  assumes "\<And>w s c. sv_Config s = cfg \<Longrightarrow> c_key c = Some key \<Longrightarrow>
    sv_Store (fst (snd (h w s c))) = sv_Store s \<or> admin_write cfg key (sv_Store s) (sv_Store (fst (snd (h w s c))))"
  shows "performs cfg key h"
  unfolding performs_def by (metis assms r_into_rtranclp rtranclp.rtrancl_refl)

lemma performs_rooted: "(k_Scope key = ScopeRoot \<Longrightarrow> performs cfg key h) \<Longrightarrow> performs cfg key (rooted h)"
  by (auto simp: performs_def rooted_def requireRoot_def refused_def split: option.splits)

lemma tenantScope_reach:
  "tenantScope c = Inr tid \<Longrightarrow> c_key c = Some key \<Longrightarrow> may_reach key tid \<and> tid \<noteq> []"
  by (auto simp: tenantScope_def may_reach_def Let_def split: if_splits)

lemma performs_scoped: "(\<And>tid. may_reach key tid \<Longrightarrow> tid \<noteq> [] \<Longrightarrow> performs cfg key (h tid)) \<Longrightarrow> performs cfg key (scoped h)"
  by (auto simp: performs_def scoped_def refused_def dest!: tenantScope_reach split: sum.splits)

lemma performs_targeted:
  "(\<And>tid kid. may_reach key tid \<Longrightarrow> tid \<noteq> [] \<Longrightarrow> performs cfg key (h tid kid)) \<Longrightarrow> performs cfg key (targeted h)"
  by (auto simp: performs_def targeted_def quotaTarget_def refused_def Let_def dest!: tenantScope_reach split: sum.splits if_splits)

lemma performs_parsed: "(\<And>req. performs cfg key (h req)) \<Longrightarrow> performs cfg key (parsed decode h)"
  by (auto simp: performs_def parsed_def refused_def split: sum.splits)

lemma outcome_store [simp]:
  "sv_Store (fst (snd (refused e w s c))) = sv_Store s" "sv_Store (fst (snd (store_refused env e kind rid w s c))) = sv_Store s"
  "sv_Store (fst (snd (bad_request text prm w s c))) = sv_Store s" "sv_Store (fst (snd (answered f w s c))) = sv_Store s"
  "sv_Store (set_store m s) = m" "sv_Store (drop_catalog tid s) = sv_Store s" "sv_Store (drop_quota tid s) = sv_Store s"
  "sv_Config (set_store m s) = sv_Config s"
  by (simp_all add: refused_def store_refused_def bad_request_def answered_def set_store_def drop_catalog_def drop_quota_def)

subsection \<open>Handlers that only read\<close>

lemma performs_reads:
  "performs cfg key (adminMeta dv)" "performs cfg key listAudit" "performs cfg key listAdminKeys" "performs cfg key listTenants"
  "performs cfg key (getTenant env)" "performs cfg key listKeys" "performs cfg key listProviders" "performs cfg key listAliases"
  "performs cfg key listRoutes" "performs cfg key (getQuota env)" "performs cfg key (flushTenantCache env)"
  "performs cfg key (listCaptures env)" "performs cfg key listWebhooks" "performs cfg key listEvents"
  unfolding listAudit_def listAdminKeys_def listTenants_def getTenant_def listKeys_def listProviders_def listAliases_def
    listRoutes_def getQuota_def flushTenantCache_def listCaptures_def listWebhooks_def listEvents_def
  by ((rule performs_rooted performs_scoped performs_targeted)?,
      rule performsI, rule disjI1, simp add: adminMeta_def Let_def split: sum.split prod.split option.split)+

lemma performs_usage: "performs cfg key (adminUsage env)" "performs cfg key (adminUsageBreakdown env)"
proof -
  have "sv_Store (fst (snd (case r of Inl e \<Rightarrow> refused (ApiErr e) w s c | Inr (window, since, until) \<Rightarrow> f window since until))) = sv_Store s"
    if "\<And>window since until. sv_Store (fst (snd (f window since until))) = sv_Store s"
    for r :: "apiError + string \<times> time \<times> time" and f w s c
    using that by (cases r) auto
  note step = this
  show "performs cfg key (adminUsage env)" unfolding adminUsage_def
    by (rule performs_scoped, rule performsI, rule disjI1) (auto simp: Let_def split: prod.split sum.split intro!: step)
  have "sv_Store (fst (snd (admin_breakdown env tid window since until w s c))) = sv_Store s" for tid window since until w s c
    unfolding admin_breakdown_def Let_def by (simp only: outcome_store split: if_split sum.split) simp
  then show "performs cfg key (adminUsageBreakdown env)" unfolding adminUsageBreakdown_def
    by (intro performs_scoped performsI disjI1) (auto simp: Let_def split: prod.split intro!: step)
qed

lemma refresh_all_store: "refresh_all env tids w s = (w', s', rows) \<Longrightarrow> sv_Store s' = sv_Store s"
proof (induction tids arbitrary: w s w' s' rows)
  case (Cons tid tids)
  obtain w1 cat r where r: "Refresh (ch_errText (ad_ch env)) (ge_now (ad_ge env)) (memory_reads (sv_Store s))
      (ds_catalog (gt_dispatcher s)) w tid = (w1, cat, r)" by (metis prod_cases3)
  let ?s = "s\<lparr>gt_dispatcher := (gt_dispatcher s)\<lparr>ds_catalog := cat\<rparr>\<rparr>"
  obtain w2 s2 rest where "refresh_all env tids w1 ?s = (w2, s2, rest)" by (metis prod_cases3)
  with Cons.IH [OF this] Cons.prems r show ?case by (simp only: refresh_all.simps prod.case Let_def) auto
qed simp

lemma performs_refresh: "performs cfg key (refreshCatalog env)"
proof -
  have "performs cfg key (refresh_named env t)" for t
    by (rule performsI) (simp add: refresh_named_def Let_def refresh_all_store split: sum.split prod.split option.split)
  moreover from this have "performs cfg key (parsed (ad_refresh env) (refresh_named env))" by (rule performs_parsed)
  ultimately show ?thesis by (auto simp: performs_def refreshCatalog_def)
qed


subsection \<open>Handlers that write\<close>

lemma performs_drops:
  "performs cfg key (deleteProvider env)" "performs cfg key (deleteAlias env)" "performs cfg key (deleteRoute env)"
  "performs cfg key (deleteWebhook env)" "performs cfg key (deleteQuota env)"
  unfolding deleteProvider_def deleteAlias_def deleteRoute_def deleteWebhook_def deleteQuota_def
  by ((rule performs_scoped performs_targeted), rule performsI,
      auto simp: Let_def split: sum.split
        intro: admin_write.provider_drop admin_write.alias_drop admin_write.route_drop admin_write.webhook_drop admin_write.quota_drop)+

lemma performs_revoke: "may_reach key tid \<Longrightarrow> performs cfg key (Admin.revoke env tid)"
  by (rule performsI) (auto simp: revoke_def Let_def split: sum.split prod.split intro: admin_write.revoke)

lemma performs_revokes: "performs cfg key (revokeKey env)" "performs cfg key (revokeAdminKey env)"
  unfolding revokeKey_def revokeAdminKey_def
  by (auto intro!: performs_scoped performs_rooted performs_revoke simp: may_reach_def)

lemma mint_write:
  assumes "Admin.mint env tid plane name scope ex w m = (w', Inr (m', k, plaintext))" "may_reach key tid" "may_grant key tid plane scope"
  shows "admin_write cfg key m m'"
  using assms by (auto simp: mint_def Let_def split: prod.splits intro: admin_write.mint)

lemma key_scope_grants:
  assumes "key_scope tid req plane (Some key) = Inr scope" "plane = PlaneData \<or> plane = PlaneAdmin" "tid \<noteq> []"
  shows "may_grant key tid plane scope"
  using assms by (auto simp: key_scope_def may_grant_def Let_def PlaneData_def PlaneAdmin_def split: if_splits)

lemma performs_if:
  "performs cfg key f \<Longrightarrow> (\<not> b \<Longrightarrow> performs cfg key g) \<Longrightarrow> performs cfg key (\<lambda>w s c. if b then f w s c else g w s c)"
  by (cases b) auto

lemma performs_bad: "performs cfg key (bad_request text prm)" "performs cfg key (refused e)"
  by (simp_all add: performs_def)

lemma performs_scope:
  "(\<And>scope. r (Some key) = Inr scope \<Longrightarrow> performs cfg key (g scope)) \<Longrightarrow>
   performs cfg key (\<lambda>w s c. case r (c_key c) of Inl e \<Rightarrow> refused (f e) w s c | Inr scope \<Rightarrow> g scope w s c)"
  by (cases "r (Some key)") (auto simp: performs_def)

lemma performs_minted:
  assumes "may_reach key tid" "may_grant key tid plane scope"
  shows "performs cfg key (minted env tid plane name scope ex failed)"
  by (rule performsI) (auto simp: minted_def Let_def split: prod.split sum.split intro: mint_write [OF _ assms])

lemma performs_createKeys: "performs cfg key (createKey env)" "performs cfg key (createAdminKey env)"
proof -
  have "performs cfg key (\<lambda>w s c. case key_scope tid req plane (c_key c) of Inl e \<Rightarrow> refused (ApiErr e) w s c
       | Inr scope \<Rightarrow> minted env tid plane name scope ex failed w s c)"
    if "may_reach key tid" "tid \<noteq> []" "plane = PlaneData \<or> plane = PlaneAdmin" for tid req plane name ex failed
    by (rule performs_scope) (rule performs_minted [OF that(1) key_scope_grants [OF _ that(3,2)]])
  then show "performs cfg key (createKey env)" unfolding createKey_def
    by (intro performs_scoped performs_parsed performs_if performs_bad) blast
  have "performs cfg key (minted env [] PlaneAdmin name ScopeRoot ex failed)" if "k_Scope key = ScopeRoot" for name ex failed
    by (rule performs_minted) (use that in \<open>simp_all add: may_reach_def may_grant_def\<close>)
  then show "performs cfg key (createAdminKey env)" unfolding createAdminKey_def Let_def
    by (intro performs_rooted performs_parsed performs_if performs_bad) blast
qed


lemma nonEmpty_valid: "nonEmpty ks \<noteq> [] \<Longrightarrow> valid_keys (nonEmpty ks)"
  by (auto simp: valid_keys_def nonEmpty_def)

lemma provider_of_valid: "provider_of env tid req = Inr p \<Longrightarrow> valid_provider p \<and> p_TenantID p = tid"
  by (auto simp: provider_of_def Let_def valid_provider_def valid_strategy_def strategy_or_default_def ValidKeyStrategy_def
      dest: nonEmpty_valid split: if_splits option.splits)

lemma provider_patch_valid: "Admin.provider_patch env req = Inr p \<Longrightarrow> valid_patch p"
  by (auto simp: provider_patch_def valid_patch_def valid_strategy_def strategy_or_default_def ValidKeyStrategy_def
      dest: nonEmpty_valid split: if_splits option.splits)

lemma alias_of_valid: "alias_of tid name req = Inr a \<Longrightarrow> AliasNamePattern name \<Longrightarrow> valid_alias a \<and> a_TenantID a = tid"
  by (auto simp: alias_of_def valid_alias_def split: if_splits)

lemma ValidateChain_distinct: "ValidateChain_from seen ms = None \<Longrightarrow> distinct ms \<and> set seen \<inter> set ms = {}"
  by (induction seen ms rule: ValidateChain_from.induct) (auto split: if_splits)

lemma route_of_valid: "route_of cfg tid req = Inr r \<Longrightarrow> valid_route cfg r \<and> r_TenantID r = tid"
  using ValidateChain_distinct [of "[]" "nonEmpty (snd req)"] nonEmpty_valid [of "snd req"]
  by (auto simp: route_of_def Let_def valid_route_def ValidateChain_def valid_keys_def split: if_splits option.splits)

lemma normalise_limit_valid: "normaliseQuotaLimit cfg l prm = Inr l' \<Longrightarrow> pred_option valid_limit l'"
  by (auto simp: normaliseQuotaLimit_def Let_def valid_limit_def split: option.splits if_splits)

lemma normalise_window_valid: "normalise_window cfg name qw = Inr qw' \<Longrightarrow> valid_window qw'"
  by (auto simp: normalise_window_def valid_window_def dest!: normalise_limit_valid split: sum.splits list.splits)

lemma quota_of_valid: "quota_of cfg tid kid req = Inr q \<Longrightarrow> valid_quota q \<and> q_TenantID q = tid"
  by (auto simp: quota_of_def Let_def valid_quota_def dest: normalise_window_valid split: sum.splits if_splits)

lemma webhook_of_valid: "webhook_of env tid req = Inr h \<Longrightarrow> valid_webhook h \<and> w_TenantID h = tid"
  by (auto simp: webhook_of_def Let_def valid_webhook_def knownEvent_def find_None_iff split: if_splits option.splits)

lemma performs_checked:
  \<comment> \<open>a handler that validates and then writes\<close>
  assumes "\<And>w s c x. sv_Config s = cfg \<Longrightarrow> c_key c = Some key \<Longrightarrow> check s = Inr x \<Longrightarrow>
    sv_Store (fst (snd (g x w s c))) = sv_Store s \<or> admin_write cfg key (sv_Store s) (sv_Store (fst (snd (g x w s c))))"
  shows "performs cfg key (\<lambda>w s c. case check s of Inl err \<Rightarrow> refused err w s c | Inr x \<Rightarrow> g x w s c)"
  by (rule performsI) (use assms in \<open>simp split: sum.split\<close>)

lemma performs_saves:
  "performs cfg key (createProvider env)" "performs cfg key (updateProvider env)" "performs cfg key (upsertRoute env)"
  "performs cfg key (setQuota env)" "performs cfg key (createWebhook env)"
proof -
  show "performs cfg key (createProvider env)" unfolding createProvider_def
    by (intro performs_scoped performs_parsed performs_checked)
      (auto simp: Let_def split: prod.split sum.split dest!: provider_of_valid intro: admin_write.provider)
  show "performs cfg key (updateProvider env)" unfolding updateProvider_def
    by (intro performs_scoped performs_parsed, simp only: Let_def, rule performsI)
      (auto split: prod.split sum.split dest: provider_patch_valid intro: admin_write.provider_patch)
  show "performs cfg key (upsertRoute env)" unfolding upsertRoute_def
    by (intro performs_scoped performs_parsed performs_checked)
      (auto simp: Let_def split: prod.split sum.split dest!: route_of_valid intro: admin_write.route)
  show "performs cfg key (setQuota env)" unfolding setQuota_def
    by (intro performs_targeted performs_parsed performs_checked)
      (auto simp: Let_def split: prod.split sum.split dest!: quota_of_valid intro: admin_write.quota)
  show "performs cfg key (createWebhook env)" unfolding createWebhook_def
    by (intro performs_scoped performs_parsed performs_checked)
      (auto simp: Let_def split: prod.split sum.split dest!: webhook_of_valid intro: admin_write.webhook)
qed

lemma performs_save_alias: "may_reach key (a_TenantID a) \<Longrightarrow> valid_alias a \<Longrightarrow> performs cfg key (save_alias env a)"
  by (rule performsI) (auto simp: save_alias_def Let_def split: prod.split sum.split intro: admin_write.alias_put)

lemma performs_upsertAlias: "performs cfg key (upsertAlias env)"
proof -
  have "performs cfg key (case alias_of tid name req of Inl err \<Rightarrow> refused err | Inr a \<Rightarrow> save_alias env a)"
    if "may_reach key tid" "AliasNamePattern name" for tid name req
    using that by (cases "alias_of tid name req") (auto dest: alias_of_valid intro: performs_bad performs_save_alias)
  then have p: "performs cfg key (parsed (ad_alias env) (\<lambda>req. case alias_of tid name req of Inl err \<Rightarrow> refused err | Inr a \<Rightarrow> save_alias env a))"
    if "may_reach key tid" "AliasNamePattern name" for tid name
    using that by (intro performs_parsed) blast
  show ?thesis unfolding upsertAlias_def
    by (rule performs_scoped) (use p performs_bad in \<open>auto simp: performs_def Let_def\<close>)
qed

lemma seeded_valid: "list_all valid_alias SeededAliases"
  by code_simp

lemma seed_aliases_writes:
  assumes "k_Scope key = ScopeRoot" "list_all valid_alias as"
  shows "(admin_write cfg key)\<^sup>*\<^sup>* m (snd (seed_aliases env tid as w m))"
  using assms(2)
proof (induction as arbitrary: w m)
  case (Cons a as)
  obtain w1 aid t where n: "new_id env ''als'' w = (w1, aid, t)" by (metis prod_cases3)
  have v: "valid_alias (a\<lparr>a_TenantID := tid\<rparr>)" using Cons.prems by (simp add: valid_alias_def)
  show ?case
  proof (cases "UpsertAlias t aid (a\<lparr>a_TenantID := tid\<rparr>) m")
    case (Inl e)
    then show ?thesis using Cons n by simp
  next
    case (Inr r)
    then obtain m1 saved where r: "UpsertAlias t aid (a\<lparr>a_TenantID := tid\<rparr>) m = Inr (m1, saved)" by (cases r) auto
    have "admin_write cfg key m m1" by (rule admin_write.alias_put [OF _ v r]) (simp add: may_reach_def assms(1))
    then show ?thesis using Cons n r by (auto intro: converse_rtranclp_into_rtranclp)
  qed
qed simp

lemma performs_deleteTenant: "performs cfg key (deleteTenant env)"
  unfolding deleteTenant_def Let_def
  by (rule performs_rooted, rule performsI) (auto split: sum.split intro: admin_write.tenant_drop)

lemma performs_updateTenant: "performs cfg key (updateTenant env)"
  unfolding updateTenant_def Let_def
  by (rule performs_rooted, rule performs_parsed, rule performsI)
    (auto split: sum.split option.split prod.split intro: admin_write.tenant_patch)

lemma performs_createTenant: "performs cfg key (createTenant env)"
proof -
  have "(admin_write cfg key)\<^sup>*\<^sup>* m m2"
    if "k_Scope key = ScopeRoot" "CreateTenant t tid' name m = Inr (m1, tn)" "seedAliases env tid w m1 = (w2, m2)"
    for w t tid tid' name m m1 m2 tn w2
    using converse_rtranclp_into_rtranclp [OF admin_write.tenant [OF that(1,2)] seed_aliases_writes [OF that(1) seeded_valid]] that(3)
    by (metis seedAliases_def snd_conv)
  then show ?thesis unfolding createTenant_def Let_def
    by (intro performs_rooted performs_parsed)
      (auto simp: performs_def split: sum.split prod.split)
qed

section \<open>Every handler performs admin writes\<close>

lemma admin_performs: "(verb, path, h) \<in> set (adminRoutes env dv) \<Longrightarrow> performs cfg key h"
  by (auto simp: adminRoutes_def root_routes_def tenant_routes_def intro: performs_reads performs_usage performs_refresh performs_drops
      performs_revokes performs_createKeys performs_saves performs_upsertAlias performs_deleteTenant performs_updateTenant performs_createTenant)

text \<open>The control plane refines its specification: whatever route of the admin API a request reaches, what it did to
  the store is a sequence of the writes \<open>admin_write\<close> allows to the key that called, each with validated values.\<close>

theorem control_plane_refines:
  assumes "(verb, path, h) \<in> set (adminRoutes env dv)" "c_key c = Some key" "h w s c = (w', s', c', fl)"
  shows "(admin_write (sv_Config s) key)\<^sup>*\<^sup>* (sv_Store s) (sv_Store s')"
  using admin_performs [OF assms(1), of "sv_Config s" key] assms(2,3) unfolding performs_def by (metis fst_conv snd_conv)

section \<open>A tenant's key stays inside its tenant\<close>

definition keys_confined :: "string \<Rightarrow> APIKey list \<Rightarrow> APIKey list \<Rightarrow> bool" where
  \<comment> \<open>keys of other tenants are as they were, older keys at most revoked, newer ones of the tenant and within its scope\<close>
  "keys_confined own ks ks' \<longleftrightarrow> length ks \<le> length ks' \<and>
     (\<forall>r < length ks. (k_TenantID (ks ! r) \<noteq> own \<longrightarrow> ks' ! r = ks ! r) \<and> (\<exists>t. ks' ! r = (ks ! r)\<lparr>k_RevokedAt := t\<rparr>)) \<and>
     (\<forall>r. length ks \<le> r \<longrightarrow> r < length ks' \<longrightarrow> k_TenantID (ks' ! r) = own \<and> k_Scope (ks' ! r) \<in> {[], ''tenant:'' @ own})"

definition confined :: "string \<Rightarrow> Memory \<Rightarrow> Memory \<Rightarrow> bool" where
  "confined own m m' \<longleftrightarrow>
     (\<forall>tid. tid \<noteq> own \<longrightarrow> ListProviders tid m' = ListProviders tid m \<and> ListAliases tid m' = ListAliases tid m \<and>
        ListRoutes tid m' = ListRoutes tid m \<and> ListWebhooks tid m' = ListWebhooks tid m) \<and>
     m_tenants m' = m_tenants m \<and> m_events m' = m_events m \<and> m_usage m' = m_usage m \<and> m_audit m' = m_audit m \<and>
     (\<forall>k. (\<forall>kid. k \<noteq> quotaKey own kid) \<longrightarrow> map_of (m_quotas m') k = map_of (m_quotas m) k) \<and>
     keys_confined own (m_keyheap m) (m_keyheap m')"

lemma key_self: "\<exists>t. (k :: APIKey) = k\<lparr>k_RevokedAt := t\<rparr>"
  by (rule exI [of _ "k_RevokedAt k"]) simp

lemma keys_confined_refl: "keys_confined own ks ks"
  unfolding keys_confined_def using key_self by auto

lemma keys_confined_old:
  assumes "keys_confined own ks ks'" "r < length ks"
  obtains t where "ks' ! r = (ks ! r)\<lparr>k_RevokedAt := t\<rparr>" "k_TenantID (ks ! r) \<noteq> own \<longrightarrow> ks' ! r = ks ! r"
  using assms unfolding keys_confined_def by blast

lemma keys_confined_new:
  assumes "keys_confined own ks ks'" "length ks \<le> r" "r < length ks'"
  shows "k_TenantID (ks' ! r) = own \<and> k_Scope (ks' ! r) \<in> {[], ''tenant:'' @ own}"
  using assms unfolding keys_confined_def by blast

lemma keys_confined_trans:
  assumes a: "keys_confined own k1 k2" and b: "keys_confined own k2 k3"
  shows "keys_confined own k1 k3"
proof -
  have len: "length k1 \<le> length k2" "length k2 \<le> length k3" using assms by (simp_all add: keys_confined_def)
  have "(k_TenantID (k1 ! r) \<noteq> own \<longrightarrow> k3 ! r = k1 ! r) \<and> (\<exists>t. k3 ! r = (k1 ! r)\<lparr>k_RevokedAt := t\<rparr>)" if r: "r < length k1" for r
  proof -
    obtain t where t: "k2 ! r = (k1 ! r)\<lparr>k_RevokedAt := t\<rparr>" "k_TenantID (k1 ! r) \<noteq> own \<longrightarrow> k2 ! r = k1 ! r"
      by (rule keys_confined_old [OF a r])
    obtain u where u: "k3 ! r = (k2 ! r)\<lparr>k_RevokedAt := u\<rparr>" "k_TenantID (k2 ! r) \<noteq> own \<longrightarrow> k3 ! r = k2 ! r"
      by (rule keys_confined_old [OF b less_le_trans [OF r len(1)]])
    from t(1) u(1) have "k3 ! r = (k1 ! r)\<lparr>k_RevokedAt := u\<rparr>" by simp
    moreover have "k3 ! r = k1 ! r" if "k_TenantID (k1 ! r) \<noteq> own" using t(2) u(2) that by simp
    ultimately show ?thesis by blast
  qed
  moreover have "k_TenantID (k3 ! r) = own \<and> k_Scope (k3 ! r) \<in> {[], ''tenant:'' @ own}" if "length k1 \<le> r" "r < length k3" for r
  proof (cases "r < length k2")
    case True
    obtain u where "k3 ! r = (k2 ! r)\<lparr>k_RevokedAt := u\<rparr>" by (rule keys_confined_old [OF b True])
    then show ?thesis using keys_confined_new [OF a that(1) True] by simp
  next
    case False
    then show ?thesis using keys_confined_new [OF b _ that(2)] by simp
  qed
  ultimately show ?thesis using len by (simp add: keys_confined_def)
qed

lemma keys_confined_snoc:
  assumes "k_TenantID k = own" "k_Scope k \<in> {[], ''tenant:'' @ own}"
  shows "keys_confined own ks (ks @ [k])"
  using assms keys_confined_refl [of own ks] by (auto simp: keys_confined_def nth_append less_Suc_eq_le)

lemma keys_confined_revoke:
  assumes "k_TenantID (ks ! i) = own"
  shows "keys_confined own ks (ks[i := (ks ! i)\<lparr>k_RevokedAt := t\<rparr>])"
  unfolding keys_confined_def
proof (intro conjI allI impI)
  fix r assume "r < length ks"
  moreover note key_self [of "ks ! r"]
  ultimately show "\<exists>ta. ks[i := (ks ! i)\<lparr>k_RevokedAt := t\<rparr>] ! r = (ks ! r)\<lparr>k_RevokedAt := ta\<rparr>"
    by (cases "r = i") auto
next
  fix r assume "r < length ks" "k_TenantID (ks ! r) \<noteq> own"
  then show "ks[i := (ks ! i)\<lparr>k_RevokedAt := t\<rparr>] ! r = ks ! r" using assms by (cases "i = r") auto
qed auto

lemma confined_refl: "confined own m m"
  by (simp add: confined_def keys_confined_refl)

lemma confined_trans: "confined own m1 m2 \<Longrightarrow> confined own m2 m3 \<Longrightarrow> confined own m1 m3"
  unfolding confined_def by (metis keys_confined_trans)

lemma confined_by:
  assumes "keys_confined own (m_keyheap m) (m_keyheap m')"
    "m_tenants m' = m_tenants m" "m_events m' = m_events m" "m_usage m' = m_usage m" "m_audit m' = m_audit m"
    and "\<And>tid. tid \<noteq> own \<Longrightarrow> at_nil (m_providers m') tid = at_nil (m_providers m) tid \<and> at_nil (m_aliases m') tid = at_nil (m_aliases m) tid \<and>
      at_nil (m_routes m') tid = at_nil (m_routes m) tid \<and> at_nil (m_webhooks m') tid = at_nil (m_webhooks m) tid"
    and "\<And>k. \<forall>kid. k \<noteq> quotaKey own kid \<Longrightarrow> map_of (m_quotas m') k = map_of (m_quotas m) k"
  shows "confined own m m'"
  using assms by (simp add: confined_def ListProviders_def ListAliases_def ListRoutes_def ListWebhooks_def)

lemma admin_write_confined:
  assumes "admin_write cfg key m m'" "k_Scope key \<noteq> ScopeRoot"
  shows "confined (TrimPrefix (k_Scope key) ''tenant:'') m m'"
  using assms
proof (cases rule: admin_write.cases)
  case (mint tid plane scope h t kid token name ex k plaintext)
  note f = CreateAPIKey_Inr [OF mint(3)]
  have "tid = TrimPrefix (k_Scope key) ''tenant:''" using mint assms by (simp add: may_reach_def)
  moreover have "k_Scope k \<in> {[], ''tenant:'' @ tid}" using mint assms f by (auto simp: may_grant_def)
  ultimately show ?thesis using f(1,3) by (auto intro!: confined_by keys_confined_snoc)
next
  case (revoke tid t kid)
  then have "tid = TrimPrefix (k_Scope key) ''tenant:''" using assms by (simp add: may_reach_def)
  then show ?thesis using revoke(2)
    by (auto simp: RevokeAPIKey_def Let_def split: option.splits if_splits intro!: confined_by keys_confined_revoke keys_confined_refl)
qed (auto simp: may_reach_def CreateProvider_def UpdateProvider_def DeleteProvider_def UpsertAlias_def DeleteAlias_def UpsertRoute_def
    DeleteRoute_def SetQuota_def DeleteQuota_def CreateWebhook_def DeleteWebhook_def Let_def intro!: confined_by keys_confined_refl
    split: if_splits option.splits)

text \<open>C2. A key that is not root is confined to its tenant: whatever it asks of the admin API, no other tenant's configuration,
  quotas or keys change, no tenant, event, usage record or audit entry does, an existing key is at most revoked, and a key it
  creates belongs to its tenant and carries no more than that tenant's scope.\<close>

theorem tenant_key_confined:
  assumes "(verb, path, h) \<in> set (adminRoutes env dv)" "c_key c = Some key" "k_Scope key \<noteq> ScopeRoot"
    and "h w s c = (w', s', c', fl)"
  shows "confined (TrimPrefix (k_Scope key) ''tenant:'') (sv_Store s) (sv_Store s')"
proof -
  have "(admin_write (sv_Config s) key)\<^sup>*\<^sup>* (sv_Store s) (sv_Store s')"
    by (rule control_plane_refines [OF assms(1,2,4)])
  then show ?thesis
    by (induction rule: rtranclp_induct) (auto intro: confined_refl confined_trans admin_write_confined [OF _ assms(3)])
qed


section \<open>Configuration stays well typed\<close>

definition typed_store :: "Config \<Rightarrow> Memory \<Rightarrow> bool" where
  "typed_store cfg m \<longleftrightarrow>
     (\<forall>i t. map_of (m_tenants m) i = Some t \<longrightarrow> valid_tenant cfg t) \<and> list_all valid_key (m_keyheap m) \<and>
     (\<forall>tid. list_all valid_provider (ListProviders tid m) \<and> list_all valid_alias (ListAliases tid m) \<and>
        list_all (valid_route cfg) (ListRoutes tid m) \<and> list_all valid_webhook (ListWebhooks tid m)) \<and>
     (\<forall>k q. map_of (m_quotas m) k = Some q \<longrightarrow> valid_quota q)"

lemma typed_collections:
  "list_all P (ListAliases tid m) = list_all P (at_nil (m_aliases m) tid)"
  "list_all Q (ListRoutes tid m) = list_all Q (at_nil (m_routes m) tid)"
  by (simp_all add: ListAliases_def ListRoutes_def list_all_iff)

lemmas typed_parts = typed_store_def typed_collections ListProviders_def ListWebhooks_def

lemma typed_NewMemory: "typed_store cfg (NewMemory dev)"
  by (simp add: typed_parts NewMemory_def at_nil_def)

lemma list_all_update_first: "list_all P xs \<Longrightarrow> (\<And>x. P x \<Longrightarrow> P (f x)) \<Longrightarrow> list_all P (update_first Q f xs)"
  by (induction xs) auto

lemma list_all_remove_first: "remove_first Q xs = Some ys \<Longrightarrow> list_all P xs \<Longrightarrow> list_all P ys"
  by (drule remove_first_Some) auto

lemma valid_patch_provider: "valid_patch patch \<Longrightarrow> valid_provider p \<Longrightarrow> valid_provider (patch_provider patch p)"
  by (auto simp: patch_provider_def valid_patch_def valid_provider_def Let_def split: option.splits)

lemma valid_new_tenant: "name \<noteq> [] \<Longrightarrow> valid_tenant cfg (new_tenant tid name now)"
  by (simp add: valid_tenant_def new_tenant_def)

lemma valid_patch_tenant:
  assumes "patch_refused cfg p = None" "valid_tenant cfg t"
  shows "valid_tenant cfg (patch_tenant t p)"
proof -
  have l: "tp_Limits p = Some l \<Longrightarrow> validateTenantLimits cfg l = None" for l
    using assms(1) by (auto simp: patch_refused_def split: if_splits option.splits)
  have st: "tp_Status p = Some x \<Longrightarrow> x \<in> {''active'', ''suspended''}" for x
    using assms(1) by (auto simp: patch_refused_def split: if_splits option.splits)
  have k: "tp_Cache p = Some x \<Longrightarrow> 0 \<le> tc_TTLSeconds x" for x
    using assms(1) by (auto simp: patch_refused_def validateTenantCache_def split: if_splits option.splits)
  have d: "tp_DebugCapture p = Some x \<Longrightarrow> 0 \<le> dc_TTLSeconds x \<and> 0 \<le> dc_SampleRate x \<and> dc_SampleRate x \<le> 1" for x
    using assms(1) by (auto simp: patch_refused_def validateTenantDebugCapture_def split: if_splits option.splits)
  show ?thesis using assms(2) l st k d
    by (auto simp: patch_tenant_def Let_def valid_tenant_def split: option.splits)
qed

lemma typed_put_tenant: "typed_store cfg m \<Longrightarrow> valid_tenant cfg t \<Longrightarrow> typed_store cfg (m\<lparr>m_tenants := AList.update tid t (m_tenants m)\<rparr>)"
  by (simp add: typed_parts)

lemma typed_at:
  assumes "typed_store cfg m"
  shows "list_all valid_provider (at_nil (m_providers m) tid)" "list_all valid_alias (at_nil (m_aliases m) tid)"
    "list_all (valid_route cfg) (at_nil (m_routes m) tid)" "list_all valid_webhook (at_nil (m_webhooks m) tid)"
  using assms by (simp_all add: typed_parts)

lemma typed_puts:
  assumes "typed_store cfg m"
  shows "list_all valid_provider ps \<Longrightarrow> typed_store cfg (m\<lparr>m_providers := AList.update tid ps (m_providers m)\<rparr>)"
    "list_all valid_alias xs \<Longrightarrow> typed_store cfg (m\<lparr>m_aliases := AList.update tid xs (m_aliases m)\<rparr>)"
    "list_all (valid_route cfg) rs \<Longrightarrow> typed_store cfg (m\<lparr>m_routes := AList.update tid rs (m_routes m)\<rparr>)"
    "list_all valid_webhook hs \<Longrightarrow> typed_store cfg (m\<lparr>m_webhooks := AList.update tid hs (m_webhooks m)\<rparr>)"
    "valid_quota q \<Longrightarrow> typed_store cfg (m\<lparr>m_quotas := AList.update k q (m_quotas m)\<rparr>)"
  using assms by (simp_all add: typed_parts)

lemma UpdateTenant_patched:
  assumes "UpdateTenant tid p m = Inr (m', t')"
  obtains t name where "map_of (m_tenants m) tid = Some t" "name = t_Name t \<or> name \<noteq> []" "t' = patch_tenant (t\<lparr>t_Name := name\<rparr>) p"
    "m' = m\<lparr>m_tenants := AList.update tid t' (m_tenants m)\<rparr>"
proof -
  obtain t where t: "map_of (m_tenants m) tid = Some t" using assms by (auto simp: UpdateTenant_def split: option.splits)
  show thesis
  proof (cases "tp_Name p")
    case None
    with assms t show thesis by (intro that [of t "t_Name t"]) (auto simp: UpdateTenant_def Let_def)
  next
    case (Some n)
    with assms t show thesis by (intro that [of t "TrimSpace n"]) (auto simp: UpdateTenant_def Let_def split: if_splits)
  qed
qed

lemma typed_drop_tenant:
  assumes "DeleteTenant tid m = Inr m'" "typed_store cfg m"
  shows "typed_store cfg m'"
  using assms(2) unfolding typed_parts DeleteTenant_fields [OF assms(1)] by (auto simp: delete_conv')

lemma typed_CreateTenant: "typed_store cfg m \<Longrightarrow> CreateTenant t tid name m = Inr (m', tn) \<Longrightarrow> typed_store cfg m'"
  by (auto simp: CreateTenant_def Let_def split: if_splits intro!: typed_put_tenant valid_new_tenant)

lemma typed_UpdateTenant:
  assumes "typed_store cfg m" "patch_refused cfg p = None" "UpdateTenant tid p m = Inr (m', tn)"
  shows "typed_store cfg m'"
proof -
  obtain t name where u: "map_of (m_tenants m) tid = Some t" "name = t_Name t \<or> name \<noteq> []" "tn = patch_tenant (t\<lparr>t_Name := name\<rparr>) p"
    "m' = m\<lparr>m_tenants := AList.update tid tn (m_tenants m)\<rparr>" by (rule UpdateTenant_patched [OF assms(3)])
  have "valid_tenant cfg t" using assms(1) u(1) by (simp add: typed_store_def)
  then have "valid_tenant cfg (t\<lparr>t_Name := name\<rparr>)" using u(2) by (auto simp: valid_tenant_def)
  then show ?thesis using u(3,4) assms(1) valid_patch_tenant [OF assms(2)] by (auto intro: typed_put_tenant)
qed

lemma typed_keys:
  assumes "typed_store cfg m"
  shows "may_grant key tid plane scope \<Longrightarrow> CreateAPIKey h t kid token tid plane name scope ex m = Inr (m', k, plaintext) \<Longrightarrow> typed_store cfg m'"
    and "RevokeAPIKey t tid kid m = Inr m' \<Longrightarrow> typed_store cfg m'"
proof -
  assume g: "may_grant key tid plane scope" and c: "CreateAPIKey h t kid token tid plane name scope ex m = Inr (m', k, plaintext)"
  note f = CreateAPIKey_Inr [OF c]
  have "valid_key k" using g f(3,7,8) by (auto simp: valid_key_def may_grant_def)
  then show "typed_store cfg m'" using assms f(1) by (simp add: typed_parts)
next
  have "list_all valid_key (ks[r := (ks ! r)\<lparr>k_RevokedAt := x\<rparr>])" if "list_all valid_key ks" for ks r x
    using that by (cases "r < length ks") (auto simp: list_all_length nth_list_update valid_key_def)
  moreover assume "RevokeAPIKey t tid kid m = Inr m'"
  ultimately show "typed_store cfg m'" using assms
    by (auto simp: RevokeAPIKey_def Let_def typed_parts split: option.splits if_splits)
qed

lemma typed_providers:
  assumes "typed_store cfg m"
  shows "valid_provider p \<Longrightarrow> CreateProvider t pid p m = Inr (m', p') \<Longrightarrow> typed_store cfg m'"
    and "valid_patch patch \<Longrightarrow> UpdateProvider tid pid patch m = Inr (m', p') \<Longrightarrow> typed_store cfg m'"
    and "DeleteProvider tid pid m = Inr m' \<Longrightarrow> typed_store cfg m'"
proof -
  assume "valid_provider p"
  then have "valid_provider (p\<lparr>p_ID := pid, p_CreatedAt := t, p_KeyPrefixes := map maskProviderKey (p_Keys p)\<rparr>)"
    by (simp add: valid_provider_def)
  moreover assume "CreateProvider t pid p m = Inr (m', p')"
  ultimately show "typed_store cfg m'" using typed_at(1) [OF assms] typed_puts(1) [OF assms]
    by (auto simp: CreateProvider_def Let_def split: if_splits)
next
  assume "valid_patch patch"
  then have "list_all valid_provider (update_first (provider_named pid) (patch_provider patch) (at_nil (m_providers m) tid))"
    by (intro list_all_update_first [OF typed_at(1) [OF assms]] valid_patch_provider)
  moreover assume "UpdateProvider tid pid patch m = Inr (m', p')"
  ultimately show "typed_store cfg m'" using typed_puts(1) [OF assms] by (auto simp: UpdateProvider_def split: option.splits)
next
  assume "DeleteProvider tid pid m = Inr m'"
  then show "typed_store cfg m'" using typed_puts(1) [OF assms] list_all_remove_first [OF _ typed_at(1) [OF assms]]
    by (auto simp: DeleteProvider_def split: option.splits)
qed

lemma typed_UpsertAlias:
  assumes "typed_store cfg m" "valid_alias a" "UpsertAlias t aid a m = Inr (m', a')"
  shows "typed_store cfg m'"
proof -
  have v: "valid_alias (a\<lparr>a_ID := i, a_CreatedAt := x\<rparr>)" for i x using assms(2) by (simp add: valid_alias_def)
  have "list_all valid_alias (update_first Q (\<lambda>_. a\<lparr>a_ID := i, a_CreatedAt := x\<rparr>) (at_nil (m_aliases m) tid))" for Q i x tid
    by (rule list_all_update_first [OF typed_at(2) [OF assms(1)]]) (rule v)
  then show ?thesis using assms(3) v typed_at(2) [OF assms(1)] typed_puts(2) [OF assms(1)]
    by (auto simp: UpsertAlias_def Let_def split: if_splits option.splits)
qed

lemma typed_UpsertRoute:
  assumes "typed_store cfg m" "valid_route cfg r" "UpsertRoute t rid r m = Inr (m', r')"
  shows "typed_store cfg m'"
proof -
  have v: "valid_route cfg (r\<lparr>r_ID := i, r_CreatedAt := x\<rparr>)" for i x using assms(2) by (simp add: valid_route_def)
  have "list_all (valid_route cfg) (update_first Q (\<lambda>_. r\<lparr>r_ID := i, r_CreatedAt := x\<rparr>) (at_nil (m_routes m) tid))" for Q i x tid
    by (rule list_all_update_first [OF typed_at(3) [OF assms(1)]]) (rule v)
  then show ?thesis using assms(3) v typed_at(3) [OF assms(1)] typed_puts(3) [OF assms(1)]
    by (auto simp: UpsertRoute_def Let_def split: if_splits option.splits)
qed

lemma typed_drops:
  assumes "typed_store cfg m"
  shows "DeleteAlias tid name m = Inr m' \<Longrightarrow> typed_store cfg m'" "DeleteRoute tid rid m = Inr m' \<Longrightarrow> typed_store cfg m'"
    "DeleteWebhook tid wid m = Inr m' \<Longrightarrow> typed_store cfg m'" "DeleteQuota tid kid m = Inr m' \<Longrightarrow> typed_store cfg m'"
  using assms typed_puts [OF assms] list_all_remove_first [OF _ typed_at(2) [OF assms]] list_all_remove_first [OF _ typed_at(3) [OF assms]]
    list_all_remove_first [OF _ typed_at(4) [OF assms]]
  by (auto simp: DeleteAlias_def DeleteRoute_def DeleteWebhook_def DeleteQuota_def Let_def typed_parts delete_conv'
      split: option.splits if_splits)

lemma typed_quota_webhook:
  assumes "typed_store cfg m"
  shows "valid_quota q \<Longrightarrow> SetQuota t q m = Inr (m', q') \<Longrightarrow> typed_store cfg m'"
    and "valid_webhook h \<Longrightarrow> CreateWebhook t wid h m = Inr (m', h') \<Longrightarrow> typed_store cfg m'"
  using assms typed_puts [OF assms] typed_at(4) [OF assms]
  by (auto simp: SetQuota_def CreateWebhook_def Let_def valid_quota_def Quota_Empty_def valid_webhook_def split: if_splits)

lemma typed_admin_write: "admin_write cfg key m m' \<Longrightarrow> typed_store cfg m \<Longrightarrow> typed_store cfg m'"
  by (erule admin_write.cases)
    (blast intro: typed_CreateTenant typed_UpdateTenant typed_drop_tenant typed_keys typed_providers typed_UpsertAlias typed_UpsertRoute
      typed_drops typed_quota_webhook)+

text \<open>C4. No admin call can store configuration the gateway could not serve: if every tenant, key, provider, alias, routing rule,
  quota and webhook is valid before a call, they are after it, whatever route, body and caller. Valid means among others: a
  provider has keys, none of them empty, and a known strategy; an alias matches the name pattern; a fallback chain is non-empty,
  duplicate-free and within the configured depth; a quota caps something, with no negative cap and a threshold of 1 to 100; a
  webhook has a signing secret of sixteen bytes or more and subscribes to known events; a data key has no scope, and an admin key is root or confined to
  the tenant it belongs to.\<close>

theorem configuration_stays_typed:
  assumes "(verb, path, h) \<in> set (adminRoutes env dv)" "c_key c = Some key" "h w s c = (w', s', c', fl)"
    and "typed_store (sv_Config s) (sv_Store s)"
  shows "typed_store (sv_Config s) (sv_Store s')"
proof -
  have "(admin_write (sv_Config s) key)\<^sup>*\<^sup>* (sv_Store s) (sv_Store s')"
    by (rule control_plane_refines [OF assms(1-3)])
  then show ?thesis using assms(4) by (induction rule: rtranclp_induct) (auto intro: typed_admin_write)
qed

section \<open>Other tenants cannot be probed\<close>

lemma scoped_foreign:
  assumes "c_key c = Some key" "k_Scope key \<noteq> ScopeRoot" "TrimSpace (param c ''tenant'') = tid" "tid \<noteq> []"
    "TrimPrefix (k_Scope key) ''tenant:'' \<noteq> tid"
  shows "scoped f w s c = (w, s, Fail c (ApiErr (ResourceNotFound ''tenant'' tid)), Returned None)"
    "targeted g w s c = (w, s, Fail c (ApiErr (ResourceNotFound ''tenant'' tid)), Returned None)"
  using assms by (simp_all add: scoped_def targeted_def quotaTarget_def tenantScope_def refused_def Let_def)

lemma tenant_routes_scoped:
  assumes "(verb, path, h) \<in> set (tenant_routes env)"
  shows "(\<exists>f. h = scoped f) \<or> (\<exists>g. h = targeted g)"
  using assms unfolding tenant_routes_def getTenant_def createKey_def listKeys_def revokeKey_def createProvider_def listProviders_def
    updateProvider_def deleteProvider_def upsertAlias_def listAliases_def deleteAlias_def upsertRoute_def listRoutes_def deleteRoute_def
    setQuota_def getQuota_def deleteQuota_def flushTenantCache_def listCaptures_def createWebhook_def listWebhooks_def deleteWebhook_def
    listEvents_def adminUsage_def adminUsageBreakdown_def
  by (simp only: list.set insert_iff empty_iff prod.inject) blast

text \<open>C36. A tenant's key cannot learn that another tenant exists: on every route inside a tenant, naming another one is answered
  404 \<open>resource_not_found\<close>, whatever the store holds, with the very response a tenant that does not exist gets, and nothing changes.\<close>

theorem foreign_tenant_hidden:
  assumes "(verb, path, h) \<in> set (tenant_routes env)" "c_key c = Some key" "k_Scope key \<noteq> ScopeRoot"
    and "TrimSpace (param c ''tenant'') = tid" "tid \<noteq> []" "TrimPrefix (k_Scope key) ''tenant:'' \<noteq> tid"
  shows "h w s c = (w, s, Fail c (ApiErr (ResourceNotFound ''tenant'' tid)), Returned None) \<and>
    Fail c (storeErr errText ErrNotFound ''tenant'' tid) = Fail c (ApiErr (ResourceNotFound ''tenant'' tid))"
proof -
  have "Fail c (storeErr errText ErrNotFound ''tenant'' tid) = Fail c (ApiErr (ResourceNotFound ''tenant'' tid))"
    by (simp add: storeErr_def Fail_def Let_def ResourceNotFound_def newErr_def ErrNotFound_def Envelope_def WithCause_def)
  then show ?thesis using tenant_routes_scoped [OF assms(1)] scoped_foreign [OF assms(2-6)] by auto
qed


section \<open>A call\<close>

text \<open>The inputs of the witnesses: a tenant's own admin key registers a webhook for its tenant.\<close>

definition example_admin :: "time admin_env" where
  "example_admin = \<lparr> ad_ch = example_chat_env, ad_token = (\<lambda>w. (w, ''tok'')), ad_parseURL = (\<lambda>_. Some (''https'', ''hooks'')),
     ad_refresh = (\<lambda>_. Inr []), ad_tenant = Inr, ad_patch = (\<lambda>_. Inl (Sentinel ''json'')), ad_keyReq = (\<lambda>_. Inl (Sentinel ''json'')),
     ad_adminKey = (\<lambda>b. Inr (b, None)), ad_provider = (\<lambda>_. Inl (Sentinel ''json'')), ad_providerPatch = (\<lambda>_. Inl (Sentinel ''json'')),
     ad_alias = (\<lambda>_. Inl (Sentinel ''json'')), ad_route = (\<lambda>_. Inl (Sentinel ''json'')), ad_quota = (\<lambda>_. Inl (Sentinel ''json'')),
     ad_webhook = (\<lambda>b. Inr \<lparr> wq_URL = ''https://hooks'', wq_Secret = b, wq_Events = ['' breaker.opened ''], wq_Enabled = None \<rparr>) \<rparr>"

definition example_data :: "time data_env" where
  "example_data = \<lparr> de_ch = example_chat_env, de_Version = [], de_startedAt = 0, de_Dev = True, de_Events = True \<rparr>"

definition example_admin_key :: APIKey where
  "example_admin_key = example_key\<lparr>k_Plane := PlaneAdmin, k_Scope := ''tenant:t1''\<rparr>"

definition example_admin_gateway :: "time Gateway" where
  "example_admin_gateway = example_gateway\<lparr>sv_Store := example_tenant_store\<rparr>"

definition example_admin_call :: "string \<Rightarrow> fctx" where
  "example_admin_call tid = (new_ctx ''POST'' ''/admin/v1/tenants/t1/webhooks'' [] [] ''sixteen bytes!!!'')
     \<lparr>c_key := Some example_admin_key, c_params := [(''tenant'', tid)]\<rparr>"

definition example_saved_hook :: Webhook where
  "example_saved_hook = \<lparr> w_ID = ''whk_1'', w_TenantID = ''t1'', w_URL = ''https://hooks'', w_Secret = ''sixteen bytes!!!'',
     w_Events = [''breaker.opened''], w_Enabled = True, w_CreatedAt = 7 \<rparr>"

lemma example_webhook:
  "webhook_of example_admin ''t1'' \<lparr> wq_URL = ''https://hooks'', wq_Secret = ''sixteen bytes!!!'', wq_Events = ['' breaker.opened ''], wq_Enabled = None \<rparr> =
     Inr (example_saved_hook\<lparr>w_ID := [], w_CreatedAt := zero_time\<rparr>)"
  "CreateWebhook 7 ''whk_1'' (example_saved_hook\<lparr>w_ID := [], w_CreatedAt := zero_time\<rparr>) example_tenant_store =
     Inr (example_tenant_store\<lparr>m_webhooks := [(''t1'', [example_saved_hook])]\<rparr>, example_saved_hook)"
  "tenantScope (example_admin_call ''t1'') = Inr ''t1''" "k_Scope example_admin_key \<noteq> ScopeRoot"
  "TrimPrefix (k_Scope example_admin_key) ''tenant:'' = ''t1''"
  by code_simp+

lemma example_created:
  obtains c' where "createWebhook example_admin 7 example_admin_gateway (example_admin_call ''t1'') =
    (8, example_admin_gateway\<lparr>sv_Store := example_tenant_store\<lparr>m_webhooks := [(''t1'', [example_saved_hook])]\<rparr>\<rparr>, c', Returned None)"
proof -
  have "ad_webhook example_admin (c_reqBody (example_admin_call ''t1'')) = Inr \<lparr> wq_URL = ''https://hooks'',
      wq_Secret = ''sixteen bytes!!!'', wq_Events = ['' breaker.opened ''], wq_Enabled = None \<rparr>"
    by (simp add: example_admin_def example_admin_call_def new_ctx_def)
  moreover have "new_id example_admin ''whk'' 7 = (8, ''whk_1'', 7)"
    by (simp add: new_id_def example_admin_def example_chat_env_def example_genv_def)
  moreover have "sv_Store example_admin_gateway = example_tenant_store" by (simp add: example_admin_gateway_def)
  ultimately show thesis using that
    by (simp add: createWebhook_def scoped_def parsed_def answered_def set_store_def example_webhook)
qed

lemma example_admin_route: "(''POST'', ''/tenants/:tenant/webhooks'', createWebhook example_admin) \<in> set (tenant_routes example_admin)"
  "(''POST'', ''/tenants/:tenant/webhooks'', createWebhook example_admin) \<in> set (adminRoutes example_admin example_data)"
  by (simp_all add: adminRoutes_def tenant_routes_def)

lemma example_admin_caller: "c_key (example_admin_call tid) = Some example_admin_key" "sv_Store example_admin_gateway = example_tenant_store"
  by (simp_all add: example_admin_call_def example_admin_gateway_def)

theorem control_plane_refines_witness:
  "(admin_write (sv_Config example_admin_gateway) example_admin_key)\<^sup>*\<^sup>* example_tenant_store
     (example_tenant_store\<lparr>m_webhooks := [(''t1'', [example_saved_hook])]\<rparr>)"
proof (rule example_created)
  fix c' assume "createWebhook example_admin 7 example_admin_gateway (example_admin_call ''t1'') =
    (8, example_admin_gateway\<lparr>sv_Store := example_tenant_store\<lparr>m_webhooks := [(''t1'', [example_saved_hook])]\<rparr>\<rparr>, c', Returned None)"
  from control_plane_refines [OF example_admin_route(2) example_admin_caller(1) this] show ?thesis by (simp add: example_admin_caller)
qed

theorem tenant_key_confined_witness:
  "confined ''t1'' example_tenant_store (example_tenant_store\<lparr>m_webhooks := [(''t1'', [example_saved_hook])]\<rparr>)"
proof (rule example_created)
  fix c' assume "createWebhook example_admin 7 example_admin_gateway (example_admin_call ''t1'') =
    (8, example_admin_gateway\<lparr>sv_Store := example_tenant_store\<lparr>m_webhooks := [(''t1'', [example_saved_hook])]\<rparr>\<rparr>, c', Returned None)"
  from tenant_key_confined [OF example_admin_route(2) example_admin_caller(1) example_webhook(4) this] show ?thesis
    by (simp add: example_admin_caller example_webhook(5))
qed

lemma example_tenant_typed: "typed_store cfg example_tenant_store"
proof -
  have "valid_tenant cfg (new_tenant ''t1'' ''acme'' 5)" by (rule valid_new_tenant) simp
  from typed_put_tenant [OF typed_NewMemory [of cfg True] this, of "''t1''"] show ?thesis
    by (simp add: example_tenant_store_def NewMemory_def)
qed

theorem configuration_stays_typed_witness:
  "typed_store (sv_Config example_admin_gateway) (example_tenant_store\<lparr>m_webhooks := [(''t1'', [example_saved_hook])]\<rparr>)"
proof (rule example_created)
  fix c' assume "createWebhook example_admin 7 example_admin_gateway (example_admin_call ''t1'') =
    (8, example_admin_gateway\<lparr>sv_Store := example_tenant_store\<lparr>m_webhooks := [(''t1'', [example_saved_hook])]\<rparr>\<rparr>, c', Returned None)"
  from configuration_stays_typed [OF example_admin_route(2) example_admin_caller(1) this] show ?thesis
    by (simp add: example_admin_caller example_tenant_typed)
qed

theorem foreign_tenant_hidden_witness:
  "createWebhook example_admin 7 example_admin_gateway (example_admin_call ''t2'') =
     (7, example_admin_gateway, Fail (example_admin_call ''t2'') (ApiErr (ResourceNotFound ''tenant'' ''t2'')), Returned None)"
proof -
  have "TrimSpace (param (example_admin_call ''t2'') ''tenant'') = ''t2''" by code_simp
  moreover have "TrimPrefix (k_Scope example_admin_key) ''tenant:'' \<noteq> ''t2''" by (simp add: example_webhook(5))
  ultimately show ?thesis
    using foreign_tenant_hidden [OF example_admin_route(1) example_admin_caller(1) example_webhook(4)] by simp
qed

end
