(* ===== verification/State_Frame.thy ===== *)
theory State_Frame
  imports Admin_Theorems
begin

text \<open>
  What a request leaves alone. A \<^emph>\<open>view\<close> is a part of the server's state that the plumbing of the middleware (limiter, rates, captures,
  log, metrics) does not touch; the locale \<open>state_view\<close> shows once that a handler behind the middleware changes a view
  only if it does so itself. Two views are used: the configuration with the drain flag, which no handler of either plane changes, and
  that together with the store, which no handler of the data plane changes.
\<close>

section \<open>Views\<close>

definition unchanged :: "('x Server_scheme \<Rightarrow> 'v) \<Rightarrow> ('w, 'x) handler \<Rightarrow> bool" where
  "unchanged view h \<longleftrightarrow> (\<forall>w s c. view (fst (snd (h w s c))) = view s)"

lemma unchangedI: "(\<And>w s c w' s' c' fl. h w s c = (w', s', c', fl) \<Longrightarrow> view s' = view s) \<Longrightarrow> unchanged view h"
  unfolding unchanged_def by (metis fst_conv snd_conv prod_cases4)

lemma unchangedD: "unchanged view h \<Longrightarrow> h w s c = (w', s', c', fl) \<Longrightarrow> view s' = view s"
  unfolding unchanged_def by (metis fst_conv snd_conv)

locale state_view =
  fixes view :: "'x Server_scheme \<Rightarrow> 'v"
  assumes plumbing: "view (s\<lparr>sv_limiter := l\<rparr>) = view s" "view (s\<lparr>sv_rates := r\<rparr>) = view s" "view (s\<lparr>sv_captures := k\<rparr>) = view s"
    "view (s\<lparr>sv_log := g\<rparr>) = view s" "metrics_ok ms = metrics_ok (sv_metrics s) \<Longrightarrow> view (s\<lparr>sv_metrics := ms\<rparr>) = view s"
begin

lemma metered: "metric_ok (series, labels, x) \<Longrightarrow> view (meter_event series labels x s) = view s"
  by (simp add: meter_event_def plumbing metrics_ok_add)

lemma released: "view (releaseUnlessAdopted p c s) = view s"
  by (simp add: releaseUnlessAdopted_def plumbing)

lemma rated: "admit_rate ge lims tid w s c = (w1, s1, r) \<Longrightarrow> view s1 = view s"
  by (auto simp: admit_rate_def Let_def plumbing split: if_splits prod.splits)

lemma observed: "unchanged view h \<Longrightarrow> unchanged view (observe ge h)"
  by (rule unchangedI) (auto simp: observe_def Let_def plumbing metered metric_ok_series dest: unchangedD split: prod.splits flow.splits)

lemma recovered: "unchanged view h \<Longrightarrow> unchanged view (recover h)"
  by (rule unchangedI) (auto simp: recover_def dest: unchangedD split: prod.splits flow.splits)

lemma entered: "unchanged view h \<Longrightarrow> unchanged view (identify ge h)"
  by (simp add: unchanged_def identify_def Let_def split: prod.split)

lemma refused: "unchanged view h \<Longrightarrow> unchanged view (refuseWhenDraining h)" "unchanged view h \<Longrightarrow> unchanged view (limitBody h)"
  "unchanged view h \<Longrightarrow> unchanged view (metricsAuth h)"
  by (auto simp: unchanged_def refuseWhenDraining_def limitBody_def metricsAuth_def Let_def)

lemma authenticated: "unchanged view h \<Longrightarrow> unchanged view (auth ge want h)"
  by (simp add: unchanged_def auth_def Let_def split: option.split prod.split sum.split)

lemma captured: "unchanged view h \<Longrightarrow> unchanged view (captureDebug ge h)"
  by (rule unchangedI) (auto simp: captureDebug_def Let_def plumbing dest: unchangedD split: prod.splits flow.splits option.splits if_splits)

lemma limited:
  assumes "unchanged view h"
  shows "unchanged view (limitTenant ge h)"
proof (rule unchangedI)
  fix w s c w' s' c' fl
  assume r: "limitTenant ge h w s c = (w', s', c', fl)"
  have step: "h v (s1\<lparr>sv_limiter := l\<rparr>) c1 = (w2, s2, c2, fl2) \<Longrightarrow> view s1 = view s \<Longrightarrow> view (releaseUnlessAdopted p c2 s2) = view s"
    for v s1 l c1 w2 s2 c2 fl2 p using unchangedD [OF assms] by (fastforce simp: released plumbing)
  show "view s' = view s"
    using r step unchangedD [OF assms] rated
    by (fastforce simp: limitTenant_def Let_def plumbing fail_with_def split: option.splits prod.splits if_splits)
qed

end

context state_view
begin

lemma tabled:
  assumes "unchanged view metricsH" "unchanged view dataH" "router c = AdminRoute \<Longrightarrow> unchanged view (auditMutations ge adminH)"
  shows "view (fst (snd (route_table ge router metricsH dataH adminH w s c))) = view s"
proof (cases "router c")
  case AdminRoute
  then show ?thesis using authenticated [OF assms(3)] by (simp add: route_table_def unchanged_def)
next
  case DataRoute
  then show ?thesis using authenticated [OF captured [OF limited [OF assms(2)]]] by (simp add: route_table_def unchanged_def)
next
  case MetricsRoute
  then show ?thesis using refused(3) [OF assms(1)] by (simp add: route_table_def unchanged_def notFound_def fail_with_def)
qed (simp_all add: route_table_def handleHealthz_def notFound_def fail_with_def)

lemma served_view:
  assumes "serve ge router metricsH dataH adminH w s c = (w', s', c', fl)" "unchanged view metricsH" "unchanged view dataH"
    and "router (entry_ctx ge w c) = AdminRoute \<Longrightarrow> unchanged view (auditMutations ge adminH)"
  shows "view s' = view s"
proof -
  obtain w1 s1 c1 f1 where i: "refuseWhenDraining (limitBody (route_table ge router metricsH dataH adminH))
       (fst (ge_now ge (fst (ge_NewID ge ''req'' w)))) s (entry_ctx ge w c) = (w1, s1, c1, f1)" and e: "ended s1 c1 f1 s' c'"
    using serve_cases [OF assms(1)] by metis
  have t: "route_table ge router metricsH dataH adminH v s (entry_ctx ge w c) = (w1, s1, c1, f1) \<Longrightarrow> view s1 = view s" for v
    using tabled [OF assms(2,3), of router "entry_ctx ge w c" ge adminH v s] assms(4) by simp
  have "view s1 = view s"
    using i by (auto simp: refuseWhenDraining_def limitBody_def Let_def fail_with_def dest: t split: if_splits)
  then show ?thesis using e by (auto simp: ended_def plumbing split: flow.splits)
qed

end

locale storeless_view = state_view +
  assumes stored: "view (s\<lparr>sv_Store := m\<rparr>) = view s"
begin

lemma audited: "unchanged view h \<Longrightarrow> unchanged view (auditMutations ge h)"
  by (rule unchangedI) (auto simp: auditMutations_def Let_def stored dest: unchangedD split: prod.splits flow.splits option.splits if_splits)

end

definition settings :: "'x Server_scheme \<Rightarrow> Config \<times> bool \<times> bool" where
  "settings s = (sv_Config s, sv_draining s, metrics_ok (sv_metrics s))"

definition standing :: "'x Server_scheme \<Rightarrow> Config \<times> bool \<times> bool \<times> Memory" where
  "standing s = (sv_Config s, sv_draining s, metrics_ok (sv_metrics s), sv_Store s)"

interpretation settings: storeless_view settings
  by unfold_locales (simp_all add: settings_def)

interpretation standing: state_view standing
  by unfold_locales (simp_all add: standing_def)

section \<open>The admin plane keeps the settings\<close>

lemma settings_simps [simp]:
  "settings (set_store m s) = settings s" "settings (drop_catalog tid s) = settings s" "settings (drop_quota tid s) = settings s"
  "settings (s\<lparr>gt_dispatcher := d\<rparr>) = settings s" "settings (s\<lparr>gt_emitted := es\<rparr>) = settings s" "settings (s\<lparr>gt_cache := k\<rparr>) = settings s"
  "settings (s\<lparr>sv_captures := cs\<rparr>) = settings s" "settings (s\<lparr>gt_quotas := q\<rparr>) = settings s"
  "settings (fst (snd (refused e w s c))) = settings s" "settings (fst (snd (store_refused env e kind rid w s c))) = settings s"
  "settings (fst (snd (bad_request text prm w s c))) = settings s" "settings (fst (snd (answered f w s c))) = settings s"
  by (simp_all add: settings_def refused_def store_refused_def bad_request_def answered_def set_store_def drop_catalog_def drop_quota_def)

lemma settings_combined:
  "unchanged settings h \<Longrightarrow> unchanged settings (rooted h)"
  "(\<And>tid. unchanged settings (g tid)) \<Longrightarrow> unchanged settings (scoped g)"
  "(\<And>tid kid. unchanged settings (k tid kid)) \<Longrightarrow> unchanged settings (targeted k)"
  "(\<And>req. unchanged settings (p req)) \<Longrightarrow> unchanged settings (parsed decode p)"
  by (auto simp: unchanged_def rooted_def scoped_def targeted_def parsed_def split: option.split sum.split)

lemma settings_reads:
  "unchanged settings (adminMeta dv)" "unchanged settings listAudit" "unchanged settings listAdminKeys" "unchanged settings listTenants"
  "unchanged settings (getTenant env)" "unchanged settings listKeys" "unchanged settings listProviders" "unchanged settings listAliases"
  "unchanged settings listRoutes" "unchanged settings (getQuota env)" "unchanged settings (flushTenantCache env)"
  "unchanged settings (listCaptures env)" "unchanged settings listWebhooks" "unchanged settings listEvents"
  unfolding listAudit_def listAdminKeys_def listTenants_def getTenant_def listKeys_def listProviders_def listAliases_def
    listRoutes_def getQuota_def flushTenantCache_def listCaptures_def listWebhooks_def listEvents_def
  by ((rule settings_combined)?, simp add: unchanged_def adminMeta_def Let_def split: sum.split prod.split option.split)+

lemma settings_drops:
  "unchanged settings (deleteProvider env)" "unchanged settings (deleteAlias env)" "unchanged settings (deleteRoute env)"
  "unchanged settings (deleteWebhook env)" "unchanged settings (deleteQuota env)" "unchanged settings (deleteTenant env)"
  unfolding deleteProvider_def deleteAlias_def deleteRoute_def deleteWebhook_def deleteQuota_def deleteTenant_def
  by (rule settings_combined, simp add: unchanged_def Let_def split: sum.split prod.split)+

lemma settings_saves:
  "unchanged settings (createProvider env)" "unchanged settings (updateProvider env)" "unchanged settings (upsertRoute env)"
  "unchanged settings (setQuota env)" "unchanged settings (createWebhook env)" "unchanged settings (createTenant env)"
  "unchanged settings (updateTenant env)"
  unfolding createProvider_def updateProvider_def upsertRoute_def setQuota_def createWebhook_def createTenant_def updateTenant_def
  by ((rule settings_combined)+, simp add: unchanged_def Let_def split: sum.split prod.split option.split)+

lemma settings_keys:
  "unchanged settings (createKey env)" "unchanged settings (createAdminKey env)" "unchanged settings (revokeKey env)" "unchanged settings (revokeAdminKey env)"
proof -
  have m: "settings (fst (snd (minted env tid plane name scope ex failed w s c))) = settings s" for tid plane name scope ex failed w s c
    by (simp add: minted_def Let_def split: prod.split sum.split)
  show "unchanged settings (createKey env)" unfolding createKey_def
    by (rule settings_combined)+ (simp add: unchanged_def m split: sum.split)
  show "unchanged settings (createAdminKey env)" unfolding createAdminKey_def
    by (rule settings_combined)+ (simp add: unchanged_def m Let_def)
  have "unchanged settings (Admin.revoke env tid)" for tid
    by (simp add: unchanged_def revoke_def Let_def split: prod.split sum.split)
  then show "unchanged settings (revokeKey env)" "unchanged settings (revokeAdminKey env)"
    unfolding revokeKey_def revokeAdminKey_def by (auto intro: settings_combined)
qed

lemma settings_aliases: "unchanged settings (upsertAlias env)"
proof -
  have "unchanged settings (save_alias env a)" for a
    by (simp add: unchanged_def save_alias_def Let_def split: sum.split prod.split)
  then have "unchanged settings (parsed (ad_alias env) (\<lambda>req. case alias_of tid name req of Inl err \<Rightarrow> refused err | Inr a \<Rightarrow> save_alias env a))"
    for tid name by (intro settings_combined) (simp add: unchanged_def split: sum.split)
  then show ?thesis unfolding upsertAlias_def
    by (intro settings_combined) (simp add: unchanged_def Let_def)
qed

lemma refresh_all_settings: "refresh_all env tids w s = (w', s', rows) \<Longrightarrow> settings s' = settings s"
proof (induction tids arbitrary: w s w' s' rows)
  case (Cons tid tids)
  obtain w1 cat r where r: "Refresh (ch_errText (ad_ch env)) (ge_now (ad_ge env)) (memory_reads (sv_Store s))
      (ds_catalog (gt_dispatcher s)) w tid = (w1, cat, r)" by (metis prod_cases3)
  let ?s = "s\<lparr>gt_dispatcher := (gt_dispatcher s)\<lparr>ds_catalog := cat\<rparr>\<rparr>"
  obtain w2 s2 rest where "refresh_all env tids w1 ?s = (w2, s2, rest)" by (metis prod_cases3)
  with Cons.IH [OF this] Cons.prems r show ?case by (simp only: refresh_all.simps prod.case Let_def) auto
qed simp

lemma settings_refresh: "unchanged settings (refreshCatalog env)"
proof -
  have "unchanged settings (refresh_named env t)" for t
    by (auto simp: unchanged_def refresh_named_def Let_def refresh_all_settings split: sum.split prod.split option.split)
  then show ?thesis using settings_combined(4) [of "refresh_named env" "ad_refresh env"]
    by (simp add: unchanged_def refreshCatalog_def)
qed

lemma settings_usage:
  fixes env :: "'w admin_env"
  shows "unchanged settings (adminUsage env)" "unchanged settings (adminUsageBreakdown env)"
proof -
  have step: "settings (fst (snd (case r of Inl e \<Rightarrow> refused (ApiErr e) w s c | Inr (window, since, until) \<Rightarrow> f window since until))) = settings s"
    if "\<And>window since until. settings (fst (snd (f window since until))) = settings s"
    for r :: "apiError + string \<times> time \<times> time" and f :: "string \<Rightarrow> time \<Rightarrow> time \<Rightarrow> 'w \<times> 'w Gateway \<times> fctx \<times> flow" and w s c
    using that by (cases r) auto
  show "unchanged settings (adminUsage env)" unfolding adminUsage_def
    by (rule settings_combined) (auto simp: unchanged_def Let_def split: prod.split sum.split intro!: step)
  have "settings (fst (snd (admin_breakdown env tid window since until w s c))) = settings s" for s :: "'w Gateway" and c tid window since until and w :: 'w
    unfolding admin_breakdown_def Let_def by (simp split: if_split sum.split)
  then show "unchanged settings (adminUsageBreakdown env)" unfolding adminUsageBreakdown_def
    by (intro settings_combined) (auto simp: unchanged_def Let_def split: prod.split intro!: step)
qed

lemma settings_adminRoutes: "(verb, path, h) \<in> set (adminRoutes env dv) \<Longrightarrow> unchanged settings h"
  by (auto simp: adminRoutes_def root_routes_def tenant_routes_def intro: settings_reads settings_usage settings_refresh settings_drops
      settings_keys settings_saves settings_aliases)

section \<open>The data plane only reads\<close>

lemma standing_simps [simp]:
  "standing (s\<lparr>gt_dispatcher := d\<rparr>) = standing s" "standing (s\<lparr>gt_emitted := es\<rparr>) = standing s" "standing (s\<lparr>gt_quotas := q\<rparr>) = standing s"
  "standing (s\<lparr>gt_health := hc\<rparr>) = standing s" "standing (s\<lparr>gt_quotas := q, gt_emitted := es\<rparr>) = standing s"
  by (simp_all add: standing_def)

lemma catalog_now_standing: "catalog_now env tid w s = (w', s', r) \<Longrightarrow> standing s' = standing s"
  by (auto simp: catalog_now_def split: prod.splits)

lemma alias_objects_standing: "alias_objects env tid t as w s = (w', s', os) \<Longrightarrow> standing s' = standing s"
proof (induction as arbitrary: w s w' s' os)
  case (Cons a as)
  obtain w1 s1 r where r: "resolve_now env tid (a_Name a) w s = (w1, s1, r)" by (metis prod_cases3)
  then have "standing s1 = standing s" by (auto simp: resolve_now_def Let_def split: prod.splits)
  with Cons r show ?case by (auto split: prod.splits)
qed simp

lemma buildHealth_standing: "buildHealth env tid w s = (w', s', r) \<Longrightarrow> standing s' = standing s"
  by (auto simp: buildHealth_def Let_def dest: catalog_now_standing split: prod.splits)

lemma standing_dataRoutes: "(verb, path, h) \<in> set (dataRoutes dv) \<Longrightarrow> unchanged standing h"
proof -
  note l = catalog_now_standing alias_objects_standing buildHealth_standing
  have "unchanged standing (handleChatCompletions env)" for env :: "'w chat_env"
    by (rule unchangedI) (auto dest!: handleChat_frame(1) simp: untouched_def standing_def)
  moreover have "unchanged standing (handleListModels dv)" "unchanged standing (handleGetModel dv)"
    by (rule unchangedI; auto simp: handleListModels_def handleGetModel_def aliasObjects_def Let_def fail_with_def dest!: l
        split: prod.splits sum.splits option.splits if_splits)+
  moreover have "unchanged standing (handleUsage dv)" "unchanged standing (handleUsageBreakdown dv)"
    by (rule unchangedI; auto simp: handleUsage_def handleUsageBreakdown_def Let_def fail_with_def split: prod.splits sum.splits if_splits)+
  moreover have "unchanged standing (handleHealth dv)" "unchanged standing (handleMeta dv)"
    by (rule unchangedI; auto simp: handleHealth_def handleMeta_def Let_def dest!: l split: prod.splits option.splits)+
  ultimately show "(verb, path, h) \<in> set (dataRoutes dv) \<Longrightarrow> unchanged standing h" by (auto simp: dataRoutes_def)
qed

end
