(* ===== verification/Data_Theorems.thy ===== *)
theory Data_Theorems
  imports Data_Plane Chat_Theorems
begin

text \<open>
  What the read side of the data plane promises: when \<open>/v1/health\<close> answers 503, that a tenant's report is built from its own circuits
  and cached for it alone, what the rows of \<open>/v1/usage\<close> mean, and that a deployment which hides cost never shows it.
\<close>

section \<open>Health\<close>

lemma degrade_unavailable [simp]:
  "hp_Status (degrade healthDegraded r) = healthUnavailable \<longleftrightarrow> hp_Status r = healthUnavailable"
  "hp_Providers (degrade to r) = hp_Providers r"
  by (auto simp: degrade_def health_names)

lemma provider_row_status [simp]:
  "hp_Status (provider_row circuits snap tid p r) = healthUnavailable \<longleftrightarrow> hp_Status r = healthUnavailable"
  "\<exists>row. hp_Providers (provider_row circuits snap tid p r) = hp_Providers r @ [row]"
  by (auto simp: provider_row_def Let_def split: option.splits prod.splits)

lemma provider_rows_status:
  "hp_Status (fold (provider_row circuits snap tid) ps r) = healthUnavailable \<longleftrightarrow> hp_Status r = healthUnavailable"
  "length (hp_Providers (fold (provider_row circuits snap tid) ps r)) = length (hp_Providers r) + length ps"
proof (induction ps arbitrary: r)
  case (Cons p ps)
  { case 1 then show ?case using Cons.IH(1) by simp
  next
    case 2
    obtain row where "hp_Providers (provider_row circuits snap tid p r) = hp_Providers r @ [row]" using provider_row_status(2) by blast
    then show ?case using Cons.IH(2) by simp }
qed simp_all

definition all_dead :: "(string, Status) gomap \<Rightarrow> goerr + Snapshot \<Rightarrow> string \<Rightarrow> Provider list \<Rightarrow> bool" where
  \<comment> \<open>there is a catalog and at least one provider, and no provider is enabled with a model whose circuit is not open\<close>
  "all_dead circuits r tid ps \<longleftrightarrow>
     (case r of Inl err \<Rightarrow> False | Inr snap \<Rightarrow> ps \<noteq> [] \<and> list_all (\<lambda>p. \<not> provider_usable circuits (Some snap) tid p) ps)"

lemma providers_part_status:
  assumes "hp_Status rep \<noteq> healthUnavailable" "hp_Providers rep = []"
  shows "hp_Status (providers_part circuits r tid ps rep) = healthUnavailable \<longleftrightarrow> all_dead circuits r tid ps"
proof -
  let ?rows = "\<lambda>snap. fold (provider_row circuits snap tid) ps rep"
  have "hp_Providers (?rows snap) \<noteq> [] \<longleftrightarrow> ps \<noteq> []" for snap
    using provider_rows_status(2) [of circuits snap tid ps rep] assms(2) by (metis add_0 length_0_conv list.size(3))
  then show ?thesis using provider_rows_status(1) assms(1)
    by (cases r) (auto simp: providers_part_def all_dead_def Let_def list_all_iff)
qed

lemma catalog_part_status:
  "hp_Status (catalog_part cfg errText now r (empty_report env now m)) \<noteq> healthUnavailable \<and>
   hp_Providers (catalog_part cfg errText now r (empty_report env now m)) = []"
  by (auto simp: catalog_part_def empty_report_def Let_def degrade_def health_names split: sum.splits)

lemma reachable_iff:
  "reachable provider es blocked \<longleftrightarrow>
     (\<exists>e \<in> set es. md_Provider (en_Model e) = provider \<and> snd (ProviderOf (md_ID (en_Model e))) \<notin> set blocked)"
  by (induction es) auto

lemma buildHealth_status:
  assumes b: "buildHealth env tid w s = (w', s', rep)"
    and c: "catalog_now env tid (fst (de_now env w)) s = (w2, s2, r)"
  shows "hp_Status rep = healthUnavailable \<longleftrightarrow>
    all_dead (Breaker.Snapshot (ds_breaker (gt_dispatcher s2)) (snd (de_now env w2))) r tid (ListProviders tid (sv_Store s))"
proof -
  let ?circuits = "Breaker.Snapshot (ds_breaker (gt_dispatcher s2)) (snd (de_now env w2))"
  let ?rep1 = "catalog_part (sv_Config s) (ch_errText (de_ch env)) (snd (de_now env w)) r (empty_report env (snd (de_now env w)) (sv_Store s))"
  have "hp_Status rep = healthUnavailable \<longleftrightarrow> hp_Status (providers_part ?circuits r tid (ListProviders tid (sv_Store s)) ?rep1) = healthUnavailable"
    using b c by (auto simp: buildHealth_def Let_def split: prod.splits sum.splits if_splits)
  also have "\<dots> \<longleftrightarrow> all_dead ?circuits r tid (ListProviders tid (sv_Store s))"
    using catalog_part_status by (intro providers_part_status) blast+
  finally show ?thesis .
qed


definition example_reader :: "time data_env" where
  "example_reader = \<lparr> de_ch = example_chat_env, de_Version = [], de_startedAt = 0, de_Dev = True, de_Events = True \<rparr>"

definition example_down :: "time Gateway" where
  \<comment> \<open>a known catalog and one provider, disabled\<close>
  "example_down = example_gateway\<lparr>sv_Store := (NewMemory False)\<lparr>m_providers := [(''t1'', [(example_provider ''p1'')\<lparr>p_Enabled := False\<rparr>])]\<rparr>,
     gt_dispatcher := example_dispatcher\<lparr>ds_catalog := set_snapshot example_catalog ''t1'' (Some example_snapshot)\<rparr>\<rparr>"

lemma catalog_known: "state_of c tid = Some snap \<Longrightarrow> Catalog_Get errText now st c w tid = (w', c', r) \<Longrightarrow> \<exists>snap'. r = Inr snap'"
  by (auto simp: Catalog_Get_def reload_def Let_def split: prod.splits sum.splits if_splits)


text \<open>The source says that a tenant with no enabled provider is unconfigured rather than down. The guard counts every registered
  provider, so such a tenant is answered 503 as soon as it has one that is disabled.\<close>

lemma disabled_only_unavailable:
  assumes "ListProviders tid (sv_Store s) \<noteq> []" "list_all (\<lambda>p. \<not> p_Enabled p) (ListProviders tid (sv_Store s))"
    and "buildHealth env tid w s = (w', s', rep)" "catalog_now env tid (fst (de_now env w)) s = (w2, s2, Inr snap)"
  shows "c_status (sendHealth rep c) = 503"
proof -
  have "all_dead circuits (Inr snap) tid (ListProviders tid (sv_Store s))" for circuits
    using assms(1,2) by (auto simp: all_dead_def provider_usable_def list_all_iff)
  with buildHealth_status [OF assms(3,4)] show ?thesis by (simp add: sendHealth_def answer_json_def)
qed

lemma own_circuits_filter: "own_circuits tid p (filter (\<lambda>(key, st). fst (SplitKey key) = tid) circuits) = own_circuits tid p circuits"
  by (induction circuits) (auto simp: own_circuits_def)

text \<open>A tenant's report tells it nothing of other tenants' circuits: the breaker is shared by the process, and the report is the
  same when every circuit of other tenants is taken out of its snapshot.\<close>

theorem health_own_circuits:
  "providers_part circuits r tid ps rep = providers_part (filter (\<lambda>(key, st). fst (SplitKey key) = tid) circuits) r tid ps rep"
proof -
  have "provider_row circuits snap tid = provider_row (filter (\<lambda>(key, st). fst (SplitKey key) = tid) circuits) snap tid" for snap
    by (rule ext, rule ext) (simp add: provider_row_def own_circuits_filter)
  moreover have "provider_usable circuits snap tid = provider_usable (filter (\<lambda>(key, st). fst (SplitKey key) = tid) circuits) snap tid" for snap
    by (rule ext, cases snap) (simp_all add: provider_usable_def own_circuits_filter)
  ultimately show ?thesis unfolding providers_part_def by metis
qed

text \<open>The cache holds one report per tenant, for its lifetime and no longer; a lifetime that is not positive turns it off.\<close>

lemma health_cache:
  "health_get t tid' (health_put now tid r h) =
     (if hk_ttl h \<le> 0 then None
      else if tid' = tid then (if t > now + hk_ttl h then None else Some r) else health_get t tid' h)"
  by (simp add: health_get_def health_put_def)


section \<open>Usage\<close>

lemma worse_gauge: "quotaGauge (worse a b) = max (quotaGauge a) (quotaGauge b)"
  by (simp add: worse_def)

lemma usage_rows_spec:
  "usage_rows cfg ps (st, rows) =
     (foldl worse st (map sp_state (filter limited ps)), rows @ List.map_filter (usage_row cfg) (filter limited ps))"
  by (induction cfg ps "(st, rows)" arbitrary: st rows rule: usage_rows.induct) (auto simp: map_filter_simps split: option.splits)

lemma foldl_worse_gauge: "quotaGauge st \<le> quotaGauge (foldl worse st xs) \<and> (\<forall>x \<in> set xs. quotaGauge x \<le> quotaGauge (foldl worse st xs))"
proof (induction xs arbitrary: st)
  case (Cons x xs)
  from Cons [of "worse st x"] show ?case by (auto simp: worse_gauge)
qed simp

definition shown_slot :: "Config \<Rightarrow> slotPosition \<Rightarrow> bool" where
  "shown_slot cfg p \<longleftrightarrow> limited p \<and> \<not> (sp_unit p = unitCost \<and> HidesCost (cfg_Billing cfg))"

lemma usage_row_None: "usage_row cfg p = None \<longleftrightarrow> sp_unit p = unitCost \<and> HidesCost (cfg_Billing cfg)"
  by (simp add: usage_row_def Let_def)

lemma usage_row_Some: "usage_row cfg p = Some r \<Longrightarrow> \<not> (sp_unit p = unitCost \<and> HidesCost (cfg_Billing cfg)) \<and>
   ul_Cap r = sp_cap p \<and> ul_Unit r = sp_unit p \<and> ul_State r = sp_state p \<and> ul_Remaining r = max 0 (ul_Cap r - ul_Consumed r)"
  by (auto simp: usage_row_def Let_def split: if_splits)

text \<open>The usage report states the tenant's position exactly: one row per limited slot in order, but for cost slots a
  deployment hides, each with the slot's cap and state and a remainder that is the cap less what is consumed and never
  negative; and the overall state is at least as severe as every limited slot's, hidden ones included.\<close>

theorem usage_position_exact:
  assumes "usage_rows cfg slots (QuotaOK, []) = (state, rows)"
  shows "map ul_Unit rows = map sp_unit (filter (shown_slot cfg) slots) \<and> map ul_Cap rows = map sp_cap (filter (shown_slot cfg) slots) \<and>
    map ul_State rows = map sp_state (filter (shown_slot cfg) slots) \<and>
    list_all (\<lambda>r. ul_Remaining r = max 0 (ul_Cap r - ul_Consumed r)) rows \<and>
    list_all (\<lambda>p. quotaGauge (sp_state p) \<le> quotaGauge state) (filter limited slots)"
proof -
  have rows: "rows = List.map_filter (usage_row cfg) (filter limited slots)" and st: "state = foldl worse QuotaOK (map sp_state (filter limited slots))"
    using assms by (simp_all add: usage_rows_spec)
  have "map f (List.map_filter (usage_row cfg) (filter limited ps)) = map g (filter (shown_slot cfg) ps)"
    if "\<And>p r. usage_row cfg p = Some r \<Longrightarrow> f r = g p" for f :: "usageLimit \<Rightarrow> 'z" and g ps
    by (induction ps) (auto simp: map_filter_simps shown_slot_def usage_row_None that dest: usage_row_Some split: option.splits)
  note cols = this
  have "list_all (\<lambda>r. ul_Remaining r = max 0 (ul_Cap r - ul_Consumed r)) rows"
    using usage_row_Some unfolding rows by (fastforce simp: list_all_iff List.map_filter_def)
  moreover have "list_all (\<lambda>p. quotaGauge (sp_state p) \<le> quotaGauge state) (filter limited slots)"
    using foldl_worse_gauge [of QuotaOK "map sp_state (filter limited slots)"] st by (auto simp: list_all_iff)
  ultimately show ?thesis using usage_row_Some unfolding rows by (auto intro!: cols)
qed

theorem usage_position_exact_witness:
  "\<exists>state rows. usage_rows Default [example_slot, example_slot\<lparr>sp_unit := unitTokens, sp_state := QuotaOK\<rparr>] (QuotaOK, []) = (state, rows) \<and>
     map ul_Unit rows = [unitTokens] \<and> quotaGauge QuotaHardExceeded \<le> quotaGauge state"
proof -
  let ?slots = "[example_slot, example_slot\<lparr>sp_unit := unitTokens, sp_state := QuotaOK\<rparr>]"
  obtain state rows where u: "usage_rows Default ?slots (QuotaOK, []) = (state, rows)" by fastforce
  have "map sp_unit (filter (shown_slot Default) ?slots) = [unitTokens]" by code_simp
  moreover have "limited example_slot" by code_simp
  moreover have "sp_state example_slot = QuotaHardExceeded" by code_simp
  ultimately show ?thesis using usage_position_exact [OF u] u by simp
qed

text \<open>Consumed and remaining sum to the cap only below it: over the cap they sum to what was consumed.\<close>

lemma usage_sum: "usage_row cfg p = Some r \<Longrightarrow> ul_Consumed r + ul_Remaining r = max (ul_Cap r) (ul_Consumed r)"
  by (auto dest!: usage_row_Some)

section \<open>Hidden cost\<close>

fun names :: "jval \<Rightarrow> string list" where
  \<comment> \<open>every field name that occurs in a document\<close>
  "names (JObj fs) = concat (map (\<lambda>(k, v). k # names v) fs)"
| "names (JArr xs) = concat (map names xs)"
| "names _ = []"

lemma names_simple [simp]: "names (json_strings xs) = []"
  by (induction xs) (simp_all add: json_strings_def)

lemma usage_limit_names: "''cost_usd'' \<notin> set (names (usageLimit_json u))"
  by (simp add: usageLimit_json_def)

lemma usage_names:
  "''cost_usd'' \<notin> set (names (JObj (usage_fields window since until totals None state (Some rows))))"
  using usage_limit_names by (auto simp: usage_fields_def totals_fields_def cost_field_def)

lemma breakdown_names:
  "''cost_usd'' \<notin> set (names (breakdown_json window g since until (map (\<lambda>b. bucket_json b None) bs) tr))"
  by (auto simp: breakdown_json_def bucket_json_def totals_fields_def cost_field_def)

text \<open>C37. A deployment that hides cost shows none on the data plane: whatever a tenant asks of \<open>/v1/usage\<close> or
  \<open>/v1/usage/breakdown\<close>, no field of the answer is \<open>cost_usd\<close>, and no limit it lists is one on cost, whose cap and remainder would
  give the cost away.\<close>

theorem hidden_cost_absent:
  assumes "HidesCost (cfg_Billing (sv_Config s))" "h = handleUsage env \<or> h = handleUsageBreakdown env"
    and "h w s c = (w', s', c', fl)"
  shows "s' = s \<and> (\<forall>v. c_body c' = JSONBody v \<longrightarrow> ''cost_usd'' \<notin> set (names v)) \<and>
    list_all (\<lambda>r. ul_Unit r \<noteq> unitCost) (snd (usage_rows (sv_Config s) slots (QuotaOK, [])))"
proof -
  have cost: "tenantCost (sv_Config s) x = None" for x using assms(1) by (simp add: tenantCost_def)
  have body: "c_body (fst (fail_with c e)) = JSONBody v \<Longrightarrow> False" for c e v
    by (auto simp: fail_with_def Fail_def Let_def split: if_splits)
  have "s' = s \<and> (\<forall>v. c_body c' = JSONBody v \<longrightarrow> ''cost_usd'' \<notin> set (names v))"
    using assms(2)
  proof
    assume "h = handleUsage env"
    then show ?thesis using assms(3) body usage_names
      by (auto simp: handleUsage_def Let_def cost answer_json_def fail_with_def simp del: names.simps split: prod.splits sum.splits)
  next
    assume "h = handleUsageBreakdown env"
    then show ?thesis using assms(3) body breakdown_names
      by (auto simp: handleUsageBreakdown_def Let_def cost answer_json_def fail_with_def simp del: names.simps split: prod.splits sum.splits if_splits)
  qed
  moreover have "usage_row (sv_Config s) p = Some r \<Longrightarrow> ul_Unit r \<noteq> unitCost" for p r
    using assms(1) by (auto simp: usage_row_def Let_def split: if_splits)
  then have "list_all (\<lambda>r. ul_Unit r \<noteq> unitCost) (snd (usage_rows (sv_Config s) slots (QuotaOK, [])))"
    by (auto simp: usage_rows_spec list_all_iff List.map_filter_def)
  ultimately show ?thesis by blast
qed


lemma example_hides: "HidesCost (cfg_Billing (sv_Config example_gateway))"
  by (simp add: example_chat Default_def HidesCost_def)

theorem hidden_cost_absent_witness:
  "\<exists>w' c' v. handleUsage example_reader 7 example_gateway example_chat_call = (w', example_gateway, c', Returned None) \<and>
     c_body c' = JSONBody v \<and> ''cost_usd'' \<notin> set (names v)"
proof -
  have n: "de_now example_reader x = (x + 1, x)" for x by (simp add: example_reader_def example_chat_env_def example_genv_def)
  have "usageWindow example_chat_call 7 = Inr (''day'', 0, 86400000000000)" by code_simp
  moreover have "quotaSlots Default (memory_quota_reads (NewMemory False)) 8 (requestScope example_chat_call) = Inr []" by code_simp
  moreover have u: "ur_Usage (ch_usageStore (de_ch example_reader) x m) tid a b = Inr (Usage tid a b m)"
    and r: "usage_quota (de_ch example_reader) x s = memory_quota_reads (sv_Store s)" for x m tid a b s
    by (simp_all add: usage_quota_def memory_store_reads example_reader_def example_chat_env_def) (simp add: memory_usage_def)
  moreover have "sv_Config example_gateway = Default" "sv_Store example_gateway = NewMemory False" by (simp_all add: example_chat)
  ultimately obtain w' s' c' v where h: "handleUsage example_reader 7 example_gateway example_chat_call = (w', s', c', Returned None)"
    and b: "c_body c' = JSONBody v"
    by (simp add: handleUsage_def n u r answer_json_def Let_def)
  from hidden_cost_absent [OF example_hides disjI1 [OF HOL.refl] h] h b show ?thesis by blast
qed

end
