(* ===== verification/Gateway_Server.thy ===== *)
theory Gateway_Server
  imports State_Frame Data_Theorems Events
begin

text \<open>
  The whole gateway: the application of \<open>gateway/internal/server/server.go\<close> with every handler of both planes behind its routes.

  Fiber's matching of a request against a registered method and pattern is the argument \<open>fiber\<close>, which yields the
  path parameters; it is called on each route in the order of registration. That every handler keeps the request id it was given and
  moves the concurrency limiter only by acquiring and releasing is the contract \<open>served_handler\<close> of the middleware, so
  the contract's consequences hold of the gateway as it is assembled.
\<close>

section \<open>Routing\<close>

type_synonym matcher = "string \<Rightarrow> string \<Rightarrow> fctx \<Rightarrow> (string, string) gomap option"

fun routed :: "matcher \<Rightarrow> (string \<times> string \<times> 'w gateway_handler) list \<Rightarrow> 'w gateway_handler" where
  "routed fiber [] w s c = notFound w s c"
| "routed fiber ((verb, path, h) # rest) w s c =
     (case fiber verb path c of
        Some ps \<Rightarrow> h w s (c\<lparr>c_params := ps\<rparr>)
      | None \<Rightarrow> routed fiber rest w s c)"

definition gateway :: "'w admin_env \<Rightarrow> 'w data_env \<Rightarrow> matcher \<Rightarrow> (fctx \<Rightarrow> matched) \<Rightarrow> 'w gateway_handler \<Rightarrow> 'w gateway_handler" where
  \<comment> \<open>\<open>metricsH\<close> is the Prometheus adaptor behind \<open>/metrics\<close>\<close>
  "gateway env dv fiber router metricsH =
     serve (ad_ge env) router metricsH (routed fiber (dataRoutes dv)) (routed fiber (adminRoutes env dv))"

section \<open>Every handler keeps the contract\<close>

lemma kept_refused: "sv_limiter s1 = sv_limiter s \<Longrightarrow> Middleware.kept s c (refused e w s1 c)"
  "sv_limiter s1 = sv_limiter s \<Longrightarrow> Middleware.kept s c (store_refused env e2 kind rid w s1 c)"
  "sv_limiter s1 = sv_limiter s \<Longrightarrow> Middleware.kept s c (bad_request text prm w s1 c)"
  by (auto simp: refused_def store_refused_def bad_request_def Middleware.kept_def intro: identified_Fail identified_header limiter_moves.refl)

definition plain :: "(fctx \<Rightarrow> fctx) \<Rightarrow> bool" where
  "plain f \<longleftrightarrow> (\<forall>c. identified c \<longrightarrow> identified (f c) \<and> c_requestID (f c) = c_requestID c)"

lemma plain_answers: "plain (answer_json status v)" "plain no_content" "plain (sendHealth r)" "plain (mintedKey k p)"
  "plain (answer_page xs key view)"
proof -
  show a: "plain (answer_json status v)" for status v by (simp add: plain_def answer_json_def identified_def)
  show "plain no_content" by (simp add: plain_def no_content_def identified_def)
  show "plain (sendHealth r)" "plain (mintedKey k p)" using a by (simp_all add: plain_def sendHealth_def mintedKey_def)
  show "plain (answer_page xs key view)" using a
    by (auto simp: plain_def answer_page_def sendPage_def dest: identified_header intro: identified_Fail split: sum.split)
qed

lemma kept_answered: "plain f \<Longrightarrow> sv_limiter s1 = sv_limiter s \<Longrightarrow> Middleware.kept s c (answered f w s1 c)"
  by (auto simp: plain_def Middleware.kept_def answered_def intro: limiter_moves.refl)

lemma limiter_unmoved [simp]: "sv_limiter (set_store m s) = sv_limiter s" "sv_limiter (drop_catalog tid s) = sv_limiter s"
  "sv_limiter (drop_quota tid s) = sv_limiter s"
  by (simp_all add: set_store_def drop_catalog_def drop_quota_def)

lemma served_combined:
  "served_handler h \<Longrightarrow> served_handler (rooted h)"
  "(\<And>tid. served_handler (g tid)) \<Longrightarrow> served_handler (scoped g)"
  "(\<And>tid kid. served_handler (k tid kid)) \<Longrightarrow> served_handler (targeted k)"
  "(\<And>req. served_handler (p req)) \<Longrightarrow> served_handler (parsed decode p)"
  by (auto simp: served_handler_def rooted_def scoped_def targeted_def parsed_def intro: kept_refused split: option.split sum.split)

lemmas kept_ends = kept_refused kept_answered [OF plain_answers(1)] kept_answered [OF plain_answers(2)] kept_answered [OF plain_answers(4)]
  kept_answered [OF plain_answers(5)]

lemma served_admin_reads:
  "served_handler (adminMeta dv)" "served_handler listAudit" "served_handler listAdminKeys" "served_handler listTenants"
  "served_handler (getTenant env)" "served_handler listKeys" "served_handler listProviders" "served_handler listAliases"
  "served_handler listRoutes" "served_handler (getQuota env)" "served_handler (flushTenantCache env)"
  "served_handler (listCaptures env)" "served_handler listWebhooks" "served_handler listEvents"
  unfolding listAudit_def listAdminKeys_def listTenants_def getTenant_def listKeys_def listProviders_def listAliases_def
    listRoutes_def getQuota_def flushTenantCache_def listCaptures_def listWebhooks_def listEvents_def
  by ((rule served_combined)?, rule served_handler.intro,
      simp add: adminMeta_def Let_def kept_ends split: sum.split prod.split option.split)+

lemma served_drops:
  "served_handler (deleteProvider env)" "served_handler (deleteAlias env)" "served_handler (deleteRoute env)"
  "served_handler (deleteWebhook env)" "served_handler (deleteQuota env)" "served_handler (deleteTenant env)"
  unfolding deleteProvider_def deleteAlias_def deleteRoute_def deleteWebhook_def deleteQuota_def deleteTenant_def
  by (rule served_combined, rule served_handler.intro, simp add: Let_def kept_ends split: sum.split prod.split)+

lemma served_saves:
  "served_handler (createProvider env)" "served_handler (updateProvider env)" "served_handler (upsertRoute env)"
  "served_handler (setQuota env)" "served_handler (createWebhook env)"
  unfolding createProvider_def updateProvider_def upsertRoute_def setQuota_def createWebhook_def
  by ((rule served_combined)+, rule served_handler.intro, simp add: Let_def kept_ends split: sum.split prod.split)+

lemma served_keys: "served_handler (createKey env)" "served_handler (createAdminKey env)" "served_handler (revokeKey env)" "served_handler (revokeAdminKey env)"
proof -
  have m: "Middleware.kept s c (minted env tid plane name scope ex failed w s c)" for s c tid plane name scope ex failed w
    by (simp add: minted_def Let_def kept_ends split: prod.split sum.split)
  show "served_handler (createKey env)" unfolding createKey_def
    by ((rule served_combined)+, rule served_handler.intro) (simp add: m kept_ends split: sum.split)
  show "served_handler (createAdminKey env)" unfolding createAdminKey_def
    by ((rule served_combined)+, rule served_handler.intro) (simp add: Let_def m kept_ends)
  have "served_handler (Admin.revoke env tid)" for tid
    by (rule served_handler.intro) (simp add: revoke_def Let_def kept_ends split: prod.split sum.split)
  then show "served_handler (revokeKey env)" "served_handler (revokeAdminKey env)"
    unfolding revokeKey_def revokeAdminKey_def by (auto intro: served_combined)
qed


lemma served_tenants: "served_handler (createTenant env)" "served_handler (updateTenant env)"
  unfolding createTenant_def updateTenant_def
  by ((rule served_combined)+, rule served_handler.intro, simp add: Let_def kept_ends split: sum.split prod.split option.split)+

lemma served_refused: "served_handler (refused e)"
  by (rule served_handler.intro) (simp add: kept_refused)

lemma served_aliases: "served_handler (upsertAlias env)"
proof -
  have "served_handler (save_alias env a)" for a
    by (rule served_handler.intro) (simp add: save_alias_def Let_def kept_ends split: sum.split prod.split)
  then have "served_handler (parsed (ad_alias env) (\<lambda>req. case alias_of tid name req of Inl err \<Rightarrow> refused err | Inr a \<Rightarrow> save_alias env a))" for tid name
    by (intro served_combined) (simp add: served_refused split: sum.split)
  then show ?thesis unfolding upsertAlias_def
    by (intro served_combined served_handler.intro) (simp add: Let_def kept_refused served_handler.keeps)
qed

lemma refresh_all_limiter: "refresh_all env tids w s = (w', s', rows) \<Longrightarrow> sv_limiter s' = sv_limiter s"
proof (induction tids arbitrary: w s w' s' rows)
  case (Cons tid tids)
  obtain w1 cat r where r: "Refresh (ch_errText (ad_ch env)) (ge_now (ad_ge env)) (memory_reads (sv_Store s))
      (ds_catalog (gt_dispatcher s)) w tid = (w1, cat, r)" by (metis prod_cases3)
  let ?s = "s\<lparr>gt_dispatcher := (gt_dispatcher s)\<lparr>ds_catalog := cat\<rparr>\<rparr>"
  obtain w2 s2 rest where "refresh_all env tids w1 ?s = (w2, s2, rest)" by (metis prod_cases3)
  with Cons.IH [OF this] Cons.prems r show ?case by (simp only: refresh_all.simps prod.case Let_def) auto
qed simp

lemma served_refresh: "served_handler (refreshCatalog env)"
proof -
  have "served_handler (refresh_named env t)" for t
    by (rule served_handler.intro) (simp add: refresh_named_def Let_def kept_ends refresh_all_limiter split: sum.split prod.split option.split)
  then show ?thesis using served_combined(4) [of "refresh_named env" "ad_refresh env"]
    by (simp add: served_handler_def refreshCatalog_def)
qed

lemma served_usage: "served_handler (adminUsage env)" "served_handler (adminUsageBreakdown env)"
proof -
  have step: "Middleware.kept s c (case r of Inl e \<Rightarrow> refused (ApiErr e) w s c | Inr (window, since, until) \<Rightarrow> f window since until)"
    if "\<And>window since until. Middleware.kept s c (f window since until)" for r :: "apiError + string \<times> time \<times> time" and f w s c
    using that by (cases r) (auto intro: kept_refused)
  show "served_handler (adminUsage env)" unfolding adminUsage_def
    by (intro served_combined served_handler.intro) (auto simp: Let_def kept_ends split: prod.split sum.split intro!: step)
  have "Middleware.kept s c (admin_breakdown env tid window since until w s c)" for s c tid window since until w
    unfolding admin_breakdown_def Let_def by (simp only: kept_ends split: if_split sum.split) simp
  then show "served_handler (adminUsageBreakdown env)" unfolding adminUsageBreakdown_def
    by (intro served_combined served_handler.intro) (auto simp: Let_def split: prod.split intro!: step)
qed

lemma served_adminRoutes: "(verb, path, h) \<in> set (adminRoutes env dv) \<Longrightarrow> served_handler h"
  by (auto simp: adminRoutes_def root_routes_def tenant_routes_def intro: served_admin_reads served_usage served_refresh served_drops
      served_keys served_saves served_aliases served_tenants)


subsection \<open>The data plane\<close>

lemma catalog_now_limiter: "catalog_now env tid w s = (w', s', r) \<Longrightarrow> sv_limiter s' = sv_limiter s"
  by (auto simp: catalog_now_def split: prod.splits)

lemma alias_objects_limiter: "alias_objects env tid t as w s = (w', s', os) \<Longrightarrow> sv_limiter s' = sv_limiter s"
proof (induction as arbitrary: w s w' s' os)
  case (Cons a as)
  obtain w1 s1 r where r: "resolve_now env tid (a_Name a) w s = (w1, s1, r)" by (metis prod_cases3)
  then have "sv_limiter s1 = sv_limiter s" by (auto simp: resolve_now_def Let_def split: prod.splits)
  with Cons r show ?case by (auto split: prod.splits)
qed simp

lemma kept_json: "sv_limiter s1 = sv_limiter s \<Longrightarrow> Middleware.kept s c (w, s1, answer_json status v c, fl)"
  "sv_limiter s1 = sv_limiter s \<Longrightarrow> Middleware.kept s c (w, s1, sendHealth r c, fl)"
  using plain_answers(1,3) by (auto simp: Middleware.kept_def plain_def intro: limiter_moves.refl)

lemma kept_failed: "sv_limiter s1 = sv_limiter s \<Longrightarrow> Middleware.kept s c (w, s1, fail_with c e)"
  by (rule kept_fail) (simp add: limiter_moves.refl)

lemma buildHealth_limiter: "buildHealth env tid w s = (w', s', r) \<Longrightarrow> sv_limiter s' = sv_limiter s"
  by (auto simp: buildHealth_def Let_def dest: catalog_now_limiter split: prod.splits)

lemma served_models: "served_handler (handleListModels env)" "served_handler (handleGetModel env)"
proof -
  note l = catalog_now_limiter alias_objects_limiter
  show "served_handler (handleListModels env)"
    by (rule served_handler.intro)
      (auto simp: handleListModels_def aliasObjects_def Let_def dest!: l intro!: kept_json kept_failed split: prod.split sum.split)
  show "served_handler (handleGetModel env)"
    by (rule served_handler.intro)
      (auto simp: handleGetModel_def aliasObjects_def Let_def dest!: l intro!: kept_json kept_failed split: prod.split sum.split option.split)
qed

lemma served_data_usage: "served_handler (handleUsage env)" "served_handler (handleUsageBreakdown env)"
proof -
  show "served_handler (handleUsage env)"
    by (rule served_handler.intro) (auto simp: handleUsage_def Let_def intro!: kept_json kept_failed split: prod.split sum.split)
  show "served_handler (handleUsageBreakdown env)"
    by (rule served_handler.intro) (auto simp: handleUsageBreakdown_def Let_def intro!: kept_json kept_failed split: prod.split sum.split)
qed

lemma served_health: "served_handler (handleHealth env)" "served_handler (handleMeta env)"
  by (rule served_handler.intro,
      auto simp: handleHealth_def handleMeta_def Let_def dest!: buildHealth_limiter intro!: kept_json split: prod.split option.split)+

lemma served_dataRoutes: "(verb, path, h) \<in> set (dataRoutes dv) \<Longrightarrow> served_handler h"
  by (auto simp: dataRoutes_def intro: served_models served_data_usage served_health chat.served_handler_axioms)

lemma served_routed: "(\<And>verb path h. (verb, path, h) \<in> set routes \<Longrightarrow> served_handler h) \<Longrightarrow> served_handler (routed fiber routes)"
proof (induction routes)
  case Nil
  then show ?case by (intro served_handler.intro) (simp add: not_found.keeps)
next
  case (Cons x routes)
  obtain verb path h where x: "x = (verb, path, h)" by (metis prod_cases3)
  have h: "served_handler h" using Cons.prems x by auto
  have rest: "served_handler (routed fiber routes)" by (rule Cons.IH) (use Cons.prems in auto)
  have "Middleware.kept s c (h w s (c\<lparr>c_params := ps\<rparr>))" for s c w ps
    by (rule kept_from [OF served_handler.keeps [OF h]]) (auto simp: identified_def intro: limiter_moves.refl)
  then show ?case using served_handler.keeps [OF rest] x by (intro served_handler.intro) (simp split: option.split)
qed

interpretation data_plane: served_handler "routed fiber (dataRoutes dv)" for fiber dv
  by (rule served_routed) (rule served_dataRoutes)

interpretation control_plane: served_handler "routed fiber (adminRoutes env dv)" for fiber env dv
  by (rule served_routed) (rule served_adminRoutes)


section \<open>The gateway as assembled\<close>

text \<open>C15. However a request to the gateway ends, its response carries the identifier minted for it, in the header and in an
  error envelope, and no error or panic escapes: with every handler of both planes in place behind its route and whatever Fiber
  matches.\<close>

theorem gateway_identified:
  assumes "served_handler metricsH" "c_body c = NoBody" "gateway env dv fiber router metricsH w s c = (w', s', c', fl)"
  shows "map_of (c_respHeaders c') HeaderRequestID = Some (snd (ge_NewID (ad_ge env) ''req'' w)) \<and>
    (\<forall>b. c_body c' = ErrorBody b \<longrightarrow> bd_RequestID b = snd (ge_NewID (ad_ge env) ''req'' w)) \<and> fl = Returned None"
  using every_response_identified [OF assms(1) data_plane.served_handler_axioms control_plane.served_handler_axioms assms(2)] assms(3)
  unfolding gateway_def by blast

theorem gateway_identified_witness:
  "\<exists>w' s' c'. gateway example_admin example_data (\<lambda>verb path c. Some []) (\<lambda>_. DataRoute) notFound 7 example_admin_gateway
      (new_ctx ''GET'' ''/v1/models'' [] [] []) = (w', s', c', Returned None) \<and>
    map_of (c_respHeaders c') HeaderRequestID = Some ''req_1''"
proof -
  let ?c = "new_ctx ''GET'' ''/v1/models'' [] [] []"
  obtain w' s' c' fl where g: "gateway example_admin example_data (\<lambda>verb path c. Some []) (\<lambda>_. DataRoute) notFound 7 example_admin_gateway ?c
      = (w', s', c', fl)" by (metis prod_cases4)
  from gateway_identified [OF not_found.served_handler_axioms _ g] g show ?thesis
    by (simp add: new_ctx_def example_admin_def example_chat_env_def example_genv_def)
qed

definition authorised :: "(string \<Rightarrow> string) \<Rightarrow> Config \<Rightarrow> Memory \<Rightarrow> string \<Rightarrow> APIKey \<Rightarrow> bool" where
  \<comment> \<open>the secret is the deployment's bootstrap key, or resolves to an active admin key of a tenant that is not suspended\<close>
  "authorised sha256 cfg m secret key \<longleftrightarrow>
     bootstrapMatches cfg secret \<and> key = bootstrap_key \<or>
     (\<exists>t tenant. ResolveKey sha256 t secret m = Inr (key, tenant) \<and> k_Plane key = PlaneAdmin \<and>
        (case tenant of Some tn \<Rightarrow> t_Status tn \<noteq> ''suspended'' | None \<Rightarrow> True))"

lemma auth_cases:
  obtains (kept_out) "fst (snd (auth ge PlaneAdmin rest w s c)) = s"
  | (passed) key tenant w1 where "auth ge PlaneAdmin rest w s c = rest w1 s (SetAuth c key tenant)"
      "authorised (ge_sha256 ge) (sv_Config s) (sv_Store s) (bearer c) key"
proof (cases "bearer c = []")
  case True
  then show thesis by (intro kept_out) (simp add: auth_def fail_with_def)
next
  case raw: False
  show thesis
  proof (cases "bootstrapMatches (sv_Config s) (bearer c)")
    case True
    with raw show thesis by (intro passed [of w bootstrap_key None]) (simp_all add: auth_def authorised_def)
  next
    case False
    let ?t = "snd (ge_now ge w)"
    show thesis
    proof (cases "PlaneOf (bearer c) = Some PlaneAdmin \<and> (\<exists>key tenant. ResolveKey (ge_sha256 ge) ?t (bearer c) (sv_Store s) = Inr (key, tenant) \<and>
        k_Plane key = PlaneAdmin \<and> (case tenant of Some tn \<Rightarrow> t_Status tn \<noteq> ''suspended'' | None \<Rightarrow> True))")
      case True
      then obtain key tenant where "PlaneOf (bearer c) = Some PlaneAdmin" and k: "ResolveKey (ge_sha256 ge) ?t (bearer c) (sv_Store s) = Inr (key, tenant)"
        "k_Plane key = PlaneAdmin" "case tenant of Some tn \<Rightarrow> t_Status tn \<noteq> ''suspended'' | None \<Rightarrow> True" by blast
      then have "auth ge PlaneAdmin rest w s c = rest (fst (ge_now ge w)) s (SetAuth c key tenant)"
        using raw False by (simp add: auth_def split_beta split: option.splits)
      then show thesis by (rule passed) (use k in \<open>auto simp: authorised_def\<close>)
    next
      case refused: False
      then show thesis using raw False
        by (intro kept_out) (auto simp: auth_def Let_def fail_with_def split_beta split: option.splits sum.splits)
    qed
  qed
qed

lemma routed_cases:
  obtains (unmatched) "routed fiber routes w s c = notFound w s c"
  | (matched) verb path h ps where "(verb, path, h) \<in> set routes" "routed fiber routes w s c = h w s (c\<lparr>c_params := ps\<rparr>)"
  by (induction routes) (fastforce split: option.splits)+

lemma routed_writes:
  assumes "c_key c = Some key"
  shows "(admin_write (sv_Config s) key)\<^sup>*\<^sup>* (sv_Store s) (sv_Store (fst (snd (routed fiber (adminRoutes env dv) w s c))))"
proof (rule routed_cases [of fiber "adminRoutes env dv" w s c])
  fix verb path h ps
  assume m: "(verb, path, h) \<in> set (adminRoutes env dv)" "routed fiber (adminRoutes env dv) w s c = h w s (c\<lparr>c_params := ps\<rparr>)"
  then show ?thesis using admin_performs [OF m(1), of "sv_Config s" key] assms by (simp add: performs_def)
qed (simp add: notFound_def fail_with_def)

lemma audited_store:
  "\<exists>now aid e. sv_Store (fst (snd (auditMutations ge rest w s c))) \<in>
     {sv_Store (fst (snd (rest w s c))), RecordAudit now aid e (sv_Store (fst (snd (rest w s c))))}"
  by (auto simp: auditMutations_def Let_def split: prod.split flow.split option.split)

lemma gateway_store_moves:
  assumes "router (entry_ctx (ad_ge env) w c) = AdminRoute" and g: "gateway env dv fiber router metricsH w s c = (w', s', c', fl)"
  shows "sv_Store s' = sv_Store s \<or>
    (\<exists>key m now aid e. authorised (ge_sha256 (ad_ge env)) (sv_Config s) (sv_Store s) (bearer c) key \<and>
       (admin_write (sv_Config s) key)\<^sup>*\<^sup>* (sv_Store s) m \<and> sv_Store s' \<in> {m, RecordAudit now aid e m})"
proof -
  let ?ge = "ad_ge env" and ?admin = "routed fiber (adminRoutes env dv)" and ?data = "routed fiber (dataRoutes dv)"
  let ?w = "fst (ge_now ?ge (fst (ge_NewID ?ge ''req'' w)))" and ?c = "entry_ctx ?ge w c"
  let ?inner = "refuseWhenDraining (limitBody (route_table ?ge router metricsH ?data ?admin)) ?w s ?c"
  have end1: "sv_Store s' = sv_Store (fst (snd ?inner))"
    by (rule serve_cases [OF g [unfolded gateway_def]]) (auto simp: ended_def split: flow.splits)
  have stages: "fst (snd ?inner) = s \<or> ?inner = auth ?ge PlaneAdmin (auditMutations ?ge ?admin) ?w s ?c"
    using assms(1) by (simp add: refuseWhenDraining_def limitBody_def route_table_def Let_def fail_with_def)
  show ?thesis
  proof (cases rule: auth_cases [of ?ge "auditMutations ?ge ?admin" ?w s ?c])
    case kept_out
    then show ?thesis using end1 stages by auto
  next
    case (passed key tenant w1)
    let ?r = "?admin w1 s (SetAuth ?c key tenant)"
    have "(admin_write (sv_Config s) key)\<^sup>*\<^sup>* (sv_Store s) (sv_Store (fst (snd ?r)))"
      by (rule routed_writes) (simp add: SetAuth_def)
    moreover obtain now aid e where "sv_Store (fst (snd (auditMutations ?ge ?admin w1 s (SetAuth ?c key tenant)))) \<in>
        {sv_Store (fst (snd ?r)), RecordAudit now aid e (sv_Store (fst (snd ?r)))}"
      using audited_store [of ?ge ?admin w1 s "SetAuth ?c key tenant"] by blast
    moreover have "authorised (ge_sha256 ?ge) (sv_Config s) (sv_Store s) (bearer c) key" using passed(2) by simp
    ultimately have "fst (snd ?inner) = s \<or> ?thesis" using end1 stages passed(1) by metis
    then show ?thesis using end1 by auto
  qed
qed

lemma unchanged_routed:
  assumes "\<And>verb path h. (verb, path, h) \<in> set routes \<Longrightarrow> unchanged view h"
  shows "unchanged view (routed fiber routes)"
proof (rule unchangedI)
  fix w s c w' s' c' fl
  assume r: "routed fiber routes w s c = (w', s', c', fl)"
  show "view s' = view s"
  proof (rule routed_cases [of fiber routes w s c])
    fix verb path h ps
    assume "(verb, path, h) \<in> set routes" "routed fiber routes w s c = h w s (c\<lparr>c_params := ps\<rparr>)"
    then show ?thesis using unchangedD [OF assms] r by metis
  qed (use r in \<open>simp add: notFound_def fail_with_def\<close>)
qed

definition reads_only :: "('w, 'x) handler \<Rightarrow> bool" where
  \<comment> \<open>what is asked of the Prometheus adaptor\<close>
  "reads_only h \<longleftrightarrow> unchanged (\<lambda>s. s) h"

lemma reads_only_view: "reads_only h \<Longrightarrow> unchanged view h"
  by (simp add: reads_only_def unchanged_def)

lemmas plane_views = unchanged_routed [OF settings_adminRoutes] unchanged_routed [OF standing_dataRoutes]

lemma gateway_settings:
  assumes "reads_only metricsH" "gateway env dv fiber router metricsH w s c = (w', s', c', fl)"
  shows "sv_Config s' = sv_Config s \<and> sv_draining s' = sv_draining s \<and> metrics_ok (sv_metrics s') = metrics_ok (sv_metrics s)"
proof -
  have "unchanged standing (routed fiber (dataRoutes dv))" by (rule plane_views)
  then have d: "unchanged settings (routed fiber (dataRoutes dv))" by (auto simp: unchanged_def standing_def settings_def)
  from settings.served_view [OF assms(2) [unfolded gateway_def] reads_only_view [OF assms(1)] d settings.audited [OF plane_views(1)]]
  show ?thesis by (simp add: settings_def)
qed

lemma gateway_reads:
  assumes "reads_only metricsH" "gateway env dv fiber router metricsH w s c = (w', s', c', fl)"
    and "router (entry_ctx (ad_ge env) w c) \<noteq> AdminRoute"
  shows "sv_Store s' = sv_Store s"
  using standing.served_view [OF assms(2) [unfolded gateway_def] reads_only_view [OF assms(1)] plane_views(2)] assms(3)
  by (simp add: standing_def)


lemma notFound_reads: "reads_only notFound"
  by (simp add: reads_only_def unchanged_def notFound_def fail_with_def)


end
