(* ===== verification/Analytics.thy ===== *)
theory Analytics
  imports Quota_Control Telemetry Upstream
begin

text \<open>
  The usage plane of a deployment with an analytics service: the client and the composed store of
  \<open>gateway/internal/analytics/\<close>, and \<open>isPermanent\<close> of \<open>gateway/internal/obs/telemetry.go\<close>.

  The service is what answers a request: a function from requests to responses, or a transport error, for the moment of
  the call. \<open>encoding/json\<close> on the three shapes and \<open>url.Parse\<close> are in the record \<open>analytics_env\<close> too.
\<close>

section \<open>Query strings\<close>

definition unreserved :: "char \<Rightarrow> bool" where
  \<comment> \<open>what \<open>url.QueryEscape\<close> leaves as it is\<close>
  "unreserved ch \<longleftrightarrow> byte_in 97 122 ch \<or> byte_in 65 90 ch \<or> byte_in 48 57 ch \<or> byte ch \<in> {45, 46, 95, 126}"

definition hex_digit :: "nat \<Rightarrow> char" where
  "hex_digit n = char_of (if n < 10 then 48 + n else 55 + n)"

definition escape_char :: "char \<Rightarrow> string" where
  "escape_char ch =
     (if unreserved ch then [ch] else if ch = CHR '' '' then ''+''
      else [CHR ''%'', hex_digit (byte ch div 16), hex_digit (byte ch mod 16)])"

definition QueryEscape :: "string \<Rightarrow> string" where
  "QueryEscape s = concat (map escape_char s)"

definition Values_Encode :: "(string, string) gomap \<Rightarrow> string" where
  \<comment> \<open>\<open>url.Values.Encode\<close> for one value per key: sorted by key\<close>
  "Values_Encode q =
     (case map (\<lambda>(k, v). QueryEscape k @ ''='' @ QueryEscape v) (sort_slice (\<lambda>a b. fst a < fst b) q) of
        [] \<Rightarrow> []
      | x # xs \<Rightarrow> x @ concat (map (\<lambda>y. CHR ''&'' # y) xs))"

definition trim_zeros :: "string \<Rightarrow> string" where
  "trim_zeros s = TrimRightChar s (CHR ''0'')"

definition stamp :: "time \<Rightarrow> string" where
  \<comment> \<open>\<open>t.UTC().Format(time.RFC3339Nano)\<close>: the fraction without its trailing zeros, and none when it is zero\<close>
  "stamp t =
     (let ns = t mod Second; whole = butlast (RFC3339 t)
      in whole @ (if ns = 0 then [] else CHR ''.'' # trim_zeros (pad 9 ns)) @ ''Z'')"

section \<open>The client\<close>

definition analyticsErrorBody :: int where
  "analyticsErrorBody = 512"

definition analyticsResponseBytes :: int where
  "analyticsResponseBytes = 4 * 1024 * 1024"

record Client =
  an_base :: string
  an_token :: string
  an_hcTimeout :: duration

record analytics_env =
  ae_parseURL :: "string \<Rightarrow> goerr + string \<times> string"  \<comment> \<open>scheme and host\<close>
  ae_NewRequest :: "http_request \<Rightarrow> goerr option"
  ae_Do :: "http_request \<Rightarrow> goerr + http_response"
  ae_marshal :: "UsageRecord \<Rightarrow> goerr + string"
  ae_totals :: "string \<Rightarrow> goerr + UsageTotals"
  ae_buckets :: "string \<Rightarrow> goerr + UsageBucket list"

definition NewClient :: "(string \<Rightarrow> goerr + string \<times> string) \<Rightarrow> AnalyticsConfig \<Rightarrow> goerr + Client" where
  "NewClient parseURL cfg =
     (let url = an_BaseURL cfg in
      case parseURL url of
        Inl err \<Rightarrow> Inl (Wrapf (''parsing analytics.base_url %q: %w'', [FStr url]) err)
      | Inr (scheme, host) \<Rightarrow>
          if scheme \<noteq> ''http'' \<and> scheme \<noteq> ''https'' then Inl (Errorf (''analytics.base_url %q must be an http or https URL'', [FStr url]))
          else if host = [] then Inl (Errorf (''analytics.base_url %q names no host'', [FStr url]))
          else Inr \<lparr> an_base = TrimRightChar url (CHR ''/''), an_token = an_Token cfg,
                 an_hcTimeout = (if an_Timeout cfg \<le> 0 then 10 * Second else an_Timeout cfg) \<rparr>)"

definition Permanent :: "int \<Rightarrow> bool" where
  \<comment> \<open>\<open>StatusError.Permanent\<close>, of its status\<close>
  "Permanent status \<longleftrightarrow> status \<noteq> 408 \<and> status \<noteq> 429 \<and> 400 \<le> status \<and> status < 500"

fun isPermanent :: "goerr \<Rightarrow> bool" where
  \<comment> \<open>\<open>errors.As\<close> finds the first error down the chain that has a method \<open>Permanent\<close>\<close>
  "isPermanent (StatusErr op status body) = Permanent status"
| "isPermanent (Wrapf m e) = isPermanent e"
| "isPermanent (ApiErr (ApiError st ty co m p cause ats ra)) = (case cause of Some e \<Rightarrow> isPermanent e | None \<Rightarrow> False)"
| "isPermanent (Sentinel s) = False"
| "isPermanent (FiberErr n) = False"
| "isPermanent (Errorf m) = False"

definition analytics_request :: "Client \<Rightarrow> string \<Rightarrow> string \<Rightarrow> (string, string) gomap \<Rightarrow> string option \<Rightarrow> http_request" where
  \<comment> \<open>the body is \<open>None\<close> for a nil slice\<close>
  "analytics_request cl method path query body =
     \<lparr> hq_method = method,
       hq_url = an_base cl @ path @ (if query \<noteq> [] then ''?'' @ Values_Encode query else []),
       hq_header = (if body \<noteq> None then [(''Content-Type'', ''application/json'')] else []) @ [(''Accept'', ''application/json'')] @
         (if an_token cl \<noteq> [] then [(''Authorization'', ''Bearer '' @ an_token cl)] else []),
       hq_body = (case body of Some b \<Rightarrow> b | None \<Rightarrow> []) \<rparr>"

definition client_do :: "analytics_env \<Rightarrow> Client \<Rightarrow> string \<Rightarrow> string \<Rightarrow> (string, string) gomap \<Rightarrow> string option \<Rightarrow> goerr + string" where
  "client_do env cl method path query body =
     (let op = method @ '' '' @ path; q = analytics_request cl method path query body in
      case ae_NewRequest env q of
        Some err \<Rightarrow> Inl (Wrapf (''analytics %s: %w'', [FStr op]) err)
      | None \<Rightarrow>
          (case ae_Do env q of
             Inl err \<Rightarrow> Inl (Wrapf (''analytics %s: %w'', [FStr op]) err)
           | Inr res \<Rightarrow>
               if hp_StatusCode res \<ge> 300
               then Inl (StatusErr op (hp_StatusCode res) (TrimSpace (fst (ReadAll_Limit (hp_Body res) analyticsErrorBody))))
               else
                 (case ReadAll_Limit (hp_Body res) analyticsResponseBytes of
                    (out, Some err) \<Rightarrow> Inl (Wrapf (''analytics %s: reading the response: %w'', [FStr op]) err)
                  | (out, None) \<Rightarrow> Inr out)))"

definition client_RecordUsage :: "analytics_env \<Rightarrow> Client \<Rightarrow> UsageRecord \<Rightarrow> goerr option" where
  "client_RecordUsage env cl rec =
     (case ae_marshal env rec of
        Inl err \<Rightarrow> Some (Wrapf (''encoding the usage record: %w'', []) err)
      | Inr body \<Rightarrow>
          (case client_do env cl ''POST'' ''/api/v1/usage'' [] (Some body) of Inl err \<Rightarrow> Some err | Inr out \<Rightarrow> None))"

definition client_totals :: "analytics_env \<Rightarrow> Client \<Rightarrow> (string, string) gomap \<Rightarrow> goerr + UsageTotals" where
  "client_totals env cl q =
     (case client_do env cl ''GET'' ''/api/v1/usage/totals'' q None of
        Inl err \<Rightarrow> Inl err
      | Inr body \<Rightarrow>
          (case ae_totals env body of Inl err \<Rightarrow> Inl (Wrapf (''decoding the usage totals: %w'', []) err) | Inr t \<Rightarrow> Inr t))"

definition client_Usage :: "analytics_env \<Rightarrow> Client \<Rightarrow> string \<Rightarrow> time \<Rightarrow> time \<Rightarrow> goerr + UsageTotals" where
  "client_Usage env cl tid since until =
     client_totals env cl [(''tenant_id'', tid), (''since'', stamp since), (''until'', stamp until)]"

definition client_KeyUsage :: "analytics_env \<Rightarrow> Client \<Rightarrow> string \<Rightarrow> string \<Rightarrow> time \<Rightarrow> time \<Rightarrow> goerr + UsageTotals" where
  "client_KeyUsage env cl tid pfx since until =
     client_totals env cl [(''tenant_id'', tid), (''key_prefix'', pfx), (''since'', stamp since), (''until'', stamp until)]"

definition client_UsageBreakdown :: "analytics_env \<Rightarrow> Client \<Rightarrow> string \<Rightarrow> time \<Rightarrow> time \<Rightarrow> string \<Rightarrow> goerr + UsageBucket list" where
  "client_UsageBreakdown env cl tid since until groupBy =
     (case client_do env cl ''GET'' ''/api/v1/usage/breakdown''
             [(''tenant_id'', tid), (''since'', stamp since), (''until'', stamp until), (''group_by'', groupBy)] None of
        Inl err \<Rightarrow> Inl err
      | Inr body \<Rightarrow>
          (case ae_buckets env body of Inl err \<Rightarrow> Inl (Wrapf (''decoding the usage breakdown: %w'', []) err) | Inr bs \<Rightarrow> Inr bs))"

section \<open>The composed store\<close>

record AnalyticsStore =
  as_inner :: Memory
  as_client :: Client

definition NewStore :: "Memory \<Rightarrow> Client \<Rightarrow> AnalyticsStore" where
  "NewStore inner cl = \<lparr> as_inner = inner, as_client = cl \<rparr>"

definition astore_Kind :: string where
  "astore_Kind = ''memory+analytics''"

definition unavailable :: "goerr + 'a \<Rightarrow> goerr + 'a" where
  "unavailable r =
     (case r of
        Inl err \<Rightarrow> Inl (ApiErr (WithCause (Unavailable
          (''Usage accounting is temporarily unavailable. The request itself was unaffected.'', [])) err))
      | Inr v \<Rightarrow> Inr v)"

definition astore_RecordUsage :: "analytics_env \<Rightarrow> UsageRecord \<Rightarrow> AnalyticsStore \<Rightarrow> goerr option" where
  "astore_RecordUsage env rec st = client_RecordUsage env (as_client st) rec"

definition astore_Usage :: "analytics_env \<Rightarrow> string \<Rightarrow> time \<Rightarrow> time \<Rightarrow> AnalyticsStore \<Rightarrow> goerr + UsageTotals" where
  "astore_Usage env tid since until st = unavailable (client_Usage env (as_client st) tid since until)"

definition astore_KeyUsage :: "analytics_env \<Rightarrow> string \<Rightarrow> string \<Rightarrow> time \<Rightarrow> time \<Rightarrow> AnalyticsStore \<Rightarrow> goerr + UsageTotals" where
  "astore_KeyUsage env tid pfx since until st = unavailable (client_KeyUsage env (as_client st) tid pfx since until)"

definition astore_UsageBreakdown ::
  "analytics_env \<Rightarrow> string \<Rightarrow> time \<Rightarrow> time \<Rightarrow> string \<Rightarrow> AnalyticsStore \<Rightarrow> goerr + UsageBucket list" where
  "astore_UsageBreakdown env tid since until groupBy st = unavailable (client_UsageBreakdown env (as_client st) tid since until groupBy)"

definition analytics_usage :: "analytics_env \<Rightarrow> AnalyticsStore \<Rightarrow> usage_reads" where
  \<comment> \<open>the composed store's usage half\<close>
  "analytics_usage env st =
     \<lparr> ur_Usage = (\<lambda>tid since until. astore_Usage env tid since until st),
       ur_KeyUsage = (\<lambda>tid pfx since until. astore_KeyUsage env tid pfx since until st),
       ur_UsageBreakdown = (\<lambda>tid since until groupBy. astore_UsageBreakdown env tid since until groupBy st) \<rparr>"

abbreviation analytics_quota_reads :: "analytics_env \<Rightarrow> AnalyticsStore \<Rightarrow> quota_reads" where
  \<comment> \<open>the composed store as the quota code sees it: quotas from memory, usage from the service\<close>
  "analytics_quota_reads env st \<equiv> store_quota_reads (analytics_usage env st) (as_inner st)"

section \<open>What the service decodes\<close>

fun QueryUnescape :: "string \<Rightarrow> string option" where
  "QueryUnescape [] = Some []"
| "QueryUnescape (ch # rest) =
     (if ch = CHR ''+'' then map_option ((#) (CHR '' '')) (QueryUnescape rest)
      else if ch \<noteq> CHR ''%'' then map_option ((#) ch) (QueryUnescape rest)
      else case rest of
             a # b # rest' \<Rightarrow>
               (case (hex_value a, hex_value b) of
                  (Some x, Some y) \<Rightarrow> map_option ((#) (char_of (x * 16 + y))) (QueryUnescape rest')
                | _ \<Rightarrow> None)
           | _ \<Rightarrow> None)"

definition parse_pair :: "string \<Rightarrow> (string \<times> string) option" where
  "parse_pair s =
     (case (QueryUnescape (takeWhile (\<lambda>c. c \<noteq> CHR ''='') s), QueryUnescape (drop 1 (dropWhile (\<lambda>c. c \<noteq> CHR ''='') s))) of
        (Some k, Some v) \<Rightarrow> Some (k, v)
      | _ \<Rightarrow> None)"

definition parse_query :: "string \<Rightarrow> (string \<times> string) list option" where
  \<comment> \<open>the decoding of \<open>application/x-www-form-urlencoded\<close>, pair by pair\<close>
  "parse_query s = (if s = [] then Some [] else those (map parse_pair (split_on (CHR ''&'') s)))"

lemma byte_bound: "byte ch < 256"
  by (simp add: byte_def)

lemma char_of_byte [simp]: "char_of (byte ch) = ch"
  by (simp add: byte_def)

lemma hex_digits:
  assumes "n < 16"
  shows "hex_value (hex_digit n) = Some n" "byte (hex_digit n) \<in> {48..57} \<union> {65..70}"
proof -
  have "byte (hex_digit n) = (if n < 10 then 48 + n else 55 + n)"
    using assms by (auto simp: hex_digit_def byte_def of_char_of)
  then show "hex_value (hex_digit n) = Some n" "byte (hex_digit n) \<in> {48..57} \<union> {65..70}"
    using assms by (auto simp: hex_value_def Let_def)
qed

lemma escape_char_clean: "byte x \<noteq> 38 \<and> byte x \<noteq> 61" if "x \<in> set (escape_char ch)"
proof -
  have "byte ch div 16 < 16" "byte ch mod 16 < 16" using byte_bound [of ch] by auto
  from hex_digits(2) [OF this(1)] hex_digits(2) [OF this(2)] that show ?thesis
    by (auto simp: escape_char_def unreserved_def byte_in_def byte_def split: if_splits)
qed

lemma escape_clean: "CHR ''&'' \<notin> set (QueryEscape s)" "CHR ''='' \<notin> set (QueryEscape s)"
  using escape_char_clean by (fastforce simp: QueryEscape_def byte_def)+

lemma unescape_char: "QueryUnescape (escape_char ch @ rest) = map_option ((#) ch) (QueryUnescape rest)"
proof -
  have b: "byte ch div 16 < 16" "byte ch mod 16 < 16" using byte_bound [of ch] by auto
  have "unreserved ch \<Longrightarrow> ch \<noteq> CHR ''+'' \<and> ch \<noteq> CHR ''%''" by (auto simp: unreserved_def byte_in_def byte_def)
  moreover have "byte ch div 16 * 16 + byte ch mod 16 = byte ch" by simp
  ultimately show ?thesis using hex_digits(1) [OF b(1)] hex_digits(1) [OF b(2)] by (auto simp: escape_char_def)
qed

lemma unescape_escape: "QueryUnescape (QueryEscape s) = Some s"
  by (induction s) (simp_all add: QueryEscape_def unescape_char)

lemma parse_pair_encoded: "parse_pair (QueryEscape k @ ''='' @ QueryEscape v) = Some (k, v)"
proof -
  have "takeWhile (\<lambda>c. c \<noteq> CHR ''='') (QueryEscape k @ ''='' @ QueryEscape v) = QueryEscape k"
    "dropWhile (\<lambda>c. c \<noteq> CHR ''='') (QueryEscape k @ ''='' @ QueryEscape v) = ''='' @ QueryEscape v"
    using escape_clean(2) [of k] by (auto simp: takeWhile_append dropWhile_append) 
  then show ?thesis by (simp add: parse_pair_def unescape_escape)
qed

lemma those_pairs: "those (map parse_pair (map (\<lambda>(k, v). QueryEscape k @ ''='' @ QueryEscape v) q)) = Some q"
  by (induction q) (auto simp: parse_pair_encoded [simplified])

lemma parse_encoded: "parse_query (Values_Encode q) = Some (sort_slice (\<lambda>a b. fst a < fst b) q)"
proof (cases "map (\<lambda>(k, v). QueryEscape k @ ''='' @ QueryEscape v) (sort_slice (\<lambda>a b. fst a < fst b) q)")
  case Nil
  then show ?thesis by (simp add: Values_Encode_def parse_query_def)
next
  case (Cons x xs)
  have "list_all (\<lambda>y. CHR ''&'' \<notin> set y) (map (\<lambda>(k, v). QueryEscape k @ ''='' @ QueryEscape v) (sort_slice (\<lambda>a b. fst a < fst b) q))"
    using escape_clean(1) by (auto simp: list_all_iff)
  then have "split_on (CHR ''&'') (Values_Encode q) = x # xs"
    using Cons split_on_joined [of "CHR ''&''" x xs] by (simp add: Values_Encode_def)
  moreover have "Values_Encode q \<noteq> []" using Cons by (auto simp: Values_Encode_def)
  ultimately show ?thesis using those_pairs [of "sort_slice (\<lambda>a b. fst a < fst b) q"] unfolding Cons parse_query_def by simp
qed

definition answers_as :: "analytics_env \<Rightarrow> Client \<Rightarrow> (string \<Rightarrow> (string \<times> string) list \<Rightarrow> string) \<Rightarrow> bool" where
  \<comment> \<open>the service at the client's base URL: what it answers depends on the path and on the parameters it decodes from the query\<close>
  "answers_as env cl svc \<longleftrightarrow>
     (\<forall>q path qs ps. hq_url q = an_base cl @ path @ ''?'' @ qs \<longrightarrow> path \<in> {''/api/v1/usage/totals'', ''/api/v1/usage/breakdown''} \<longrightarrow>
        parse_query qs = Some ps \<longrightarrow> ae_NewRequest env q = None \<and> int (length (svc path ps)) \<le> analyticsResponseBytes \<and>
        ae_Do env q = Inr \<lparr> hp_StatusCode = 200, hp_Header = [], hp_Body = \<lparr> br_data = svc path ps, br_err = None \<rparr> \<rparr>)"

lemma asked:
  assumes "answers_as env cl svc" "path \<in> {''/api/v1/usage/totals'', ''/api/v1/usage/breakdown''}" "q \<noteq> []"
    and "sort_slice (\<lambda>a b. fst a < fst b) q = ps"
  shows "client_do env cl ''GET'' path q None = Inr (svc path ps)"
proof -
  let ?r = "analytics_request cl ''GET'' path q None"
  have "hq_url ?r = an_base cl @ path @ ''?'' @ Values_Encode q" using assms(3) by (simp add: analytics_request_def)
  moreover have "parse_query (Values_Encode q) = Some ps" using parse_encoded assms(4) by simp
  ultimately have "ae_NewRequest env ?r = None \<and> int (length (svc path ps)) \<le> analyticsResponseBytes \<and>
      ae_Do env ?r = Inr \<lparr> hp_StatusCode = 200, hp_Header = [], hp_Body = \<lparr> br_data = svc path ps, br_err = None \<rparr> \<rparr>"
    using assms(1) [unfolded answers_as_def, THEN spec, of ?r, THEN spec, of path, THEN spec, of "Values_Encode q", THEN spec, of ps] assms(2)
    by (elim insertE) simp_all
  then show ?thesis by (auto simp: client_do_def Let_def ReadAll_Limit_def)
qed

text \<open>C23. No identifier can change what is asked: whatever bytes a tenant id, a key's prefix or a grouping contains, \<open>&\<close>, \<open>=\<close> and \<open>%\<close>
  included, a service that decodes its query sees exactly the parameters the call was given, each once, and the client's result is that
  service's answer to them, decoded.\<close>

theorem usage_query_exact:
  assumes "answers_as env cl svc"
  shows "client_Usage env cl tid since until =
      (case ae_totals env (svc ''/api/v1/usage/totals'' [(''since'', stamp since), (''tenant_id'', tid), (''until'', stamp until)]) of
         Inl err \<Rightarrow> Inl (Wrapf (''decoding the usage totals: %w'', []) err) | Inr t \<Rightarrow> Inr t) \<and>
    client_KeyUsage env cl tid pfx since until =
      (case ae_totals env (svc ''/api/v1/usage/totals''
           [(''key_prefix'', pfx), (''since'', stamp since), (''tenant_id'', tid), (''until'', stamp until)]) of
         Inl err \<Rightarrow> Inl (Wrapf (''decoding the usage totals: %w'', []) err) | Inr t \<Rightarrow> Inr t) \<and>
    client_UsageBreakdown env cl tid since until groupBy =
      (case ae_buckets env (svc ''/api/v1/usage/breakdown''
           [(''group_by'', groupBy), (''since'', stamp since), (''tenant_id'', tid), (''until'', stamp until)]) of
         Inl err \<Rightarrow> Inl (Wrapf (''decoding the usage breakdown: %w'', []) err) | Inr bs \<Rightarrow> Inr bs)"
proof (intro conjI)
  note sorting = sort_slice_def less_char_def
  have "sort_slice (\<lambda>a b. fst a < fst b) [(''tenant_id'', tid), (''since'', a), (''until'', b)] =
      [(''since'', a), (''tenant_id'', tid), (''until'', b)]" for a b by (simp add: sorting)
  from asked [OF assms _ _ this] show "client_Usage env cl tid since until =
      (case ae_totals env (svc ''/api/v1/usage/totals'' [(''since'', stamp since), (''tenant_id'', tid), (''until'', stamp until)]) of
         Inl err \<Rightarrow> Inl (Wrapf (''decoding the usage totals: %w'', []) err) | Inr t \<Rightarrow> Inr t)"
    by (simp add: client_Usage_def client_totals_def)
  have "sort_slice (\<lambda>a b. fst a < fst b) [(''tenant_id'', tid), (''key_prefix'', pfx), (''since'', a), (''until'', b)] =
      [(''key_prefix'', pfx), (''since'', a), (''tenant_id'', tid), (''until'', b)]" for a b by (simp add: sorting)
  from asked [OF assms _ _ this] show "client_KeyUsage env cl tid pfx since until =
      (case ae_totals env (svc ''/api/v1/usage/totals''
           [(''key_prefix'', pfx), (''since'', stamp since), (''tenant_id'', tid), (''until'', stamp until)]) of
         Inl err \<Rightarrow> Inl (Wrapf (''decoding the usage totals: %w'', []) err) | Inr t \<Rightarrow> Inr t)"
    by (simp add: client_KeyUsage_def client_totals_def)
  have "sort_slice (\<lambda>a b. fst a < fst b) [(''tenant_id'', tid), (''since'', a), (''until'', b), (''group_by'', groupBy)] =
      [(''group_by'', groupBy), (''since'', a), (''tenant_id'', tid), (''until'', b)]" for a b by (simp add: sorting)
  from asked [OF assms _ _ this] show "client_UsageBreakdown env cl tid since until groupBy =
      (case ae_buckets env (svc ''/api/v1/usage/breakdown''
           [(''group_by'', groupBy), (''since'', stamp since), (''tenant_id'', tid), (''until'', stamp until)]) of
         Inl err \<Rightarrow> Inl (Wrapf (''decoding the usage breakdown: %w'', []) err) | Inr bs \<Rightarrow> Inr bs)"
    by (simp add: client_UsageBreakdown_def)
qed

definition example_client :: Client where
  "example_client = \<lparr> an_base = ''http://analytics'', an_token = ''s'', an_hcTimeout = 10 * Second \<rparr>"

definition example_tally :: "(string \<times> string) list \<Rightarrow> string" where
  \<comment> \<open>the tenant it was asked about, as the service read it\<close>
  "example_tally ps = (case map_of ps ''tenant_id'' of Some tid \<Rightarrow> take 100 tid | None \<Rightarrow> [])"

definition example_service :: analytics_env where
  \<comment> \<open>decodes the query behind the first question mark\<close>
  "example_service = \<lparr> ae_parseURL = (\<lambda>_. Inr (''http'', ''analytics'')), ae_NewRequest = (\<lambda>_. None),
     ae_Do = (\<lambda>q. case parse_query (drop 1 (dropWhile (\<lambda>c. c \<noteq> CHR ''?'') (hq_url q))) of
        None \<Rightarrow> Inl (Sentinel ''bad query'')
      | Some ps \<Rightarrow> Inr \<lparr> hp_StatusCode = 200, hp_Header = [], hp_Body = \<lparr> br_data = example_tally ps, br_err = None \<rparr> \<rparr>),
     ae_marshal = (\<lambda>_. Inr ''{}''), ae_totals = (\<lambda>body. Inl (Sentinel body)), ae_buckets = (\<lambda>body. Inl (Sentinel body)) \<rparr>"

theorem usage_query_exact_witness:
  "client_KeyUsage example_service example_client ''a&tenant_id=b%'' ''cg-1'' 0 5 =
     Inl (Wrapf (''decoding the usage totals: %w'', []) (Sentinel ''a&tenant_id=b%''))"
proof -
  have "answers_as example_service example_client (\<lambda>path. example_tally)"
    unfolding answers_as_def
    by (auto simp: example_service_def example_client_def analyticsResponseBytes_def example_tally_def split: option.split)
  from usage_query_exact [OF this] show ?thesis by (simp add: example_service_def example_tally_def)
qed

section \<open>Delivering usage\<close>

abbreviation usage_post :: "Client \<Rightarrow> string \<Rightarrow> http_request" where
  "usage_post cl body \<equiv> analytics_request cl ''POST'' ''/api/v1/usage'' [] (Some body)"

text \<open>C21. What becomes of a usage record is decided by the service's answer and by nothing else: an outage (no answer, an answer cut short, 408, 429, or any
  status from 300 on outside the 400s) keeps the record in delivery, to be sent again; a refusal (any other 4xx) drops it, on
  the dropped counter, and lets the next one through; and any status below 300 ends its delivery as persisted.\<close>

theorem analytics_delivery:
  assumes "ae_marshal env rec = Inr body" "ae_NewRequest env (usage_post cl body) = None"
    and "\<And>e. ae_Do env (usage_post cl body) = Inl e \<Longrightarrow> \<not> isPermanent e"
    and "\<And>res e. ae_Do env (usage_post cl body) = Inr res \<Longrightarrow> br_err (hp_Body res) = Some e \<Longrightarrow> \<not> isPermanent e"
    and "t' = delivered isPermanent t1 t2 rec n b (client_RecordUsage env cl rec) t"
  shows "case ae_Do env (usage_post cl body) of
      Inl e \<Rightarrow> te_phase t' = Waiting rec n b \<and> te_dropped t' = te_dropped t
    | Inr res \<Rightarrow>
        if hp_StatusCode res < 300 then
          (if br_err (hp_Body res) \<noteq> None \<and> int (length (br_data (hp_Body res))) < analyticsResponseBytes
           then te_phase t' = Waiting rec n b \<and> te_dropped t' = te_dropped t
           else te_phase t' = Idle \<and> te_dropped t' = te_dropped t \<and> client_RecordUsage env cl rec = None)
        else if 400 \<le> hp_StatusCode res \<and> hp_StatusCode res < 500 \<and> hp_StatusCode res \<notin> {408, 429}
        then te_phase t' = Idle \<and> te_dropped t' = te_dropped t + 1
        else te_phase t' = Waiting rec n b \<and> te_dropped t' = te_dropped t"
proof (cases "ae_Do env (usage_post cl body)")
  case (Inl e)
  then show ?thesis using assms(1-3,5)
    by (simp add: client_RecordUsage_def client_do_def Let_def delivered_def)
next
  case (Inr res)
  then show ?thesis using assms(1,2,4,5)
    by (cases "br_err (hp_Body res)")
      (auto simp: client_RecordUsage_def client_do_def Let_def ReadAll_Limit_def delivered_def Permanent_def say_def lost_def)
qed

definition example_analytics :: "int \<Rightarrow> analytics_env" where
  \<comment> \<open>a service that answers every request with one status\<close>
  "example_analytics status = \<lparr> ae_parseURL = (\<lambda>_. Inr (''http'', ''analytics'')), ae_NewRequest = (\<lambda>_. None),
     ae_Do = (\<lambda>_. Inr \<lparr> hp_StatusCode = status, hp_Header = [], hp_Body = \<lparr> br_data = ''no'', br_err = None \<rparr> \<rparr>),
     ae_marshal = (\<lambda>_. Inr ''{}''), ae_totals = (\<lambda>_. Inl (Sentinel ''json'')), ae_buckets = (\<lambda>_. Inl (Sentinel ''json'')) \<rparr>"

theorem analytics_delivery_witness:
  "te_phase (delivered isPermanent 0 0 (example_usage ''a'') 3 retryBase
      (client_RecordUsage (example_analytics 422) example_client (example_usage ''a'')) (NewTelemetry 5)) = Idle \<and>
   te_phase (delivered isPermanent 0 0 (example_usage ''a'') 3 retryBase
      (client_RecordUsage (example_analytics 503) example_client (example_usage ''a'')) (NewTelemetry 5)) = Waiting (example_usage ''a'') 3 retryBase"
proof -
  let ?d = "\<lambda>status. delivered isPermanent 0 0 (example_usage ''a'') 3 retryBase
      (client_RecordUsage (example_analytics status) example_client (example_usage ''a'')) (NewTelemetry 5)"
  have e: "ae_marshal (example_analytics k) r = Inr ''{}''" "ae_NewRequest (example_analytics k) q = None"
    "ae_Do (example_analytics k) q = Inr \<lparr> hp_StatusCode = k, hp_Header = [], hp_Body = \<lparr> br_data = ''no'', br_err = None \<rparr> \<rparr>" for k r q
    by (simp_all add: example_analytics_def)
  have "case ae_Do (example_analytics k) (usage_post example_client ''{}'') of Inl e \<Rightarrow> True | Inr res \<Rightarrow>
      hp_StatusCode res = k \<and> (k = 422 \<longrightarrow> te_phase (?d k) = Idle) \<and> (k = 503 \<longrightarrow> te_phase (?d k) = Waiting (example_usage ''a'') 3 retryBase)" for k
  proof -
    have n: "\<And>x. ae_Do (example_analytics k) (usage_post example_client ''{}'') = Inl x \<Longrightarrow> \<not> isPermanent x"
      "\<And>res x. ae_Do (example_analytics k) (usage_post example_client ''{}'') = Inr res \<Longrightarrow> br_err (hp_Body res) = Some x \<Longrightarrow> \<not> isPermanent x"
      by (auto simp: e)
    from analytics_delivery [OF e(1) [of k "example_usage ''a''"] e(2) n HOL.refl, where ?t1.0 = 0 and ?t2.0 = 0 and n = 3
        and b = retryBase and t = "NewTelemetry 5"]
    show ?thesis by (auto simp: e split: if_splits)
  qed
  from this [of 422] this [of 503] show ?thesis by (simp add: e)
qed

section \<open>Outages\<close>

definition down :: "analytics_env \<Rightarrow> bool" where
  \<comment> \<open>no request gets a usable answer\<close>
  "down env \<longleftrightarrow> (\<forall>q. case ae_Do env q of Inl e \<Rightarrow> True | Inr res \<Rightarrow> 300 \<le> hp_StatusCode res)"

lemma down_fails: "down env \<Longrightarrow> \<exists>e. client_do env cl method path q body = Inl e"
  unfolding down_def client_do_def Let_def
  by (auto split: option.split sum.split prod.split dest: spec [of _ "analytics_request cl method path q body"])

lemma down_reads:
  assumes "down env"
  shows "\<exists>e. client_Usage env cl tid since until = Inl e" "\<exists>e. client_KeyUsage env cl tid pfx since until = Inl e"
    "\<exists>e. client_UsageBreakdown env cl tid since until groupBy = Inl e"
  using down_fails [OF assms]
  by (auto simp: client_Usage_def client_KeyUsage_def client_totals_def client_UsageBreakdown_def)
     (metis sum.case(1))+

lemma down_store:
  assumes "down env"
  shows "\<exists>e. astore_Usage env tid since until st = unavailable (Inl e)" "\<exists>e. astore_KeyUsage env tid pfx since until st = unavailable (Inl e)"
    "\<exists>e. astore_UsageBreakdown env tid since until groupBy st = unavailable (Inl e)"
  using down_reads(1) [OF assms, of "as_client st" tid since until] down_reads(2) [OF assms, of "as_client st" tid pfx since until]
    down_reads(3) [OF assms, of "as_client st" tid since until groupBy]
  by (auto simp: astore_Usage_def astore_KeyUsage_def astore_UsageBreakdown_def)

lemma down_slots:
  assumes "down env"
  shows "quotaSlots cfg (analytics_quota_reads env st) t scope = Inr [] \<or>
    (\<exists>e. quotaSlots cfg (analytics_quota_reads env st) t scope = Inl e)"
proof -
  have u: "\<exists>e. usageFor (analytics_quota_reads env st) tid pfx t q = Inl e" if "\<not> Quota_Empty q" for tid pfx q
  proof -
    have "\<exists>e. read_window (analytics_quota_reads env st) tid pfx t window = Inl e" for window
    proof -
      obtain a b where ab: "periodWindow window t = (a, b)" by fastforce
      then show ?thesis
        using down_store(1) [OF assms, of tid a b st] down_store(2) [OF assms, of tid pfx a b st]
        by (auto simp: read_window_def store_quota_reads_def analytics_usage_def unavailable_def)
    qed
    then obtain e1 e2 where "read_window (analytics_quota_reads env st) tid pfx t windowDay = Inl e1"
      "read_window (analytics_quota_reads env st) tid pfx t windowMonth = Inl e2" by metis
    then show ?thesis using that by (auto simp: usageFor_def Let_def Quota_Empty_def any_limit_def)
  qed
  have "level_slots cfg (analytics_quota_reads env st) t tid keyID pfx lv = Inr [] \<or>
      (\<exists>e. level_slots cfg (analytics_quota_reads env st) t tid keyID pfx lv = Inl e)" for tid keyID pfx lv
  proof (cases "loadQuota (analytics_quota_reads env st) tid keyID")
    case (Inr oq)
    show ?thesis
    proof (cases oq)
      case (Some qu)
      then have "\<not> Quota_Empty qu" using Inr by (auto simp: loadQuota_def split: sum.splits if_splits)
      from u [OF this, of tid pfx] obtain e where "usageFor (analytics_quota_reads env st) tid pfx t qu = Inl e" ..
      then show ?thesis using Inr Some by (simp add: level_slots_def)
    qed (use Inr in \<open>simp add: level_slots_def\<close>)
  qed (simp add: level_slots_def)
  from this [of "qs_tenantID scope" "[]" "[]" False] this [of "qs_tenantID scope" "qs_keyID scope" "qs_keyPrefix scope" True]
  show ?thesis by (cases "qs_keyID scope = []") (auto simp: quotaSlots_def)
qed

definition answers_503 :: "goerr + 'a \<Rightarrow> bool" where
  \<comment> \<open>a fixed message, no \<open>Retry-After\<close>, and nothing of what the service said\<close>
  "answers_503 r \<longleftrightarrow> (case r of
      Inl e \<Rightarrow> e_Status (From e) = 503 \<and> e_Code (From e) = ''service_unavailable'' \<and> e_RetryAfterSeconds (From e) = 0 \<and>
        e_Msg (From e) = (''Usage accounting is temporarily unavailable. The request itself was unaffected.'', []) \<and> e_Attempts (From e) = []
    | Inr v \<Rightarrow> False)"

lemma unavailable_503: "answers_503 (unavailable (Inl e))"
  by (simp add: answers_503_def unavailable_def From_def WithCause_def Unavailable_def newErr_def)

lemma down_usage:
  assumes "down env"
  shows "answers_503 (ur_Usage (analytics_usage env st) tid since until)" "answers_503 (ur_KeyUsage (analytics_usage env st) tid pfx since until)"
    "answers_503 (ur_UsageBreakdown (analytics_usage env st) tid since until groupBy)"
  using down_store(1) [OF assms, of tid since until st] down_store(2) [OF assms, of tid pfx since until st]
    down_store(3) [OF assms, of tid since until groupBy st] by (auto simp: analytics_usage_def unavailable_503)

lemma down_quota:
  assumes "down env" "evaluateQuota cfg (analytics_quota_reads env st) now w scope q = (w', q', es, v)" "map_of (qc_entries q) (cacheKey scope) = None"
  shows "v = \<lparr> qv_State = QuotaOK, qv_Reject = None \<rparr> \<and> es = []"
proof -
  have "computeQuota cfg (analytics_quota_reads env st) now w1 scope q = (w2, q2, es2, r2) \<Longrightarrow>
      es2 = [] \<and> (\<forall>entry. r2 = Inr entry \<longrightarrow> qe_state entry = QuotaOK)" for w1 w2 q2 es2 r2
    using down_slots [OF assms(1), of cfg st "snd (now w1)" scope] by (auto simp: computeQuota_def split: prod.splits)
  then have "quota_get cfg (analytics_quota_reads env st) now w scope q = (w2, q2, es2, r2) \<Longrightarrow>
      es2 = [] \<and> (\<forall>entry. r2 = Inr entry \<longrightarrow> qe_state entry = QuotaOK)" for w2 q2 es2 r2
    using assms(3) by (fastforce simp: quota_get_def Let_def fresh_entry_def split: prod.splits sum.splits)
  then show ?thesis using assms(2)
    by (fastforce simp: evaluateQuota_def verdict_of_def QuotaOK_def QuotaHardExceeded_def split: if_splits prod.splits sum.splits)
qed

end
