(* ===== verification/Assembly.thy ===== *)
theory Assembly
  imports Gateway_Server Analytics
begin

text \<open>
  The composition root: \<open>gateway/app.go\<close>, with \<open>New\<close> and \<open>Shutdown\<close> of \<open>gateway/internal/server/server.go\<close>.

  With an analytics service configured the client is built and kept in \<open>ap_analytics\<close>; without one, usage is kept in the
  process's own store. The outcome of loading the TLS key pair, \<open>url.Parse\<close>, the HTTP client of the provider adapters and what Fiber's
  shutdown returns are arguments.
\<close>

section \<open>Building the server\<close>

definition catalogPrices :: "(string, (string, ModelPrice) gomap) gomap \<Rightarrow> (string, (string, Price) gomap) gomap" where
  "catalogPrices inp = map (\<lambda>(kind, models). (kind, map (\<lambda>(mid, p). (mid, \<lparr> pr_Input = mp_Input p, pr_Output = mp_Output p \<rparr>)) models)) inp"

definition server_New :: "Config \<Rightarrow> Memory \<Rightarrow> 'w Dispatcher \<Rightarrow> Telemetry \<Rightarrow> 'w Gateway" where
  \<comment> \<open>the state of \<open>server.New\<close>, with metrics\<close>
  "server_New cfg m disp tel = Server.extend
     \<lparr> sv_Config = cfg, sv_Store = m, sv_limiter = newConcurrencyLimiter (lc_MaxConcurrentPerKey (cfg_Limits cfg)),
       sv_rates = newRateLimiter, sv_captures = newCaptureStore (cfg_Debug cfg), sv_draining = False, sv_log = [], sv_metrics = Some [] \<rparr>
     (Gateway.fields (newQuotaCache quotaCacheTTL) (newResponseCache (cfg_Cache cfg)) disp (Some tel) [] []
        \<lparr> hk_ttl = cfg_HealthCacheTTL cfg, hk_entries = [] \<rparr>)"

record devCredentials =
  dv_TenantID :: string
  dv_DataKey :: string
  dv_AdminKey :: string

record seed_source =
  \<comment> \<open>what \<open>seedDev\<close> draws: SHA-256, the clock, and ids and tokens for one tenant and two keys\<close>
  so_sha256 :: "string \<Rightarrow> string"
  so_now :: time
  so_tenant :: string
  so_data :: "string \<times> string"
  so_admin :: "string \<times> string"

definition seedDev :: "seed_source \<Rightarrow> Memory \<Rightarrow> goerr + Memory \<times> devCredentials" where
  "seedDev so m =
     (case CreateTenant (so_now so) (so_tenant so) ''dev'' m of
        Inl err \<Rightarrow> Inl (Wrapf (''seeding the dev tenant: %w'', []) err)
      | Inr (m1, tn) \<Rightarrow>
          (case CreateAPIKey (so_sha256 so) (so_now so) (fst (so_data so)) (snd (so_data so)) (t_ID tn) PlaneData ''dev'' [] None m1 of
             Inl err \<Rightarrow> Inl (Wrapf (''minting the dev data key: %w'', []) err)
           | Inr (m2, k1, dataKey) \<Rightarrow>
               (case CreateAPIKey (so_sha256 so) (so_now so) (fst (so_admin so)) (snd (so_admin so)) (t_ID tn) PlaneAdmin ''dev''
                       (''tenant:'' @ t_ID tn) None m2 of
                  Inl err \<Rightarrow> Inl (Wrapf (''minting the dev admin key: %w'', []) err)
                | Inr (m3, k2, adminKey) \<Rightarrow>
                    Inr (m3, \<lparr> dv_TenantID = t_ID tn, dv_DataKey = dataKey, dv_AdminKey = adminKey \<rparr>))))"

definition breakerObservers :: "string \<times> State \<times> State \<Rightarrow> metric_event \<times> event_emission list" where
  \<comment> \<open>what one transition writes to the gauge, and what it emits\<close>
  "breakerObservers x =
     (case x of (key, frm, to) \<Rightarrow>
        let (tenantID, providerName, model) = SplitKey key
        in ((''breaker_state'', [tenantID, providerName, model], of_int (Gauge to)), BreakerHook (key, frm, to)))"

definition age_samples :: "'w Catalog \<Rightarrow> time \<Rightarrow> CatalogAgeSample list" where
  "age_samples cat now =
     map (\<lambda>age. \<lparr> cas_Tenant = ca_TenantID age, cas_Provider = ca_Provider age, cas_Seconds = of_int (ca_Age age) / of_int Second \<rparr>) (Ages cat now)"

definition age_scrape :: "'w Catalog \<Rightarrow> time \<Rightarrow> (string list \<times> rat) list" where
  \<comment> \<open>what a scrape at \<open>now\<close> collects, the source being set when the process is built\<close>
  "age_scrape cat now = Collect_ages (SetCatalogAgeSource (\<lambda>_. age_samples cat now) None)"

record 'w app =
  ap_server :: "'w Gateway"
  ap_events :: EventDispatcher
  ap_analytics :: "Client option"
  ap_dev :: "devCredentials option"

definition provider_registry :: "'w upstream_env \<Rightarrow> Config \<Rightarrow> 'w Registry" where
  "provider_registry uenv cfg =
     (let openai = NewOpenAI uenv (lc_MaxResponseBytes (cfg_Limits cfg))
      in NewRegistry [openai, NewCompat KindGemini openai, NewCompat KindAnthropic openai])"

definition new_catalog :: "'w upstream_env \<Rightarrow> Config \<Rightarrow> 'w Catalog" where
  "new_catalog uenv cfg = Model_Catalog.New (provider_registry uenv cfg)
     \<lparr> op_TTL = cc_TTL (cfg_Catalog cfg), op_StaleWarnAfter = cc_StaleWarnAfter (cfg_Catalog cfg),
       op_ProviderTimeout = cc_ProviderTimeout (cfg_Catalog cfg), op_Prices = catalogPrices (cc_Prices (cfg_Catalog cfg)),
       op_OnChange = True \<rparr>"

definition new_breaker :: "Config \<Rightarrow> Breaker" where
  "new_breaker cfg =
     (let b = ro_Breaker (cfg_Routing cfg) in NewBreaker (bc_ErrorThreshold b) (bc_Window b) (bc_OpenDuration b) True)"

definition usage_client :: "(string \<Rightarrow> goerr + string \<times> string) \<Rightarrow> Config \<Rightarrow> goerr + Client option" where
  "usage_client parseURL cfg =
     (if an_BaseURL (cfg_Analytics cfg) = [] then Inr None
      else case NewClient parseURL (cfg_Analytics cfg) of Inl err \<Rightarrow> Inl err | Inr cl \<Rightarrow> Inr (Some cl))"

definition app_usage :: "('w \<Rightarrow> analytics_env) \<Rightarrow> Client option \<Rightarrow> 'w \<Rightarrow> Memory \<Rightarrow> usage_reads" where
  \<comment> \<open>the usage half of the store the server is given; the service answers by the state of the world\<close>
  "app_usage service cl w m = (case cl of None \<Rightarrow> memory_usage m | Some client \<Rightarrow> analytics_usage (service w) (NewStore m client))"

definition new_server :: "'w upstream_env \<Rightarrow> Config \<Rightarrow> Memory \<Rightarrow> 'w Gateway" where
  "new_server uenv cfg m =
     server_New cfg m (NewDispatcher (new_catalog uenv cfg) (new_breaker cfg)) (NewTelemetry (cfg_TelemetryBuffer cfg))"

definition new_events :: "Config \<Rightarrow> EventDispatcher" where
  "new_events cfg = event_New \<lparr> ho_MaxAttempts = wc_MaxAttempts (cfg_Webhooks cfg), ho_Timeout = wc_Timeout (cfg_Webhooks cfg),
     ho_BaseBackoff = 0, ho_Queue = 0, ho_Workers = 0 \<rparr>"

definition build ::
  "'w upstream_env \<Rightarrow> (string \<Rightarrow> goerr + string \<times> string) \<Rightarrow> seed_source \<Rightarrow> goerr option \<Rightarrow> Config \<Rightarrow> bool \<Rightarrow> goerr + 'w app" where
  \<comment> \<open>the fourth argument is the error of loading the TLS key pair\<close>
  "build uenv parseURL so tls cfg dev =
     (case (if TLSEnabled (cfg_Gateway cfg) then tls else None) of
        Some err \<Rightarrow> Inl (Wrapf (''loading the TLS keypair from %s and %s: %w'',
                          [FStr (gw_TLSCertFile (cfg_Gateway cfg)), FStr (gw_TLSKeyFile (cfg_Gateway cfg))]) err)
      | None \<Rightarrow>
          (case usage_client parseURL cfg of
             Inl err \<Rightarrow> Inl err
           | Inr cl \<Rightarrow>
               let a = \<lparr> ap_server = new_server uenv cfg (NewMemory dev), ap_events = new_events cfg, ap_analytics = cl, ap_dev = None \<rparr>
               in if \<not> dev then Inr a
                  else case seedDev so (NewMemory dev) of
                         Inl err \<Rightarrow> Inl err
                       | Inr (m, creds) \<Rightarrow> Inr (a\<lparr>ap_server := (ap_server a)\<lparr>sv_Store := m\<rparr>, ap_dev := Some creds\<rparr>)))"

section \<open>Shutting down\<close>

definition drain_timeout :: "Config \<Rightarrow> duration option \<Rightarrow> duration" where
  \<comment> \<open>the second argument is the time left before the context's deadline\<close>
  "drain_timeout cfg remaining =
     (let t = (case remaining of Some r \<Rightarrow> if r < cfg_DrainTimeout cfg then r else cfg_DrainTimeout cfg | None \<Rightarrow> cfg_DrainTimeout cfg)
      in if t \<le> 0 then Second else t)"

definition server_Shutdown :: "(duration \<Rightarrow> 'w Gateway \<Rightarrow> 'w Gateway \<times> goerr option) \<Rightarrow> duration option \<Rightarrow> 'w Gateway \<Rightarrow> 'w Gateway \<times> goerr option" where
  \<comment> \<open>\<open>drain\<close> is what happens while Fiber waits for the connections\<close>
  "server_Shutdown drain remaining s =
     (let s1 = s\<lparr>sv_draining := True\<rparr>; (s2, err) = drain (drain_timeout (sv_Config s1) remaining) s1
      in (s2\<lparr>gt_telemetry := map_option Close (gt_telemetry s2)\<rparr>, err))"

definition app_Shutdown :: "(duration \<Rightarrow> 'w Gateway \<Rightarrow> 'w Gateway \<times> goerr option) \<Rightarrow> duration option \<Rightarrow> 'w app \<Rightarrow> 'w app \<times> goerr option" where
  "app_Shutdown drain remaining a =
     (case server_Shutdown drain remaining (ap_server a) of
        (s, err) \<Rightarrow> (a\<lparr>ap_server := s, ap_events := hook_Close (ap_events a)\<rparr>, err))"

definition app_Close :: "'w app \<Rightarrow> 'w app" where
  "app_Close a = a\<lparr>ap_events := hook_Close (ap_events a), ap_server := (ap_server a)\<lparr>gt_telemetry := map_option Close (gt_telemetry (ap_server a))\<rparr>\<rparr>"

section \<open>A new process\<close>

lemma seedDev_typed:
  assumes "seedDev so m = Inr (m', creds)" "typed_store cfg m" "so_tenant so \<noteq> []"
  shows "typed_store cfg m'"
proof -
  obtain m1 tn m2 k1 p1 k2 p2 where
    c: "CreateTenant (so_now so) (so_tenant so) ''dev'' m = Inr (m1, tn)"
      "CreateAPIKey (so_sha256 so) (so_now so) (fst (so_data so)) (snd (so_data so)) (t_ID tn) PlaneData ''dev'' [] None m1 = Inr (m2, k1, p1)"
      "CreateAPIKey (so_sha256 so) (so_now so) (fst (so_admin so)) (snd (so_admin so)) (t_ID tn) PlaneAdmin ''dev''
         (''tenant:'' @ t_ID tn) None m2 = Inr (m', k2, p2)"
    using assms(1) by (auto simp: seedDev_def split: sum.splits)
  have t: "t_ID tn \<noteq> []" using c(1) assms(3) by (auto simp: CreateTenant_def Let_def new_tenant_def split: if_splits)
  have "typed_store cfg m2" by (rule typed_keys(1) [OF typed_CreateTenant [OF assms(2) c(1)] _ c(2)]) (simp add: may_grant_def t)
  then show ?thesis by (rule typed_keys(1) [OF _ _ c(3)]) (simp add: may_grant_def t)
qed

text \<open>A process starts in a state every other result applies to: not draining, no permit taken, no circuit tripped, nothing cached
  or queued, and a store whose whole configuration is valid, in \<open>--dev\<close> mode with its seeded tenant and keys as well.\<close>

lemma provider_ages_distinct:
  "distinct (map ca_Provider (provider_ages tid age seen es)) \<and> set (map ca_Provider (provider_ages tid age seen es)) \<inter> set seen = {} \<and>
   set (map ca_TenantID (provider_ages tid age seen es)) \<subseteq> {tid}"
proof (induction es arbitrary: seen)
  case (Cons e es)
  from Cons [of seen] Cons [of "en_Provider e # seen"] show ?case by auto
qed simp

text \<open>A scrape never collects two ages under the same labels, which the Prometheus registry would refuse as a whole.\<close>

lemma age_scrape_distinct:
  assumes "distinct (map fst (ct_perTenant cat))"
  shows "distinct (map fst (age_scrape cat now))"
proof -
  define ages where "ages = (\<lambda>x. case x of (tenantID, s) \<Rightarrow> case s of None \<Rightarrow> []
      | Some snap \<Rightarrow> provider_ages tenantID (Age snap now) [] (sn_Models snap))"
  have one: "distinct (map (\<lambda>a. [ca_TenantID a, ca_Provider a]) (ages x)) \<and> set (map ca_TenantID (ages x)) \<subseteq> {fst x}" for x
  proof (cases x)
    case (Pair tid s)
    show ?thesis
    proof (cases s)
      case (Some snap)
      from provider_ages_distinct [of tid "Age snap now" "[]" "sn_Models snap"] show ?thesis
        using Pair Some by (auto simp: ages_def distinct_map inj_on_def)
    qed (simp add: Pair ages_def)
  qed
  have "distinct (map (\<lambda>a. [ca_TenantID a, ca_Provider a]) (concat (map ages ts)))" if "distinct (map fst ts)" for ts
    using that
  proof (induction ts)
    case (Cons x ts)
    have of_own: "a \<in> set (ages y) \<Longrightarrow> ca_TenantID a = fst y" for a y using one [of y] by auto
    have "ca_TenantID a \<noteq> ca_TenantID b" if "a \<in> set (ages x)" "y \<in> set ts" "b \<in> set (ages y)" for a b y
      using Cons.prems that of_own [OF that(1)] of_own [OF that(3)] by (simp add: image_iff)
    then have "[ca_TenantID a, ca_Provider a] \<noteq> [ca_TenantID b, ca_Provider b]"
      if "a \<in> set (ages x)" "b \<in> set (concat (map ages ts))" for a b using that by auto
    then have "set (map (\<lambda>a. [ca_TenantID a, ca_Provider a]) (ages x)) \<inter> set (map (\<lambda>a. [ca_TenantID a, ca_Provider a]) (concat (map ages ts))) = {}"
      unfolding set_map by blast
    then show ?case using Cons.IH Cons.prems one [of x] by (simp only: list.map concat.simps map_append distinct_append) simp
  qed simp
  from this [OF assms] show ?thesis
    by (simp add: age_scrape_def Collect_ages_def SetCatalogAgeSource_def age_samples_def Ages_def ages_def o_def)
qed

lemma breaker_gauge_ok: "metric_ok (fst (breakerObservers x))"
  by (simp add: breakerObservers_def Let_def metric_ok_series split: prod.split)

lemma new_process:
  assumes "build uenv parseURL so tls cfg dev = Inr a" "so_tenant so \<noteq> []"
  shows "typed_store cfg (sv_Store (ap_server a)) \<and> sv_Config (ap_server a) = cfg \<and> \<not> sv_draining (ap_server a) \<and>
    limiter_inv (sv_limiter (ap_server a)) \<and> Breaker.Snapshot (ds_breaker (gt_dispatcher (ap_server a))) t = [] \<and>
    gt_emitted (ap_server a) = [] \<and> ed_queue (ap_events a) = [] \<and> 0 < ho_Queue (ed_opts (ap_events a)) \<and> (ap_dev a \<noteq> None \<longleftrightarrow> dev) \<and>
    sv_metrics (ap_server a) = Some []"
proof -
  note i = limiter_inv_new
  have "sv_Store (ap_server a) = NewMemory dev \<or> (\<exists>m c. seedDev so (NewMemory dev) = Inr (m, c) \<and> sv_Store (ap_server a) = m)"
    using assms(1) by (auto simp: build_def Let_def new_server_def new_events_def server_New_def Server.defs Gateway.defs split: option.splits if_splits sum.splits)
  then have "typed_store cfg (sv_Store (ap_server a))" using typed_NewMemory seedDev_typed [OF _ _ assms(2)] by metis
  moreover have "sv_Config (ap_server a) = cfg \<and> \<not> sv_draining (ap_server a) \<and> limiter_inv (sv_limiter (ap_server a)) \<and>
      ds_breaker (gt_dispatcher (ap_server a)) = new_breaker cfg \<and> gt_emitted (ap_server a) = [] \<and> ed_queue (ap_events a) = [] \<and>
      0 < ho_Queue (ed_opts (ap_events a)) \<and> (ap_dev a \<noteq> None \<longleftrightarrow> dev) \<and>
    sv_metrics (ap_server a) = Some []"
    using assms(1) i
    by (auto simp: build_def Let_def new_server_def new_events_def server_New_def Server.defs Gateway.defs NewDispatcher_def event_New_def split: option.splits if_splits sum.splits)
  ultimately show ?thesis by (simp add: new_breaker_def NewBreaker_def Snapshot_def Let_def)
qed

section \<open>An outage of the analytics service\<close>

lemma outage_usage:
  assumes "down (service w)"
  shows "\<exists>e. ur_Usage (app_usage service (Some cl) w m) tid since until = Inl e \<and> e_Status (From e) = 503 \<and> e_Code (From e) = ''service_unavailable''"
    "\<exists>e. ur_UsageBreakdown (app_usage service (Some cl) w m) tid since until groupBy = Inl e \<and> e_Status (From e) = 503 \<and>
       e_Code (From e) = ''service_unavailable''"
  using down_usage(1) [OF assms, of "NewStore m cl" tid since until] down_usage(3) [OF assms, of "NewStore m cl" tid since until groupBy]
  by (auto simp: app_usage_def answers_503_def split: sum.splits)



end
