(* ===== verification/Process.thy ===== *)
theory Process
  imports Assembly
begin

text \<open>
  The running process: what \<open>build\<close> assembled, and everything that can happen to it between start and exit.

  A step is one request through the gateway, one stream writer run to its end, one event emitted and offered to the webhooks, one move of the
  goroutine that writes usage into the store, one webhook delivery, one sweep of the captures, or a stage of the shutdown. Any
  order of steps is a run; requests are taken one at a time.
\<close>

inductive process_step ::
  "'w admin_env \<Rightarrow> 'w data_env \<Rightarrow> matcher \<Rightarrow> (fctx \<Rightarrow> matched) \<Rightarrow> 'w gateway_handler \<Rightarrow> 'w app \<Rightarrow> 'w app \<Rightarrow> bool"
  for env dv fiber router metricsH where
  request: "gateway env dv fiber router metricsH w (ap_server a) c = (w', s', c', fl) \<Longrightarrow>
    process_step env dv fiber router metricsH a (a\<lparr>ap_server := s'\<rparr>)"
| stream: "job \<in> set (gt_streams (ap_server a)) \<Longrightarrow> run_stream (ad_ch env) job room ds w (ap_server a) = (w', s', out, Returned None) \<Longrightarrow>
    process_step env dv fiber router metricsH a (a\<lparr>ap_server := s'\<lparr>gt_streams := remove1 job (gt_streams s')\<rparr>\<rparr>)"
| emission: "Emit marshal eid now tid typ data (ap_events a) (sv_Store (ap_server a)) = (d', m') \<Longrightarrow>
    process_step env dv fiber router metricsH a (a\<lparr>ap_events := d', ap_server := (ap_server a)\<lparr>sv_Store := m'\<rparr>\<rparr>)"
| usage: "gt_telemetry (ap_server a) = Some tel \<Longrightarrow> tstep permanent \<lparr> rn_state = tel, rn_offered = [], rn_persisted = [] \<rparr> r \<Longrightarrow>
    rn_offered r = [] \<Longrightarrow>
    process_step env dv fiber router metricsH a (a\<lparr>ap_server := (ap_server a)\<lparr>gt_telemetry := Some (rn_state r),
      sv_Store := (if ap_analytics a = None then fold RecordUsage (rn_persisted r) (sv_Store (ap_server a)) else sv_Store (ap_server a))\<rparr>\<rparr>)"
| webhook: "ed_queue (ap_events a) = job # q \<Longrightarrow> hook_deliver validURL hmacHex (ed_opts (ap_events a)) job answers stops = (ps, waits, how) \<Longrightarrow>
    process_step env dv fiber router metricsH a (a\<lparr>ap_events := (deliver_log job how ((ap_events a)\<lparr>ed_queue := q\<rparr>))
      \<lparr>ed_stopped := ed_stopped (ap_events a) \<or> how = Abandoned\<rparr>\<rparr>)"
| sweep: "process_step env dv fiber router metricsH a (a\<lparr>ap_server := (ap_server a)\<lparr>sv_captures := fst (Capture_Sweep now (sv_captures (ap_server a)))\<rparr>\<rparr>)"
| draining: "process_step env dv fiber router metricsH a (a\<lparr>ap_server := (ap_server a)\<lparr>sv_draining := True\<rparr>\<rparr>)"
| closing: "process_step env dv fiber router metricsH a (app_Close a)"

definition process_ok :: "Config \<Rightarrow> 'w app \<Rightarrow> bool" where
  "process_ok cfg a \<longleftrightarrow> sv_Config (ap_server a) = cfg \<and> typed_store cfg (sv_Store (ap_server a)) \<and>
     limiter_inv (sv_limiter (ap_server a)) \<and> metrics_ok (sv_metrics (ap_server a)) \<and> int (length (ed_queue (ap_events a))) \<le> ho_Queue (ed_opts (ap_events a))"

section \<open>Each kind of step\<close>

lemma typed_logs:
  "typed_store cfg (RecordEvent e m) = typed_store cfg m" "typed_store cfg (RecordUsage rec m) = typed_store cfg m"
  "typed_store cfg (RecordAudit now aid au m) = typed_store cfg m"
  by (simp_all add: RecordEvent_def RecordUsage_def RecordAudit_def Let_def typed_parts)

lemma typed_usage: "typed_store cfg (fold RecordUsage recs m) = typed_store cfg m"
  by (induction recs arbitrary: m) (simp_all add: typed_logs)

lemma gateway_typed:
  assumes "reads_only metricsH" "gateway env dv fiber router metricsH w s c = (w', s', c', fl)" "typed_store (sv_Config s) (sv_Store s)"
  shows "typed_store (sv_Config s) (sv_Store s')"
proof (cases "sv_Store s' = sv_Store s")
  case False
  then obtain key m now aid e where "(admin_write (sv_Config s) key)\<^sup>*\<^sup>* (sv_Store s) m" "sv_Store s' \<in> {m, RecordAudit now aid e m}"
    using gateway_reads [OF assms(1,2)] gateway_store_moves [OF _ assms(2)] by blast
  moreover from this(1) have "typed_store (sv_Config s) m"
    using assms(3) by (induction rule: rtranclp_induct) (auto intro: typed_admin_write)
  ultimately show ?thesis by (auto simp: typed_logs)
qed (use assms(3) in simp)

lemma gateway_limiter:
  assumes "served_handler metricsH" "gateway env dv fiber router metricsH w s c = (w', s', c', fl)"
  shows "limiter_moves (sv_limiter s) (sv_limiter s')"
proof -
  let ?inner = "refuseWhenDraining (limitBody (route_table (ad_ge env) router metricsH (routed fiber (dataRoutes dv)) (routed fiber (adminRoutes env dv))))"
  obtain v s1 c0 c1 f1 w1 where i: "?inner v s c0 = (w1, s1, c1, f1)" and e: "ended s1 c1 f1 s' c'"
    using serve_cases [OF assms(2) [unfolded gateway_def]] by metis
  have "served_handler ?inner"
    by (intro served_handlers served_route_table assms(1) data_plane.served_handler_axioms control_plane.served_handler_axioms)
  then have "Middleware.kept s c0 (w1, s1, c1, f1)" using i by (metis served_handler.keeps)
  then show ?thesis using e by (auto simp: Middleware.kept_def ended_def split: flow.splits)
qed

lemma stream_frame:
  assumes "run_stream env job room ds w s = (w', s', out, fl)"
  shows "sv_Config s' = sv_Config s" "sv_Store s' = sv_Store s" "sv_draining s' = sv_draining s" "limiter_moves (sv_limiter s) (sv_limiter s')"
    "metrics_ok (sv_metrics s') = metrics_ok (sv_metrics s)"
proof -
  have moves: "limiter_moves l (given_back job l)" for l
    by (auto simp: given_back_def split: option.splits intro: limiter_moves.intros)
  have "sv_Config s' = sv_Config s \<and> sv_Store s' = sv_Store s \<and> sv_draining s' = sv_draining s \<and>
      metrics_ok (sv_metrics s') = metrics_ok (sv_metrics s) \<and> sv_limiter s' = given_back job (sv_limiter s)"
    using assms(1)
  proof (cases rule: run_stream_cases)
    case (settled e w2 w3 s3)
    then show ?thesis using record_served_frame(1) [OF settled(3,1)] by (simp add: untouched_def)
  qed (simp add: metered_until_ok)
  then show "sv_Config s' = sv_Config s" "sv_Store s' = sv_Store s" "sv_draining s' = sv_draining s" "limiter_moves (sv_limiter s) (sv_limiter s')"
    "metrics_ok (sv_metrics s') = metrics_ok (sv_metrics s)"
    using moves by simp_all
qed

lemma emission_frame:
  assumes "Emit marshal eid now tid typ data d m = (d', m')" "int (length (ed_queue d)) \<le> ho_Queue (ed_opts d)"
  shows "typed_store cfg m' = typed_store cfg m" "int (length (ed_queue d')) \<le> ho_Queue (ed_opts d')"
proof -
  show "typed_store cfg m' = typed_store cfg m"
    using assms(1) by (auto simp: Emit_def Let_def typed_logs split: sum.splits)
  show "int (length (ed_queue d')) \<le> ho_Queue (ed_opts d')"
    using assms offer_all by (auto simp: Emit_def Let_def hook_say_def split: sum.splits)
qed

lemma process_ok_step:
  assumes "process_step env dv fiber router metricsH a b" "served_handler metricsH" "reads_only metricsH" "process_ok cfg a"
  shows "process_ok cfg b \<and> (sv_draining (ap_server a) \<longrightarrow> sv_draining (ap_server b))"
  using assms(1)
proof cases
  case (request w c w' s' c' fl)
  then show ?thesis using assms(4) gateway_typed [OF assms(3) request(2)] gateway_settings [OF assms(3) request(2)]
      limiter_moves_inv [OF gateway_limiter [OF assms(2) request(2)]] by (simp add: process_ok_def)
next
  case (stream job room ds w w' s' out)
  then show ?thesis using assms(4) stream_frame [OF stream(3)] limiter_moves_inv [OF stream_frame(4) [OF stream(3)]] by (simp add: process_ok_def)
next
  case (emission marshal eid now tid ty data d' m')
  then show ?thesis using assms(4) emission_frame [OF emission(2)] by (simp add: process_ok_def)
next
  case (webhook job q validURL hmacHex answers stops ps waits how)
  then show ?thesis using assms(4) by (cases how) (auto simp: process_ok_def deliver_log_def hook_say_def)
qed (use assms(4) in \<open>simp_all add: process_ok_def typed_usage app_Close_def hook_Close_def\<close>)

lemma process_ok_steps:
  assumes "(process_step env dv fiber router metricsH)\<^sup>*\<^sup>* a b" "served_handler metricsH" "reads_only metricsH" "process_ok cfg a"
  shows "process_ok cfg b \<and> (sv_draining (ap_server a) \<longrightarrow> sv_draining (ap_server b))"
  using assms(1)
proof (induction rule: rtranclp_induct)
  case base
  then show ?case using assms(4) by simp
next
  case (step y z)
  then show ?case using process_ok_step [OF step(2) assms(2,3)] by blast
qed

section \<open>Every reachable state\<close>

text \<open>C3. The process never leaves its invariant: from start on, whatever requests arrive with whatever credentials, however upstreams, clients, webhook
  endpoints and the usage writer behave and in whatever order, and through shutdown, the configuration is the one it was built with, every
  stored tenant, key, provider, alias, rule, quota and webhook is valid under it, each key's in-use count is the number of its permits that are out,
  every write made to a metric matched the labels the series was registered with and decreased no counter,
  and the webhook queue is within its bound. Once the drain has begun it is never undone.\<close>

theorem process_invariant:
  assumes "build uenv parseURL so tls cfg dev = Inr a0" "so_tenant so \<noteq> []" "served_handler metricsH" "reads_only metricsH"
    and "(process_step env dv fiber router metricsH)\<^sup>*\<^sup>* a0 a" "(process_step env dv fiber router metricsH)\<^sup>*\<^sup>* a b"
  shows "sv_Config (ap_server b) = cfg \<and> typed_store cfg (sv_Store (ap_server b)) \<and> limiter_inv (sv_limiter (ap_server b)) \<and>
    metrics_ok (sv_metrics (ap_server b)) \<and> int (length (ed_queue (ap_events b))) \<le> ho_Queue (ed_opts (ap_events b)) \<and> (sv_draining (ap_server a) \<longrightarrow> sv_draining (ap_server b))"
proof -
  have "process_ok cfg a0" using new_process [OF assms(1,2), of 0] by (simp add: process_ok_def metrics_ok_def)
  then have "process_ok cfg a" using process_ok_steps [OF assms(5,3,4)] by blast
  from process_ok_steps [OF assms(6,3,4) this] show ?thesis by (simp add: process_ok_def)
qed

definition example_seed :: seed_source where
  "example_seed = \<lparr> so_sha256 = rev, so_now = 5, so_tenant = ''t1'', so_data = (''k1'', ''abcdefghijkl''), so_admin = (''k2'', ''mnopqrstuvwx'') \<rparr>"

theorem process_invariant_witness:
  "\<exists>a0 b. build example_upstream (ae_parseURL (example_analytics 200)) example_seed None Default False = Inr a0 \<and> \<not> sv_draining (ap_server a0) \<and>
     (process_step example_admin example_data (\<lambda>verb path c. Some []) (\<lambda>_. AdminRoute) notFound)\<^sup>*\<^sup>* a0 b \<and>
     sv_draining (ap_server b) \<and> typed_store Default (sv_Store (ap_server b)) \<and> limiter_inv (sv_limiter (ap_server b))"
proof -
  let ?step = "process_step example_admin example_data (\<lambda>verb path c. Some []) (\<lambda>_. AdminRoute) notFound"
  have "\<not> TLSEnabled (cfg_Gateway Default)" by (simp add: TLSEnabled_def Default_def)
  then obtain a0 where b: "build example_upstream (ae_parseURL (example_analytics 200)) example_seed None Default False = Inr a0" by (simp add: build_def usage_client_def Default_def Let_def)
  let ?a = "a0\<lparr>ap_server := (ap_server a0)\<lparr>sv_draining := True\<rparr>\<rparr>"
  obtain w' s' c' fl where "gateway example_admin example_data (\<lambda>verb path c. Some []) (\<lambda>_. AdminRoute) notFound 7 (ap_server ?a)
      (example_admin_call ''t1'') = (w', s', c', fl)" by (metis prod_cases4)
  from process_step.request [OF this] have 2: "?step ?a (?a\<lparr>ap_server := s'\<rparr>)" .
  have 1: "?step a0 ?a" by (rule process_step.draining)
  have "so_tenant example_seed \<noteq> []" by (simp add: example_seed_def)
  from process_invariant [OF b this not_found.served_handler_axioms notFound_reads r_into_rtranclp [where r = ?step, OF 1]
      r_into_rtranclp [where r = ?step, OF 2]]
  have "sv_draining s'" "typed_store Default (sv_Store s')" "limiter_inv (sv_limiter s')" by simp_all
  moreover have "?step\<^sup>*\<^sup>* a0 (?a\<lparr>ap_server := s'\<rparr>)" using 1 2 by (meson converse_rtranclp_into_rtranclp r_into_rtranclp)
  moreover have "\<not> sv_draining (ap_server a0)" using new_process [OF b \<open>so_tenant example_seed \<noteq> []\<close>] by blast
  ultimately show ?thesis using b by (intro exI [of _ a0] exI [of _ "?a\<lparr>ap_server := s'\<rparr>"]) simp
qed

end
