(* ===== verification/Entry_Point.thy ===== *)
theory Entry_Point
  imports Process
begin

text \<open>
  The command itself: \<open>gateway/main.go\<close>, from the arguments of the process to its exit.

  The file system, the YAML parser, \<open>strconv.ParseFloat\<close> and the environment are the arguments of \<open>Load\<close>; what the listener or a signal does to the
  running server is the argument \<open>ending\<close>, and what the drain does to it is \<open>drain\<close>. Package \<open>flag\<close> is modelled for the three flags
  the command defines.
\<close>

section \<open>Flags\<close>

record flags =
  fl_config :: string
  fl_dev :: bool
  fl_version :: bool

definition ErrHelp :: goerr where
  "ErrHelp = Sentinel ''flag: help requested''"

definition set_switch :: "string \<Rightarrow> string option \<Rightarrow> flags \<Rightarrow> goerr + flags" where
  \<comment> \<open>a boolean flag without a value is true\<close>
  "set_switch name val f =
     (case (case val of None \<Rightarrow> Some True | Some v \<Rightarrow> ParseBool v) of
        None \<Rightarrow> Inl (Errorf (''invalid boolean value %q for -%s: parse error'', [FStr (the val), FStr name]))
      | Some b \<Rightarrow> Inr (if name = ''dev'' then f\<lparr>fl_dev := b\<rparr> else f\<lparr>fl_version := b\<rparr>))"

fun parse_flags :: "string list \<Rightarrow> flags \<Rightarrow> goerr + flags" where
  \<comment> \<open>the first argument that is not a flag, or \<open>--\<close>, ends the flags\<close>
  "parse_flags [] f = Inr f"
| "parse_flags (s # args) f =
     (if length s < 2 \<or> hd s \<noteq> CHR ''-'' \<or> s = ''--'' then Inr f
      else
        let name0 = (if s ! 1 = CHR ''-'' then drop 2 s else drop 1 s);
            name = takeWhile (\<lambda>c. c \<noteq> CHR ''='') name0;
            val = (if CHR ''='' \<in> set name0 then Some (drop (length name + 1) name0) else None)
        in if name0 = [] \<or> hd name0 = CHR ''-'' \<or> hd name0 = CHR ''='' then Inl (Errorf (''bad flag syntax: %s'', [FStr s]))
           else if name = ''config''
           then (case val of
                   Some v \<Rightarrow> parse_flags args (f\<lparr>fl_config := v\<rparr>)
                 | None \<Rightarrow>
                     (case args of
                        [] \<Rightarrow> Inl (Errorf (''flag needs an argument: -%s'', [FStr name]))
                      | v # rest \<Rightarrow> parse_flags rest (f\<lparr>fl_config := v\<rparr>)))
           else if name = ''dev'' \<or> name = ''version''
           then (case set_switch name val f of Inl err \<Rightarrow> Inl err | Inr f1 \<Rightarrow> parse_flags args f1)
           else if name = ''help'' \<or> name = ''h'' then Inl ErrHelp
           else Inl (Errorf (''flag provided but not defined: -%s'', [FStr name])))"

section \<open>Dev mode\<close>

definition devBootstrapKey :: string where
  "devBootstrapKey = ''cga-dev-bootstrap-do-not-deploy''"

definition applyDevDefaults :: "Config \<Rightarrow> Config" where
  "applyDevDefaults cfg = (if cfg_BootstrapKey cfg = [] then cfg\<lparr>cfg_BootstrapKey := devBootstrapKey\<rparr> else cfg)"

definition printDevBanner :: "Config \<Rightarrow> devCredentials \<Rightarrow> msg list" where
  \<comment> \<open>line by line\<close>
  "printDevBanner cfg creds =
     [([], []), (''CogniGate development server'', []),
      (''  Nothing is persisted. Every key below is discarded when this process exits.'', []), ([], []),
      (''  Tenant       %s'', [FStr (dv_TenantID creds)]), (''  Data key     %s'', [FStr (dv_DataKey creds)]),
      (''  Admin key    %s'', [FStr (dv_AdminKey creds)]), (''  Bootstrap    %s'', [FStr devBootstrapKey]), ([], []),
      (''  Data plane   http://localhost:%d/v1'', [FInt (gw_Port (cfg_Gateway cfg))]),
      (''  Admin plane  http://localhost:%d/admin/v1'', [FInt (gw_Port (cfg_Gateway cfg))]), ([], []),
      (''  Register a provider on the admin plane before sending a completion; the'', []),
      (''  catalog is empty until one is configured.'', []), ([], [])]"

section \<open>Serving and exit\<close>

definition ErrServerClosed :: goerr where
  "ErrServerClosed = Sentinel ''http: Server closed''"

datatype ending = Listener "goerr option" | Signal

definition serve_app ::
  "ending \<Rightarrow> (duration \<Rightarrow> 'w Gateway \<Rightarrow> 'w Gateway \<times> goerr option) \<Rightarrow> duration \<Rightarrow> 'w app \<Rightarrow> 'w app \<times> goerr option" where
  \<comment> \<open>\<open>remaining\<close> is what is left of the drain timeout when the server reads its deadline\<close>
  "serve_app ending_of drain remaining a =
     (case ending_of of
        Listener None \<Rightarrow> (a, None)
      | Listener (Some err) \<Rightarrow> (a, if errors_Is err ErrServerClosed then None else Some err)
      | Signal \<Rightarrow>
          (case app_Shutdown drain (Some remaining) a of
             (a1, Some err) \<Rightarrow> (a1, Some (Wrapf (''draining: %w'', []) err))
           | (a1, None) \<Rightarrow> (a1, None)))"

record 'w command =
  cm_stdout :: "msg list"
  cm_started :: "'w app option" \<comment> \<open>what was served\<close>
  cm_ended :: "'w app option" \<comment> \<open>as the process left it\<close>
  cm_err :: "goerr option"

definition stopped_with :: "msg list \<Rightarrow> goerr option \<Rightarrow> 'w command" where
  "stopped_with lines err = \<lparr> cm_stdout = lines, cm_started = None, cm_ended = None, cm_err = err \<rparr>"

definition run_app ::
  "string \<Rightarrow> (string \<Rightarrow> Config \<times> goerr option) \<Rightarrow> (Config \<Rightarrow> bool \<Rightarrow> goerr + 'w app) \<Rightarrow> ('w app \<Rightarrow> 'w app \<times> goerr option)
    \<Rightarrow> string list \<Rightarrow> 'w command" where
  "run_app vers load build_it serving args =
     (case parse_flags args \<lparr> fl_config = [], fl_dev = False, fl_version = False \<rparr> of
        Inl err \<Rightarrow> stopped_with [] (Some err)
      | Inr f \<Rightarrow>
          if fl_version f then stopped_with [(''%s'', [FStr vers])] None
          else
            (case load (fl_config f) of
               (cfg0, Some err) \<Rightarrow> stopped_with [] (Some err)
             | (cfg0, None) \<Rightarrow>
                 let cfg = (if fl_dev f then applyDevDefaults cfg0 else cfg0) in
                 (case build_it cfg (fl_dev f) of
                    Inl err \<Rightarrow> stopped_with [] (Some err)
                  | Inr a \<Rightarrow>
                      let (a1, err) = serving a
                      in \<lparr> cm_stdout = (case ap_dev a of Some creds \<Rightarrow> printDevBanner cfg creds | None \<Rightarrow> []),
                           cm_started = Some a, cm_ended = Some (app_Close a1), cm_err = err \<rparr>)))"

definition main_command ::
  "string \<Rightarrow> (string \<Rightarrow> file_read) \<Rightarrow> (string \<Rightarrow> Config \<Rightarrow> Config \<times> goerr option) \<Rightarrow> (string \<Rightarrow> rat option) \<Rightarrow> (string \<Rightarrow> string)
    \<Rightarrow> 'w upstream_env \<Rightarrow> (string \<Rightarrow> goerr + string \<times> string) \<Rightarrow> seed_source \<Rightarrow> goerr option
    \<Rightarrow> ending \<Rightarrow> (duration \<Rightarrow> 'w Gateway \<Rightarrow> 'w Gateway \<times> goerr option) \<Rightarrow> duration \<Rightarrow> string list \<Rightarrow> 'w command" where
  "main_command vers readFile unmarshal ParseFloat getenv uenv parseURL so tls ending_of drain remaining args =
     run_app vers (Load readFile unmarshal ParseFloat getenv) (build uenv parseURL so tls) (serve_app ending_of drain remaining) args"

definition exit_code :: "'w command \<Rightarrow> int" where
  "exit_code r = (if cm_err r = None then 0 else 1)"

section \<open>What the command guarantees\<close>

lemma Validate_key:
  assumes "Validate cfg = None" "MinBootstrapKeyLen \<le> int (length k)"
  shows "Validate (cfg\<lparr>cfg_BootstrapKey := k\<rparr>) = None"
  using assms unfolding Validate_def first_err_None list_all_iff [symmetric] list_all_append list.pred_inject fst_conv
  by (simp del: not_less not_le)

lemma Validate_dev: "Validate cfg = None \<Longrightarrow> Validate (applyDevDefaults cfg) = None"
  using Validate_key [of cfg devBootstrapKey] by (simp add: applyDevDefaults_def devBootstrapKey_def MinBootstrapKeyLen_def)

lemma Validate_bootstrap: "Validate cfg = None \<Longrightarrow> cfg_BootstrapKey cfg \<noteq> [] \<Longrightarrow> MinBootstrapKeyLen \<le> int (length (cfg_BootstrapKey cfg))"
  unfolding Validate_def first_err_None list_all_iff [symmetric] list_all_append list.pred_inject fst_conv by (elim conjE) simp

lemma build_config: "build uenv parseURL so tls cfg dev = Inr a \<Longrightarrow> sv_Config (ap_server a) = cfg"
  by (auto simp: build_def Let_def new_server_def server_New_def Server.defs split: option.splits if_splits sum.splits)



text \<open>The development banner names the built-in bootstrap credential also when the configuration sets its own, and that credential is then
  one the admin plane refuses.\<close>

lemma banner_names_default:
  assumes "cfg_BootstrapKey cfg \<noteq> []" "cfg_BootstrapKey cfg \<noteq> devBootstrapKey"
  shows "(''  Bootstrap    %s'', [FStr devBootstrapKey]) \<in> set (printDevBanner (applyDevDefaults cfg) creds)"
    "\<not> bootstrapMatches (applyDevDefaults cfg) devBootstrapKey"
  using assms by (auto simp: printDevBanner_def bootstrapMatches_def applyDevDefaults_def)

end
