(* ===== verification/Mock_Provider.thy ===== *)
theory Mock_Provider
  imports Events
begin

text \<open>
  The upstream the conformance suite drives a gateway against: \<open>conformance/mockprovider/provider.go\<close>.

  It serves a catalog and completions like a provider, fails as its control plane tells it to, and keeps the webhooks it is
  sent. A handler is a function from the server's state to the new state and the response; each holds the mutex around what it reads and
  writes, and requests are taken one at a time. What a response says is a JSON value, the frames of a stream or nothing, with the time the handler
  stalled; a handler that returns without writing answers 200 with an empty body, as \<open>net/http\<close> does. The decoders and the
  encoder of \<open>encoding/json\<close>, the clock, and whether the client waits are arguments.
\<close>

section \<open>Faults and models\<close>

definition FaultNone :: string where "FaultNone = ''none''"
definition FaultRateLimit :: string where "FaultRateLimit = ''rate_limit''"
definition FaultServerError :: string where "FaultServerError = ''server_error''"
definition FaultTimeout :: string where "FaultTimeout = ''timeout''"
definition FaultClientError :: string where "FaultClientError = ''client_error''"
definition FaultStreamAbort :: string where "FaultStreamAbort = ''stream_abort''"
definition FaultStreamStall :: string where "FaultStreamStall = ''stream_stall''"
definition FaultOversizeBody :: string where "FaultOversizeBody = ''oversize_body''"

definition ListingTarget :: string where
  "ListingTarget = ''_listing''"

definition ForeverCount :: int where
  "ForeverCount = -1"

definition DefaultTimeoutDelay :: duration where
  "DefaultTimeoutDelay = 75 * Second"

record MockModel =
  mm_ID :: string
  mm_OwnedBy :: string
  mm_ContextWindow :: int
  mm_MaxOutputTokens :: int
  mm_InputCostPerMTok :: rat
  mm_OutputCostPerMTok :: rat

definition MockModel_json :: "MockModel \<Rightarrow> jval" where
  "MockModel_json m =
     JObj ([(''id'', JStr (mm_ID m)), (''owned_by'', JStr (mm_OwnedBy m)), (''context_window'', JInt (mm_ContextWindow m)),
            (''max_output_tokens'', JInt (mm_MaxOutputTokens m))] @
           (if mm_InputCostPerMTok m = 0 then [] else [(''input_cost_per_mtok'', JNum (mm_InputCostPerMTok m))]) @
           (if mm_OutputCostPerMTok m = 0 then [] else [(''output_cost_per_mtok'', JNum (mm_OutputCostPerMTok m))]))"

definition SeedModels :: "MockModel list" where
  "SeedModels =
     [\<lparr> mm_ID = ''mock-chat-a'', mm_OwnedBy = ''mock'', mm_ContextWindow = 128000, mm_MaxOutputTokens = 4096,
        mm_InputCostPerMTok = 3, mm_OutputCostPerMTok = 15 \<rparr>,
      \<lparr> mm_ID = ''mock-chat-b'', mm_OwnedBy = ''mock'', mm_ContextWindow = 32000, mm_MaxOutputTokens = 4096,
        mm_InputCostPerMTok = 1 / 2, mm_OutputCostPerMTok = 3 / 2 \<rparr>,
      \<lparr> mm_ID = ''mock-vision'', mm_OwnedBy = ''mock'', mm_ContextWindow = 128000, mm_MaxOutputTokens = 4096,
        mm_InputCostPerMTok = 5, mm_OutputCostPerMTok = 20 \<rparr>,
      \<lparr> mm_ID = ''mock-embed'', mm_OwnedBy = ''mock'', mm_ContextWindow = 8192, mm_MaxOutputTokens = 0,
        mm_InputCostPerMTok = 1 / 50, mm_OutputCostPerMTok = 0 \<rparr>,
      \<lparr> mm_ID = ''mock-transcribe'', mm_OwnedBy = ''mock'', mm_ContextWindow = 0, mm_MaxOutputTokens = 0,
        mm_InputCostPerMTok = 0, mm_OutputCostPerMTok = 0 \<rparr>]"

record fault =
  ft_mode :: string
  ft_remaining :: int
  ft_delay :: duration
  ft_bytes :: int

definition no_fault :: fault where
  "no_fault = \<lparr> ft_mode = FaultNone, ft_remaining = 0, ft_delay = 0, ft_bytes = 0 \<rparr>"

record SinkDelivery =
  sd_Type :: string
  sd_EventID :: string
  sd_Signature :: string
  sd_Tenant :: string
  sd_Body :: string
  sd_Status :: int

record sinkFault =
  sf_status :: int
  sf_remaining :: int

definition maxEventBody :: int where
  "maxEventBody = 2 ^ 20"

record MockServer =
  mk_models :: "(string, MockModel) gomap"
  mk_order :: "string list"
  mk_faults :: "(string, fault) gomap"
  mk_requests :: "(string, int) gomap"
  mk_keys :: "(string, int) gomap"
  mk_listings :: int
  mk_events :: "(string, SinkDelivery list) gomap"
  mk_sinkFaults :: "(string, sinkFault) gomap"

definition mock_seed :: "MockServer \<Rightarrow> MockServer" where
  "mock_seed s =
     s\<lparr>mk_models := foldl (\<lambda>ms m. AList.update (mm_ID m) m ms) [] SeedModels, mk_order := map mm_ID SeedModels\<rparr>"

definition mock_New :: MockServer where
  "mock_New = mock_seed \<lparr> mk_models = [], mk_order = [], mk_faults = [], mk_requests = [], mk_keys = [], mk_listings = 0,
     mk_events = [], mk_sinkFaults = [] \<rparr>"

section \<open>Requests and responses\<close>

record completionRequest =
  cr_Model :: string
  cr_Stream :: bool
  cr_Contents :: "string list" \<comment> \<open>the raw content of each message\<close>

record faultRequest =
  fr_Model :: string
  fr_Mode :: string
  fr_Count :: int
  fr_DelayMS :: int
  fr_Bytes :: int

record sinkFaultRequest =
  sr_Status :: int
  sr_Count :: int

record mock_env =
  me_Unix :: int                                                   \<comment> \<open>\<open>time.Now().Unix()\<close>, during the request\<close>
  me_completion :: "string \<Rightarrow> completionRequest option"             \<comment> \<open>the decoders; \<open>None\<close> is an error\<close>
  me_text :: "string \<Rightarrow> string option"
  me_model :: "string \<Rightarrow> MockModel option"
  me_faultReq :: "string \<Rightarrow> faultRequest option"
  me_sinkReq :: "string \<Rightarrow> sinkFaultRequest option"
  me_envelope :: "string \<Rightarrow> string \<times> string \<times> string"           \<comment> \<open>id, type and tenant; empty where absent\<close>
  me_Marshal :: "jval \<Rightarrow> string"
  me_flusher :: bool                                               \<comment> \<open>whether the response writer can stream\<close>
  me_patient :: "duration \<Rightarrow> bool"                                 \<comment> \<open>the client is still there after the delay\<close>

record mock_request =
  mq_Header :: "(string, string) gomap"
  mq_Body :: string
  mq_broken :: bool \<comment> \<open>reading the body fails\<close>

datatype mock_body =
    NothingWritten
  | JSONWritten jval
  | ProviderErr string msg   \<comment> \<open>an object \<open>error\<close> with its type and message\<close>
  | ControlErr msg           \<comment> \<open>the message under \<open>error\<close>\<close>
  | Frames "jval list" bool  \<comment> \<open>the data frames, and whether \<open>[DONE]\<close> follows\<close>

record mock_response =
  mr_Status :: int
  mr_Header :: "(string, string) gomap"
  mr_Body :: mock_body
  mr_stalled :: duration
  mr_aborted :: bool  \<comment> \<open>the connection is dropped: \<open>http.ErrAbortHandler\<close>\<close>

definition unwritten :: "duration \<Rightarrow> mock_response" where
  "unwritten d = \<lparr> mr_Status = 200, mr_Header = [], mr_Body = NothingWritten, mr_stalled = d, mr_aborted = False \<rparr>"

definition mock_WriteHeader :: "int \<Rightarrow> mock_response" where
  "mock_WriteHeader status = (unwritten 0)\<lparr>mr_Status := status\<rparr>"

definition writeJSON :: "int \<Rightarrow> jval \<Rightarrow> mock_response" where
  "writeJSON status body =
     (unwritten 0)\<lparr>mr_Status := status, mr_Header := [(''Content-Type'', ''application/json'')], mr_Body := JSONWritten body\<rparr>"

definition writeProviderError :: "int \<Rightarrow> string \<Rightarrow> msg \<Rightarrow> mock_response" where
  "writeProviderError status kind message = (writeJSON status JNull)\<lparr>mr_Body := ProviderErr kind message\<rparr>"

definition control_error :: "int \<Rightarrow> msg \<Rightarrow> mock_response" where
  "control_error status message = (writeJSON status JNull)\<lparr>mr_Body := ControlErr message\<rparr>"

definition only :: "string \<Rightarrow> string list option" where
  \<comment> \<open>of the path value \<open>ids\<close>\<close>
  "only raw = (if raw = [] then None else Some (filter (\<lambda>i. i \<noteq> []) (map TrimSpace (split_on (CHR '','') raw))))"

definition credential :: "mock_request \<Rightarrow> string" where
  \<comment> \<open>an ellipsis and the last six bytes\<close>
  "credential r =
     (let raw = TrimSpace (TrimPrefix (case map_of (mq_Header r) ''Authorization'' of Some v \<Rightarrow> v | None \<Rightarrow> []) ''Bearer'') in
      if raw = [] then []
      else map char_of [226 :: nat, 128, 166] @ (if length raw > 6 then drop (length raw - 6) raw else raw))"

section \<open>Taking a fault\<close>

definition stalling :: "string \<Rightarrow> bool" where
  "stalling mode \<longleftrightarrow> mode = FaultTimeout \<or> mode = FaultStreamStall"

definition stall :: "mock_env \<Rightarrow> duration \<Rightarrow> bool" where
  "stall env d \<longleftrightarrow> d \<le> 0 \<or> me_patient env d"

definition orDefault :: "duration \<Rightarrow> duration \<Rightarrow> duration" where
  "orDefault d fallback = (if d \<le> 0 then fallback else d)"

definition takeLocked :: "string \<Rightarrow> MockServer \<Rightarrow> MockServer \<times> fault option" where
  "takeLocked key s =
     (case map_of (mk_faults s) key of
        None \<Rightarrow> (s, None)
      | Some f \<Rightarrow>
          if ft_remaining f = 0 then (s\<lparr>mk_faults := AList.delete key (mk_faults s)\<rparr>, None)
          else let f1 = (if ft_remaining f > 0 then f\<lparr>ft_remaining := ft_remaining f - 1\<rparr> else f)
               in (s\<lparr>mk_faults := AList.update key f1 (mk_faults s)\<rparr>, Some f1))"

definition takeFault :: "string \<Rightarrow> MockServer \<Rightarrow> MockServer \<times> fault" where
  "takeFault model s =
     (case takeLocked model s of
        (s1, Some f) \<Rightarrow> (s1, f)
      | (s1, None) \<Rightarrow> (case takeLocked [] s1 of (s2, Some f) \<Rightarrow> (s2, f) | (s2, None) \<Rightarrow> (s2, no_fault)))"

definition takeFaultExact :: "string \<Rightarrow> MockServer \<Rightarrow> MockServer \<times> fault" where
  "takeFaultExact key s = (case takeLocked key s of (s1, Some f) \<Rightarrow> (s1, f) | (s1, None) \<Rightarrow> (s1, no_fault))"

section \<open>The data plane\<close>

definition completionText :: string where
  "completionText = ''ok''"

definition reply :: "mock_env \<Rightarrow> completionRequest \<Rightarrow> string" where
  \<comment> \<open>the last message whose content is a nonempty string\<close>
  "reply env q =
     (case filter (\<lambda>t. t \<noteq> []) (concat (map (\<lambda>raw. case me_text env raw of Some t \<Rightarrow> [t] | None \<Rightarrow> []) (rev (cr_Contents q)))) of
        t # _ \<Rightarrow> t
      | [] \<Rightarrow> completionText)"

definition usageBlock :: jval where
  "usageBlock = JObj [(''completion_tokens'', JInt 7), (''prompt_tokens'', JInt 11), (''total_tokens'', JInt 18)]"

definition oversizeEnvelope :: "mock_env \<Rightarrow> string \<Rightarrow> string \<Rightarrow> jval" where
  \<comment> \<open>a completion with the given content\<close>
  "oversizeEnvelope env model content =
     JObj [(''choices'', JArr [JObj [(''finish_reason'', JStr ''stop''), (''index'', JInt 0),
             (''message'', JObj [(''content'', JStr content), (''role'', JStr ''assistant'')])]]),
           (''created'', JInt (me_Unix env)), (''id'', JStr ''chatcmpl-mock''), (''model'', JStr model),
           (''object'', JStr ''chat.completion''), (''usage'', usageBlock)]"

definition oversizeBody :: "mock_env \<Rightarrow> string \<Rightarrow> string \<Rightarrow> string" where
  "oversizeBody env model content = me_Marshal env (oversizeEnvelope env model content)"

definition oversizeCompletion :: "mock_env \<Rightarrow> string \<Rightarrow> int \<Rightarrow> mock_response" where
  "oversizeCompletion env model bytes =
     (let padding = bytes - int (length (oversizeBody env model []))
      in writeJSON 200 (oversizeEnvelope env model (replicate (nat padding) (CHR ''x''))))"

definition streamChunk :: "mock_env \<Rightarrow> string \<Rightarrow> (string \<times> jval) list \<Rightarrow> jval \<Rightarrow> jval" where
  "streamChunk env model delta finish =
     JObj [(''choices'', JArr [JObj [(''delta'', JObj delta), (''finish_reason'', finish), (''index'', JInt 0)]]),
           (''created'', JInt (me_Unix env)), (''id'', JStr ''chatcmpl-mock''), (''model'', JStr model),
           (''object'', JStr ''chat.completion.chunk'')]"

definition usage_chunk :: "mock_env \<Rightarrow> string \<Rightarrow> jval" where
  \<comment> \<open>\<open>final\<close> of a stream\<close>
  "usage_chunk env model =
     JObj [(''choices'', JArr []), (''created'', JInt (me_Unix env)), (''id'', JStr ''chatcmpl-mock''), (''model'', JStr model),
           (''object'', JStr ''chat.completion.chunk''), (''usage'', usageBlock)]"

definition beginStream :: "mock_env \<Rightarrow> mock_response option" where
  \<comment> \<open>\<open>None\<close> when the writer cannot stream\<close>
  "beginStream env =
     (if \<not> me_flusher env then None
      else Some ((unwritten 0)\<lparr>mr_Header := [(''Content-Type'', ''text/event-stream''), (''Cache-Control'', ''no-cache'')], mr_Body := Frames [] False\<rparr>))"

definition streamed :: "mock_env \<Rightarrow> jval list \<Rightarrow> bool \<Rightarrow> mock_response" where
  \<comment> \<open>the frames written after \<open>beginStream\<close>, or its refusal\<close>
  "streamed env frames fin =
     (case beginStream env of
        None \<Rightarrow> writeProviderError 500 ''server_error'' (''streaming unsupported'', [])
      | Some r \<Rightarrow> r\<lparr>mr_Body := Frames frames fin\<rparr>)"

definition first_chunks :: "mock_env \<Rightarrow> string \<Rightarrow> string \<Rightarrow> jval list" where
  \<comment> \<open>the first two chunks of every stream\<close>
  "first_chunks env model text =
     [streamChunk env model [(''role'', JStr ''assistant'')] JNull, streamChunk env model [(''content'', JStr text)] JNull]"

definition mock_streamCompletion :: "mock_env \<Rightarrow> string \<Rightarrow> string \<Rightarrow> mock_response" where
  "mock_streamCompletion env model text =
     streamed env (first_chunks env model text @ [streamChunk env model [] (JStr ''stop''), usage_chunk env model]) True"

definition abortMidStream :: "mock_env \<Rightarrow> string \<Rightarrow> mock_response" where
  "abortMidStream env model =
     (let r = streamed env (first_chunks env model completionText) False in if beginStream env = None then r else r\<lparr>mr_aborted := True\<rparr>)"

definition stallMidStream :: "mock_env \<Rightarrow> string \<Rightarrow> duration \<Rightarrow> mock_response" where
  "stallMidStream env model d =
     (let r = streamed env (first_chunks env model completionText) False in if beginStream env = None then r else r\<lparr>mr_stalled := d\<rparr>)"

definition rate_limited :: mock_response where
  "rate_limited =
     (let r = writeProviderError 429 ''rate_limit_error'' (''rate limit exceeded'', [])
      in r\<lparr>mr_Header := (''Retry-After'', ''1'') # mr_Header r\<rparr>)"

definition broken_server :: mock_response where
  "broken_server = writeProviderError 500 ''server_error'' (''the server had an error'', [])"

definition listed :: "string list option \<Rightarrow> MockServer \<Rightarrow> MockModel list" where
  \<comment> \<open>the models a listing shows\<close>
  "listed allowed s =
     concat (map (\<lambda>i. if (case allowed of Some ids \<Rightarrow> i \<notin> set ids | None \<Rightarrow> False) then []
       else case map_of (mk_models s) i of Some m \<Rightarrow> [m] | None \<Rightarrow> []) (mk_order s))"

definition serveModels :: "mock_env \<Rightarrow> string list option \<Rightarrow> MockServer \<Rightarrow> MockServer \<times> mock_response" where
  "serveModels env allowed s =
     (let s1 = s\<lparr>mk_listings := mk_listings s + 1\<rparr>;
          (s2, f) = takeFaultExact ListingTarget s1;
          listing = writeJSON 200 (JObj [(''data'', JArr (map MockModel_json (listed allowed s2))), (''object'', JStr ''list'')])
      in if ft_mode f = FaultNone then (s2, listing)
         else if \<not> stalling (ft_mode f) \<and> \<not> stall env (ft_delay f) then (s2, unwritten (ft_delay f))
         else if ft_mode f = FaultRateLimit then (s2, rate_limited\<lparr>mr_stalled := max 0 (ft_delay f)\<rparr>)
         else if ft_mode f = FaultServerError then (s2, broken_server\<lparr>mr_stalled := max 0 (ft_delay f)\<rparr>)
         else if ft_mode f = FaultTimeout then (s2, unwritten (orDefault (ft_delay f) DefaultTimeoutDelay))
         else (s2, listing\<lparr>mr_stalled := max 0 (ft_delay f)\<rparr>))"

definition faulted :: "mock_env \<Rightarrow> string \<Rightarrow> fault \<Rightarrow> mock_response option" where
  \<comment> \<open>the switch over the mode of a fault that was taken\<close>
  "faulted env model f =
     (let mode = ft_mode f; slow = (\<lambda>r. r\<lparr>mr_stalled := max 0 (ft_delay f)\<rparr>) in
      if mode = FaultNone then None
      else if \<not> stalling mode \<and> \<not> stall env (ft_delay f) then Some (unwritten (ft_delay f))
      else if mode = FaultRateLimit then Some (slow rate_limited)
      else if mode = FaultServerError then Some (slow broken_server)
      else if mode = FaultClientError
      then Some (slow (writeProviderError 400 ''invalid_request_error'' (''the request was not valid'', [])))
      else if mode = FaultTimeout then Some (unwritten (orDefault (ft_delay f) DefaultTimeoutDelay))
      else if mode = FaultStreamAbort then Some (slow (abortMidStream env model))
      else if mode = FaultStreamStall then Some (stallMidStream env model (orDefault (ft_delay f) DefaultTimeoutDelay))
      else if mode = FaultOversizeBody then Some (slow (oversizeCompletion env model (ft_bytes f)))
      else None)"

definition answered_ok :: "mock_env \<Rightarrow> completionRequest \<Rightarrow> mock_response" where
  \<comment> \<open>what is served when no fault applies\<close>
  "answered_ok env q =
     (if cr_Stream q then mock_streamCompletion env (cr_Model q) (reply env q)
      else writeJSON 200 (oversizeEnvelope env (cr_Model q) (reply env q)))"

definition tally :: "string \<Rightarrow> (string, int) gomap \<Rightarrow> (string, int) gomap" where
  \<comment> \<open>\<open>m[k]++\<close>\<close>
  "tally k m = AList.update k ((case map_of m k of Some n \<Rightarrow> n | None \<Rightarrow> 0) + 1) m"

definition counted :: "mock_request \<Rightarrow> completionRequest \<Rightarrow> MockServer \<Rightarrow> MockServer" where
  "counted r q s =
     s\<lparr>mk_requests := tally (cr_Model q) (mk_requests s), mk_keys := (if credential r = [] then mk_keys s else tally (credential r) (mk_keys s))\<rparr>"

definition serveCompletion :: "mock_env \<Rightarrow> string list option \<Rightarrow> mock_request \<Rightarrow> MockServer \<Rightarrow> MockServer \<times> mock_response" where
  "serveCompletion env allowed r s =
     (case me_completion env (mq_Body r) of
        None \<Rightarrow> (s, writeProviderError 400 ''invalid_request_error'' (''malformed request body'', []))
      | Some q \<Rightarrow>
          let s1 = counted r q s; model = cr_Model q;
              known = (map_of (mk_models s1) model \<noteq> None \<and> (case allowed of Some ids \<Rightarrow> model \<in> set ids | None \<Rightarrow> True))
          in if \<not> known
             then (s1, writeProviderError 404 ''invalid_request_error'' (''the model %q does not exist'', [FStr model]))
             else let (s2, f) = takeFault model s1
                  in (s2, case faulted env model f of Some resp \<Rightarrow> resp | None \<Rightarrow> answered_ok env q))"

section \<open>The webhook sink\<close>

definition at_sink :: "string \<Rightarrow> (string, SinkDelivery list) gomap \<Rightarrow> SinkDelivery list" where
  \<comment> \<open>the zero value of a missing key\<close>
  "at_sink sink m = (case map_of m sink of Some ds \<Rightarrow> ds | None \<Rightarrow> [])"

definition header_of :: "mock_request \<Rightarrow> string \<Rightarrow> string" where
  "header_of r k = (case map_of (mq_Header r) k of Some v \<Rightarrow> v | None \<Rightarrow> [])"

definition sink_status :: "string \<Rightarrow> MockServer \<Rightarrow> MockServer \<times> int" where
  "sink_status sink s =
     (case map_of (mk_sinkFaults s) sink of
        None \<Rightarrow> (s, 204)
      | Some f \<Rightarrow>
          (s\<lparr>mk_sinkFaults := (if sf_remaining f - 1 \<le> 0 then AList.delete sink (mk_sinkFaults s)
               else AList.update sink (f\<lparr>sf_remaining := sf_remaining f - 1\<rparr>) (mk_sinkFaults s))\<rparr>, sf_status f))"

definition receiveEvent :: "mock_env \<Rightarrow> string \<Rightarrow> mock_request \<Rightarrow> MockServer \<Rightarrow> MockServer \<times> mock_response" where
  "receiveEvent env sink r s =
     (if mq_broken r \<or> int (length (mq_Body r)) > maxEventBody then (s, mock_WriteHeader 204)
      else
        let (eid, typ, tenant) = me_envelope env (mq_Body r);
            (s1, status) = sink_status sink s;
            d = \<lparr> sd_Type = typ, sd_EventID = (if eid = [] then header_of r ''X-CogniGate-Event-Id'' else eid),
                  sd_Signature = header_of r ''X-CogniGate-Signature'', sd_Tenant = tenant, sd_Body = mq_Body r, sd_Status = status \<rparr>
        in (s1\<lparr>mk_events := AList.update sink (at_sink sink (mk_events s1) @ [d]) (mk_events s1)\<rparr>, mock_WriteHeader status))"

definition SinkDelivery_json :: "SinkDelivery \<Rightarrow> jval" where
  \<comment> \<open>the body is raw JSON; it is kept as its text\<close>
  "SinkDelivery_json d =
     JObj [(''type'', JStr (sd_Type d)), (''event_id'', JStr (sd_EventID d)), (''signature'', JStr (sd_Signature d)),
           (''tenant'', JStr (sd_Tenant d)), (''body'', JStr (sd_Body d)), (''status'', JInt (sd_Status d))]"

definition controlEvents :: "string \<Rightarrow> MockServer \<Rightarrow> MockServer \<times> mock_response" where
  "controlEvents sink s =
     (s, writeJSON 200 (JObj [(''data'', JArr (map SinkDelivery_json (at_sink sink (mk_events s)))), (''sink'', JStr sink)]))"

definition controlSetSinkFault :: "mock_env \<Rightarrow> string \<Rightarrow> mock_request \<Rightarrow> MockServer \<Rightarrow> MockServer \<times> mock_response" where
  "controlSetSinkFault env sink r s =
     (case me_sinkReq env (mq_Body r) of
        None \<Rightarrow> (s, control_error 400 (''malformed body'', []))
      | Some req \<Rightarrow>
          let status = (if sr_Status req = 0 then 500 else sr_Status req) in
          if status < 400 \<or> status > 599
          then (s, control_error 400 (''status %d is not a rejection; use 4xx or 5xx'', [FInt status]))
          else if sr_Count req < 1 then (s, control_error 400 (''count must be at least 1'', []))
          else (s\<lparr>mk_sinkFaults := AList.update sink \<lparr> sf_status = status, sf_remaining = sr_Count req \<rparr> (mk_sinkFaults s)\<rparr>,
                mock_WriteHeader 204))"

section \<open>The control plane\<close>

definition json_map :: "('v \<Rightarrow> jval) \<Rightarrow> (string, 'v) gomap \<Rightarrow> jval" where
  \<comment> \<open>\<open>encoding/json\<close> writes a map in the order of its keys\<close>
  "json_map f m = JObj (map (\<lambda>(k, v). (k, f v)) (sort_slice (\<lambda>a b. fst a < fst b) m))"

definition controlState :: "MockServer \<Rightarrow> MockServer \<times> mock_response" where
  "controlState s =
     (s, writeJSON 200 (JObj
        [(''faults'', json_map (\<lambda>f. JObj [(''mode'', JStr (ft_mode f)), (''remaining'', JInt (ft_remaining f))]) (mk_faults s)),
         (''keys'', json_map JInt (mk_keys s)), (''listings'', JInt (mk_listings s)),
         (''models'', JArr (map JStr (filter (\<lambda>i. map_of (mk_models s) i \<noteq> None) (mk_order s)))),
         (''requests'', json_map JInt (mk_requests s))]))"

definition controlAddModel :: "mock_env \<Rightarrow> mock_request \<Rightarrow> MockServer \<Rightarrow> MockServer \<times> mock_response" where
  "controlAddModel env r s =
     (case me_model env (mq_Body r) of
        None \<Rightarrow> (s, control_error 400 (''a model id is required'', []))
      | Some m0 \<Rightarrow>
          if TrimSpace (mm_ID m0) = [] then (s, control_error 400 (''a model id is required'', []))
          else
            let m = (if mm_OwnedBy m0 = [] then m0\<lparr>mm_OwnedBy := ''mock''\<rparr> else m0)
            in (s\<lparr>mk_order := (if map_of (mk_models s) (mm_ID m) = None then mk_order s @ [mm_ID m] else mk_order s),
                  mk_models := AList.update (mm_ID m) m (mk_models s)\<rparr>,
                writeJSON 201 (MockModel_json m)))"

definition controlRemoveModel :: "string \<Rightarrow> MockServer \<Rightarrow> MockServer \<times> mock_response" where
  "controlRemoveModel mid s =
     (s\<lparr>mk_models := AList.delete mid (mk_models s)\<rparr>,
      if map_of (mk_models s) mid = None then control_error 404 (''no such model'', []) else mock_WriteHeader 204)"

definition fault_modes :: "string list" where
  "fault_modes = [FaultNone, FaultRateLimit, FaultServerError, FaultTimeout, FaultClientError, FaultStreamAbort, FaultStreamStall, FaultOversizeBody]"

definition listing_modes :: "string list" where
  "listing_modes = [FaultNone, FaultRateLimit, FaultServerError, FaultTimeout]"

definition fault_refusal :: "faultRequest \<Rightarrow> msg option" where
  \<comment> \<open>why \<open>controlSetFault\<close> refuses a request that decodes\<close>
  "fault_refusal req =
     (if fr_Mode req \<notin> set fault_modes then Some (''unknown fault mode %q'', [FStr (fr_Mode req)])
      else if (fr_Bytes req > 0) \<noteq> (fr_Mode req = FaultOversizeBody)
      then Some (''fault mode %q takes %s a positive bytes'', [FStr (fr_Mode req), FStr (if fr_Mode req = FaultOversizeBody then [] else ''no'')])
      else if fr_Model req = ListingTarget \<and> fr_Mode req \<notin> set listing_modes
      then Some (''fault mode %q does not apply to %s'', [FStr (fr_Mode req), FStr ListingTarget])
      else None)"

definition controlSetFault :: "mock_env \<Rightarrow> mock_request \<Rightarrow> MockServer \<Rightarrow> MockServer \<times> mock_response" where
  "controlSetFault env r s =
     (case me_faultReq env (mq_Body r) of
        None \<Rightarrow> (s, control_error 400 (''malformed body'', []))
      | Some req \<Rightarrow>
          (case fault_refusal req of
             Some message \<Rightarrow> (s, control_error 400 message)
           | None \<Rightarrow>
               (s\<lparr>mk_faults := (if fr_Mode req = FaultNone then AList.delete (fr_Model req) (mk_faults s)
                   else AList.update (fr_Model req)
                     \<lparr> ft_mode = fr_Mode req, ft_remaining = (if fr_Count req = 0 then ForeverCount else fr_Count req),
                       ft_delay = wrap64 (fr_DelayMS req * 1000000), ft_bytes = fr_Bytes req \<rparr> (mk_faults s))\<rparr>,
                mock_WriteHeader 204)))"

definition controlReset :: "MockServer \<Rightarrow> MockServer \<times> mock_response" where
  "controlReset s =
     ((mock_seed s)\<lparr>mk_faults := [], mk_requests := [], mk_keys := [], mk_listings := 0, mk_events := [], mk_sinkFaults := []\<rparr>,
      mock_WriteHeader 204)"

section \<open>Routing\<close>

datatype mock_op =
    ListModels "string option"   \<comment> \<open>the path value \<open>ids\<close> of a restricted view\<close>
  | ChatCompletions "string option"
  | ReceiveEvent string
  | ControlState
  | ControlAddModel
  | ControlRemoveModel string
  | ControlSetFault
  | ControlEvents string
  | ControlSetSinkFault string
  | ControlReset

definition data_op :: "string \<Rightarrow> string option \<Rightarrow> string list \<Rightarrow> mock_op option" where
  \<comment> \<open>the two data-plane paths, bare or under \<open>v1\<close>\<close>
  "data_op method view path =
     (let p = (case path of x # xs \<Rightarrow> if x = ''v1'' then xs else path | [] \<Rightarrow> path) in
      if p = [''models''] \<and> method \<in> {''GET'', ''HEAD''} then Some (ListModels view)
      else if p = [''chat'', ''completions''] \<and> method = ''POST'' then Some (ChatCompletions view)
      else None)"

definition mock_Handler :: "string \<Rightarrow> string list \<Rightarrow> mock_op option" where
  \<comment> \<open>the method and the decoded segments of the path; \<open>None\<close> is the mux's own 404 or 405\<close>
  "mock_Handler method path =
     (case path of
        [x, sink] \<Rightarrow>
          if x = ''_events'' \<and> method = ''POST'' then Some (ReceiveEvent sink)
          else if x = ''_control'' \<and> sink = ''state'' \<and> method \<in> {''GET'', ''HEAD''} then Some ControlState
          else if x = ''_control'' \<and> sink = ''models'' \<and> method = ''POST'' then Some ControlAddModel
          else if x = ''_control'' \<and> sink = ''faults'' \<and> method = ''POST'' then Some ControlSetFault
          else if x = ''_control'' \<and> sink = ''reset'' \<and> method = ''POST'' then Some ControlReset
          else data_op method None path
      | x # y # z # rest \<Rightarrow>
          if x = ''_only'' then data_op method (Some y) (z # rest)
          else if x = ''_control'' \<and> y = ''models'' \<and> rest = [] \<and> method = ''DELETE'' then Some (ControlRemoveModel z)
          else if x = ''_control'' \<and> y = ''events'' \<and> rest = [] \<and> method \<in> {''GET'', ''HEAD''} then Some (ControlEvents z)
          else if x = ''_control'' \<and> y = ''events'' \<and> rest = [''fault''] \<and> method = ''POST'' then Some (ControlSetSinkFault z)
          else data_op method None path
      | _ \<Rightarrow> data_op method None path)"

definition mock_serve :: "mock_env \<times> mock_op \<times> mock_request \<Rightarrow> MockServer \<Rightarrow> MockServer \<times> mock_response" where
  "mock_serve x s =
     (case x of (env, op, r) \<Rightarrow>
        (case op of
           ListModels view \<Rightarrow> serveModels env (case view of None \<Rightarrow> None | Some ids \<Rightarrow> only ids) s
         | ChatCompletions view \<Rightarrow> serveCompletion env (case view of None \<Rightarrow> None | Some ids \<Rightarrow> only ids) r s
         | ReceiveEvent sink \<Rightarrow> receiveEvent env sink r s
         | ControlState \<Rightarrow> controlState s
         | ControlAddModel \<Rightarrow> controlAddModel env r s
         | ControlRemoveModel mid \<Rightarrow> controlRemoveModel mid s
         | ControlSetFault \<Rightarrow> controlSetFault env r s
         | ControlEvents sink \<Rightarrow> controlEvents sink s
         | ControlSetSinkFault sink \<Rightarrow> controlSetSinkFault env sink r s
         | ControlReset \<Rightarrow> controlReset s))"

definition ListenAddr :: "int \<Rightarrow> string" where
  "ListenAddr port = CHR '':'' # Itoa port"

section \<open>Suites that share a mock\<close>

fun served :: "('x \<Rightarrow> 's \<Rightarrow> 's \<times> 'o) \<Rightarrow> 'x list \<Rightarrow> 's \<Rightarrow> 's \<times> 'o list" where
  "served step [] s = (s, [])"
| "served step (x # xs) s = (let (s1, y) = step x s; (s2, ys) = served step xs s1 in (s2, y # ys))"

locale isolated_parties =
  fixes step :: "'x \<Rightarrow> 's \<Rightarrow> 's \<times> 'o" and own other :: "'x \<Rightarrow> bool" and quiet :: "'s \<Rightarrow> bool" and view :: "'s \<Rightarrow> 'v"
  assumes foreign: "other x \<Longrightarrow> quiet s \<Longrightarrow> view (fst (step x s)) = view s"
    and local: "own x \<Longrightarrow> quiet s \<Longrightarrow> quiet t \<Longrightarrow> view s = view t \<Longrightarrow>
      snd (step x s) = snd (step x t) \<and> view (fst (step x s)) = view (fst (step x t))"
    and stays_quiet: "own x \<or> other x \<Longrightarrow> quiet s \<Longrightarrow> quiet (fst (step x s))"
begin

lemma interleaved:
  assumes "list_all (\<lambda>x. own x \<or> other x) xs" "quiet s" "quiet t" "view s = view t"
  shows "map snd (filter (own \<circ> fst) (zip xs (snd (served step xs s)))) = snd (served step (filter own xs) t) \<and>
    view (fst (served step xs s)) = view (fst (served step (filter own xs) t))"
  using assms
proof (induction xs arbitrary: s t)
  case (Cons x xs)
  show ?case
  proof (cases "own x")
    case True
    have "snd (step x s) = snd (step x t)" "view (fst (step x s)) = view (fst (step x t))"
      using local [OF True Cons.prems(2-4)] by auto
    then show ?thesis
      using Cons.IH [of "fst (step x s)" "fst (step x t)"] Cons.prems True stays_quiet [of x s] stays_quiet [of x t]
      by (simp add: split_beta Let_def)
  next
    case False
    then have "other x" using Cons.prems(1) by simp
    then show ?thesis
      using Cons.IH [of "fst (step x s)" t] Cons.prems False foreign [of x s] stays_quiet [of x s] by (simp add: split_beta Let_def)
  qed
qed simp

end

datatype target = TModel string | TSink string | Everything

definition targets :: "mock_env \<times> mock_op \<times> mock_request \<Rightarrow> target set" where
  \<comment> \<open>what a request is about; \<open>Everything\<close> for what is shared by all suites\<close>
  "targets x =
     (case x of (env, op, r) \<Rightarrow>
        (case op of
           ListModels view \<Rightarrow> (case (case view of None \<Rightarrow> None | Some ids \<Rightarrow> only ids) of None \<Rightarrow> {Everything} | Some ids \<Rightarrow> TModel ` set ids)
         | ChatCompletions view \<Rightarrow> (case me_completion env (mq_Body r) of None \<Rightarrow> {} | Some q \<Rightarrow> {TModel (cr_Model q)})
         | ReceiveEvent sink \<Rightarrow> {TSink sink}
         | ControlState \<Rightarrow> {Everything}
         | ControlAddModel \<Rightarrow> (case me_model env (mq_Body r) of None \<Rightarrow> {} | Some m \<Rightarrow> {TModel (mm_ID m)})
         | ControlRemoveModel mid \<Rightarrow> {TModel mid}
         | ControlSetFault \<Rightarrow> (case me_faultReq env (mq_Body r) of None \<Rightarrow> {} | Some q \<Rightarrow>
               {if fr_Model q \<in> {[], ListingTarget} then Everything else TModel (fr_Model q)})
         | ControlEvents sink \<Rightarrow> {TSink sink}
         | ControlSetSinkFault sink \<Rightarrow> {TSink sink}
         | ControlReset \<Rightarrow> {Everything}))"

definition own_request :: "target set \<Rightarrow> mock_env \<times> mock_op \<times> mock_request \<Rightarrow> bool" where
  "own_request A x \<longleftrightarrow> targets x \<subseteq> A \<and> Everything \<notin> targets x"

definition other_request :: "target set \<Rightarrow> mock_env \<times> mock_op \<times> mock_request \<Rightarrow> bool" where
  "other_request A x \<longleftrightarrow> targets x \<inter> A = {} \<and> Everything \<notin> targets x"

definition unshared :: "MockServer \<Rightarrow> bool" where
  \<comment> \<open>no fault is armed for all models or for the listing\<close>
  "unshared s \<longleftrightarrow> map_of (mk_faults s) [] = None \<and> map_of (mk_faults s) ListingTarget = None"

definition suite_view ::
  "target set \<Rightarrow> MockServer \<Rightarrow> (string \<Rightarrow> (MockModel option \<times> fault option \<times> int option) option) \<times> string list \<times>
     (string \<Rightarrow> (SinkDelivery list option \<times> sinkFault option) option)" where
  "suite_view A s =
     ((\<lambda>m. if TModel m \<in> A then Some (map_of (mk_models s) m, map_of (mk_faults s) m, map_of (mk_requests s) m) else None),
      filter (\<lambda>m. TModel m \<in> A) (mk_order s),
      (\<lambda>k. if TSink k \<in> A then Some (map_of (mk_events s) k, map_of (mk_sinkFaults s) k) else None))"

lemma suite_view_eq:
  "suite_view A s = suite_view A t \<longleftrightarrow>
     (\<forall>m. TModel m \<in> A \<longrightarrow> map_of (mk_models s) m = map_of (mk_models t) m \<and> map_of (mk_faults s) m = map_of (mk_faults t) m \<and>
        map_of (mk_requests s) m = map_of (mk_requests t) m) \<and>
     filter (\<lambda>m. TModel m \<in> A) (mk_order s) = filter (\<lambda>m. TModel m \<in> A) (mk_order t) \<and>
     (\<forall>k. TSink k \<in> A \<longrightarrow> map_of (mk_events s) k = map_of (mk_events t) k \<and> map_of (mk_sinkFaults s) k = map_of (mk_sinkFaults t) k)"
  unfolding suite_view_def by (auto simp: fun_eq_iff split: if_splits)

lemma takeLocked_other:
  assumes "takeLocked key s = (s', f)"
  shows "mk_models s' = mk_models s" "mk_order s' = mk_order s" "mk_requests s' = mk_requests s" "mk_events s' = mk_events s"
    "mk_sinkFaults s' = mk_sinkFaults s" "k \<noteq> key \<Longrightarrow> map_of (mk_faults s') k = map_of (mk_faults s) k"
    "map_of (mk_faults s) key = None \<Longrightarrow> s' = s \<and> f = None"
  using assms by (auto simp: takeLocked_def Let_def split: option.splits if_splits)

lemma takeFault_unshared:
  assumes "unshared s" "takeFault m s = (s', f)"
  shows "takeLocked m s = (s', if map_of (mk_faults s') m = None then None else Some f)" "map_of (mk_faults s') m = None \<Longrightarrow> f = no_fault"
    "unshared s'"
proof -
  obtain s1 g where t: "takeLocked m s = (s1, g)" by fastforce
  have n: "map_of (mk_faults s1) [] = None" "map_of (mk_faults s1) ListingTarget = None"
    using assms(1) takeLocked_other(6) [OF t, of "[]"] takeLocked_other(6) [OF t, of ListingTarget] takeLocked_other(7) [OF t]
    by (auto simp: unshared_def)
  have e: "takeLocked [] s1 = (s1, None)" using n by (simp add: takeLocked_def)
  have s': "s' = s1" and f: "f = (case g of Some x \<Rightarrow> x | None \<Rightarrow> no_fault)"
    using assms(2) t e by (auto simp: takeFault_def split: option.splits)
  have g: "map_of (mk_faults s1) m = None \<longleftrightarrow> g = None"
    using t by (auto simp: takeLocked_def Let_def split: option.splits if_splits)
  show "takeLocked m s = (s', if map_of (mk_faults s') m = None then None else Some f)"
    "map_of (mk_faults s') m = None \<Longrightarrow> f = no_fault" "unshared s'"
    using t s' f g n by (auto simp: unshared_def split: option.splits)
qed

lemma takeLocked_same:
  assumes "map_of (mk_faults s) m = map_of (mk_faults t) m"
  shows "snd (takeLocked m s) = snd (takeLocked m t)"
    "map_of (mk_faults (fst (takeLocked m s))) m = map_of (mk_faults (fst (takeLocked m t))) m"
  using assms by (auto simp: takeLocked_def Let_def split: option.splits)

lemma takeFault_same:
  assumes "unshared s" "unshared t" "map_of (mk_faults s) m = map_of (mk_faults t) m"
  shows "snd (takeFault m s) = snd (takeFault m t)"
    "map_of (mk_faults (fst (takeFault m s))) m = map_of (mk_faults (fst (takeFault m t))) m"
proof -
  obtain s1 f t1 g where f: "takeFault m s = (s1, f)" and g: "takeFault m t = (t1, g)" by fastforce
  note a = takeFault_unshared [OF assms(1) f] and b = takeFault_unshared [OF assms(2) g]
  have same: "map_of (mk_faults s1) m = map_of (mk_faults t1) m" using takeLocked_same(2) [OF assms(3)] unfolding a(1) b(1) fst_conv .
  have "(if map_of (mk_faults s1) m = None then None else Some f) = (if map_of (mk_faults t1) m = None then None else Some g)"
    using takeLocked_same(1) [OF assms(3)] unfolding a(1) b(1) snd_conv .
  then have "f = g" using a(2) b(2) same by (metis option.inject)
  with same show "snd (takeFault m s) = snd (takeFault m t)"
    "map_of (mk_faults (fst (takeFault m s))) m = map_of (mk_faults (fst (takeFault m t))) m" using f g by simp_all
qed

lemma takeFault_frame:
  assumes "unshared s" "takeFault m s = (s', f)"
  shows "mk_models s' = mk_models s" "mk_order s' = mk_order s" "mk_requests s' = mk_requests s" "mk_events s' = mk_events s"
    "mk_sinkFaults s' = mk_sinkFaults s" "k \<noteq> m \<Longrightarrow> map_of (mk_faults s') k = map_of (mk_faults s) k" "unshared s'"
  using takeLocked_other [OF takeFault_unshared(1) [OF assms]] takeFault_unshared(3) [OF assms] by blast+

lemma takeExact_unshared: "unshared s \<Longrightarrow> takeFaultExact ListingTarget s = (s, no_fault)"
  by (simp add: takeFaultExact_def takeLocked_def unshared_def)

lemma map_of_tally: "map_of (tally k m) j = (if j = k then Some ((case map_of m k of Some n \<Rightarrow> n | None \<Rightarrow> 0) + 1) else map_of m j)"
  by (simp add: tally_def)

lemma serveCompletion_frame:
  assumes "unshared s" "serveCompletion env allowed r s = (s', resp)"
  shows "mk_models s' = mk_models s \<and> mk_order s' = mk_order s \<and> mk_events s' = mk_events s \<and> mk_sinkFaults s' = mk_sinkFaults s \<and> unshared s' \<and>
    (\<forall>k. me_completion env (mq_Body r) \<noteq> None \<longrightarrow> k \<noteq> cr_Model (the (me_completion env (mq_Body r))) \<longrightarrow>
       map_of (mk_faults s') k = map_of (mk_faults s) k \<and> map_of (mk_requests s') k = map_of (mk_requests s) k) \<and>
    (me_completion env (mq_Body r) = None \<longrightarrow> s' = s)"
proof (cases "me_completion env (mq_Body r)")
  case None
  then show ?thesis using assms by (simp add: serveCompletion_def)
next
  case (Some q)
  have u: "unshared (counted r q s)" using assms(1) by (simp add: unshared_def counted_def)
  obtain s2 f where t: "takeFault (cr_Model q) (counted r q s) = (s2, f)" by fastforce
  note fr = takeFault_frame [OF u t]
  have "s' = counted r q s \<or> s' = s2" using assms(2) Some t by (auto simp: serveCompletion_def Let_def split: if_splits)
  then show ?thesis using fr u Some by (auto simp: counted_def map_of_tally)
qed

lemma serveModels_unshared:
  assumes "unshared s"
  shows "serveModels env allowed s = (s\<lparr>mk_listings := mk_listings s + 1\<rparr>,
    writeJSON 200 (JObj [(''data'', JArr (map MockModel_json (listed allowed s))), (''object'', JStr ''list'')]))"
proof -
  have "unshared (s\<lparr>mk_listings := mk_listings s + 1\<rparr>)" using assms by (simp add: unshared_def)
  moreover have "listed allowed (s\<lparr>mk_listings := mk_listings s + 1\<rparr>) = listed allowed s" by (simp add: listed_def cong: if_cong)
  ultimately show ?thesis using takeExact_unshared [of "s\<lparr>mk_listings := mk_listings s + 1\<rparr>"]
    by (simp add: serveModels_def no_fault_def Let_def)
qed

lemma listed_own:
  assumes "suite_view A s = suite_view A t" "TModel ` set ids \<subseteq> A"
  shows "listed (Some ids) s = listed (Some ids) t"
proof -
  have drop: "concat (map f (filter p xs)) = concat (map f xs)" if "\<And>i. \<not> p i \<Longrightarrow> f i = []" for f :: "string \<Rightarrow> MockModel list" and p xs
    using that by (induction xs) auto
  have own: "listed (Some ids) u = concat (map (\<lambda>i. if i \<notin> set ids then [] else case map_of (mk_models u) i of Some m \<Rightarrow> [m] | None \<Rightarrow> [])
      (filter (\<lambda>m. TModel m \<in> A) (mk_order u)))" for u
    unfolding listed_def using assms(2) by (subst drop) auto
  have m: "i \<in> set ids \<Longrightarrow> map_of (mk_models s) i = map_of (mk_models t) i" for i
    using assms by (auto simp: suite_view_eq)
  have o: "filter (\<lambda>m. TModel m \<in> A) (mk_order s) = filter (\<lambda>m. TModel m \<in> A) (mk_order t)" using assms(1) by (simp add: suite_view_eq)
  show ?thesis unfolding own o by (rule arg_cong [where f = concat], rule map_cong) (auto simp: m)
qed

lemma serveCompletion_own:
  assumes "suite_view A s = suite_view A t" "unshared s" "unshared t" "me_completion env (mq_Body r) = Some q" "TModel (cr_Model q) \<in> A"
  shows "snd (serveCompletion env allowed r s) = snd (serveCompletion env allowed r t) \<and>
    map_of (mk_faults (fst (serveCompletion env allowed r s))) (cr_Model q) = map_of (mk_faults (fst (serveCompletion env allowed r t))) (cr_Model q) \<and>
    map_of (mk_requests (fst (serveCompletion env allowed r s))) (cr_Model q) = map_of (mk_requests (fst (serveCompletion env allowed r t))) (cr_Model q)"
proof -
  let ?s = "counted r q s" and ?t = "counted r q t" and ?m = "cr_Model q"
  have e: "map_of (mk_models s) ?m = map_of (mk_models t) ?m" "map_of (mk_faults s) ?m = map_of (mk_faults t) ?m"
    "map_of (mk_requests s) ?m = map_of (mk_requests t) ?m" using assms(1,5) by (auto simp: suite_view_eq)
  have u: "unshared ?s" "unshared ?t" using assms(2,3) by (simp_all add: unshared_def counted_def)
  obtain s2 f where f: "takeFault ?m ?s = (s2, f)" by fastforce
  obtain t2 g where g: "takeFault ?m ?t = (t2, g)" by fastforce
  have same: "f = g" "map_of (mk_faults s2) ?m = map_of (mk_faults t2) ?m"
    using takeFault_same [OF u, of ?m] e(2) f g by (simp_all add: counted_def)
  have "mk_requests s2 = mk_requests ?s" "mk_requests t2 = mk_requests ?t" using takeFault_frame [OF u(1) f] takeFault_frame [OF u(2) g] by auto
  then have "map_of (mk_requests s2) ?m = map_of (mk_requests t2) ?m" "map_of (mk_requests ?s) ?m = map_of (mk_requests ?t) ?m"
    using e(3) by (simp_all add: counted_def map_of_tally)
  then show ?thesis using assms(4) e same f g by (simp add: serveCompletion_def Let_def counted_def)
qed

lemma sink_status_frame:
  assumes "sink_status sink s = (s', status)"
  shows "mk_models s' = mk_models s \<and> mk_order s' = mk_order s \<and> mk_faults s' = mk_faults s \<and> mk_requests s' = mk_requests s \<and>
    mk_events s' = mk_events s \<and> (\<forall>k. k \<noteq> sink \<longrightarrow> map_of (mk_sinkFaults s') k = map_of (mk_sinkFaults s) k)"
  using assms by (auto simp: sink_status_def split: option.splits)

lemma sink_status_same:
  assumes "map_of (mk_sinkFaults s) sink = map_of (mk_sinkFaults t) sink"
  shows "snd (sink_status sink s) = snd (sink_status sink t)"
    "map_of (mk_sinkFaults (fst (sink_status sink s))) sink = map_of (mk_sinkFaults (fst (sink_status sink t))) sink"
  using assms by (auto simp: sink_status_def split: option.splits)

lemma receiveEvent_frame:
  assumes "receiveEvent env sink r s = (s', resp)"
  shows "mk_models s' = mk_models s \<and> mk_order s' = mk_order s \<and> mk_faults s' = mk_faults s \<and> mk_requests s' = mk_requests s \<and>
    (\<forall>k. k \<noteq> sink \<longrightarrow> map_of (mk_events s') k = map_of (mk_events s) k \<and> map_of (mk_sinkFaults s') k = map_of (mk_sinkFaults s) k)"
proof (cases "mq_broken r \<or> int (length (mq_Body r)) > maxEventBody")
  case False
  obtain s1 st where t: "sink_status sink s = (s1, st)" by fastforce
  from sink_status_frame [OF this] show ?thesis
    using assms False t by (auto simp: receiveEvent_def Let_def split: prod.splits)
qed (use assms in \<open>simp add: receiveEvent_def\<close>)

lemma receiveEvent_same:
  assumes "map_of (mk_events s) sink = map_of (mk_events t) sink" "map_of (mk_sinkFaults s) sink = map_of (mk_sinkFaults t) sink"
  shows "snd (receiveEvent env sink r s) = snd (receiveEvent env sink r t) \<and>
    map_of (mk_events (fst (receiveEvent env sink r s))) sink = map_of (mk_events (fst (receiveEvent env sink r t))) sink \<and>
    map_of (mk_sinkFaults (fst (receiveEvent env sink r s))) sink = map_of (mk_sinkFaults (fst (receiveEvent env sink r t))) sink"
proof (cases "mq_broken r \<or> int (length (mq_Body r)) > maxEventBody")
  case False
  obtain s1 st where s1: "sink_status sink s = (s1, st)" by fastforce
  obtain t1 tt where t1: "sink_status sink t = (t1, tt)" by fastforce
  obtain eid ty tn where e: "me_envelope env (mq_Body r) = (eid, ty, tn)" by (metis prod_cases3)
  show ?thesis
    using False sink_status_same [OF assms(2)] sink_status_frame [OF s1] sink_status_frame [OF t1] assms s1 t1 e
    by (simp add: receiveEvent_def at_sink_def)
qed (use assms in \<open>simp add: receiveEvent_def\<close>)

lemmas control_defs = controlEvents_def controlSetSinkFault_def controlAddModel_def controlRemoveModel_def controlSetFault_def

lemma other_keeps:
  assumes "other_request A (env, op, r)" "unshared s"
  shows "suite_view A (fst (mock_serve (env, op, r) s)) = suite_view A s"
proof (cases op)
  case (ChatCompletions v)
  obtain s' resp where c: "serveCompletion env (case v of None \<Rightarrow> None | Some ids \<Rightarrow> only ids) r s = (s', resp)" by fastforce
  note fr = serveCompletion_frame [OF assms(2) c]
  have "suite_view A s' = suite_view A s"
  proof (cases "me_completion env (mq_Body r)")
    case None
    then show ?thesis using fr by simp
  next
    case (Some q)
    then have "TModel (cr_Model q) \<notin> A" using assms(1) ChatCompletions by (simp add: other_request_def targets_def)
    then have "TModel m \<in> A \<Longrightarrow> m \<noteq> cr_Model q" for m by auto
    then show ?thesis using fr Some by (simp add: suite_view_eq)
  qed
  then show ?thesis using ChatCompletions c by (simp add: mock_serve_def)
next
  case (ReceiveEvent sink)
  obtain s' resp where c: "receiveEvent env sink r s = (s', resp)" by fastforce
  from receiveEvent_frame [OF c] assms(1) show ?thesis
    using ReceiveEvent c by (auto simp: mock_serve_def other_request_def targets_def suite_view_eq)
next
  case (ListModels v)
  then show ?thesis using assms(2) by (simp add: mock_serve_def serveModels_unshared suite_view_eq)
next
  case (ControlSetSinkFault k)
  then show ?thesis using assms(1)
    by (auto simp: mock_serve_def other_request_def targets_def suite_view_eq control_defs Let_def split: option.split)
next
  case ControlSetFault
  then show ?thesis using assms(1)
    by (auto simp: mock_serve_def other_request_def targets_def suite_view_eq control_defs split: option.split if_splits)
next
  case ControlAddModel
  then show ?thesis using assms(1)
    by (auto simp: mock_serve_def other_request_def targets_def suite_view_eq control_defs Let_def split: option.split if_splits)
next
  case (ControlRemoveModel m)
  then show ?thesis using assms(1) by (auto simp: mock_serve_def other_request_def targets_def suite_view_eq control_defs)
qed (use assms(1) in \<open>auto simp: mock_serve_def other_request_def targets_def control_defs\<close>)

lemma own_depends:
  assumes "own_request A (env, op, r)" "unshared s" "unshared t" "suite_view A s = suite_view A t"
  shows "snd (mock_serve (env, op, r) s) = snd (mock_serve (env, op, r) t) \<and>
    suite_view A (fst (mock_serve (env, op, r) s)) = suite_view A (fst (mock_serve (env, op, r) t))"
proof (cases op)
  case (ChatCompletions v)
  let ?al = "case v of None \<Rightarrow> None | Some ids \<Rightarrow> only ids"
  obtain s' ps t' pt where c: "serveCompletion env ?al r s = (s', ps)" "serveCompletion env ?al r t = (t', pt)" by fastforce
  show ?thesis
  proof (cases "me_completion env (mq_Body r)")
    case None
    then show ?thesis using assms(4) ChatCompletions by (simp add: mock_serve_def serveCompletion_def)
  next
    case (Some q)
    then have "TModel (cr_Model q) \<in> A" using assms(1) ChatCompletions by (simp add: own_request_def targets_def)
    from serveCompletion_own [OF assms(4,2,3) Some this, of ?al] c
    have "ps = pt" "map_of (mk_faults s') (cr_Model q) = map_of (mk_faults t') (cr_Model q)"
      "map_of (mk_requests s') (cr_Model q) = map_of (mk_requests t') (cr_Model q)" by simp_all
    note same = this
    have old: "map_of (mk_faults s) m = map_of (mk_faults t) m \<and> map_of (mk_requests s) m = map_of (mk_requests t) m" if "TModel m \<in> A" for m
      using assms(4) that by (simp add: suite_view_eq)
    have "map_of (mk_faults s') m = map_of (mk_faults t') m \<and> map_of (mk_requests s') m = map_of (mk_requests t') m" if "TModel m \<in> A" for m
      using serveCompletion_frame [OF assms(2) c(1)] serveCompletion_frame [OF assms(3) c(2)] same(2,3) old [OF that] Some
      by (cases "m = cr_Model q") simp_all
    then have "suite_view A s' = suite_view A t'"
      using serveCompletion_frame [OF assms(2) c(1)] serveCompletion_frame [OF assms(3) c(2)] assms(4) by (simp add: suite_view_eq)
    then show ?thesis using c ChatCompletions same(1) by (simp add: mock_serve_def)
  qed
next
  case (ReceiveEvent sink)
  obtain s' ps t' pt where c: "receiveEvent env sink r s = (s', ps)" "receiveEvent env sink r t = (t', pt)" by fastforce
  have "map_of (mk_events s) sink = map_of (mk_events t) sink" "map_of (mk_sinkFaults s) sink = map_of (mk_sinkFaults t) sink"
    using assms(1,4) ReceiveEvent by (auto simp: own_request_def targets_def suite_view_eq)
  from receiveEvent_same [OF this, of env r] c
  have "ps = pt" "map_of (mk_events s') sink = map_of (mk_events t') sink" "map_of (mk_sinkFaults s') sink = map_of (mk_sinkFaults t') sink"
    by simp_all
  moreover have "suite_view A s' = suite_view A t'"
    using receiveEvent_frame [OF c(1)] receiveEvent_frame [OF c(2)] calculation(2,3) assms(4) unfolding suite_view_eq by metis
  ultimately show ?thesis using c ReceiveEvent by (simp add: mock_serve_def)
next
  case (ListModels v)
  then obtain ids where ids: "(case v of None \<Rightarrow> None | Some ids \<Rightarrow> only ids) = Some ids" "TModel ` set ids \<subseteq> A"
    using assms(1) by (auto simp: own_request_def targets_def split: option.splits)
  then show ?thesis using ListModels assms(2-4) listed_own [OF assms(4) ids(2)]
    by (simp add: mock_serve_def serveModels_unshared suite_view_eq)
next
  case (ControlEvents k)
  then show ?thesis using assms(1,4) by (simp add: mock_serve_def own_request_def targets_def control_defs suite_view_eq at_sink_def)
next
  case (ControlSetSinkFault k)
  then show ?thesis using assms(4)
    by (auto simp: mock_serve_def suite_view_eq control_defs Let_def split: option.split)
next
  case ControlSetFault
  then show ?thesis using assms(4) by (auto simp: mock_serve_def suite_view_eq control_defs split: option.split)
next
  case ControlAddModel
  then show ?thesis using assms(1,4)
    by (auto simp: mock_serve_def own_request_def targets_def suite_view_eq control_defs Let_def split: option.split if_splits)
next
  case (ControlRemoveModel m)
  then show ?thesis using assms(1,4) by (auto simp: mock_serve_def own_request_def targets_def suite_view_eq control_defs)
qed (use assms(1) in \<open>auto simp: own_request_def targets_def\<close>)

lemma unshared_stays:
  assumes "Everything \<notin> targets (env, op, r)" "unshared s"
  shows "unshared (fst (mock_serve (env, op, r) s))"
proof (cases op)
  case (ChatCompletions v)
  obtain s' resp where c: "serveCompletion env (case v of None \<Rightarrow> None | Some ids \<Rightarrow> only ids) r s = (s', resp)" by fastforce
  from serveCompletion_frame [OF assms(2) c] show ?thesis using ChatCompletions c by (simp add: mock_serve_def)
next
  case (ReceiveEvent sink)
  obtain s' resp where c: "receiveEvent env sink r s = (s', resp)" by fastforce
  from receiveEvent_frame [OF c] show ?thesis using ReceiveEvent c assms(2) by (simp add: mock_serve_def unshared_def)
next
  case (ListModels v)
  then show ?thesis using assms(2) by (simp add: mock_serve_def serveModels_unshared) (simp add: unshared_def)
next
  case ControlSetFault
  then show ?thesis using assms by (auto simp: mock_serve_def targets_def unshared_def control_defs split: option.split if_splits)
qed (use assms in \<open>auto simp: mock_serve_def targets_def unshared_def control_defs Let_def split: option.split\<close>)

interpretation suite: isolated_parties mock_serve "own_request A" "other_request A" unshared "suite_view A" for A
proof
  fix x s assume "other_request A x" "unshared s"
  then show "suite_view A (fst (mock_serve x s)) = suite_view A s" using other_keeps by (cases x) simp
next
  fix x s t assume "own_request A x" "unshared s" "unshared t" "suite_view A s = suite_view A t"
  then show "snd (mock_serve x s) = snd (mock_serve x t) \<and> suite_view A (fst (mock_serve x s)) = suite_view A (fst (mock_serve x t))"
    by (cases x) (simp only:, rule own_depends)
next
  fix x s assume "own_request A x \<or> other_request A x" "unshared s"
  then show "unshared (fst (mock_serve x s))" using unshared_stays by (cases x) (auto simp: own_request_def other_request_def)
qed


definition example_mock :: mock_env where
  \<comment> \<open>the body of a request is the id of its model; a fault is one rate limit\<close>
  "example_mock = \<lparr> me_Unix = 7, me_completion = (\<lambda>b. Some \<lparr> cr_Model = b, cr_Stream = False, cr_Contents = [] \<rparr>), me_text = Some,
     me_model = (\<lambda>b. Some \<lparr> mm_ID = b, mm_OwnedBy = [], mm_ContextWindow = 1, mm_MaxOutputTokens = 1, mm_InputCostPerMTok = 0, mm_OutputCostPerMTok = 0 \<rparr>),
     me_faultReq = (\<lambda>b. Some \<lparr> fr_Model = b, fr_Mode = FaultRateLimit, fr_Count = 1, fr_DelayMS = 0, fr_Bytes = 0 \<rparr>),
     me_sinkReq = (\<lambda>_. Some \<lparr> sr_Status = 503, sr_Count = 2 \<rparr>), me_envelope = (\<lambda>_. (''evt_1'', ''breaker.opened'', ''t1'')),
     me_Marshal = (\<lambda>_. []), me_flusher = True, me_patient = (\<lambda>_. True) \<rparr>"

definition example_sent :: "mock_op \<Rightarrow> string \<Rightarrow> mock_env \<times> mock_op \<times> mock_request" where
  "example_sent op body = (example_mock, op, \<lparr> mq_Header = [], mq_Body = body, mq_broken = False \<rparr>)"


section \<open>A fault applies as often as it was asked to\<close>

lemma faulted_remaining [simp]: "faulted env m (f\<lparr>ft_remaining := n\<rparr>) = faulted env m f"
  by (simp add: faulted_def Let_def cong: if_cong)

lemma accepted_faults:
  assumes "fault_refusal req = None" "fr_Mode req \<noteq> FaultNone" "ft_mode f = fr_Mode req"
  shows "faulted env m f \<noteq> None"
  using assms by (auto simp: fault_refusal_def fault_modes_def faulted_def Let_def split: if_splits)

lemma chat_once:
  assumes "me_completion env (mq_Body r) = Some q" "map_of (mk_models s) (cr_Model q) \<noteq> None" "map_of (mk_faults s) [] = None" "cr_Model q \<noteq> []"
    and "mock_serve (env, ChatCompletions None, r) s = (s', resp)"
  shows "mk_models s' = mk_models s \<and> map_of (mk_faults s') [] = None \<and>
    (case map_of (mk_faults s) (cr_Model q) of
       None \<Rightarrow> resp = answered_ok env q \<and> map_of (mk_faults s') (cr_Model q) = None
     | Some f \<Rightarrow>
         if ft_remaining f = 0 then resp = answered_ok env q \<and> map_of (mk_faults s') (cr_Model q) = None
         else resp = (case faulted env (cr_Model q) f of Some x \<Rightarrow> x | None \<Rightarrow> answered_ok env q) \<and>
           map_of (mk_faults s') (cr_Model q) = Some (if ft_remaining f > 0 then f\<lparr>ft_remaining := ft_remaining f - 1\<rparr> else f))"
proof -
  have n: "faulted env (cr_Model q) no_fault = None" by (simp add: faulted_def no_fault_def Let_def)
  have "mk_faults (counted r q s) = mk_faults s" "mk_models (counted r q s) = mk_models s" by (simp_all add: counted_def)
  then show ?thesis using assms n
    by (auto simp: mock_serve_def serveCompletion_def takeFault_def takeLocked_def Let_def split: option.splits if_splits)
qed

definition uses :: "fault option \<Rightarrow> nat \<Rightarrow> nat" where
  \<comment> \<open>how many of the next \<open>k\<close> completions an armed fault meets\<close>
  "uses f k = (case f of None \<Rightarrow> 0 | Some g \<Rightarrow> if ft_remaining g < 0 then k else min k (nat (ft_remaining g)))"

lemma chats_faulted:
  assumes "me_completion env (mq_Body r) = Some q" "map_of (mk_models s) (cr_Model q) \<noteq> None" "map_of (mk_faults s) [] = None" "cr_Model q \<noteq> []"
    and "\<And>f. map_of (mk_faults s) (cr_Model q) = Some f \<Longrightarrow> faulted env (cr_Model q) f = Some F"
  shows "snd (served mock_serve (replicate k (env, ChatCompletions None, r)) s) =
    replicate (uses (map_of (mk_faults s) (cr_Model q)) k) F @ replicate (k - uses (map_of (mk_faults s) (cr_Model q)) k) (answered_ok env q)"
  using assms(2,3,5)
proof (induction k arbitrary: s)
  case 0
  then show ?case by (simp add: uses_def split: option.split)
next
  case (Suc k)
  obtain s' resp where m: "mock_serve (env, ChatCompletions None, r) s = (s', resp)" by fastforce
  note once = chat_once [OF assms(1) Suc.prems(1,2) assms(4) m]
  have nxt: "snd (served mock_serve (replicate k (env, ChatCompletions None, r)) s') =
    replicate (uses (map_of (mk_faults s') (cr_Model q)) k) F @ replicate (k - uses (map_of (mk_faults s') (cr_Model q)) k) (answered_ok env q)"
    using once Suc.prems by (intro Suc.IH) (auto split: option.splits if_splits)
  have "snd (served mock_serve (replicate (Suc k) (env, ChatCompletions None, r)) s) =
      resp # snd (served mock_serve (replicate k (env, ChatCompletions None, r)) s')" using m by (simp add: split_beta)
  also have "\<dots> = replicate (uses (map_of (mk_faults s) (cr_Model q)) (Suc k)) F @
      replicate (Suc k - uses (map_of (mk_faults s) (cr_Model q)) (Suc k)) (answered_ok env q)"
  proof (cases "map_of (mk_faults s) (cr_Model q)")
    case None
    then show ?thesis using once unfolding nxt by (simp add: uses_def)
  next
    case (Some f)
    consider "ft_remaining f = 0" | "ft_remaining f < 0" | "ft_remaining f > 0" by linarith
    then show ?thesis
    proof cases
      case 3
      then have "nat (ft_remaining f) = Suc (nat (ft_remaining f - 1))" by linarith
      then show ?thesis using once Some 3 Suc.prems(3) [OF Some] unfolding nxt by (simp add: uses_def)
    qed (use once Some Suc.prems(3) [OF Some] in \<open>simp_all add: nxt uses_def\<close>)
  qed
  finally show ?case .
qed

text \<open>An armed fault applies exactly as often as it was asked to: when the control plane accepts a fault for a model with a positive count, the next
  that many completions for the model get the fault's answer and every later one is served; with the count left out or negative, all of them get it.
  This holds whatever was armed for the model before, as long as no fault is armed for all models.\<close>

theorem fault_used_exactly:
  assumes "me_faultReq env0 (mq_Body r0) = Some req" "fault_refusal req = None" "fr_Mode req \<noteq> FaultNone"
    and "me_completion env (mq_Body r) = Some q" "cr_Model q = fr_Model req" "fr_Model req \<noteq> []"
    and "map_of (mk_models s) (fr_Model req) \<noteq> None" "map_of (mk_faults s) [] = None"
  shows "\<exists>F. faulted env (fr_Model req) \<lparr> ft_mode = fr_Mode req, ft_remaining = 0, ft_delay = wrap64 (fr_DelayMS req * 1000000), ft_bytes = fr_Bytes req \<rparr> = Some F \<and>
    snd (served mock_serve ((env0, ControlSetFault, r0) # replicate k (env, ChatCompletions None, r)) s) =
      mock_WriteHeader 204 #
      (if fr_Count req \<le> 0 then replicate k F
       else replicate (min k (nat (fr_Count req))) F @ replicate (k - nat (fr_Count req)) (answered_ok env q))"
proof -
  define f where "f = \<lparr> ft_mode = fr_Mode req, ft_remaining = 0, ft_delay = wrap64 (fr_DelayMS req * 1000000), ft_bytes = fr_Bytes req \<rparr>"
  define n where "n = (if fr_Count req = 0 then ForeverCount else fr_Count req)"
  obtain F where F: "faulted env (fr_Model req) f = Some F" using accepted_faults [OF assms(2,3), of f] by (fastforce simp: f_def)
  let ?s = "fst (controlSetFault env0 r0 s)"
  have s: "mk_models ?s = mk_models s" "map_of (mk_faults ?s) [] = None"
    "map_of (mk_faults ?s) (fr_Model req) = Some (f\<lparr>ft_remaining := n\<rparr>)" "snd (controlSetFault env0 r0 s) = mock_WriteHeader 204"
    using assms by (simp_all add: controlSetFault_def f_def n_def)
  have "snd (served mock_serve (replicate k (env, ChatCompletions None, r)) ?s) =
    replicate (uses (Some (f\<lparr>ft_remaining := n\<rparr>)) k) F @ replicate (k - uses (Some (f\<lparr>ft_remaining := n\<rparr>)) k) (answered_ok env q)"
    using chats_faulted [OF assms(4), of ?s F k] s F assms(5-7) by simp
  moreover have "uses (Some (f\<lparr>ft_remaining := n\<rparr>)) k = (if fr_Count req \<le> 0 then k else min k (nat (fr_Count req)))"
    by (simp add: uses_def n_def ForeverCount_def)
  ultimately show ?thesis using F [unfolded f_def] s(4)
    by (intro exI [of _ F]) (simp add: split_beta mock_serve_def min_def)
qed

theorem fault_used_exactly_witness:
  "map mr_Status (snd (served mock_serve (example_sent ControlSetFault ''mock-chat-a'' # replicate 3 (example_sent (ChatCompletions None) ''mock-chat-a'')) mock_New))
     = [204, 429, 200, 200]"
proof -
  let ?r = "\<lparr> mq_Header = [], mq_Body = ''mock-chat-a'', mq_broken = False \<rparr>"
  let ?q = "\<lparr> cr_Model = ''mock-chat-a'', cr_Stream = False, cr_Contents = [] \<rparr>"
  let ?req = "\<lparr> fr_Model = ''mock-chat-a'', fr_Mode = FaultRateLimit, fr_Count = 1, fr_DelayMS = 0, fr_Bytes = 0 \<rparr>"
  have e: "me_faultReq example_mock (mq_Body ?r) = Some ?req" "me_completion example_mock (mq_Body ?r) = Some ?q" by (simp_all add: example_mock_def)
  have a: "fault_refusal ?req = None" "fr_Mode ?req \<noteq> FaultNone" "map_of (mk_models mock_New) (fr_Model ?req) \<noteq> None"
    "map_of (mk_faults mock_New) [] = None" by code_simp+
  have ok: "mr_Status (answered_ok example_mock ?q) = 200" by code_simp
  have fa: "map_option mr_Status (faulted example_mock ''mock-chat-a'' \<lparr> ft_mode = FaultRateLimit, ft_remaining = 0, ft_delay = wrap64 (0 * 1000000), ft_bytes = 0 \<rparr>) = Some 429"
    by code_simp
  have "cr_Model ?q = fr_Model ?req" "fr_Model ?req \<noteq> []" by simp_all
  from fault_used_exactly [OF e(1) a(1,2) e(2) this a(3,4), of 3] fa ok show ?thesis
    by (auto simp: example_sent_def mock_WriteHeader_def unwritten_def numeral_3_eq_3)
qed

section \<open>The sink under the gateway's retries\<close>

definition sink_request :: "post \<Rightarrow> mock_request" where
  "sink_request p = \<lparr> mq_Header = po_Headers p, mq_Body = po_Body p, mq_broken = False \<rparr>"

definition recorded :: "mock_env \<Rightarrow> post \<Rightarrow> int \<Rightarrow> SinkDelivery" where
  \<comment> \<open>a request as the sink keeps it\<close>
  "recorded env p status =
     (case me_envelope env (po_Body p) of (eid, ty, tenant) \<Rightarrow>
        \<lparr> sd_Type = ty, sd_EventID = (if eid = [] then header_of (sink_request p) ''X-CogniGate-Event-Id'' else eid),
          sd_Signature = header_of (sink_request p) ''X-CogniGate-Signature'', sd_Tenant = tenant, sd_Body = po_Body p, sd_Status = status \<rparr>)"

definition rejections :: "string \<Rightarrow> MockServer \<Rightarrow> nat \<times> int" where
  \<comment> \<open>how many more deliveries the sink refuses, and with what\<close>
  "rejections sink s = (case map_of (mk_sinkFaults s) sink of None \<Rightarrow> (0, 204) | Some f \<Rightarrow> (max 1 (nat (sf_remaining f)), sf_status f))"

lemma received_once:
  assumes "int (length (po_Body p)) \<le> maxEventBody" "receiveEvent env sink (sink_request p) s = (s', resp)" "rejections sink s = (n, st)"
  shows "mr_Status resp = (if n = 0 then 204 else st)" "fst (rejections sink s') = n - 1" "snd (rejections sink s') = st \<or> n \<le> 1"
    "at_sink sink (mk_events s') = at_sink sink (mk_events s) @ [recorded env p (if n = 0 then 204 else st)]"
proof -
  obtain eid ty tn where e: "me_envelope env (po_Body p) = (eid, ty, tn)" by (metis prod_cases3)
  obtain s1 status where t: "sink_status sink s = (s1, status)" by fastforce
  have r: "resp = mock_WriteHeader status" "mk_sinkFaults s' = mk_sinkFaults s1"
    "at_sink sink (mk_events s') = at_sink sink (mk_events s1) @ [recorded env p status]"
    using assms(1,2) e t by (auto simp: receiveEvent_def sink_request_def recorded_def at_sink_def Let_def)
  have "mk_events s1 = mk_events s" using sink_status_frame [OF t] by simp
  moreover have "status = (if n = 0 then 204 else st)" "fst (rejections sink s1) = n - 1" "snd (rejections sink s1) = st \<or> n \<le> 1"
    using t assms(3) by (auto simp: sink_status_def rejections_def split: option.splits if_splits)
  ultimately show "mr_Status resp = (if n = 0 then 204 else st)" "fst (rejections sink s') = n - 1" "snd (rejections sink s') = st \<or> n \<le> 1"
    "at_sink sink (mk_events s') = at_sink sink (mk_events s) @ [recorded env p (if n = 0 then 204 else st)]"
    using r by (simp_all add: mock_WriteHeader_def rejections_def)
qed

lemma received_many:
  assumes "int (length (po_Body p)) \<le> maxEventBody" "rejections sink s = (n, st)"
  shows "map mr_Status (snd (served (\<lambda>p. receiveEvent env sink (sink_request p)) (replicate k p) s)) = replicate (min k n) st @ replicate (k - n) 204 \<and>
    at_sink sink (mk_events (fst (served (\<lambda>p. receiveEvent env sink (sink_request p)) (replicate k p) s))) =
      at_sink sink (mk_events s) @ map (recorded env p) (replicate (min k n) st @ replicate (k - n) 204)"
  using assms(2)
proof (induction k arbitrary: s n st)
  case (Suc k)
  obtain s' resp where r: "receiveEvent env sink (sink_request p) s = (s', resp)" by fastforce
  note once = received_once [OF assms(1) r Suc.prems]
  obtain n' st' where n': "rejections sink s' = (n', st')" by fastforce
  then have "n' = n - 1" "st' = st \<or> n \<le> 1" using once(2,3) by simp_all
  then show ?case using Suc.IH [OF n'] once(1,4) r by (cases n) (auto simp: split_beta)
qed simp

lemma deliver_rejected:
  assumes "\<And>i. k \<le> i \<Longrightarrow> i < k + int c \<Longrightarrow> \<exists>e. attempt i = ([p], Some e)" "attempt (k + int c) = ([p], None)" "\<And>i. \<not> stops i" "0 < N"
  shows "\<exists>waits. deliver_from attempt stops N k b =
    (replicate (min N (Suc c)) p, waits, if c < N then Accepted (k + int c) else GaveUp (k + int N - 1))"
  using assms
proof (induction N arbitrary: k b c)
  case (Suc N)
  show ?case
  proof (cases c)
    case 0
    then show ?thesis using Suc.prems(2) by simp
  next
    case (Suc d)
    then obtain e where e: "attempt k = ([p], Some e)" using Suc.prems(1) [of k] by auto
    show ?thesis
    proof (cases "N = 0")
      case True
      then show ?thesis using e Suc by simp
    next
      case False
      have f: "i < k + 1 + int d \<Longrightarrow> k + 1 \<le> i \<Longrightarrow> \<exists>e. attempt i = ([p], Some e)" for i using Suc.prems(1) [of i] Suc by simp
      have a: "attempt (k + 1 + int d) = ([p], None)" using Suc.prems(2) Suc by (simp add: algebra_simps)
      obtain waits where w: "deliver_from attempt stops N (k + 1) (b * 2) =
          (replicate (min N (Suc d)) p, waits, if d < N then Accepted (k + 1 + int d) else GaveUp (k + 1 + int N - 1))"
        using Suc.IH [of "k + 1" d "b * 2"] f a Suc.prems(3) False by blast
      have "deliver_from attempt stops (Suc N) k b = (p # replicate (min N (Suc d)) p, b # waits,
          if d < N then Accepted (k + 1 + int d) else GaveUp (k + 1 + int N - 1))"
        using e False Suc.prems(3) [of k] w by simp
      then show ?thesis using Suc by (auto simp: algebra_simps)
    qed
  qed
qed simp

lemma armed_sink:
  assumes "controlSetSinkFault env sink r s = (s', mock_WriteHeader 204)" "me_sinkReq env (mq_Body r) = Some req"
  shows "1 \<le> sr_Count req" "mk_events s' = mk_events s"
    "rejections sink s' = (nat (sr_Count req), if sr_Status req = 0 then 500 else sr_Status req)"
    "400 \<le> (if sr_Status req = 0 then 500 else sr_Status req)"
  using assms by (auto simp: controlSetSinkFault_def rejections_def control_error_def writeJSON_def mock_WriteHeader_def unwritten_def Let_def
      split: if_splits)

text \<open>C39. The gateway's retries against a sink that refuses: a sink armed to reject a number of deliveries, with fewer than the gateway makes attempts,
  is delivered to at the attempt right after the last rejection; it then holds one record per attempt, all of the same event, body and signature, of which
  exactly the last was accepted. Armed with as many rejections as there are attempts or more, the gateway gives up at its last attempt and nothing was
  accepted.\<close>

theorem webhook_outlasts_rejections:
  assumes "controlSetSinkFault env sink r s = (s1, mock_WriteHeader 204)" "me_sinkReq env (mq_Body r) = Some req"
    and "int (length (hd_body job)) \<le> maxEventBody" "validURL (w_URL (hd_webhook job))" "0 < ho_MaxAttempts opts" "\<And>i. \<not> stops i"
    and "\<And>k. 1 \<le> k \<Longrightarrow> answers k = Inr (mr_Status (last (snd (served (\<lambda>p. receiveEvent env sink (sink_request p))
           (replicate (nat k) (hook_post hmacHex job)) s1))))"
    and "hook_deliver validURL hmacHex opts job answers stops = (ps, waits, how)"
  shows "how = (if sr_Count req < ho_MaxAttempts opts then Accepted (sr_Count req + 1) else GaveUp (ho_MaxAttempts opts)) \<and>
    at_sink sink (mk_events (fst (served (\<lambda>p. receiveEvent env sink (sink_request p)) ps s1))) =
      at_sink sink (mk_events s) @ map (recorded env (hook_post hmacHex job))
        (replicate (nat (min (sr_Count req) (ho_MaxAttempts opts))) (if sr_Status req = 0 then 500 else sr_Status req) @
         (if sr_Count req < ho_MaxAttempts opts then [204] else []))"
proof -
  let ?p = "hook_post hmacHex job" and ?n = "nat (sr_Count req)" and ?N = "nat (ho_MaxAttempts opts)"
  let ?st = "if sr_Status req = 0 then 500 else sr_Status req" and ?go = "\<lambda>p. receiveEvent env sink (sink_request p)"
  note armed = armed_sink [OF assms(1,2)]
  have body: "int (length (po_Body ?p)) \<le> maxEventBody" using assms(3) by (simp add: hook_post_def)
  note many = received_many [OF body armed(3)]
  let ?a = "\<lambda>k. hook_attempt validURL hmacHex job (answers k)"
  have "mr_Status (last (snd (served ?go (replicate k ?p) s1))) = (if k \<le> ?n then ?st else 204)" if "1 \<le> k" for k
  proof -
    let ?l = "snd (served ?go (replicate k ?p) s1)"
    have m: "map mr_Status ?l = replicate (min k ?n) ?st @ replicate (k - ?n) 204" using many by blast
    then have "?l \<noteq> []" using that armed(1) by (auto simp: min_def split: if_splits)
    then have "mr_Status (last ?l) = last (map mr_Status ?l)" by (simp add: last_map)
    then show ?thesis using that armed(1) unfolding m by (auto simp: last_append min_def)
  qed
  then have ans: "1 \<le> k \<Longrightarrow> answers k = Inr (if k \<le> sr_Count req then ?st else 204)" for k
    using assms(7) [of k] armed(1) by (simp add: nat_le_eq_zle)
  have rej: "\<exists>e. ?a i = ([?p], Some e)" if "1 \<le> i" "i < 1 + int ?n" for i
    using ans [OF that(1)] that armed(1,4) assms(4) by (simp add: hook_attempt_def)
  have acc: "?a (1 + int ?n) = ([?p], None)" using ans [of "1 + int ?n"] armed(1) assms(4) by (simp add: hook_attempt_def)
  obtain ws where "deliver_from ?a stops ?N 1 (ho_BaseBackoff opts) =
      (replicate (min ?N (Suc ?n)) ?p, ws, if ?n < ?N then Accepted (1 + int ?n) else GaveUp (1 + int ?N - 1))"
    using deliver_rejected [of 1 ?n ?a ?p stops ?N, OF rej acc assms(6)] assms(5) by auto
  then have how: "how = (if ?n < ?N then Accepted (1 + int ?n) else GaveUp (1 + int ?N - 1))" and ps: "ps = replicate (min ?N (Suc ?n)) ?p"
    using assms(8) by (simp_all add: hook_deliver_def)
  have "at_sink sink (mk_events (fst (served ?go ps s1))) = at_sink sink (mk_events s1) @
      map (recorded env ?p) (replicate (min (min ?N (Suc ?n)) ?n) ?st @ replicate (min ?N (Suc ?n) - ?n) 204)"
    using many unfolding ps by blast
  moreover have "replicate (min (min ?N (Suc ?n)) ?n) ?st = replicate (nat (min (sr_Count req) (ho_MaxAttempts opts))) ?st"
    "replicate (min ?N (Suc ?n) - ?n) (204 :: int) = (if sr_Count req < ho_MaxAttempts opts then [204] else [])"
  proof -
    have "min (min ?N (Suc ?n)) ?n = nat (min (sr_Count req) (ho_MaxAttempts opts))" by auto
    then show "replicate (min (min ?N (Suc ?n)) ?n) ?st = replicate (nat (min (sr_Count req) (ho_MaxAttempts opts))) ?st" by (simp only:)
    have "min ?N (Suc ?n) - ?n = (if sr_Count req < ho_MaxAttempts opts then 1 else 0)" using armed(1) assms(5) by auto
    then show "replicate (min ?N (Suc ?n) - ?n) (204 :: int) = (if sr_Count req < ho_MaxAttempts opts then [204] else [])" by simp
  qed
  ultimately show ?thesis using how armed(1,2) assms(5) by auto
qed

definition example_hook_job :: hookDelivery where
  "example_hook_job = \<lparr> hd_webhook = \<lparr> w_ID = ''wh'', w_TenantID = ''t1'', w_URL = ''http://mock/_events/s'', w_Secret = ''k'', w_Events = [], w_Enabled = True,
     w_CreatedAt = 0 \<rparr>, hd_body = ''{}'', hd_eventID = ''evt_1'', hd_typ = ''breaker.opened'' \<rparr>"

definition example_attempts :: hookOptions where
  "example_attempts = \<lparr> ho_MaxAttempts = 3, ho_Timeout = 1, ho_BaseBackoff = 5, ho_Queue = 1, ho_Workers = 1 \<rparr>"

theorem webhook_outlasts_rejections_witness:
  "\<exists>s1. controlSetSinkFault example_mock ''s'' \<lparr> mq_Header = [], mq_Body = [], mq_broken = False \<rparr> mock_New = (s1, mock_WriteHeader 204) \<and>
     snd (snd (hook_deliver (\<lambda>_. True) (\<lambda>k b. k @ b) example_attempts example_hook_job
       (\<lambda>k. Inr (mr_Status (last (snd (served (\<lambda>p. receiveEvent example_mock ''s'' (sink_request p))
           (replicate (nat k) (hook_post (\<lambda>k b. k @ b) example_hook_job)) s1))))) (\<lambda>_. False))) = Accepted 3"
proof -
  let ?r = "\<lparr> mq_Header = [], mq_Body = [], mq_broken = False \<rparr>"
  obtain s1 resp where c: "controlSetSinkFault example_mock ''s'' ?r mock_New = (s1, resp)" by fastforce
  have q: "me_sinkReq example_mock (mq_Body ?r) = Some \<lparr> sr_Status = 503, sr_Count = 2 \<rparr>" by (simp add: example_mock_def)
  then have "resp = mock_WriteHeader 204" using c by (simp add: controlSetSinkFault_def)
  with c have c: "controlSetSinkFault example_mock ''s'' ?r mock_New = (s1, mock_WriteHeader 204)" by simp
  let ?ans = "\<lambda>k. Inr (mr_Status (last (snd (served (\<lambda>p. receiveEvent example_mock ''s'' (sink_request p))
           (replicate (nat k) (hook_post (\<lambda>k b. k @ b) example_hook_job)) s1))))"
  obtain ps waits how where h: "hook_deliver (\<lambda>_. True) (\<lambda>k b. k @ b) example_attempts example_hook_job ?ans (\<lambda>_. False) = (ps, waits, how)"
    by (metis prod_cases3)
  have "int (length (hd_body example_hook_job)) \<le> maxEventBody" by (simp add: example_hook_job_def maxEventBody_def)
  from webhook_outlasts_rejections [OF c q this _ _ _ _ h] have "how = Accepted 3" by (simp add: example_attempts_def)
  then show ?thesis using c h by auto
qed

section \<open>Bodies and listings\<close>

text \<open>A body that was asked for by its size has it, when the encoder adds one byte for each letter of the content.\<close>

lemma oversize_exact:
  assumes "\<And>n. length (oversizeBody env model (replicate n (CHR ''x''))) = length (oversizeBody env model []) + n"
    and "oversizeCompletion env model bytes = resp" "int (length (oversizeBody env model [])) \<le> bytes"
  shows "\<exists>v. mr_Body resp = JSONWritten v \<and> int (length (me_Marshal env v)) = bytes"
  using assms(2,3) assms(1) [of "nat (bytes - int (length (oversizeBody env model [])))"]
  by (auto simp: oversizeCompletion_def writeJSON_def oversizeBody_def Let_def)

text \<open>A model that is removed and added again is listed twice: removal leaves its id in the order, and adding appends it once more.\<close>

lemma readded_listed_twice:
  "map mm_ID (listed None (fst (served mock_serve [example_sent (ControlRemoveModel ''mock-vision'') [], example_sent ControlAddModel ''mock-vision''] mock_New)))
     = [''mock-chat-a'', ''mock-chat-b'', ''mock-vision'', ''mock-embed'', ''mock-transcribe'', ''mock-vision'']"
  by code_simp

text \<open>Every stream that was not cut short ends with the usage chunk and \<open>[DONE]\<close>; the faults that cut one short never send either.\<close>

lemma stream_endings:
  assumes "me_flusher env"
  shows "mr_Body (mock_streamCompletion env m t) = Frames (first_chunks env m t @ [streamChunk env m [] (JStr ''stop''), usage_chunk env m]) True"
    "mr_Body (abortMidStream env m) = Frames (first_chunks env m completionText) False" "mr_aborted (abortMidStream env m)"
    "mr_Body (stallMidStream env m d) = Frames (first_chunks env m completionText) False" "mr_stalled (stallMidStream env m d) = d"
  using assms by (simp_all add: mock_streamCompletion_def abortMidStream_def stallMidStream_def streamed_def beginStream_def Let_def)

end
